(* ===== verification/Prelude.thy ===== *)
theory Prelude
  imports Main "HOL-Library.Finite_Map"
begin

text \<open>
  Shared vocabulary of the development: the exceptions the program raises, JSON values, the
  string operations of the standard library that the program calls, tables as lists of rows with
  a key, and the two locales that lift facts about one transaction to arbitrary sequences of
  transactions.

  A transaction (one \<open>async with database.connection(tenant)\<close> block of the program) is a
  function to \<open>exn + 'a \<times> 's\<close>: \<open>Inl\<close> is the raise, which rolls the database back, and \<open>Inr\<close> is
  the value returned together with the committed state.
\<close>

section \<open>Exceptions and results\<close>

datatype exn =
    ValueError
  | TypeError
  | KeyError
  | RuntimeError
  | PermissionError
  | QuotaExceededError
  | UncertainEffectError
  | LeaseLostError
  | StaleGateError
  | CancelledGateError
  | CheckViolation
  | UniqueViolation
  | ForeignKeyViolation
  | DataError
  | LastOwnerError
  | MemberNotFoundError
  | ExistingMemberError
  | InvitationConflictError
  | OverflowError
  | AttributeError
  | OSError
  | InFailedSqlTransaction
  | InsufficientPrivilege
  | RaiseException
  | TenantAuthorizationError

type_synonym 'a res = "exn + 'a"

text \<open>The state after a transaction: the committed one, or the old one when it raised.\<close>

definition commit :: "('a \<times> 's) res \<Rightarrow> 's \<Rightarrow> 's" where
  "commit r s = (case r of Inl _ \<Rightarrow> s | Inr (_, s') \<Rightarrow> s')"

lemma commit_simps [simp]:
  "commit (Inl e) s = s"
  "commit (Inr (x, s')) s = s'"
  by (simp_all add: commit_def)

lemma commit_keeps:
  assumes "\<And>x s'. r = Inr (x, s') \<Longrightarrow> P s'" "P s"
  shows "P (commit r s)"
  using assms by (cases r) auto

definition raises :: "'a res \<Rightarrow> exn \<Rightarrow> bool" where
  "raises r e = (r = Inl e)"

named_theorems op_defs \<open>definitions of the operations of a component\<close>
named_theorems tenant_simps \<open>what an operation of one tenant does to the rows of another\<close>
named_theorems table_simps \<open>lookup after update in keyed tables\<close>

section \<open>JSON values\<close>

text \<open>
  Values of the JSONB columns. \<open>int\<close> and \<open>float\<close> are one constructor since Python compares them
  by value; Python also has \<open>True == 1\<close>, so equality of payloads is equality after \<open>py_norm\<close>.
\<close>

datatype json =
    JNull
  | JBool bool
  | JNum rat
  | JStr string
  | JList "json list"
  | JObj "(string, json) fmap"

primrec py_norm :: "json \<Rightarrow> json" where
  "py_norm JNull = JNull"
| "py_norm (JBool b) = JNum (if b then 1 else 0)"
| "py_norm (JNum q) = JNum q"
| "py_norm (JStr s) = JStr s"
| "py_norm (JList xs) = JList (map py_norm xs)"
| "py_norm (JObj m) = JObj (fmmap py_norm m)"

definition py_eq :: "json \<Rightarrow> json \<Rightarrow> bool" where
  "py_eq a b = (py_norm a = py_norm b)"

lemma py_eq_refl [simp]: "py_eq a a"
  by (simp add: py_eq_def)

lemma py_eq_sym: "py_eq a b = py_eq b a"
  by (auto simp: py_eq_def)

type_synonym jdict = "(string, json) fmap"

text \<open>Python's truth value of a JSON value.\<close>

fun py_truthy :: "json \<Rightarrow> bool" where
  "py_truthy JNull = False"
| "py_truthy (JBool b) = b"
| "py_truthy (JNum q) = (q \<noteq> 0)"
| "py_truthy (JStr s) = (s \<noteq> [])"
| "py_truthy (JList xs) = (xs \<noteq> [])"
| "py_truthy (JObj m) = (m \<noteq> fmempty)"

section \<open>Strings\<close>

text \<open>
  Strings are lists of characters with code points below 256; \<open>strip\<close> and \<open>lower\<close> are Python's on
  that range.
\<close>

definition py_space :: "char \<Rightarrow> bool" where
  "py_space c = (let n = (of_char c :: nat) in
     (9 \<le> n \<and> n \<le> 13) \<or> (28 \<le> n \<and> n \<le> 32) \<or> n = 133 \<or> n = 160)"

definition strip :: "string \<Rightarrow> string" where
  "strip s = rev (dropWhile py_space (rev (dropWhile py_space s)))"

definition py_lower_char :: "char \<Rightarrow> char" where
  "py_lower_char c = (let n = (of_char c :: nat) in
     if (65 \<le> n \<and> n \<le> 90) \<or> (192 \<le> n \<and> n \<le> 222 \<and> n \<noteq> 215) then char_of (n + 32) else c)"

definition py_lower :: "string \<Rightarrow> string" where
  "py_lower = map py_lower_char"

text \<open>\<open>str(n)\<close> of an integer.\<close>

fun str_nat :: "nat \<Rightarrow> string" where
  "str_nat n = (if n < 10 then [''0123456789'' ! n] else str_nat (n div 10) @ [''0123456789'' ! (n mod 10)])"

declare str_nat.simps [simp del]

definition str_int :: "int \<Rightarrow> string" where
  "str_int n = (if n < 0 then CHR ''-'' # str_nat (nat (- n)) else str_nat (nat n))"

lemma dropWhile_rev_idem:
  assumes "xs = [] \<or> \<not> P (hd xs)"
  shows "rev (dropWhile P (rev xs)) = [] \<or> \<not> P (hd (rev (dropWhile P (rev xs))))"
proof (cases "rev (dropWhile P (rev xs)) = []")
  case False
  obtain ys where ys: "xs = rev (dropWhile P (rev xs)) @ ys"
    by (metis rev_append rev_rev_ident takeWhile_dropWhile_id)
  then have "hd xs = hd (rev (dropWhile P (rev xs)))"
    using False by (metis hd_append2)
  moreover have "xs \<noteq> []"
    using False by auto
  ultimately show ?thesis
    using assms by simp
qed simp

lemma strip_strip [simp]: "strip (strip s) = strip s"
proof -
  let ?a = "dropWhile py_space s"
  have "?a = [] \<or> \<not> py_space (hd ?a)"
    using hd_dropWhile by blast
  then have "strip s = [] \<or> \<not> py_space (hd (strip s))"
    unfolding strip_def by (rule dropWhile_rev_idem)
  then have "dropWhile py_space (strip s) = strip s"
    by (cases "strip s") auto
  then show ?thesis
    unfolding strip_def [of "strip s"]
    by (metis (no_types, opaque_lifting) dropWhile_idem rev_rev_ident strip_def)
qed

section \<open>Tables\<close>

text \<open>
  A table is a list of rows; \<open>key\<close> reads the primary key of a row. A statement whose \<open>WHERE\<close>
  clause fixes the primary key reads the row \<open>tget key k\<close> and updates the rows \<open>tupd key k f\<close>.
\<close>

definition tget :: "('r \<Rightarrow> 'k) \<Rightarrow> 'k \<Rightarrow> 'r list \<Rightarrow> 'r option" where
  "tget key k rows = find (\<lambda>r. key r = k) rows"

definition tupd :: "('r \<Rightarrow> 'k) \<Rightarrow> 'k \<Rightarrow> ('r \<Rightarrow> 'r) \<Rightarrow> 'r list \<Rightarrow> 'r list" where
  "tupd key k f rows = map (\<lambda>r. if key r = k then f r else r) rows"

definition keyed :: "('r \<Rightarrow> 'k) \<Rightarrow> 'r list \<Rightarrow> bool" where
  "keyed key rows = distinct (map key rows)"

lemma tget_Nil [simp]: "tget key k [] = None"
  by (simp add: tget_def)

lemma tget_Cons [simp]: "tget key k (r # rows) = (if key r = k then Some r else tget key k rows)"
  by (simp add: tget_def)

lemma tupd_Nil [simp]: "tupd key k f [] = []"
  by (simp add: tupd_def)

lemma tupd_Cons [simp]:
  "tupd key k f (r # rows) = (if key r = k then f r else r) # tupd key k f rows"
  by (simp add: tupd_def)

lemma tget_append [simp]:
  "tget key k (xs @ ys) = (case tget key k xs of None \<Rightarrow> tget key k ys | Some r \<Rightarrow> Some r)"
  by (induction xs) auto

lemma tget_None_iff: "tget key k rows = None \<longleftrightarrow> k \<notin> key ` set rows"
  by (induction rows) auto

lemma tget_SomeD: "tget key k rows = Some r \<Longrightarrow> r \<in> set rows \<and> key r = k"
  by (induction rows) (auto split: if_splits)

lemma tget_key: "tget key k rows = Some r \<Longrightarrow> key r = k"
  by (drule tget_SomeD) blast

lemma tget_Some_iff:
  "keyed key rows \<Longrightarrow> tget key k rows = Some r \<longleftrightarrow> r \<in> set rows \<and> key r = k"
  by (induction rows) (auto simp: keyed_def image_def)

lemma keyed_inj: "keyed key rows \<Longrightarrow> r \<in> set rows \<Longrightarrow> s \<in> set rows \<Longrightarrow> key r = key s \<Longrightarrow> r = s"
  by (auto simp: keyed_def distinct_map inj_on_def)

lemma tget_unique: "keyed key rows \<Longrightarrow> tget key k rows = Some s \<Longrightarrow> r \<in> set rows \<Longrightarrow> key r = k \<Longrightarrow> r = s"
  using keyed_inj tget_SomeD by metis

lemma tget_tupd [table_simps]:
  assumes "\<And>r. key (f r) = key r"
  shows "tget key k' (tupd key k f rows) =
    (if k' = k then map_option f (tget key k rows) else tget key k' rows)"
  by (induction rows) (auto simp: assms)

lemma map_key_tupd [table_simps]:
  assumes "\<And>r. key (f r) = key r"
  shows "map key (tupd key k f rows) = map key rows"
  by (induction rows) (auto simp: assms)

lemma keyed_tupd [table_simps]:
  "(\<And>r. key (f r) = key r) \<Longrightarrow> keyed key (tupd key k f rows) = keyed key rows"
  by (simp add: keyed_def map_key_tupd)

lemma keyed_snoc [table_simps]:
  "keyed key (rows @ [r]) \<longleftrightarrow> keyed key rows \<and> tget key (key r) rows = None"
  by (auto simp: keyed_def tget_None_iff)

lemma keyed_Nil [simp]: "keyed key []"
  by (simp add: keyed_def)

lemma keyed_filter [simp]: "keyed key rows \<Longrightarrow> keyed key (filter P rows)"
  by (auto simp: keyed_def distinct_map_filter)

lemma set_tupd: "set (tupd key k f rows) = (\<lambda>r. if key r = k then f r else r) ` set rows"
  by (simp add: tupd_def)

lemma in_tupdE:
  assumes "x \<in> set (tupd key k f rows)"
  obtains (changed) r where "r \<in> set rows" "key r = k" "x = f r"
    | (same) "x \<in> set rows" "key x \<noteq> k"
  using assms by (auto simp: set_tupd split: if_splits)

lemma tupd_absent: "tget key k rows = None \<Longrightarrow> tupd key k f rows = rows"
  by (induction rows) (auto split: if_splits)

lemma sum_list_tupd:
  fixes g :: "'r \<Rightarrow> int"
  assumes "keyed key rows" "tget key k rows = Some r"
  shows "(\<Sum>x\<leftarrow>tupd key k f rows. g x) = (\<Sum>x\<leftarrow>rows. g x) - g r + g (f r)"
  using assms
proof (induction rows)
  case (Cons a rows)
  show ?case
  proof (cases "key a = k")
    case True
    then have "tget key k rows = None"
      using Cons.prems(1) by (auto simp: keyed_def tget_None_iff)
    then show ?thesis
      using True Cons.prems(2) by (simp add: tupd_absent)
  next
    case False
    then show ?thesis
      using Cons by (simp add: keyed_def)
  qed
qed simp

lemma filter_tupd_other:
  assumes "\<And>r. P (f r) = P r" "\<And>r. key r = k \<Longrightarrow> \<not> P r"
  shows "filter P (tupd key k f rows) = filter P rows"
  using assms by (induction rows) auto

section \<open>Sequences of transactions\<close>

text \<open>
  \<open>run_ops exec ops s\<close> is the state after the transactions \<open>ops\<close> committed one after another: every
  serialisable schedule of the program's concurrent tasks is such a sequence.
\<close>

definition run_ops :: "('op \<Rightarrow> 's \<Rightarrow> 's) \<Rightarrow> 'op list \<Rightarrow> 's \<Rightarrow> 's" where
  "run_ops exec ops s = fold exec ops s"

lemma run_ops_simps [simp]:
  "run_ops exec [] s = s"
  "run_ops exec (p # ps) s = run_ops exec ps (exec p s)"
  "run_ops exec (ps @ qs) s = run_ops exec qs (run_ops exec ps s)"
  by (simp_all add: run_ops_def)

text \<open>A store: its transactions keep an invariant.\<close>

locale store =
  fixes exec :: "'op \<Rightarrow> 's \<Rightarrow> 's"
    and inv :: "'s \<Rightarrow> bool"
  assumes inv_exec: "inv s \<Longrightarrow> inv (exec p s)"
begin

lemma inv_run: "inv s \<Longrightarrow> inv (run_ops exec ps s)"
  by (induction ps arbitrary: s) (auto simp: inv_exec)

end

text \<open>A store whose transactions only move forward in a preorder of the states.\<close>

locale ordered_store = store exec inv
  for exec :: "'op \<Rightarrow> 's \<Rightarrow> 's" and inv :: "'s \<Rightarrow> bool" +
  fixes le :: "'s \<Rightarrow> 's \<Rightarrow> bool"
  assumes le_refl: "le s s"
    and le_trans: "le s t \<Longrightarrow> le t u \<Longrightarrow> le s u"
    and le_exec: "inv s \<Longrightarrow> le s (exec p s)"
begin

lemma le_run: "inv s \<Longrightarrow> le s (run_ops exec ps s)"
proof (induction ps arbitrary: s)
  case (Cons p ps)
  then show ?case
    by (auto intro: le_trans le_exec inv_exec)
qed (simp add: le_refl)

end

text \<open>
  A store whose rows belong to tenants: \<open>owner\<close> is the tenant a transaction runs for and \<open>view\<close>
  reads the rows of a tenant. No sequence of transactions of other tenants changes the view.
\<close>

locale tenant_store =
  fixes exec :: "'op \<Rightarrow> 's \<Rightarrow> 's"
    and owner :: "'op \<Rightarrow> 'org"
    and view :: "'org \<Rightarrow> 's \<Rightarrow> 'v"
  assumes view_other: "owner p \<noteq> org \<Longrightarrow> view org (exec p s) = view org s"
begin

lemma view_run_others: "(\<And>p. p \<in> set ps \<Longrightarrow> owner p \<noteq> org) \<Longrightarrow> view org (run_ops exec ps s) = view org s"
proof (induction ps arbitrary: s)
  case (Cons p ps)
  have "owner p \<noteq> org"
    using Cons.prems by simp
  then have "view org (exec p s) = view org s"
    by (rule view_other)
  moreover have "view org (run_ops exec ps (exec p s)) = view org (exec p s)"
    using Cons.prems by (intro Cons.IH) simp
  ultimately show ?case
    by simp
qed simp

end

end
