(* ===== verification/Effect_Ledger.thy ===== *)
theory Effect_Ledger
  imports Prelude
begin

text \<open>
  The ledger of paid external effects (\<open>src/src/orchestrator/db/effects.py\<close>): provider quotas
  and one row per effect, whose units are reserved before the side effect is issued. The tables
  are those of \<open>db/models.py\<close> (\<open>ProviderQuota\<close>, \<open>EffectLedger\<close>), with their CHECK, primary key and
  unique constraints; the timestamps, which no operation reads, are left out.

  The invariant \<open>ledger_inv\<close> holds after every sequence of operations of any tenants: the quota is
  never exceeded and every unit of an effect that has not failed is accounted for in it. The
  order \<open>ledger_le\<close> says what no operation takes back.
\<close>

section \<open>Data\<close>

type_synonym org_id = string

datatype effect_status = Reserved | Succeeded | Uncertain | Failed

datatype provider_status = PStarting | PProcessing | PSucceeded | PFailed | PCanceled

record effect_columns =
  effect_key :: string
  run_id :: string
  provider :: string
  units :: int
  status :: effect_status
  request :: json
  result :: "json option"
  error :: "string option"
  error_type :: "string option"
  provider_operation_id :: "string option"
  provider_status :: "provider_status option"

record effect_row = effect_columns +
  effect_org :: org_id

record effect_reservation = effect_columns +
  created :: bool

record quota_row =
  quota_org :: org_id
  quota_provider :: string
  limit_units :: int
  used_units :: int

record ledger =
  provider_quotas :: "quota_row list"
  external_effects :: "effect_row list"

definition empty_ledger :: ledger where
  "empty_ledger = \<lparr>provider_quotas = [], external_effects = []\<rparr>"

definition ekey :: "effect_row \<Rightarrow> org_id \<times> string" where
  "ekey r = (effect_org r, effect_key r)"

definition qkey :: "quota_row \<Rightarrow> org_id \<times> string" where
  "qkey q = (quota_org q, quota_provider q)"

definition BIGINT_MAX :: int where
  "BIGINT_MAX = 2 ^ 63 - 1"

definition quota_check :: "quota_row \<Rightarrow> bool" where
  "quota_check q = (0 \<le> limit_units q \<and> 0 \<le> used_units q \<and> used_units q \<le> limit_units q)"

definition reservation :: "effect_row \<Rightarrow> bool \<Rightarrow> effect_reservation" where
  "reservation row c = \<lparr>
     effect_key = effect_key row,
     run_id = run_id row,
     provider = provider row,
     units = units row,
     status = status row,
     request = request row,
     result = result row,
     error = error row,
     error_type = error_type row,
     provider_operation_id = provider_operation_id row,
     provider_status = provider_status row,
     created = c\<rparr>"

section \<open>Provider statuses\<close>

definition provider_status_of :: "string \<Rightarrow> provider_status option" where
  "provider_status_of s =
    (if s = ''starting'' then Some PStarting
     else if s = ''processing'' then Some PProcessing
     else if s = ''succeeded'' then Some PSucceeded
     else if s = ''failed'' then Some PFailed
     else if s = ''canceled'' then Some PCanceled
     else None)"

fun provider_terminal :: "provider_status \<Rightarrow> bool" where
  "provider_terminal PStarting = False"
| "provider_terminal PProcessing = False"
| "provider_terminal _ = True"

fun provider_status_order :: "provider_status \<Rightarrow> nat" where
  "provider_status_order PStarting = 0"
| "provider_status_order _ = 1"

definition merge_known :: "provider_status option \<Rightarrow> provider_status \<Rightarrow> provider_status" where
  "merge_known current incoming =
    (case current of
       None \<Rightarrow> incoming
     | Some c \<Rightarrow>
         if provider_terminal c then c
         else if provider_terminal incoming then incoming
         else if provider_status_order incoming \<ge> provider_status_order c then incoming
         else c)"

definition merge_provider_status :: "provider_status option \<Rightarrow> string \<Rightarrow> provider_status res" where
  "merge_provider_status current incoming =
    (case provider_status_of (py_lower (strip incoming)) of
       None \<Rightarrow> Inl ValueError
     | Some i \<Rightarrow> Inr (merge_known current i))"

section \<open>Operations\<close>

definition get :: "org_id \<Rightarrow> string \<Rightarrow> ledger \<Rightarrow> effect_reservation res" where
  "get org k l =
    (case tget ekey (org, k) (external_effects l) of
       None \<Rightarrow> Inl ValueError
     | Some row \<Rightarrow> Inr (reservation row False))"

text \<open>\<open>INSERT \<dots> ON CONFLICT DO UPDATE \<dots> WHERE used_units <= limit\<close>; no row returned is the raise.\<close>

definition set_quota :: "org_id \<Rightarrow> string \<Rightarrow> int \<Rightarrow> ledger \<Rightarrow> (unit \<times> ledger) res" where
  "set_quota org p limit l =
    (if limit < 0 then Inl ValueError
     else if limit > BIGINT_MAX then Inl DataError
     else case tget qkey (org, p) (provider_quotas l) of
       None \<Rightarrow> Inr ((), l\<lparr>provider_quotas := provider_quotas l @
         [\<lparr>quota_org = org, quota_provider = p, limit_units = limit, used_units = 0\<rparr>]\<rparr>)
     | Some q \<Rightarrow>
         if used_units q \<le> limit
         then Inr ((), l\<lparr>provider_quotas :=
           tupd qkey (org, p) (limit_units_update (\<lambda>_. limit)) (provider_quotas l)\<rparr>)
         else Inl QuotaExceededError)"

definition same_payload :: "effect_row \<Rightarrow> string \<Rightarrow> string \<Rightarrow> int \<Rightarrow> json \<Rightarrow> bool" where
  "same_payload row rid p u req =
    (run_id row = rid \<and> provider row = p \<and> units row = u \<and> py_eq (request row) req)"

definition new_effect :: "org_id \<Rightarrow> string \<Rightarrow> string \<Rightarrow> string \<Rightarrow> int \<Rightarrow> json \<Rightarrow> effect_row" where
  "new_effect org k rid p u req = \<lparr>
     effect_key = k, run_id = rid, provider = p, units = u, status = Reserved, request = req,
     result = None, error = None, error_type = None, provider_operation_id = None,
     provider_status = None, effect_org = org\<rparr>"

definition reserve ::
  "org_id \<Rightarrow> string \<Rightarrow> string \<Rightarrow> string \<Rightarrow> int \<Rightarrow> json \<Rightarrow> ledger \<Rightarrow> (effect_reservation \<times> ledger) res" where
  "reserve org k rid p u req l =
    (if u \<le> 0 then Inl ValueError
     else case tget qkey (org, p) (provider_quotas l) of
       None \<Rightarrow> Inl QuotaExceededError
     | Some q \<Rightarrow>
        (case tget ekey (org, k) (external_effects l) of
           Some row \<Rightarrow>
             if \<not> same_payload row rid p u req then Inl ValueError
             else if status row = Uncertain then Inl UncertainEffectError
             else Inr (reservation row False, l)
         | None \<Rightarrow>
             if used_units q + u > limit_units q then Inl QuotaExceededError
             else Inr (reservation (new_effect org k rid p u req) True,
               l\<lparr>external_effects := external_effects l @ [new_effect org k rid p u req],
                 provider_quotas :=
                   tupd qkey (org, p) (used_units_update (\<lambda>n. n + u)) (provider_quotas l)\<rparr>)))"

definition upd_effect :: "org_id \<Rightarrow> string \<Rightarrow> (effect_row \<Rightarrow> effect_row) \<Rightarrow> ledger \<Rightarrow> ledger" where
  "upd_effect org k f l =
    l\<lparr>external_effects := tupd ekey (org, k) f (external_effects l)\<rparr>"

text \<open>The optional \<open>error_type\<close> column: only a non-empty string is written, cut at 200 characters.\<close>

definition set_error_type :: "string option \<Rightarrow> effect_row \<Rightarrow> effect_row" where
  "set_error_type et r =
    (case et of
       None \<Rightarrow> r
     | Some s \<Rightarrow> if s = [] then r else r\<lparr>error_type := Some (take 200 s)\<rparr>)"

definition mark_uncertain ::
  "org_id \<Rightarrow> string \<Rightarrow> string \<Rightarrow> string option \<Rightarrow> ledger \<Rightarrow> (effect_reservation \<times> ledger) res" where
  "mark_uncertain org k err et l =
    (case tget ekey (org, k) (external_effects l) of
       None \<Rightarrow> Inl ValueError
     | Some row \<Rightarrow>
         if status row = Reserved then
           (let f = (\<lambda>r. set_error_type et (r\<lparr>status := Uncertain, error := Some (take 2000 err)\<rparr>))
            in Inr (reservation (f row) False, upd_effect org k f l))
         else Inr (reservation row False, l))"

definition operation_taken :: "org_id \<Rightarrow> string \<Rightarrow> string \<Rightarrow> string \<Rightarrow> ledger \<Rightarrow> bool" where
  "operation_taken org p opid k l =
    (\<exists>r\<in>set (external_effects l). effect_org r = org \<and> provider r = p \<and>
       provider_operation_id r = Some opid \<and> effect_key r \<noteq> k)"

definition bind_provider_operation ::
  "org_id \<Rightarrow> string \<Rightarrow> string \<Rightarrow> string \<Rightarrow> ledger \<Rightarrow> (effect_reservation \<times> ledger) res" where
  "bind_provider_operation org k opid0 pst l =
    (let opid = strip opid0 in
     if opid = [] then Inl ValueError
     else case tget ekey (org, k) (external_effects l) of
       None \<Rightarrow> Inl ValueError
     | Some row \<Rightarrow>
         if provider_operation_id row \<noteq> None \<and> provider_operation_id row \<noteq> Some opid
         then Inl ValueError
         else if operation_taken org (provider row) opid k l then Inl ValueError
         else case merge_provider_status (provider_status row) pst of
           Inl e \<Rightarrow> Inl e
         | Inr merged \<Rightarrow>
             (let f = (\<lambda>r. r\<lparr>provider_operation_id := Some opid, provider_status := Some merged,
                        status := (if status row = Uncertain then Reserved else status row)\<rparr>)
              in Inr (reservation (f row) False, upd_effect org k f l)))"

definition update_provider_status ::
  "org_id \<Rightarrow> string \<Rightarrow> string \<Rightarrow> string option \<Rightarrow> ledger \<Rightarrow> (effect_reservation \<times> ledger) res" where
  "update_provider_status org k pst et l =
    (case tget ekey (org, k) (external_effects l) of
       None \<Rightarrow> Inl ValueError
     | Some row \<Rightarrow>
        (case merge_provider_status (provider_status row) pst of
           Inl e \<Rightarrow> Inl e
         | Inr merged \<Rightarrow>
             (let f = (\<lambda>r. set_error_type et (r\<lparr>provider_status := Some merged\<rparr>))
              in Inr (reservation (f row) False, upd_effect org k f l))))"

definition mark_succeeded ::
  "org_id \<Rightarrow> string \<Rightarrow> json \<Rightarrow> ledger \<Rightarrow> (effect_reservation \<times> ledger) res" where
  "mark_succeeded org k res l =
    (case tget ekey (org, k) (external_effects l) of
       None \<Rightarrow> Inl ValueError
     | Some row \<Rightarrow>
         if status row = Reserved then
           (let f = (\<lambda>r. r\<lparr>status := Succeeded, result := Some res, provider_status := Some PSucceeded\<rparr>)
            in Inr (reservation (f row) False, upd_effect org k f l))
         else if status row = Succeeded then Inr (reservation row False, l)
         else Inl UncertainEffectError)"

text \<open>\<open>UPDATE provider_quotas SET used_units = used_units - u\<close>, under the CHECK of the table.\<close>

definition release_units :: "org_id \<Rightarrow> string \<Rightarrow> int \<Rightarrow> ledger \<Rightarrow> (unit \<times> ledger) res" where
  "release_units org p u l =
    (let qs = tupd qkey (org, p) (used_units_update (\<lambda>n. n - u)) (provider_quotas l) in
     if \<forall>q\<in>set qs. quota_check q then Inr ((), l\<lparr>provider_quotas := qs\<rparr>) else Inl CheckViolation)"

definition mark_failed ::
  "org_id \<Rightarrow> string \<Rightarrow> string \<Rightarrow> bool \<Rightarrow> string option \<Rightarrow> ledger \<Rightarrow> (effect_reservation \<times> ledger) res" where
  "mark_failed org k err release_quota et l =
    (case tget ekey (org, k) (external_effects l) of
       None \<Rightarrow> Inl ValueError
     | Some row \<Rightarrow>
         if status row = Reserved then
           (let f = (\<lambda>r. set_error_type et (r\<lparr>status := Failed, error := Some (take 2000 err)\<rparr>));
                l' = upd_effect org k f l
            in if release_quota
               then (case release_units org (provider row) (units row) l' of
                       Inl e \<Rightarrow> Inl e
                     | Inr (_, l'') \<Rightarrow> Inr (reservation (f row) False, l''))
               else Inr (reservation (f row) False, l'))
         else if status row = Failed then Inr (reservation row False, l)
         else Inl UncertainEffectError)"

definition mark_reconciled ::
  "org_id \<Rightarrow> string \<Rightarrow> json \<Rightarrow> ledger \<Rightarrow> (effect_reservation \<times> ledger) res" where
  "mark_reconciled org k res l =
    (case tget ekey (org, k) (external_effects l) of
       None \<Rightarrow> Inl UncertainEffectError
     | Some row \<Rightarrow>
         if status row = Uncertain then
           (let f = (\<lambda>r. r\<lparr>status := Succeeded, result := Some res, provider_status := Some PSucceeded\<rparr>)
            in Inr (reservation (f row) False, upd_effect org k f l))
         else Inl UncertainEffectError)"

definition quota_usage :: "org_id \<Rightarrow> string \<Rightarrow> ledger \<Rightarrow> (int \<times> int) res" where
  "quota_usage org p l =
    (case tget qkey (org, p) (provider_quotas l) of
       None \<Rightarrow> Inl ValueError
     | Some q \<Rightarrow> Inr (used_units q, limit_units q))"

text \<open>
  \<open>wait_for_provider_operation\<close> polls \<open>get\<close>. Each element of \<open>obs\<close> is one turn of the loop: the
  ledger that \<open>get\<close> reads and the monotonic clock read after it. \<open>None\<close> means that the turns given
  do not reach the end of the loop.
\<close>

fun wait_for_provider_operation ::
  "org_id \<Rightarrow> string \<Rightarrow> int \<Rightarrow> (ledger \<times> int) list \<Rightarrow> effect_reservation res option" where
  "wait_for_provider_operation org k deadline [] = None"
| "wait_for_provider_operation org k deadline ((l, now) # obs) =
    (case get org k l of
       Inl e \<Rightarrow> Some (Inl e)
     | Inr r \<Rightarrow>
         if provider_operation_id r \<noteq> None \<and> provider_operation_id r \<noteq> Some [] then Some (Inr r)
         else if now \<ge> deadline then Some (Inr r)
         else wait_for_provider_operation org k deadline obs)"

lemmas [op_defs] = set_quota_def reserve_def mark_uncertain_def bind_provider_operation_def
  update_provider_status_def mark_succeeded_def mark_failed_def mark_reconciled_def
  release_units_def

section \<open>Transactions of the ledger\<close>

datatype ledger_op =
    SetQuota org_id string int
  | Reserve org_id string string string int json
  | MarkUncertain org_id string string "string option"
  | BindOperation org_id string string string
  | UpdateStatus org_id string string "string option"
  | MarkSucceeded org_id string json
  | MarkFailed org_id string string bool "string option"
  | MarkReconciled org_id string json

fun exec_ledger :: "ledger_op \<Rightarrow> ledger \<Rightarrow> ledger" where
  "exec_ledger (SetQuota org p n) l = commit (set_quota org p n l) l"
| "exec_ledger (Reserve org k rid p u req) l = commit (reserve org k rid p u req l) l"
| "exec_ledger (MarkUncertain org k err et) l = commit (mark_uncertain org k err et l) l"
| "exec_ledger (BindOperation org k opid pst) l = commit (bind_provider_operation org k opid pst l) l"
| "exec_ledger (UpdateStatus org k pst et) l = commit (update_provider_status org k pst et l) l"
| "exec_ledger (MarkSucceeded org k res) l = commit (mark_succeeded org k res l) l"
| "exec_ledger (MarkFailed org k err rel et) l = commit (mark_failed org k err rel et l) l"
| "exec_ledger (MarkReconciled org k res) l = commit (mark_reconciled org k res l) l"

fun ledger_op_org :: "ledger_op \<Rightarrow> org_id" where
  "ledger_op_org (SetQuota org p n) = org"
| "ledger_op_org (Reserve org k rid p u req) = org"
| "ledger_op_org (MarkUncertain org k err et) = org"
| "ledger_op_org (BindOperation org k opid pst) = org"
| "ledger_op_org (UpdateStatus org k pst et) = org"
| "ledger_op_org (MarkSucceeded org k res) = org"
| "ledger_op_org (MarkFailed org k err rel et) = org"
| "ledger_op_org (MarkReconciled org k res) = org"


section \<open>Invariant\<close>

definition effect_wf :: "effect_row \<Rightarrow> bool" where
  "effect_wf r = (0 < units r \<and>
     (status r = Succeeded \<longrightarrow> result r \<noteq> None \<and> provider_status r = Some PSucceeded) \<and>
     (status r \<in> {Failed, Uncertain} \<longrightarrow> error r \<noteq> None) \<and>
     provider_operation_id r \<noteq> Some [] \<and>
     (provider_operation_id r \<noteq> None \<longrightarrow> provider_status r \<noteq> None))"

text \<open>The units of the effects of a provider that have not failed.\<close>

definition open_units :: "org_id \<Rightarrow> string \<Rightarrow> effect_row list \<Rightarrow> int" where
  "open_units org p es =
    (\<Sum>r\<leftarrow>es. if effect_org r = org \<and> provider r = p \<and> status r \<noteq> Failed then units r else 0)"

definition quotas_ok :: "quota_row list \<Rightarrow> effect_row list \<Rightarrow> bool" where
  "quotas_ok qs es = (\<forall>q\<in>set qs. quota_check q \<and> limit_units q \<le> BIGINT_MAX \<and>
     open_units (quota_org q) (quota_provider q) es \<le> used_units q)"

definition operations_unique :: "effect_row list \<Rightarrow> bool" where
  "operations_unique es = (\<forall>r\<in>set es. \<forall>s\<in>set es.
     effect_org r = effect_org s \<and> provider r = provider s \<and>
     provider_operation_id r \<noteq> None \<and> provider_operation_id r = provider_operation_id s \<longrightarrow>
     effect_key r = effect_key s)"

definition effects_ok :: "quota_row list \<Rightarrow> effect_row list \<Rightarrow> bool" where
  "effects_ok qs es = (\<forall>r\<in>set es. effect_wf r \<and> tget qkey (effect_org r, provider r) qs \<noteq> None)"

definition ledger_inv :: "ledger \<Rightarrow> bool" where
  "ledger_inv l = (keyed qkey (provider_quotas l) \<and> keyed ekey (external_effects l) \<and>
     quotas_ok (provider_quotas l) (external_effects l) \<and>
     effects_ok (provider_quotas l) (external_effects l) \<and>
     operations_unique (external_effects l))"

lemma ledger_inv_empty [simp]: "ledger_inv empty_ledger"
  by (simp add: ledger_inv_def empty_ledger_def quotas_ok_def effects_ok_def operations_unique_def)

lemma open_units_nonneg: "effects_ok qs es \<Longrightarrow> 0 \<le> open_units org p es"
  unfolding open_units_def effects_ok_def
  by (induction es) (auto simp: effect_wf_def)

lemma effect_key_updates [simp]:
  "ekey (r\<lparr>status := s\<rparr>) = ekey r"
  "ekey (r\<lparr>result := x\<rparr>) = ekey r"
  "ekey (r\<lparr>error := e\<rparr>) = ekey r"
  "ekey (r\<lparr>error_type := t\<rparr>) = ekey r"
  "ekey (r\<lparr>provider_operation_id := i\<rparr>) = ekey r"
  "ekey (r\<lparr>provider_status := ps\<rparr>) = ekey r"
  by (simp_all add: ekey_def)

lemma qkey_updates [simp]:
  "qkey (q\<lparr>limit_units := n\<rparr>) = qkey q"
  "qkey (limit_units_update g q) = qkey q"
  "qkey (used_units_update g q) = qkey q"
  by (simp_all add: qkey_def)

lemma set_error_type_sel [simp]:
  "effect_key (set_error_type et r) = effect_key r"
  "run_id (set_error_type et r) = run_id r"
  "provider (set_error_type et r) = provider r"
  "units (set_error_type et r) = units r"
  "status (set_error_type et r) = status r"
  "request (set_error_type et r) = request r"
  "result (set_error_type et r) = result r"
  "error (set_error_type et r) = error r"
  "provider_operation_id (set_error_type et r) = provider_operation_id r"
  "provider_status (set_error_type et r) = provider_status r"
  "effect_org (set_error_type et r) = effect_org r"
  "ekey (set_error_type et r) = ekey r"
  by (simp_all add: set_error_type_def ekey_def split: option.splits)

text \<open>An update of a row that keeps what identifies the effect.\<close>

definition keeps_identity :: "(effect_row \<Rightarrow> effect_row) \<Rightarrow> bool" where
  "keeps_identity f = (\<forall>r. effect_org (f r) = effect_org r \<and> effect_key (f r) = effect_key r \<and>
     run_id (f r) = run_id r \<and> provider (f r) = provider r \<and> units (f r) = units r \<and>
     request (f r) = request r)"

lemma keeps_identityD:
  assumes "keeps_identity f"
  shows "effect_org (f r) = effect_org r" "effect_key (f r) = effect_key r"
    "run_id (f r) = run_id r" "provider (f r) = provider r" "units (f r) = units r"
    "request (f r) = request r" "ekey (f r) = ekey r"
  using assms by (simp_all add: keeps_identity_def ekey_def)

lemma upd_effect_sel [simp]:
  "external_effects (upd_effect org k f l) = tupd ekey (org, k) f (external_effects l)"
  "provider_quotas (upd_effect org k f l) = provider_quotas l"
  by (simp_all add: upd_effect_def)

lemma open_units_tupd:
  assumes "keyed ekey es" "tget ekey (org, k) es = Some row" "keeps_identity f"
  shows "open_units org' p (tupd ekey (org, k) f es) = open_units org' p es +
    (if org' = org \<and> p = provider row
     then (if status (f row) = Failed then 0 else units row) - (if status row = Failed then 0 else units row)
     else 0)"
proof -
  have row: "ekey row = (org, k)"
    using assms(2) by (rule tget_key)
  show ?thesis
    unfolding open_units_def sum_list_tupd [OF assms(1,2)]
    using row by (auto simp: keeps_identityD [OF assms(3)] ekey_def)
qed

lemma tupd_row:
  assumes "keyed key rows" "tget key k rows = Some row" "x \<in> set (tupd key k f rows)"
  shows "x = f row \<or> (x \<in> set rows \<and> key x \<noteq> k)"
  using assms(3)
proof (cases rule: in_tupdE)
  case (changed r)
  then have "tget key k rows = Some r"
    using assms(1) by (simp add: tget_Some_iff)
  then show ?thesis
    using changed assms(2) by simp
qed simp

lemma operations_unique_tupd:
  assumes "operations_unique es" "keyed ekey es" "tget ekey (org, k) es = Some row" "keeps_identity f"
    and "provider_operation_id (f row) = provider_operation_id row \<or>
      (\<forall>r\<in>set es. effect_org r = org \<and> provider r = provider row \<and>
         provider_operation_id r = provider_operation_id (f row) \<longrightarrow> effect_key r = k)"
  shows "operations_unique (tupd ekey (org, k) f es)"
proof -
  have row: "row \<in> set es" "effect_org row = org" "effect_key row = k"
    using tget_SomeD [OF assms(3)] by (auto simp: ekey_def)
  note id = keeps_identityD [OF assms(4)]
  have other: "effect_key s = k"
    if "s \<in> set es" "effect_org s = org" "provider s = provider row"
      "provider_operation_id (f row) \<noteq> None" "provider_operation_id s = provider_operation_id (f row)" for s
    using assms(1,5) that row unfolding operations_unique_def by metis
  show ?thesis
    unfolding operations_unique_def
  proof (intro ballI impI, elim conjE)
    fix x y
    assume x: "x \<in> set (tupd ekey (org, k) f es)" and y: "y \<in> set (tupd ekey (org, k) f es)"
      and eq: "effect_org x = effect_org y" "provider x = provider y" "provider_operation_id x \<noteq> None"
        "provider_operation_id x = provider_operation_id y"
    consider "x = f row" "y = f row" | "x = f row" "y \<in> set es" | "x \<in> set es" "y = f row"
      | "x \<in> set es" "y \<in> set es"
      using tupd_row [OF assms(2,3) x] tupd_row [OF assms(2,3) y] by blast
    then show "effect_key x = effect_key y"
    proof cases
      case 1
      then show ?thesis
        by simp
    next
      case 2
      then have "effect_key y = k"
        using eq by (intro other) (simp_all add: id row)
      then show ?thesis
        using 2 by (simp add: id row)
    next
      case 3
      then have "effect_key x = k"
        using eq by (intro other) (simp_all add: id row)
      then show ?thesis
        using 3 by (simp add: id row)
    next
      case 4
      then show ?thesis
        using assms(1) eq unfolding operations_unique_def by blast
    qed
  qed
qed

lemma ledger_inv_upd_effect:
  assumes inv: "ledger_inv l" and row: "tget ekey (org, k) (external_effects l) = Some row"
    and id: "keeps_identity f" and wf: "effect_wf (f row)"
    and failed: "status row = Failed \<Longrightarrow> status (f row) = Failed"
    and op: "provider_operation_id (f row) = provider_operation_id row \<or>
      (\<exists>opid. provider_operation_id (f row) = Some opid \<and> \<not> operation_taken org (provider row) opid k l)"
  shows "ledger_inv (upd_effect org k f l)"
proof -
  let ?es = "external_effects l" and ?qs = "provider_quotas l"
  have keyed: "keyed ekey ?es" and quotas: "quotas_ok ?qs ?es" and effects: "effects_ok ?qs ?es"
    using inv by (auto simp: ledger_inv_def)
  have mem: "row \<in> set ?es"
    using tget_SomeD [OF row] by simp
  have units: "0 < units row"
    using effects mem by (auto simp: effects_ok_def effect_wf_def)
  have "quotas_ok ?qs (tupd ekey (org, k) f ?es)"
    using quotas units failed unfolding quotas_ok_def open_units_tupd [OF keyed row id] by fastforce
  moreover have "effects_ok ?qs (tupd ekey (org, k) f ?es)"
    unfolding effects_ok_def
  proof
    fix x
    assume "x \<in> set (tupd ekey (org, k) f ?es)"
    then have "x = f row \<or> x \<in> set ?es"
      using tupd_row [OF keyed row] by blast
    then show "effect_wf x \<and> tget qkey (effect_org x, provider x) ?qs \<noteq> None"
      using effects mem wf by (auto simp: effects_ok_def keeps_identityD [OF id])
  qed
  moreover have "operations_unique (tupd ekey (org, k) f ?es)"
    using inv op by (intro operations_unique_tupd [OF _ keyed row id])
      (auto simp: ledger_inv_def operation_taken_def)
  ultimately show ?thesis
    using inv by (simp add: ledger_inv_def keyed_tupd keeps_identityD [OF id])
qed


text \<open>What no operation takes back.\<close>

definition effect_le :: "effect_row \<Rightarrow> effect_row \<Rightarrow> bool" where
  "effect_le r r' = (
     effect_org r' = effect_org r \<and> effect_key r' = effect_key r \<and> run_id r' = run_id r \<and>
     provider r' = provider r \<and> units r' = units r \<and> request r' = request r \<and>
     (status r = Succeeded \<longrightarrow> status r' = Succeeded \<and> result r' = result r) \<and>
     (status r = Failed \<longrightarrow> status r' = Failed \<and> error r' = error r) \<and>
     (provider_operation_id r \<noteq> None \<longrightarrow> provider_operation_id r' = provider_operation_id r) \<and>
     (\<forall>s. provider_status r = Some s \<and> provider_terminal s \<longrightarrow>
        provider_status r' = Some s \<or> status r' = Succeeded))"

definition ledger_le :: "ledger \<Rightarrow> ledger \<Rightarrow> bool" where
  "ledger_le l l' = (\<forall>key row. tget ekey key (external_effects l) = Some row \<longrightarrow>
     (\<exists>row'. tget ekey key (external_effects l') = Some row' \<and> effect_le row row'))"

lemma effect_le_refl [simp]: "effect_le r r"
  by (simp add: effect_le_def)

lemma effect_le_trans: "effect_le r s \<Longrightarrow> effect_le s t \<Longrightarrow> effect_le r t"
  unfolding effect_le_def by (elim conjE, intro conjI) metis+

lemma ledger_le_refl [simp]: "ledger_le l l"
  by (simp add: ledger_le_def)

lemma ledger_le_trans: "ledger_le l m \<Longrightarrow> ledger_le m n \<Longrightarrow> ledger_le l n"
  unfolding ledger_le_def by (meson effect_le_trans)

lemma ledger_le_effects: "external_effects l' = external_effects l \<Longrightarrow> ledger_le l l'"
  by (simp add: ledger_le_def)

lemma ledger_le_upd_effect:
  assumes "tget ekey (org, k) (external_effects l) = Some row" "keeps_identity f" "effect_le row (f row)"
  shows "ledger_le l (upd_effect org k f l)"
  using assms by (auto simp: ledger_le_def tget_tupd keeps_identityD)

lemma merge_known_simps:
  "merge_known None i = i"
  "merge_known (Some c) i =
    (if provider_terminal c then c else if provider_terminal i then i
     else if provider_status_order i \<ge> provider_status_order c then i else c)"
  by (simp_all add: merge_known_def)

lemma merge_known_terminal: "provider_terminal c \<Longrightarrow> merge_known (Some c) i = c"
  by (simp add: merge_known_def)

lemma merge_InrD: "merge_provider_status c pst = Inr m \<Longrightarrow> \<exists>i. m = merge_known c i"
  by (auto simp: merge_provider_status_def split: option.splits)

lemma merge_terminal: "merge_provider_status (Some c) pst = Inr m \<Longrightarrow> provider_terminal c \<Longrightarrow> m = c"
  using merge_InrD merge_known_terminal by blast

lemma effect_row_wf:
  "ledger_inv l \<Longrightarrow> tget ekey key (external_effects l) = Some row \<Longrightarrow> effect_wf row"
  by (auto simp: ledger_inv_def effects_ok_def dest!: tget_SomeD)

subsection \<open>Quotas\<close>

definition quota_ok :: "effect_row list \<Rightarrow> quota_row \<Rightarrow> bool" where
  "quota_ok es q = (quota_check q \<and> limit_units q \<le> BIGINT_MAX \<and>
     open_units (quota_org q) (quota_provider q) es \<le> used_units q)"

lemma quotas_ok_iff: "quotas_ok qs es = (\<forall>q\<in>set qs. quota_ok es q)"
  by (simp add: quotas_ok_def quota_ok_def)

lemma quotas_ok_tupd:
  assumes "keyed qkey qs" "tget qkey (org, p) qs = Some q0" "quota_ok es' (f q0)"
    and "\<And>q. q \<in> set qs \<Longrightarrow> qkey q \<noteq> (org, p) \<Longrightarrow> quota_ok es' q"
  shows "quotas_ok (tupd qkey (org, p) f qs) es'"
  unfolding quotas_ok_iff using tupd_row [OF assms(1,2)] assms(3,4) by blast

lemma effects_ok_tupd_quotas:
  "(\<And>q. qkey (f q) = qkey q) \<Longrightarrow> effects_ok (tupd qkey key f qs) es = effects_ok qs es"
  by (auto simp: effects_ok_def tget_tupd)

lemma open_units_0:
  "(\<And>r. r \<in> set es \<Longrightarrow> \<not> (effect_org r = org \<and> provider r = p)) \<Longrightarrow> open_units org p es = 0"
  unfolding open_units_def by (induction es) auto

lemma set_quota_keeps:
  assumes "ledger_inv l" "set_quota org p n l = Inr (x, l')"
  shows "ledger_inv l' \<and> ledger_le l l'"
proof
  have es: "external_effects l' = external_effects l"
    using assms(2) by (auto simp: set_quota_def split: if_splits option.splits)
  then show "ledger_le l l'"
    by (rule ledger_le_effects)
  have n: "0 \<le> n" "n \<le> BIGINT_MAX"
    using assms(2) by (auto simp: set_quota_def split: if_splits)
  show "ledger_inv l'"
  proof (cases "tget qkey (org, p) (provider_quotas l)")
    case None
    let ?q = "\<lparr>quota_org = org, quota_provider = p, limit_units = n, used_units = 0\<rparr>"
    have q: "provider_quotas l' = provider_quotas l @ [?q]"
      using None assms(2) n by (auto simp: set_quota_def)
    have "open_units org p (external_effects l) = 0"
      using None assms(1) by (intro open_units_0) (auto simp: ledger_inv_def effects_ok_def)
    moreover have "effects_ok (provider_quotas l @ [?q]) (external_effects l)"
      using assms(1) by (force simp: ledger_inv_def effects_ok_def split: option.splits)
    ultimately show ?thesis
      using assms(1) None n
      by (auto simp: ledger_inv_def q es keyed_snoc quotas_ok_def quota_check_def qkey_def)
  next
    case (Some q0)
    have used: "used_units q0 \<le> n"
      and q: "provider_quotas l' = tupd qkey (org, p) (limit_units_update (\<lambda>_. n)) (provider_quotas l)"
      using Some assms(2) n by (auto simp: set_quota_def split: if_splits)
    have "quota_ok (external_effects l) y" if "y \<in> set (provider_quotas l)" for y
      using that assms(1) by (simp add: ledger_inv_def quotas_ok_iff)
    then have "quotas_ok (provider_quotas l') (external_effects l)"
      unfolding q using assms(1) n used tget_SomeD [OF Some]
      by (intro quotas_ok_tupd [OF _ Some]) (auto simp: ledger_inv_def quota_ok_def quota_check_def)
    then show ?thesis
      using assms(1) by (simp add: ledger_inv_def q es keyed_tupd effects_ok_tupd_quotas)
  qed
qed

subsection \<open>Reserving\<close>

lemma open_units_snoc:
  "open_units org p (es @ [r]) = open_units org p es +
    (if effect_org r = org \<and> provider r = p \<and> status r \<noteq> Failed then units r else 0)"
  by (simp add: open_units_def)

lemma new_effect_sel [simp]:
  "effect_key (new_effect org k rid p u req) = k"
  "run_id (new_effect org k rid p u req) = rid"
  "provider (new_effect org k rid p u req) = p"
  "units (new_effect org k rid p u req) = u"
  "status (new_effect org k rid p u req) = Reserved"
  "request (new_effect org k rid p u req) = req"
  "provider_operation_id (new_effect org k rid p u req) = None"
  "provider_status (new_effect org k rid p u req) = None"
  "effect_org (new_effect org k rid p u req) = org"
  "ekey (new_effect org k rid p u req) = (org, k)"
  by (simp_all add: new_effect_def ekey_def)

lemma operations_unique_snoc:
  assumes "operations_unique es" "provider_operation_id r = None"
  shows "operations_unique (es @ [r])"
  unfolding operations_unique_def
proof (intro ballI impI, elim conjE)
  fix x y
  assume "x \<in> set (es @ [r])" "y \<in> set (es @ [r])"
    and eq: "effect_org x = effect_org y" "provider x = provider y" "provider_operation_id x \<noteq> None"
      "provider_operation_id x = provider_operation_id y"
  then have "x \<in> set es" "y \<in> set es"
    using assms(2) by (simp_all, metis+)
  then show "effect_key x = effect_key y"
    using assms(1) eq unfolding operations_unique_def by blast
qed

lemma reserve_cases:
  assumes "reserve org k rid p u req l = Inr (res, l')"
  obtains (replay) row where "tget ekey (org, k) (external_effects l) = Some row" "l' = l"
      "same_payload row rid p u req" "status row \<noteq> Uncertain" "res = reservation row False"
  | (fresh) q where "0 < u" "tget qkey (org, p) (provider_quotas l) = Some q"
      "tget ekey (org, k) (external_effects l) = None" "used_units q + u \<le> limit_units q"
      "external_effects l' = external_effects l @ [new_effect org k rid p u req]"
      "provider_quotas l' = tupd qkey (org, p) (used_units_update (\<lambda>n. n + u)) (provider_quotas l)"
      "res = reservation (new_effect org k rid p u req) True"
  using assms by (auto simp: reserve_def split: if_splits option.splits)

lemma reserve_keeps:
  assumes inv: "ledger_inv l" and res: "reserve org k rid p u req l = Inr (res, l')"
  shows "ledger_inv l' \<and> ledger_le l l'"
  using res
proof (cases rule: reserve_cases)
    case (fresh q)
    let ?e = "new_effect org k rid p u req"
    note new = fresh(5,6)
    have q: "q \<in> set (provider_quotas l)" "qkey q = (org, p)"
      using tget_SomeD [OF fresh(2)] by auto
    have ok: "quota_ok (external_effects l) y" if "y \<in> set (provider_quotas l)" for y
      using that inv by (simp add: ledger_inv_def quotas_ok_iff)
    have "quotas_ok (provider_quotas l') (external_effects l')"
      unfolding new using inv fresh(1,4) q ok
      by (intro quotas_ok_tupd [OF _ fresh(2)])
        (auto simp: ledger_inv_def quota_ok_def quota_check_def open_units_snoc qkey_def)
    moreover have "effects_ok (provider_quotas l') (external_effects l')"
      using inv fresh(1,2) by (auto simp: new ledger_inv_def effects_ok_tupd_quotas)
        (auto simp: effects_ok_def effect_wf_def)
    moreover have "operations_unique (external_effects l')"
      using inv unfolding new by (intro operations_unique_snoc) (simp_all add: ledger_inv_def)
    moreover have "ledger_le l l'"
      by (simp add: ledger_le_def new)
    ultimately show ?thesis
      using inv fresh(3) by (simp add: ledger_inv_def new keyed_tupd keyed_snoc)
qed (simp add: inv)


subsection \<open>Row updates\<close>

lemma mark_uncertain_keeps:
  assumes "ledger_inv l" "mark_uncertain org k err et l = Inr (res, l')"
  shows "ledger_inv l' \<and> ledger_le l l'"
proof -
  obtain row where row: "tget ekey (org, k) (external_effects l) = Some row"
    using assms(2) by (auto simp: mark_uncertain_def split: option.splits)
  have "effect_wf row"
    using assms(1) row by (rule effect_row_wf)
  then show ?thesis
    using assms row
    by (auto simp: mark_uncertain_def Let_def keeps_identity_def effect_le_def effect_wf_def
        intro!: ledger_inv_upd_effect ledger_le_upd_effect split: if_splits)
qed

lemma bind_cases:
  assumes "bind_provider_operation org k opid0 pst l = Inr (res, l')"
  obtains row merged where
    "tget ekey (org, k) (external_effects l) = Some row" "strip opid0 \<noteq> []"
    "provider_operation_id row = None \<or> provider_operation_id row = Some (strip opid0)"
    "\<not> operation_taken org (provider row) (strip opid0) k l"
    "merge_provider_status (provider_status row) pst = Inr merged"
    "l' = upd_effect org k (\<lambda>r. r\<lparr>provider_operation_id := Some (strip opid0),
       provider_status := Some merged,
       status := (if status row = Uncertain then Reserved else status row)\<rparr>) l"
    "res = reservation (row\<lparr>provider_operation_id := Some (strip opid0),
       provider_status := Some merged,
       status := (if status row = Uncertain then Reserved else status row)\<rparr>) False"
  using assms
  by (auto simp: bind_provider_operation_def Let_def split: if_splits option.splits sum.splits)

lemma bind_keeps:
  assumes "ledger_inv l" "bind_provider_operation org k opid0 pst l = Inr (res, l')"
  shows "ledger_inv l' \<and> ledger_le l l'"
  using assms(2)
proof (cases rule: bind_cases)
  case (1 row merged)
  have wf: "effect_wf row"
    using assms(1) 1(1) by (rule effect_row_wf)
  have merged: "merged = c" if "provider_status row = Some c" "provider_terminal c" for c
    using 1(5) that merge_terminal by metis
  let ?f = "\<lambda>r. r\<lparr>provider_operation_id := Some (strip opid0), provider_status := Some merged,
       status := (if status row = Uncertain then Reserved else status row)\<rparr>"
  have "effect_wf (?f row)"
    using wf 1(2) merged [of PSucceeded] by (auto simp: effect_wf_def)
  moreover have "effect_le row (?f row)"
    using 1(3) merged by (auto simp: effect_le_def)
  moreover have "keeps_identity ?f"
    by (simp add: keeps_identity_def)
  ultimately show ?thesis
    unfolding 1(6) using assms(1) 1(1,4)
    by (intro conjI ledger_inv_upd_effect ledger_le_upd_effect) auto
qed

lemma update_status_keeps:
  assumes "ledger_inv l" "update_provider_status org k pst et l = Inr (res, l')"
  shows "ledger_inv l' \<and> ledger_le l l'"
proof -
  obtain row merged where row: "tget ekey (org, k) (external_effects l) = Some row"
    and m: "merge_provider_status (provider_status row) pst = Inr merged"
    and l': "l' = upd_effect org k (\<lambda>r. set_error_type et (r\<lparr>provider_status := Some merged\<rparr>)) l"
    using assms(2) by (auto simp: update_provider_status_def Let_def split: option.splits sum.splits)
  have wf: "effect_wf row"
    using assms(1) row by (rule effect_row_wf)
  have merged: "merged = c" if "provider_status row = Some c" "provider_terminal c" for c
    using m that merge_terminal by metis
  let ?f = "\<lambda>r. set_error_type et (r\<lparr>provider_status := Some merged\<rparr>)"
  have "effect_wf (?f row)"
    using wf merged [of PSucceeded] by (auto simp: effect_wf_def)
  moreover have "effect_le row (?f row)"
    using merged by (auto simp: effect_le_def)
  moreover have "keeps_identity ?f"
    by (simp add: keeps_identity_def)
  ultimately show ?thesis
    unfolding l' using assms(1) row
    by (intro conjI ledger_inv_upd_effect ledger_le_upd_effect) auto
qed

lemma complete_effect_keeps:
  assumes "ledger_inv l" "tget ekey (org, k) (external_effects l) = Some row"
    and "status row = Reserved \<or> status row = Uncertain"
    and "l' = upd_effect org k
      (\<lambda>r. r\<lparr>status := Succeeded, result := Some res, provider_status := Some PSucceeded\<rparr>) l"
  shows "ledger_inv l' \<and> ledger_le l l'"
proof -
  have "effect_wf row"
    using assms(1,2) by (rule effect_row_wf)
  then show ?thesis
    unfolding assms(4) using assms(1,2,3)
    by (intro conjI ledger_inv_upd_effect ledger_le_upd_effect)
      (auto simp: keeps_identity_def effect_wf_def effect_le_def)
qed

lemma mark_succeeded_keeps:
  assumes "ledger_inv l" "mark_succeeded org k res l = Inr (x, l')"
  shows "ledger_inv l' \<and> ledger_le l l'"
  using assms complete_effect_keeps [OF assms(1)]
  by (auto simp: mark_succeeded_def Let_def split: option.splits if_splits)

lemma mark_reconciled_keeps:
  assumes "ledger_inv l" "mark_reconciled org k res l = Inr (x, l')"
  shows "ledger_inv l' \<and> ledger_le l l'"
  using assms complete_effect_keeps [OF assms(1)]
  by (auto simp: mark_reconciled_def Let_def split: option.splits if_splits)

lemma release_units_keeps:
  assumes inv: "ledger_inv l" and q: "tget qkey (org, p) (provider_quotas l) = Some q"
    and u: "0 \<le> u" "open_units org p (external_effects l) + u \<le> used_units q"
  shows "\<exists>l'. release_units org p u l = Inr ((), l') \<and> ledger_inv l' \<and>
    external_effects l' = external_effects l"
proof -
  let ?qs = "tupd qkey (org, p) (used_units_update (\<lambda>n. n - u)) (provider_quotas l)"
  have mem: "q \<in> set (provider_quotas l)" "quota_org q = org" "quota_provider q = p"
    using tget_SomeD [OF q] by (auto simp: qkey_def)
  have ok0: "quota_ok (external_effects l) y" if "y \<in> set (provider_quotas l)" for y
    using that inv by (simp add: ledger_inv_def quotas_ok_iff)
  have "0 \<le> open_units org p (external_effects l)"
    using inv open_units_nonneg by (auto simp: ledger_inv_def)
  then have "quota_ok (external_effects l) (used_units_update (\<lambda>n. n - u) q)"
    using ok0 [OF mem(1)] u mem(2,3) by (simp add: quota_ok_def quota_check_def)
  then have ok: "quotas_ok ?qs (external_effects l)"
    using inv ok0 by (intro quotas_ok_tupd [OF _ q]) (simp_all add: ledger_inv_def)
  then have "release_units org p u l = Inr ((), l\<lparr>provider_quotas := ?qs\<rparr>)"
    by (simp add: release_units_def Let_def quotas_ok_def)
  moreover have "ledger_inv (l\<lparr>provider_quotas := ?qs\<rparr>)"
    using inv ok by (simp add: ledger_inv_def keyed_tupd effects_ok_tupd_quotas)
  ultimately show ?thesis
    by simp
qed

text \<open>A reserved effect can always fail: releasing its units never violates the CHECK of the quota.\<close>

lemma mark_failed_reserved:
  fixes err :: string and et :: "string option"
  assumes inv: "ledger_inv l" and row: "tget ekey (org, k) (external_effects l) = Some row"
    and reserved: "status row = Reserved"
  defines "f \<equiv> \<lambda>r. set_error_type et (r\<lparr>status := Failed, error := Some (take 2000 err)\<rparr>)"
  shows "\<exists>l'. mark_failed org k err rel et l = Inr (reservation (f row) False, l') \<and> ledger_inv l' \<and>
    external_effects l' = tupd ekey (org, k) f (external_effects l)"
proof -
  have id: "keeps_identity f"
    by (simp add: keeps_identity_def f_def)
  have failed: "status (f row) = Failed"
    by (simp add: f_def)
  have wf: "effect_wf row"
    using inv row by (rule effect_row_wf)
  have inv': "ledger_inv (upd_effect org k f l)"
    using inv row id by (rule ledger_inv_upd_effect) (use wf in \<open>auto simp: effect_wf_def f_def reserved\<close>)
  have mem: "row \<in> set (external_effects l)" "effect_org row = org"
    using tget_SomeD [OF row] by (auto simp: ekey_def)
  then obtain q where q: "tget qkey (org, provider row) (provider_quotas l) = Some q"
    using inv by (auto simp: ledger_inv_def effects_ok_def)
  have q': "tget qkey (org, provider row) (provider_quotas (upd_effect org k f l)) = Some q"
    using q by simp
  have "open_units org (provider row) (external_effects l) \<le> used_units q"
    using inv tget_SomeD [OF q] by (auto simp: ledger_inv_def quotas_ok_def qkey_def)
  moreover have "keyed ekey (external_effects l)"
    using inv by (simp add: ledger_inv_def)
  ultimately have "open_units org (provider row) (external_effects (upd_effect org k f l)) + units row \<le> used_units q"
    using failed by (simp add: open_units_tupd [OF _ row id] reserved)
  moreover have "0 \<le> units row"
    using wf by (simp add: effect_wf_def)
  ultimately obtain l'' where l'': "release_units org (provider row) (units row) (upd_effect org k f l) = Inr ((), l'')"
      "ledger_inv l''" "external_effects l'' = external_effects (upd_effect org k f l)"
    using release_units_keeps [OF inv' q'] by blast
  then show ?thesis
    using row reserved inv' by (cases rel) (simp_all add: mark_failed_def Let_def f_def)
qed

lemma mark_failed_keeps:
  assumes "ledger_inv l" "mark_failed org k err rel et l = Inr (x, l')"
  shows "ledger_inv l' \<and> ledger_le l l'"
proof -
  obtain row where row: "tget ekey (org, k) (external_effects l) = Some row"
    using assms(2) by (auto simp: mark_failed_def split: option.splits)
  show ?thesis
  proof (cases "status row = Reserved")
    case True
    then show ?thesis
      using mark_failed_reserved [OF assms(1) row True, of err rel et] assms(2) row effect_row_wf [OF assms(1) row]
      by (auto simp: ledger_le_def tget_tupd effect_le_def)
  next
    case False
    then show ?thesis
      using assms row by (auto simp: mark_failed_def split: if_splits)
  qed
qed

lemmas ledger_keeps = set_quota_keeps reserve_keeps mark_uncertain_keeps bind_keeps
  update_status_keeps mark_succeeded_keeps mark_failed_keeps mark_reconciled_keeps

lemma exec_ledger_keeps:
  assumes "ledger_inv l"
  shows "ledger_inv (exec_ledger p l) \<and> ledger_le l (exec_ledger p l)"
  using assms by (cases p) (simp_all, (rule commit_keeps, erule (1) ledger_keeps, simp)+)

interpretation ledger_store: ordered_store exec_ledger ledger_inv ledger_le
  by unfold_locales (auto simp: exec_ledger_keeps intro: ledger_le_trans)


subsection \<open>Tenants\<close>

definition ledger_view :: "org_id \<Rightarrow> ledger \<Rightarrow> quota_row list \<times> effect_row list" where
  "ledger_view org l = (filter (\<lambda>q. quota_org q = org) (provider_quotas l),
     filter (\<lambda>r. effect_org r = org) (external_effects l))"

lemma quota_filter_upd [tenant_simps]:
  "org' \<noteq> org \<Longrightarrow> filter (\<lambda>q. quota_org q = org) (tupd qkey (org', p) (used_units_update g) qs) =
    filter (\<lambda>q. quota_org q = org) qs"
  "org' \<noteq> org \<Longrightarrow> filter (\<lambda>q. quota_org q = org) (tupd qkey (org', p) (limit_units_update g) qs) =
    filter (\<lambda>q. quota_org q = org) qs"
  by (auto intro!: filter_tupd_other simp: qkey_def)

lemma effect_filter_upd [tenant_simps]:
  "org' \<noteq> org \<Longrightarrow> keeps_identity f \<Longrightarrow>
    filter (\<lambda>r. effect_org r = org) (tupd ekey (org', k) f es) = filter (\<lambda>r. effect_org r = org) es"
  by (auto intro!: filter_tupd_other simp: ekey_def keeps_identityD)

lemma exec_ledger_view:
  assumes "ledger_op_org p \<noteq> org"
  shows "ledger_view org (exec_ledger p l) = ledger_view org l"
  using assms
  by (cases p)
    (auto simp: op_defs Let_def commit_def ledger_view_def keeps_identity_def tenant_simps
      split: option.splits sum.splits if_splits)

interpretation ledger_tenants: tenant_store exec_ledger ledger_op_org ledger_view
  by unfold_locales (rule exec_ledger_view)

section \<open>Properties\<close>

text \<open>The equations that evaluate the operations on concrete ledgers.\<close>

lemmas ledger_eval = op_defs Let_def empty_ledger_def qkey_def ekey_def new_effect_def upd_effect_def
  BIGINT_MAX_def quota_check_def operation_taken_def set_error_type_def quota_usage_def
  merge_provider_status_def provider_status_of_def merge_known_def
  strip_def py_space_def py_lower_def py_lower_char_def

text \<open>
  C2. Quota safety: after any sequence of ledger operations of any tenants, in any order, every
  configured quota has \<open>0 \<le> used_units \<le> limit_units\<close>, and the units of all effects of that
  provider that have not definitively failed are covered by \<open>used_units\<close>; a provider without quota
  row has no effect at all.
\<close>

theorem quota_never_exceeded:
  "case tget qkey (org, p) (provider_quotas (run_ops exec_ledger ops empty_ledger)) of
     None \<Rightarrow> open_units org p (external_effects (run_ops exec_ledger ops empty_ledger)) = 0
   | Some q \<Rightarrow> 0 \<le> used_units q \<and> used_units q \<le> limit_units q \<and> limit_units q \<le> BIGINT_MAX \<and>
       open_units org p (external_effects (run_ops exec_ledger ops empty_ledger)) \<le> used_units q"
proof -
  have inv: "ledger_inv (run_ops exec_ledger ops empty_ledger)"
    by (rule ledger_store.inv_run) simp
  show ?thesis
  proof (cases "tget qkey (org, p) (provider_quotas (run_ops exec_ledger ops empty_ledger))")
    case None
    then have "open_units org p (external_effects (run_ops exec_ledger ops empty_ledger)) = 0"
      using inv by (intro open_units_0) (auto simp: ledger_inv_def effects_ok_def)
    then show ?thesis
      using None by simp
  next
    case (Some q)
    then show ?thesis
      using inv tget_SomeD [OF Some] by (auto simp: ledger_inv_def quotas_ok_def quota_check_def qkey_def)
  qed
qed

text \<open>
  C20. Final outcomes are final: from any consistent ledger, whatever operations run afterwards, an
  effect keeps its key, run, provider, units and request; once succeeded it stays succeeded with
  the same result, once failed it stays failed with the same error, and a bound provider operation
  is never rebound.
\<close>

theorem effect_outcome_final:
  assumes "ledger_inv l" "tget ekey (org, k) (external_effects l) = Some row"
  shows "\<exists>row'. tget ekey (org, k) (external_effects (run_ops exec_ledger ops l)) = Some row' \<and>
    run_id row' = run_id row \<and> provider row' = provider row \<and> units row' = units row \<and>
    request row' = request row \<and>
    (status row = Succeeded \<longrightarrow> status row' = Succeeded \<and> result row' = result row) \<and>
    (status row = Failed \<longrightarrow> status row' = Failed \<and> error row' = error row) \<and>
    (provider_operation_id row \<noteq> None \<longrightarrow> provider_operation_id row' = provider_operation_id row)"
  using ledger_store.le_run [OF assms(1), of ops] assms(2)
  unfolding ledger_le_def effect_le_def by blast

theorem effect_outcome_final_witness:
  "let l = run_ops exec_ledger [SetQuota ''o'' ''p'' 10, Reserve ''o'' ''k'' ''r'' ''p'' 3 JNull,
             MarkSucceeded ''o'' ''k'' (JBool True)] empty_ledger;
       l' = run_ops exec_ledger [MarkFailed ''o'' ''k'' ''boom'' True None] l
   in \<exists>row. tget ekey (''o'', ''k'') (external_effects l') = Some row \<and> status row = Succeeded \<and>
        result row = Some (JBool True)"
proof -
  define l where "l = run_ops exec_ledger [SetQuota ''o'' ''p'' 10, Reserve ''o'' ''k'' ''r'' ''p'' 3 JNull,
             MarkSucceeded ''o'' ''k'' (JBool True)] empty_ledger"
  have inv: "ledger_inv l"
    unfolding l_def by (rule ledger_store.inv_run) simp
  have "\<exists>row. tget ekey (''o'', ''k'') (external_effects l) = Some row \<and> status row = Succeeded \<and>
        result row = Some (JBool True)"
    by (simp add: l_def ledger_eval)
  then show ?thesis
    using effect_outcome_final [OF inv, of "''o''" "''k''" _ "[MarkFailed ''o'' ''k'' ''boom'' True None]"]
    unfolding Let_def l_def [symmetric] by metis
qed

text \<open>
   Quota is given back at most once: after a successful \<open>mark_failed\<close> of an effect, whatever runs
  in between, a second \<open>mark_failed\<close> (with any arguments) returns the failed row and changes nothing.
\<close>

theorem quota_released_once:
  assumes "ledger_inv l" "mark_failed org k err rel et l = Inr (r, l1)"
  shows "\<exists>r'. mark_failed org k err' rel' et' (run_ops exec_ledger ops l1) =
      Inr (r', run_ops exec_ledger ops l1) \<and> status r' = Failed"
proof -
  have inv: "ledger_inv l1"
    using mark_failed_keeps [OF assms] by simp
  obtain row1 where row1: "tget ekey (org, k) (external_effects l1) = Some row1" "status row1 = Failed"
  proof -
    obtain row where row: "tget ekey (org, k) (external_effects l) = Some row"
      using assms(2) by (auto simp: mark_failed_def split: option.splits)
    show thesis
    proof (cases "status row = Reserved")
      case True
      then show thesis
        using mark_failed_reserved [OF assms(1) row True, of err rel et] assms(2) row that
        by (auto simp: tget_tupd)
    next
      case False
      then show thesis
        using assms(2) row that by (auto simp: mark_failed_def split: if_splits)
    qed
  qed
  then obtain row2 where "tget ekey (org, k) (external_effects (run_ops exec_ledger ops l1)) = Some row2"
      "status row2 = Failed"
    using ledger_store.le_run [OF inv, of ops] unfolding ledger_le_def effect_le_def by blast
  then show ?thesis
    by (auto simp: mark_failed_def reservation_def)
qed

theorem quota_released_once_witness:
  "let l = run_ops exec_ledger [SetQuota ''o'' ''p'' 10, Reserve ''o'' ''k'' ''r'' ''p'' 3 JNull] empty_ledger;
       l1 = commit (mark_failed ''o'' ''k'' ''no'' True None l) l
   in quota_usage ''o'' ''p'' l = Inr (3, 10) \<and> quota_usage ''o'' ''p'' l1 = Inr (0, 10) \<and>
      commit (mark_failed ''o'' ''k'' ''no'' True None l1) l1 = l1"
proof -
  define l where "l = run_ops exec_ledger [SetQuota ''o'' ''p'' 10, Reserve ''o'' ''k'' ''r'' ''p'' 3 JNull] empty_ledger"
  define l1 where "l1 = commit (mark_failed ''o'' ''k'' ''no'' True None l) l"
  have inv: "ledger_inv l"
    unfolding l_def by (rule ledger_store.inv_run) simp
  have l: "quota_usage ''o'' ''p'' l = Inr (3, 10)" "quota_usage ''o'' ''p'' l1 = Inr (0, 10)"
    "\<exists>r. mark_failed ''o'' ''k'' ''no'' True None l = Inr (r, l1)"
    by (simp_all add: l1_def l_def ledger_eval)
  then obtain r where "mark_failed ''o'' ''k'' ''no'' True None l = Inr (r, l1)"
    by blast
  from quota_released_once [OF inv this, of "''no''" True None "[]"]
  have "commit (mark_failed ''o'' ''k'' ''no'' True None l1) l1 = l1"
    by auto
  then show ?thesis
    using l unfolding Let_def l1_def l_def by simp
qed


text \<open>
   Idempotent reservation: once a key has been reserved, repeating the reservation with the same
  payload, after any other operations, never reserves again: it returns the existing effect and
  changes nothing, or refuses with \<open>UncertainEffectError\<close> when the effect awaits reconciliation.
\<close>

theorem reserve_replay:
  assumes "ledger_inv l" "reserve org k rid p u req l = Inr (r, l1)"
  shows "case reserve org k rid p u req (run_ops exec_ledger ops l1) of
      Inl e \<Rightarrow> e = UncertainEffectError
    | Inr (r', l') \<Rightarrow> l' = run_ops exec_ledger ops l1 \<and> \<not> created r' \<and> status r' \<noteq> Uncertain \<and>
        effect_key r' = k \<and> run_id r' = rid \<and> provider r' = p \<and> units r' = u"
proof -
  let ?l2 = "run_ops exec_ledger ops l1"
  have inv: "ledger_inv l1"
    using reserve_keeps [OF assms] by simp
  have u: "0 < u"
    using assms(2) by (simp add: reserve_def split: if_splits)
  obtain row where row: "tget ekey (org, k) (external_effects l1) = Some row" "same_payload row rid p u req"
    using assms(2) by (cases rule: reserve_cases) (auto simp: same_payload_def)
  obtain row2 where row2: "tget ekey (org, k) (external_effects ?l2) = Some row2" "effect_le row row2"
    using ledger_store.le_run [OF inv, of ops] row(1) unfolding ledger_le_def by blast
  have payload: "same_payload row2 rid p u req"
    using row(2) row2(2) by (simp add: same_payload_def effect_le_def)
  have "ledger_inv ?l2"
    using inv by (rule ledger_store.inv_run)
  then have "tget qkey (org, p) (provider_quotas ?l2) \<noteq> None"
    using row2(1) payload
    by (auto simp: ledger_inv_def effects_ok_def same_payload_def ekey_def dest!: tget_SomeD)
  moreover have "effect_key row2 = k"
    using tget_key [OF row2(1)] by (simp add: ekey_def)
  ultimately show ?thesis
    using row2(1) payload u
    by (auto simp: reserve_def same_payload_def reservation_def split: option.splits)
qed

theorem reserve_replay_witness:
  "let l = run_ops exec_ledger [SetQuota ''o'' ''p'' 10] empty_ledger;
       l1 = exec_ledger (Reserve ''o'' ''k'' ''r'' ''p'' 3 JNull) l
   in quota_usage ''o'' ''p'' l1 = Inr (3, 10) \<and>
      exec_ledger (Reserve ''o'' ''k'' ''r'' ''p'' 3 JNull) l1 = l1"
proof -
  define l where "l = run_ops exec_ledger [SetQuota ''o'' ''p'' 10] empty_ledger"
  define l1 where "l1 = exec_ledger (Reserve ''o'' ''k'' ''r'' ''p'' 3 JNull) l"
  have inv: "ledger_inv l"
    unfolding l_def by (rule ledger_store.inv_run) simp
  have l1: "quota_usage ''o'' ''p'' l1 = Inr (3, 10)"
    "\<exists>r. reserve ''o'' ''k'' ''r'' ''p'' 3 JNull l = Inr (r, l1)"
    by (simp_all add: l1_def l_def ledger_eval)
  then obtain r where "reserve ''o'' ''k'' ''r'' ''p'' 3 JNull l = Inr (r, l1)"
    by blast
  from reserve_replay [OF inv this, of "[]"]
  have "exec_ledger (Reserve ''o'' ''k'' ''r'' ''p'' 3 JNull) l1 = l1"
    by (auto simp: commit_def split: sum.splits)
  then show ?thesis
    using l1 unfolding Let_def l1_def l_def by simp
qed

text \<open>
   Provider statuses delivered late, twice or out of order: folding \<open>_merge_provider_status\<close> over
  any sequence of valid notifications yields the first terminal status delivered, and otherwise
  \<open>processing\<close> as soon as it was delivered once.
\<close>

theorem merge_status_sequence:
  "fold (\<lambda>i c. Some (merge_known c i)) is None =
    (if is = [] then None
     else Some (case find provider_terminal is of
        Some t \<Rightarrow> t
      | None \<Rightarrow> if PProcessing \<in> set is then PProcessing else PStarting))"
proof -
  have terminal: "fold (\<lambda>i c. Some (merge_known c i)) is (Some t) = Some t" if "provider_terminal t" for "is" t
    using that by (induction "is") (auto simp: merge_known_terminal)
  have going: "fold (\<lambda>i c. Some (merge_known c i)) is (Some c) =
      Some (case find provider_terminal is of Some t \<Rightarrow> t
        | None \<Rightarrow> if PProcessing \<in> set is then PProcessing else c)" if "\<not> provider_terminal c" for "is" c
    using that
  proof (induction "is" arbitrary: c)
    case (Cons i "is")
    show ?case
    proof (cases "provider_terminal i")
      case True
      then show ?thesis
        using Cons.prems by (simp add: merge_known_simps terminal)
    next
      case False
      then have "\<not> provider_terminal (merge_known (Some c) i)"
        using Cons.prems by (simp add: merge_known_simps)
      then show ?thesis
        using Cons.IH [of "merge_known (Some c) i"] Cons.prems False
        by (cases c; cases i) (auto simp: merge_known_simps split: option.splits)
    qed
  qed simp
  show ?thesis
  proof (cases "is")
    case (Cons i is')
    then show ?thesis
      using terminal [of i is'] going [of i is']
      by (cases "provider_terminal i"; cases i) (auto simp: merge_known_simps split: option.splits)
  qed simp
qed

text \<open>
  C21. Tenant isolation: no sequence of ledger operations of other organizations changes the quotas
  or the effects of an organization.
\<close>

theorem ledger_tenant_isolation:
  assumes "\<And>p. p \<in> set ops \<Longrightarrow> ledger_op_org p \<noteq> org"
  shows "ledger_view org (run_ops exec_ledger ops l) = ledger_view org l"
  using assms by (rule ledger_tenants.view_run_others)

theorem ledger_tenant_isolation_witness:
  "ledger_view ''a'' (run_ops exec_ledger [SetQuota ''b'' ''p'' 5] empty_ledger) = ledger_view ''a'' empty_ledger"
  by (rule ledger_tenant_isolation) simp

fun leaves_uncertain :: "ledger_op \<Rightarrow> bool" where
  "leaves_uncertain (BindOperation org k opid pst) = True"
| "leaves_uncertain (MarkReconciled org k res) = True"
| "leaves_uncertain _ = False"

lemma exec_uncertain:
  assumes "tget ekey (org, k) (external_effects l) = Some row" "status row = Uncertain"
    and "\<not> leaves_uncertain p"
  shows "\<exists>row'. tget ekey (org, k) (external_effects (exec_ledger p l)) = Some row' \<and> status row' = Uncertain"
  using assms
  by (cases p)
    (auto simp: op_defs Let_def commit_def tget_tupd split: option.splits sum.splits if_splits)

text \<open>
   An uncertain effect only leaves that state by rebinding its provider operation or by
  reconciliation: under any other operations it stays uncertain, and then \<open>mark_succeeded\<close> and
  \<open>mark_failed\<close> both raise \<open>UncertainEffectError\<close>. In particular a poll error, which marks a bound
  effect uncertain, is not undone by later status updates of the provider.
\<close>

theorem uncertain_needs_reconciliation:
  assumes "tget ekey (org, k) (external_effects l) = Some row" "status row = Uncertain"
    and "\<And>p. p \<in> set ops \<Longrightarrow> \<not> leaves_uncertain p"
  shows "mark_succeeded org k res (run_ops exec_ledger ops l) = Inl UncertainEffectError \<and>
    mark_failed org k err rel et (run_ops exec_ledger ops l) = Inl UncertainEffectError"
proof -
  have "\<exists>row'. tget ekey (org, k) (external_effects (run_ops exec_ledger ops l)) = Some row' \<and>
      status row' = Uncertain"
    using assms
  proof (induction ops arbitrary: l row)
    case (Cons p ops)
    then obtain row' where "tget ekey (org, k) (external_effects (exec_ledger p l)) = Some row'"
        "status row' = Uncertain"
      using exec_uncertain [OF Cons.prems(1,2), of p] by auto
    then show ?case
      using Cons.IH Cons.prems(3) by auto
  qed simp
  then show ?thesis
    by (auto simp: mark_succeeded_def mark_failed_def)
qed

theorem uncertain_needs_reconciliation_witness:
  "let l = run_ops exec_ledger [SetQuota ''o'' ''p'' 10, Reserve ''o'' ''k'' ''r'' ''p'' 3 JNull,
        BindOperation ''o'' ''k'' ''op1'' ''processing'', MarkUncertain ''o'' ''k'' ''poll'' None,
        UpdateStatus ''o'' ''k'' ''succeeded'' None] empty_ledger
   in mark_succeeded ''o'' ''k'' JNull l = Inl UncertainEffectError"
proof -
  define l where "l = run_ops exec_ledger [SetQuota ''o'' ''p'' 10, Reserve ''o'' ''k'' ''r'' ''p'' 3 JNull,
        BindOperation ''o'' ''k'' ''op1'' ''processing'', MarkUncertain ''o'' ''k'' ''poll'' None] empty_ledger"
  have "\<exists>row. tget ekey (''o'', ''k'') (external_effects l) = Some row \<and> status row = Uncertain"
    by (simp add: l_def ledger_eval)
  then obtain row where "tget ekey (''o'', ''k'') (external_effects l) = Some row" "status row = Uncertain"
    by blast
  from uncertain_needs_reconciliation [OF this, of "[UpdateStatus ''o'' ''k'' ''succeeded'' None]"]
  show ?thesis
    by (simp add: l_def)
qed

text \<open>
   The polling loop ends: as soon as the clock has reached the deadline in one of its turns,
  \<open>wait_for_provider_operation\<close> has returned; the reservation it returns is bound unless the
  deadline passed.
\<close>

theorem wait_for_operation_ends:
  assumes "\<exists>(l, now)\<in>set obs. deadline \<le> now"
  shows "\<exists>r. wait_for_provider_operation org k deadline obs = Some r \<and>
    (case r of Inl e \<Rightarrow> e = ValueError
     | Inr x \<Rightarrow> effect_key x = k \<and>
         (provider_operation_id x \<in> {None, Some []} \<longrightarrow>
            (\<exists>(l, now)\<in>set obs. deadline \<le> now \<and> get org k l = Inr x)))"
  using assms
proof (induction obs)
  case (Cons o' obs)
  obtain l now where o': "o' = (l, now)"
    by (cases o')
  have key: "effect_key x = k" if "get org k l = Inr x" for x
    using that by (auto simp: get_def reservation_def ekey_def dest: tget_key split: option.splits)
  show ?case
  proof (cases "get org k l")
    case (Inl e)
    then show ?thesis
      by (auto simp: o' get_def split: option.splits)
  next
    case (Inr x)
    show ?thesis
    proof (cases "provider_operation_id x \<in> {None, Some []} \<and> now < deadline")
      case True
      then have "\<exists>(l, now)\<in>set obs. deadline \<le> now"
        using Cons.prems o' by auto
      then show ?thesis
        using Cons.IH True Inr by (auto simp: o' split: sum.splits)
    next
      case False
      then show ?thesis
        using Inr key [OF Inr] by (auto simp: o')
    qed
  qed
qed simp

theorem wait_for_operation_ends_witness:
  "\<exists>r. wait_for_provider_operation ''o'' ''k'' 5 [(empty_ledger, 1), (empty_ledger, 6)] = Some r"
  using wait_for_operation_ends [of "[(empty_ledger, 1), (empty_ledger, 6)]" 5 "''o''" "''k''"] by auto

end
