(* ===== verification/Paid_Effect.thy ===== *)
theory Paid_Effect
  imports Effect_Ledger
begin

text \<open>
  Execution of one paid effect through the ledger (\<open>src/src/orchestrator/tools/base.py\<close>:
  \<open>_definitely_not_billed\<close>, \<open>execute_paid_effect\<close>). A process acts on a world: the ledger, shared
  with every other process, and the log of provider calls it made. Each ledger call is one atomic
  transaction; before it, other processes may have committed any ledger transactions, given by the
  argument \<open>env\<close> as a list per call. What the provider answers is an argument too.
\<close>

section \<open>Exceptions of the provider clients\<close>

text \<open>The \<open>httpx\<close> and \<open>replicate\<close> exceptions the code distinguishes, and all others by name.\<close>

datatype exc_kind =
    ConnectError | ConnectTimeout | PoolTimeout
  | ReadError | ReadTimeout | WriteError | WriteTimeout
  | OtherTransportError string
  | HTTPStatusError int
  | ReplicateError "int option"
  | OtherException string

datatype attr = NoAttr | IntAttr int | OtherAttr

record py_exc =
  exc_kind :: exc_kind
  exc_cause :: "exc_kind option"
  exc_status_code :: attr

fun type_name :: "exc_kind \<Rightarrow> string" where
  "type_name ConnectError = ''ConnectError''"
| "type_name ConnectTimeout = ''ConnectTimeout''"
| "type_name PoolTimeout = ''PoolTimeout''"
| "type_name ReadError = ''ReadError''"
| "type_name ReadTimeout = ''ReadTimeout''"
| "type_name WriteError = ''WriteError''"
| "type_name WriteTimeout = ''WriteTimeout''"
| "type_name (OtherTransportError s) = s"
| "type_name (HTTPStatusError _) = ''HTTPStatusError''"
| "type_name (ReplicateError _) = ''ReplicateError''"
| "type_name (OtherException s) = s"

definition never_sent :: "exc_kind \<Rightarrow> bool" where
  "never_sent k = (k \<in> {ConnectError, ConnectTimeout, PoolTimeout})"

definition client_error :: "int \<Rightarrow> bool" where
  "client_error n = (400 \<le> n \<and> n < 500)"

definition definitely_not_billed :: "py_exc \<Rightarrow> bool" where
  "definitely_not_billed exc =
    (if never_sent (exc_kind exc) then True
     else if (case exc_cause exc of None \<Rightarrow> False | Some c \<Rightarrow> never_sent c) then True
     else case exc_status_code exc of
       IntAttr n \<Rightarrow> client_error n
     | OtherAttr \<Rightarrow> False
     | NoAttr \<Rightarrow> (case exc_kind exc of HTTPStatusError n \<Rightarrow> client_error n | _ \<Rightarrow> False))"

section \<open>Worlds and ledger calls\<close>

record video_effect_error =
  vee_code :: string
  vee_retryable :: bool
  vee_uncertain :: bool
  vee_error_type :: string

datatype perr = PyErr exn | ProviderErr py_exc | VideoErr video_effect_error

record world =
  led :: ledger
  tick :: nat
  calls :: "(org_id \<times> string) list"

type_synonym env = "nat \<Rightarrow> ledger_op list"

text \<open>The ledger a call finds, after the transactions of the other processes.\<close>

definition interleave :: "env \<Rightarrow> world \<Rightarrow> ledger" where
  "interleave env w = run_ops exec_ledger (env (tick w)) (led w)"

definition ledger_call :: "env \<Rightarrow> (ledger \<Rightarrow> ('a \<times> ledger) res) \<Rightarrow> world \<Rightarrow> 'a res \<times> world" where
  "ledger_call env f w =
    (let l = interleave env w in
     case f l of
       Inl e \<Rightarrow> (Inl e, w\<lparr>led := l, tick := Suc (tick w)\<rparr>)
     | Inr (x, l') \<Rightarrow> (Inr x, w\<lparr>led := l', tick := Suc (tick w)\<rparr>))"

definition provider_call :: "org_id \<Rightarrow> string \<Rightarrow> world \<Rightarrow> world" where
  "provider_call org k w = w\<lparr>calls := calls w @ [(org, k)]\<rparr>"

section \<open>\<open>execute_paid_effect\<close>\<close>

text \<open>The part of \<open>ToolContext\<close> read: the run, whether execution is durable, whether paid adapters are
  enabled and whether a ledger is configured.\<close>

record tool_context =
  ctx_run_id :: string
  durable :: bool
  paid_adapters_enabled :: bool
  has_ledger :: bool

text \<open>\<open>await reconcile()\<close>, then \<open>mark_reconciled\<close>.\<close>

definition reconcile_effect ::
  "env \<Rightarrow> org_id \<Rightarrow> string \<Rightarrow> (perr + jdict) \<Rightarrow> world \<Rightarrow> (perr + jdict) \<times> world" where
  "reconcile_effect env org k rec w =
    (case rec of
       Inl e \<Rightarrow> (Inl e, w)
     | Inr res \<Rightarrow>
        (case ledger_call env (mark_reconciled org k (JObj res)) w of
           (Inl e, w') \<Rightarrow> (Inl (PyErr e), w')
         | (Inr _, w') \<Rightarrow> (Inr res, w')))"

text \<open>Raise \<open>err\<close> after a ledger call, unless the call itself raises.\<close>

definition raise_after :: "'a res \<times> world \<Rightarrow> perr \<Rightarrow> (perr + 'b) \<times> world" where
  "raise_after c err = (case c of (Inl e, w) \<Rightarrow> (Inl (PyErr e), w) | (Inr _, w) \<Rightarrow> (Inl err, w))"

definition run_operation ::
  "env \<Rightarrow> org_id \<Rightarrow> string \<Rightarrow> (py_exc + jdict) \<Rightarrow> world \<Rightarrow> (perr + jdict) \<times> world" where
  "run_operation env org k operation w =
    (let w1 = provider_call org k w in
     case operation of
       Inl exc \<Rightarrow>
         (let name = type_name (exc_kind exc) in
          if definitely_not_billed exc
          then raise_after (ledger_call env (mark_failed org k name True None) w1) (ProviderErr exc)
          else raise_after (ledger_call env (mark_uncertain org k name None) w1) (ProviderErr exc))
     | Inr res \<Rightarrow>
        (case ledger_call env (mark_succeeded org k (JObj res)) w1 of
           (Inl e, w2) \<Rightarrow> (Inl (PyErr e), w2)
         | (Inr _, w2) \<Rightarrow> (Inr res, w2)))"

definition execute_paid_effect ::
  "env \<Rightarrow> tool_context \<Rightarrow> org_id \<Rightarrow> string \<Rightarrow> string \<Rightarrow> int \<Rightarrow> jdict \<Rightarrow> (py_exc + jdict) \<Rightarrow>
   (perr + jdict) option \<Rightarrow> world \<Rightarrow> (perr + jdict) \<times> world" where
  "execute_paid_effect env ctx org k prov u req operation reconcile w =
    (if \<not> durable ctx then
       (case operation of
          Inl exc \<Rightarrow> (Inl (ProviderErr exc), provider_call org k w)
        | Inr res \<Rightarrow> (Inr res, provider_call org k w))
     else if \<not> paid_adapters_enabled ctx then (Inl (PyErr RuntimeError), w)
     else if \<not> has_ledger ctx then (Inl (PyErr RuntimeError), w)
     else case ledger_call env (reserve org k (ctx_run_id ctx) prov u (JObj req)) w of
       (Inl e, w1) \<Rightarrow>
         (if e \<noteq> UncertainEffectError then (Inl (PyErr e), w1)
          else case reconcile of
            None \<Rightarrow> (Inl (PyErr e), w1)
          | Some rec \<Rightarrow> reconcile_effect env org k rec w1)
     | (Inr r, w1) \<Rightarrow>
         if status r = Succeeded then
           (case result r of
              Some (JObj m) \<Rightarrow> if m = fmempty then (Inl (PyErr RuntimeError), w1) else (Inr m, w1)
            | _ \<Rightarrow> (Inl (PyErr RuntimeError), w1))
         else if status r = Uncertain \<and> reconcile \<noteq> None then
           reconcile_effect env org k (the reconcile) w1
         else if \<not> created r then
           raise_after (ledger_call env (mark_uncertain org k
             ''reserved effect replayed without a completed result'' None) w1) (PyErr RuntimeError)
         else run_operation env org k operation w1)"


section \<open>Invariant of the worlds\<close>

text \<open>Every provider call made for an effect has its row in the ledger, and no effect was called twice.\<close>

definition world_ok :: "world \<Rightarrow> bool" where
  "world_ok w = (ledger_inv (led w) \<and> distinct (calls w) \<and>
     (\<forall>c\<in>set (calls w). tget ekey c (external_effects (led w)) \<noteq> None))"

definition fresh_world :: world where
  "fresh_world = \<lparr>led = empty_ledger, tick = 0, calls = []\<rparr>"

lemma fresh_world_ok [simp]: "world_ok fresh_world"
  by (simp add: world_ok_def fresh_world_def)

definition keeps_ledger :: "(ledger \<Rightarrow> ('a \<times> ledger) res) \<Rightarrow> bool" where
  "keeps_ledger f = (\<forall>l x l'. ledger_inv l \<and> f l = Inr (x, l') \<longrightarrow> ledger_inv l' \<and> ledger_le l l')"

lemma keeps_ledgerI:
  "(\<And>l x l'. ledger_inv l \<Longrightarrow> f l = Inr (x, l') \<Longrightarrow> ledger_inv l' \<and> ledger_le l l') \<Longrightarrow> keeps_ledger f"
  unfolding keeps_ledger_def by blast

lemma keeps_ledger_ops [simp, intro]:
  "keeps_ledger (reserve org k rid p u req)" "keeps_ledger (mark_uncertain org k err et)"
  "keeps_ledger (bind_provider_operation org k opid pst)" "keeps_ledger (update_provider_status org k pst et)"
  "keeps_ledger (mark_succeeded org k res)" "keeps_ledger (mark_failed org k err rel et)"
  "keeps_ledger (mark_reconciled org k res)"
  by (rule keeps_ledgerI, erule (1) ledger_keeps)+

lemma interleave_ok:
  assumes "ledger_inv (led w)"
  shows "ledger_inv (interleave env w)" "ledger_le (led w) (interleave env w)"
  unfolding interleave_def using assms by (rule ledger_store.inv_run, rule ledger_store.le_run)

lemma ledger_le_rows: "ledger_le l l' \<Longrightarrow> tget ekey c (external_effects l) \<noteq> None \<Longrightarrow> tget ekey c (external_effects l') \<noteq> None"
  unfolding ledger_le_def by blast

lemma ledger_le_absent:
  assumes "ledger_le l l'" "tget ekey c (external_effects l') = None"
  shows "tget ekey c (external_effects l) = None"
  using ledger_le_rows [OF assms(1)] assms(2) by blast

lemma ledger_call_cases:
  assumes "ledger_call env f w = (r, w')"
  obtains (raised) e where "f (interleave env w) = Inl e" "r = Inl e"
      "w' = w\<lparr>led := interleave env w, tick := Suc (tick w)\<rparr>"
  | (returned) x l' where "f (interleave env w) = Inr (x, l')" "r = Inr x"
      "w' = w\<lparr>led := l', tick := Suc (tick w)\<rparr>"
  using assms by (auto simp: ledger_call_def Let_def split: sum.splits prod.splits)

lemma ledger_call_keeps:
  assumes "ledger_inv (led w)" "keeps_ledger f" "ledger_call env f w = (r, w')"
  shows "ledger_inv (led w') \<and> ledger_le (led w) (led w') \<and> calls w' = calls w"
  using assms(3)
proof (cases rule: ledger_call_cases)
  case raised
  then show ?thesis
    using interleave_ok [OF assms(1)] by simp
next
  case (returned x l')
  have "ledger_inv l' \<and> ledger_le (interleave env w) l'"
    using assms(2) interleave_ok(1) [OF assms(1)] returned(1) unfolding keeps_ledger_def by blast
  then show ?thesis
    using returned interleave_ok(2) [OF assms(1)] ledger_le_trans by auto
qed

lemma ledger_call_ok:
  assumes "ledger_call env f w = (r, w')" "world_ok w" "keeps_ledger f"
  shows "world_ok w'"
proof -
  have "ledger_inv (led w') \<and> ledger_le (led w) (led w') \<and> calls w' = calls w"
    using assms by (intro ledger_call_keeps) (simp_all add: world_ok_def)
  then show ?thesis
    using assms(2) ledger_le_rows unfolding world_ok_def by metis
qed

lemma raise_after_ok:
  assumes "world_ok w" "keeps_ledger f"
  shows "world_ok (snd (raise_after (ledger_call env f w) err))"
  using assms by (auto simp: raise_after_def split: prod.splits sum.splits dest: ledger_call_ok)

lemma reconcile_effect_ok: "world_ok w \<Longrightarrow> world_ok (snd (reconcile_effect env org k rec w))"
  by (auto simp: reconcile_effect_def split: sum.splits prod.splits dest: ledger_call_ok)

text \<open>A reservation that creates the effect finds no row before it and leaves one behind.\<close>

lemma reserve_created:
  assumes "reserve org k rid p u req l = Inr (r, l')" "created r"
  shows "tget ekey (org, k) (external_effects l) = None" "tget ekey (org, k) (external_effects l') \<noteq> None"
  using assms by (auto elim!: reserve_cases simp: reservation_def)

lemma created_call_ok:
  assumes ok: "world_ok w" and call: "ledger_call env (reserve org k rid p u req) w = (Inr r, w1)" and "created r"
  shows "world_ok (provider_call org k w1)"
  using call
proof (cases rule: ledger_call_cases)
  case (returned x l')
  have "tget ekey (org, k) (external_effects (led w)) = None"
    using reserve_created(1) [OF returned(1)] returned(2) \<open>created r\<close> ok interleave_ok(2) [of w env]
    by (intro ledger_le_absent [of "led w" "interleave env w"]) (simp_all add: world_ok_def)
  then have "(org, k) \<notin> set (calls w)"
    using ok unfolding world_ok_def by blast
  then show ?thesis
    using ledger_call_ok [OF call ok] reserve_created(2) [OF returned(1)] returned \<open>created r\<close>
    by (simp add: world_ok_def provider_call_def)
qed simp

lemma run_operation_ok:
  assumes "world_ok (provider_call org k w)"
  shows "world_ok (snd (run_operation env org k operation w))"
  using assms
  by (auto simp: run_operation_def Let_def raise_after_ok split: sum.splits prod.splits dest: ledger_call_ok)

lemma execute_paid_effect_ok:
  assumes ok: "world_ok w" and "durable ctx"
  shows "world_ok (snd (execute_paid_effect env ctx org k prov u req operation reconcile w))"
proof -
  obtain r w1 where call: "ledger_call env (reserve org k (ctx_run_id ctx) prov u (JObj req)) w = (r, w1)"
    by fastforce
  have w1: "world_ok w1"
    using ledger_call_ok [OF call ok] by simp
  show ?thesis
  proof (cases r)
    case (Inl e)
    then show ?thesis
      using ok assms(2) w1 call
      by (auto simp: execute_paid_effect_def reconcile_effect_ok split: option.splits)
  next
    case (Inr x)
    have "created x \<Longrightarrow> world_ok (provider_call org k w1)"
      using created_call_ok [OF ok call [unfolded Inr]] by simp
    then show ?thesis
      using ok assms(2) w1 call Inr
      by (auto simp: execute_paid_effect_def reconcile_effect_ok raise_after_ok run_operation_ok
          split: option.splits json.splits)
  qed
qed

text \<open>Attempts to execute paid effects durably, one after another.\<close>

record paid_attempt =
  pa_env :: env
  pa_ctx :: tool_context
  pa_org :: org_id
  pa_key :: string
  pa_provider :: string
  pa_units :: int
  pa_request :: jdict
  pa_operation :: "py_exc + jdict"
  pa_reconcile :: "(perr + jdict) option"

definition attempt_paid :: "paid_attempt \<Rightarrow> world \<Rightarrow> (perr + jdict) \<times> world" where
  "attempt_paid a w = execute_paid_effect (pa_env a) (pa_ctx a\<lparr>durable := True\<rparr>) (pa_org a) (pa_key a)
     (pa_provider a) (pa_units a) (pa_request a) (pa_operation a) (pa_reconcile a) w"

interpretation paid_store: store "\<lambda>a w. snd (attempt_paid a w)" world_ok
  by unfold_locales (auto simp: attempt_paid_def intro: execute_paid_effect_ok)

section \<open>Properties\<close>

text \<open>
  Paid providers are called at most once per effect: in any sequence of durable executions, with
  any ledger transactions of other processes interleaved before every ledger call and whatever the
  provider answers, no effect key is sent to the provider twice.
\<close>

theorem paid_effect_called_once:
  "distinct (calls (run_ops (\<lambda>a w. snd (attempt_paid a w)) attempts fresh_world))"
  using paid_store.inv_run [OF fresh_world_ok, of attempts] by (simp add: world_ok_def)


text \<open>The row of an effect, as any later ledger call of the process finds it.\<close>

lemma row_at_call:
  assumes "ledger_inv (led w)" "tget ekey (org, k) (external_effects (led w)) = Some row"
  shows "\<exists>row'. tget ekey (org, k) (external_effects (interleave env w)) = Some row' \<and> effect_le row row'"
  using interleave_ok(2) [OF assms(1)] assms(2) unfolding ledger_le_def by blast

lemma quota_at_call:
  assumes "ledger_inv l" "tget ekey (org, k) (external_effects l) = Some row"
  shows "tget qkey (org, provider row) (provider_quotas l) \<noteq> None" "0 < units row"
  using assms by (auto simp: ledger_inv_def effects_ok_def effect_wf_def ekey_def dest!: tget_SomeD)

lemma reserve_existing:
  assumes "ledger_inv l" "tget ekey (org, k) (external_effects l) = Some row" "same_payload row rid p u req"
  shows "reserve org k rid p u req l =
    (if status row = Uncertain then Inl UncertainEffectError else Inr (reservation row False, l))"
  using quota_at_call [OF assms(1,2)] assms(2,3) by (auto simp: reserve_def same_payload_def)

lemma reservation_sel [simp]:
  "status (reservation row c) = status row" "result (reservation row c) = result row"
  "created (reservation row c) = c" "provider_operation_id (reservation row c) = provider_operation_id row"
  "provider_status (reservation row c) = provider_status row" "error_type (reservation row c) = error_type row"
  "effect_key (reservation row c) = effect_key row"
  by (simp_all add: reservation_def)

text \<open>What a durable execution leaves in the ledger when it returns a result.\<close>

definition completed :: "org_id \<Rightarrow> string \<Rightarrow> string \<Rightarrow> string \<Rightarrow> int \<Rightarrow> jdict \<Rightarrow> jdict \<Rightarrow> ledger \<Rightarrow> bool" where
  "completed org k rid p u req res l = (\<exists>row. tget ekey (org, k) (external_effects l) = Some row \<and>
     same_payload row rid p u (JObj req) \<and> status row = Succeeded \<and> result row = Some (JObj res))"

lemma mark_succeeded_completes:
  assumes "mark_succeeded org k (JObj res) l = Inr (x, l')" "tget ekey (org, k) (external_effects l) = Some row"
    "same_payload row rid p u (JObj req)" "status row = Reserved \<or> result row = Some (JObj res)"
  shows "completed org k rid p u req res l'"
  using assms
  by (auto simp: mark_succeeded_def Let_def completed_def same_payload_def tget_tupd split: if_splits)

lemma mark_reconciled_completes:
  assumes "mark_reconciled org k (JObj res) l = Inr (x, l')" "tget ekey (org, k) (external_effects l) = Some row"
    "same_payload row rid p u (JObj req)"
  shows "completed org k rid p u req res l'"
  using assms
  by (auto simp: mark_reconciled_def Let_def completed_def same_payload_def tget_tupd split: if_splits)

lemma completed_replay:
  assumes ok: "ledger_inv (led w)" and comp: "completed org k (ctx_run_id ctx) p u req res (led w)"
    and ctx: "durable ctx" "paid_adapters_enabled ctx" "has_ledger ctx" and res: "res \<noteq> fmempty"
  shows "\<exists>w'. execute_paid_effect env ctx org k p u req operation reconcile w = (Inr res, w') \<and> calls w' = calls w"
proof -
  obtain row where row: "tget ekey (org, k) (external_effects (led w)) = Some row"
      "same_payload row (ctx_run_id ctx) p u (JObj req)" "status row = Succeeded" "result row = Some (JObj res)"
    using comp by (auto simp: completed_def)
  obtain row' where row': "tget ekey (org, k) (external_effects (interleave env w)) = Some row'" "effect_le row row'"
    using row_at_call [OF ok row(1)] by blast
  have same: "same_payload row' (ctx_run_id ctx) p u (JObj req)" "status row' = Succeeded" "result row' = Some (JObj res)"
    using row row'(2) by (simp_all add: effect_le_def same_payload_def)
  have "reserve org k (ctx_run_id ctx) p u (JObj req) (interleave env w) = Inr (reservation row' False, interleave env w)"
    using reserve_existing [OF interleave_ok(1) [OF ok] row'(1) same(1)] same(2) by simp
  then show ?thesis
    using ctx res same by (simp add: execute_paid_effect_def ledger_call_def Let_def)
qed


lemma interleave_alone [simp]: "interleave (\<lambda>_. []) w = led w"
  by (simp add: interleave_def)

lemma reserve_row:
  assumes "reserve org k rid p u req l = Inr (r, l')"
  obtains row where "tget ekey (org, k) (external_effects l') = Some row" "same_payload row rid p u req"
    "status row = status r" "result row = result r"
  using assms
proof (cases rule: reserve_cases)
  case (replay row)
  then show thesis
    by (intro that [of row]) simp_all
next
  case (fresh q)
  then show thesis
    by (intro that [of "new_effect org k rid p u req"]) (simp_all add: same_payload_def)
qed

lemma reserve_uncertain:
  assumes "reserve org k rid p u req l = Inl UncertainEffectError"
  obtains row where "tget ekey (org, k) (external_effects l) = Some row" "same_payload row rid p u req"
  using assms by (auto simp: reserve_def split: if_splits option.splits)

lemma reconcile_completes:
  assumes "reconcile_effect (\<lambda>_. []) org k rec w = (Inr res, w')"
    and "tget ekey (org, k) (external_effects (led w)) = Some row" "same_payload row rid p u (JObj req)"
  shows "completed org k rid p u req res (led w')"
  using assms
  by (auto simp: reconcile_effect_def ledger_call_def Let_def dest: mark_reconciled_completes
      split: sum.splits prod.splits)

lemma execute_completes:
  assumes ctx: "durable ctx"
    and run: "execute_paid_effect (\<lambda>_. []) ctx org k p u req operation reconcile w = (Inr res, w')"
  shows "completed org k (ctx_run_id ctx) p u req res (led w')"
proof -
  obtain c w1 where call: "ledger_call (\<lambda>_. []) (reserve org k (ctx_run_id ctx) p u (JObj req)) w = (c, w1)"
    by fastforce
  have on: "paid_adapters_enabled ctx" "has_ledger ctx"
    using run ctx by (auto simp: execute_paid_effect_def split: if_splits)
  from call show ?thesis
  proof (cases rule: ledger_call_cases)
    case (raised e)
    then have e: "e = UncertainEffectError" and "\<exists>rec. reconcile_effect (\<lambda>_. []) org k rec w1 = (Inr res, w')"
      using run ctx on call by (auto simp: execute_paid_effect_def split: if_splits option.splits)
    then show ?thesis
      using raised reconcile_completes by (auto elim!: reserve_uncertain)
  next
    case (returned r l')
    obtain row where row: "tget ekey (org, k) (external_effects l') = Some row"
        "same_payload row (ctx_run_id ctx) p u (JObj req)" "status row = status r" "result row = result r"
      using reserve_row [OF returned(1)] by blast
    have led: "led w1 = l'"
      using returned(3) by simp
    consider (replayed) "status r = Succeeded" "result r = Some (JObj res)" "w' = w1"
      | (reconciled) rec where "reconcile_effect (\<lambda>_. []) org k rec w1 = (Inr res, w')"
      | (fresh) "created r" "run_operation (\<lambda>_. []) org k operation w1 = (Inr res, w')" "status r \<noteq> Succeeded"
      using run ctx on call returned(2)
      by (auto simp: execute_paid_effect_def raise_after_def split: if_splits option.splits json.splits prod.splits sum.splits)
    then show ?thesis
    proof cases
      case replayed
      then show ?thesis
        using row led by (auto simp: completed_def)
    next
      case (reconciled rec)
      then show ?thesis
        using reconcile_completes row led by blast
    next
      case fresh
      have "status r = Reserved"
        using returned(1,2) fresh(1) by (auto elim!: reserve_cases)
      then show ?thesis
        using fresh(2) row led mark_succeeded_completes
        by (auto simp: run_operation_def Let_def ledger_call_def raise_after_def provider_call_def
            split: sum.splits prod.splits if_splits)
    qed
  qed
qed

text \<open>
   A completed effect is replayed, not repeated: when a durable execution has returned a non-empty
  result, every later execution of the same effect, whatever other processes do to the ledger in
  between and whatever its operation would answer, returns the same result without calling the
  provider.
\<close>

theorem paid_effect_replay:
  assumes "world_ok w" "durable ctx"
    and "execute_paid_effect (\<lambda>_. []) ctx org k p u req operation reconcile w = (Inr res, w')" "res \<noteq> fmempty"
  shows "\<exists>w''. execute_paid_effect env ctx org k p u req operation' reconcile' w' = (Inr res, w'') \<and>
    calls w'' = calls w'"
proof -
  have "ledger_inv (led w')"
    using execute_paid_effect_ok [OF assms(1,2)] assms(3) by (metis snd_conv world_ok_def)
  moreover have "paid_adapters_enabled ctx" "has_ledger ctx"
    using assms(2,3) by (auto simp: execute_paid_effect_def split: if_splits)
  ultimately show ?thesis
    using completed_replay execute_completes [OF assms(2,3)] assms(2,4) by blast
qed

theorem paid_effect_replay_witness:
  "let ctx = \<lparr>ctx_run_id = ''r'', durable = True, paid_adapters_enabled = True, has_ledger = True\<rparr>;
       res = fmap_of_list [(''uri'', JStr ''u'')];
       w0 = fresh_world\<lparr>led := exec_ledger (SetQuota ''o'' ''p'' 5) empty_ledger\<rparr>;
       w1 = snd (execute_paid_effect (\<lambda>_. []) ctx ''o'' ''k'' ''p'' 1 fmempty (Inr res) None w0)
   in calls w1 = [(''o'', ''k'')] \<and>
      (\<exists>w2. execute_paid_effect (\<lambda>_. []) ctx ''o'' ''k'' ''p'' 1 fmempty (Inr fmempty) None w1 = (Inr res, w2) \<and>
         calls w2 = calls w1)"
proof -
  define ctx where "ctx = \<lparr>ctx_run_id = ''r'', durable = True, paid_adapters_enabled = True, has_ledger = True\<rparr>"
  define res where "res = fmap_of_list [(''uri'', JStr ''u'')]"
  define w0 where "w0 = fresh_world\<lparr>led := exec_ledger (SetQuota ''o'' ''p'' 5) empty_ledger\<rparr>"
  define w1 where "w1 = snd (execute_paid_effect (\<lambda>_. []) ctx ''o'' ''k'' ''p'' 1 fmempty (Inr res) None w0)"
  have ok: "world_ok w0"
    using ledger_store.inv_exec [OF ledger_inv_empty, of "SetQuota ''o'' ''p'' 5"]
    by (simp add: world_ok_def w0_def fresh_world_def)
  have first: "execute_paid_effect (\<lambda>_. []) ctx ''o'' ''k'' ''p'' 1 fmempty (Inr res) None w0 = (Inr res, w1)"
    and c: "calls w1 = [(''o'', ''k'')]"
    by (simp_all add: w1_def w0_def ctx_def fresh_world_def execute_paid_effect_def ledger_call_def interleave_def
        run_operation_def provider_call_def ledger_eval reservation_def)
  have ne: "res \<noteq> fmempty"
    by (metis fmempty_lookup fmlookup_of_list map_of_Cons_code(2) option.distinct(1) res_def)
  have "durable ctx"
    by (simp add: ctx_def)
  from paid_effect_replay [OF ok this first ne, of "\<lambda>_. []" "Inr fmempty" None] c
  show ?thesis
    unfolding Let_def ctx_def [symmetric] res_def [symmetric] w0_def [symmetric] w1_def [symmetric] by simp
qed

text \<open>
   A definitively failed effect is never executed again: once the ledger holds it as failed, even when
  it failed before being billed and its quota was released, every further execution of the same effect
  raises \<open>RuntimeError\<close> without calling the provider, under any interleaving.
\<close>

theorem failed_effect_never_retried:
  assumes "ledger_inv (led w)" "tget ekey (org, k) (external_effects (led w)) = Some row"
    and "same_payload row (ctx_run_id ctx) p u (JObj req)" "status row = Failed"
    and "durable ctx" "paid_adapters_enabled ctx" "has_ledger ctx"
  shows "\<exists>w'. execute_paid_effect env ctx org k p u req operation reconcile w = (Inl (PyErr RuntimeError), w') \<and>
    calls w' = calls w"
proof -
  obtain row' where row': "tget ekey (org, k) (external_effects (interleave env w)) = Some row'" "effect_le row row'"
    using row_at_call [OF assms(1,2)] by blast
  have same: "same_payload row' (ctx_run_id ctx) p u (JObj req)" "status row' = Failed"
    using assms(3,4) row'(2) by (simp_all add: effect_le_def same_payload_def)
  have res: "reserve org k (ctx_run_id ctx) p u (JObj req) (interleave env w) = Inr (reservation row' False, interleave env w)"
    using reserve_existing [OF interleave_ok(1) [OF assms(1)] row'(1) same(1)] same(2) by simp
  let ?w1 = "w\<lparr>led := interleave env w, tick := Suc (tick w)\<rparr>"
  have "ledger_inv (led ?w1)" "tget ekey (org, k) (external_effects (led ?w1)) = Some row'"
    using interleave_ok(1) [OF assms(1)] row' by simp_all
  then obtain row2 where row2: "tget ekey (org, k) (external_effects (interleave env ?w1)) = Some row2" "effect_le row' row2"
    using row_at_call by blast
  then have "status row2 = Failed"
    using same(2) by (simp add: effect_le_def)
  then have "\<exists>w2. ledger_call env (mark_uncertain org k err None) ?w1 = (Inr (reservation row2 False), w2) \<and> calls w2 = calls w" for err
    using row2 by (simp add: ledger_call_def Let_def mark_uncertain_def)
  then show ?thesis
    using assms(5-7) res same(2) unfolding execute_paid_effect_def
    by (simp add: ledger_call_def [of env "reserve org k (ctx_run_id ctx) p u (JObj req)"] Let_def raise_after_def)
      (metis (no_types, lifting) case_prod_conv old.sum.simps(6))
qed


theorem failed_effect_never_retried_witness:
  "let ctx = \<lparr>ctx_run_id = ''r'', durable = True, paid_adapters_enabled = True, has_ledger = True\<rparr>;
       exc = \<lparr>exc_kind = ConnectTimeout, exc_cause = None, exc_status_code = NoAttr\<rparr>;
       w0 = fresh_world\<lparr>led := exec_ledger (SetQuota ''o'' ''p'' 5) empty_ledger\<rparr>;
       w1 = snd (execute_paid_effect (\<lambda>_. []) ctx ''o'' ''k'' ''p'' 1 fmempty (Inl exc) None w0)
   in quota_usage ''o'' ''p'' (led w1) = Inr (0, 5) \<and>
      (\<exists>w2. execute_paid_effect (\<lambda>_. []) ctx ''o'' ''k'' ''p'' 1 fmempty (Inr fmempty) None w1 =
         (Inl (PyErr RuntimeError), w2) \<and> calls w2 = [(''o'', ''k'')])"
proof -
  define ctx where "ctx = \<lparr>ctx_run_id = ''r'', durable = True, paid_adapters_enabled = True, has_ledger = True\<rparr>"
  define exc where "exc = \<lparr>exc_kind = ConnectTimeout, exc_cause = None, exc_status_code = NoAttr\<rparr>"
  define w0 where "w0 = fresh_world\<lparr>led := exec_ledger (SetQuota ''o'' ''p'' 5) empty_ledger\<rparr>"
  define w1 where "w1 = snd (execute_paid_effect (\<lambda>_. []) ctx ''o'' ''k'' ''p'' 1 fmempty (Inl exc) None w0)"
  have d: "durable ctx" "paid_adapters_enabled ctx" "has_ledger ctx"
    by (simp_all add: ctx_def)
  have "world_ok w0"
    using ledger_store.inv_exec [OF ledger_inv_empty, of "SetQuota ''o'' ''p'' 5"]
    by (simp add: world_ok_def w0_def fresh_world_def)
  then have inv: "ledger_inv (led w1)"
    using execute_paid_effect_ok [of w0 ctx] d(1) by (simp add: w1_def world_ok_def)
  have eval: "quota_usage ''o'' ''p'' (led w1) = Inr (0, 5)" "calls w1 = [(''o'', ''k'')]"
    "\<exists>row. tget ekey (''o'', ''k'') (external_effects (led w1)) = Some row \<and>
       same_payload row (ctx_run_id ctx) ''p'' 1 (JObj fmempty) \<and> status row = Failed"
    by (simp_all add: w1_def w0_def ctx_def exc_def fresh_world_def execute_paid_effect_def ledger_call_def
        interleave_def run_operation_def provider_call_def ledger_eval raise_after_def definitely_not_billed_def
        never_sent_def same_payload_def)
  then obtain row where row: "tget ekey (''o'', ''k'') (external_effects (led w1)) = Some row"
      "same_payload row (ctx_run_id ctx) ''p'' 1 (JObj fmempty)" "status row = Failed"
    by blast
  show ?thesis
    using failed_effect_never_retried [OF inv row d, of "\<lambda>_. []" "Inr fmempty" None] eval
    unfolding Let_def ctx_def [symmetric] exc_def [symmetric] w0_def [symmetric] w1_def [symmetric] by simp
qed

end
