(* ===== verification/Replicate_Webhook.thy ===== *)
theory Replicate_Webhook
  imports Paid_Effect
begin

text \<open>
  Webhooks of the video provider (\<open>src/src/orchestrator/replicate_webhook.py\<close>): the event read from
  the verified JSON body and its application to the ledger. \<open>ReplicateWebhookError\<close> is a
  \<open>ValueError\<close>. The signature and correlation checks (base64, HMAC) are not modelled. \<open>pstr\<close> is
  Python's \<open>str\<close> on JSON values that are not strings.
\<close>

section \<open>Events\<close>

record replicate_event =
  prediction_id :: string
  prediction_status :: provider_status

text \<open>\<open>str(payload.get(key) or "").strip()\<close>\<close>

definition text_field :: "(json \<Rightarrow> string) \<Rightarrow> jdict \<Rightarrow> string \<Rightarrow> string" where
  "text_field pstr payload key =
    (case fmlookup payload key of
       None \<Rightarrow> []
     | Some v \<Rightarrow> if \<not> py_truthy v then [] else strip (case v of JStr s \<Rightarrow> s | _ \<Rightarrow> pstr v))"

definition parse_event :: "(json \<Rightarrow> string) \<Rightarrow> json \<Rightarrow> replicate_event res" where
  "parse_event pstr payload =
    (case payload of
       JObj m \<Rightarrow>
         (let pid = text_field pstr m ''id'';
              st0 = py_lower (text_field pstr m ''status'');
              st = (if st0 = ''cancelled'' then ''canceled'' else st0)
          in if pid = [] then Inl ValueError
             else case provider_status_of st of
               None \<Rightarrow> Inl ValueError
             | Some s \<Rightarrow> Inr \<lparr>prediction_id = pid, prediction_status = s\<rparr>)
     | _ \<Rightarrow> Inl ValueError)"

fun provider_status_str :: "provider_status \<Rightarrow> string" where
  "provider_status_str PStarting = ''starting''"
| "provider_status_str PProcessing = ''processing''"
| "provider_status_str PSucceeded = ''succeeded''"
| "provider_status_str PFailed = ''failed''"
| "provider_status_str PCanceled = ''canceled''"

lemma provider_status_str_norm [simp]: "py_lower (strip (provider_status_str s)) = provider_status_str s"
  by (cases s) (simp_all add: py_lower_def py_lower_char_def strip_def py_space_def)

lemma provider_status_of_str [simp]: "provider_status_of (provider_status_str s) = Some s"
  by (cases s) (simp_all add: provider_status_of_def)

lemma merge_str [simp]: "merge_provider_status c (provider_status_str s) = Inr (merge_known c s)"
  by (simp add: merge_provider_status_def)

section \<open>Applying an event\<close>

definition read_ledger :: "(ledger \<Rightarrow> 'a res) \<Rightarrow> ledger \<Rightarrow> ('a \<times> ledger) res" where
  "read_ledger f l = (case f l of Inl e \<Rightarrow> Inl e | Inr x \<Rightarrow> Inr (x, l))"

definition failed_status :: "provider_status option \<Rightarrow> bool" where
  "failed_status ps = (ps = Some PFailed \<or> ps = Some PCanceled)"

definition state_values ::
  "effect_reservation \<Rightarrow> effect_status \<times> string option \<times> provider_status option" where
  "state_values r = (status r, provider_operation_id r, provider_status r)"

definition record_event ::
  "env \<Rightarrow> org_id \<Rightarrow> string \<Rightarrow> replicate_event \<Rightarrow> effect_reservation \<Rightarrow> world \<Rightarrow> effect_reservation res \<times> world" where
  "record_event env org k ev before w =
    (case provider_operation_id before of
       None \<Rightarrow> ledger_call env (bind_provider_operation org k (prediction_id ev)
                 (provider_status_str (prediction_status ev))) w
     | Some opid \<Rightarrow>
         if opid \<noteq> prediction_id ev then (Inl ValueError, w)
         else ledger_call env (update_provider_status org k (provider_status_str (prediction_status ev))
           (if failed_status (Some (prediction_status ev)) then Some ''ReplicatePredictionError'' else None)) w)"

definition apply_replicate_event ::
  "env \<Rightarrow> org_id \<Rightarrow> string \<Rightarrow> replicate_event \<Rightarrow> world \<Rightarrow> bool res \<times> world" where
  "apply_replicate_event env org k ev w =
    (case ledger_call env (read_ledger (get org k)) w of
       (Inl e, w1) \<Rightarrow> (Inl e, w1)
     | (Inr before, w1) \<Rightarrow>
        (case record_event env org k ev before w1 of
           (Inl e, w2) \<Rightarrow> (Inl e, w2)
         | (Inr after, w2) \<Rightarrow>
             (let changed = (state_values before \<noteq> state_values after) in
              if failed_status (provider_status after) \<and> status after \<noteq> Failed then
                (case ledger_call env (mark_failed org k
                      (''provider_'' @ provider_status_str (the (provider_status after))) False
                      (Some ''ReplicatePredictionError'')) w2 of
                   (Inl e, w3) \<Rightarrow> (Inl e, w3)
                 | (Inr _, w3) \<Rightarrow> (Inr True, w3))
              else (Inr changed, w2))))"

section \<open>Properties\<close>

lemma keeps_ledger_read [simp, intro]: "keeps_ledger (read_ledger f)"
  by (rule keeps_ledgerI) (auto simp: read_ledger_def split: sum.splits)

lemma apply_event_ok:
  assumes "world_ok w"
  shows "world_ok (snd (apply_replicate_event env org k ev w))"
  using assms
  by (auto simp: apply_replicate_event_def record_event_def Let_def
      split: prod.splits sum.splits option.splits if_splits dest: ledger_call_ok)

text \<open>What an event that was applied leaves in the ledger.\<close>

definition event_applied :: "org_id \<Rightarrow> string \<Rightarrow> replicate_event \<Rightarrow> ledger \<Rightarrow> bool" where
  "event_applied org k ev l = (\<exists>row s. tget ekey (org, k) (external_effects l) = Some row \<and>
     provider_operation_id row = Some (prediction_id ev) \<and> provider_status row = Some s \<and>
     merge_known (Some s) (prediction_status ev) = s \<and>
     (failed_status (Some s) \<longrightarrow> status row = Failed))"

lemma merge_known_absorbs: "merge_known (Some (merge_known c i)) i = merge_known c i"
  by (cases c) (auto simp: merge_known_simps)

lemma apply_event_applied:
  assumes pid: "strip (prediction_id ev) = prediction_id ev"
    and run: "apply_replicate_event (\<lambda>_. []) org k ev w = (Inr c, w')"
  shows "event_applied org k ev (led w')"
proof -
  obtain row where row: "tget ekey (org, k) (external_effects (led w)) = Some row"
    using run by (auto simp: apply_replicate_event_def ledger_call_def Let_def read_ledger_def get_def
        split: option.splits sum.splits)
  let ?w1 = "w\<lparr>tick := Suc (tick w)\<rparr>"
  have first: "ledger_call (\<lambda>_. []) (read_ledger (get org k)) w = (Inr (reservation row False), ?w1)"
    using row by (simp add: ledger_call_def Let_def read_ledger_def get_def)
  obtain after w2 where rec: "record_event (\<lambda>_. []) org k ev (reservation row False) ?w1 = (Inr after, w2)"
    using run first by (auto simp: apply_replicate_event_def split: prod.splits sum.splits)
  obtain row2 s where row2: "tget ekey (org, k) (external_effects (led w2)) = Some row2"
      "provider_operation_id row2 = Some (prediction_id ev)" "provider_status row2 = Some s"
      "merge_known (Some s) (prediction_status ev) = s" "status row2 = status after" "provider_status after = Some s"
    using rec row pid
    by (auto simp: record_event_def ledger_call_def Let_def bind_provider_operation_def update_provider_status_def
        merge_known_absorbs tget_tupd split: option.splits if_splits sum.splits)
  show ?thesis
  proof (cases "failed_status (Some s) \<and> status after \<noteq> Failed")
    case True
    then show ?thesis
      using run first rec row2
      by (auto simp: apply_replicate_event_def ledger_call_def Let_def mark_failed_def release_units_def tget_tupd
          event_applied_def split: sum.splits prod.splits if_splits)
  next
    case False
    then show ?thesis
      using run first rec row2 by (auto simp: apply_replicate_event_def event_applied_def Let_def)
  qed
qed


lemma merge_known_event:
  assumes "event_applied org k ev l" "tget ekey (org, k) (external_effects l) = Some row"
  shows "provider_operation_id row = Some (prediction_id ev)"
    "\<exists>s. provider_status row = Some s \<and> merge_known (Some s) (prediction_status ev) = s \<and>
       (failed_status (Some s) \<longrightarrow> status row = Failed)"
  using assms by (auto simp: event_applied_def)

text \<open>
   Redelivered webhooks are harmless: when an event has been applied successfully, applying it again
  reports no change and leaves the status, the bound operation and the provider status of the
  effect as they were.
\<close>

theorem webhook_redelivery:
  assumes "strip (prediction_id ev) = prediction_id ev"
    and "apply_replicate_event (\<lambda>_. []) org k ev w = (Inr c, w')"
  shows "\<exists>w'' r r'. apply_replicate_event (\<lambda>_. []) org k ev w' = (Inr False, w'') \<and>
    get org k (led w') = Inr r \<and> get org k (led w'') = Inr r' \<and> state_values r' = state_values r"
proof -
  have applied: "event_applied org k ev (led w')"
    using assms by (rule apply_event_applied)
  then obtain row s where row: "tget ekey (org, k) (external_effects (led w')) = Some row"
      "provider_operation_id row = Some (prediction_id ev)" "provider_status row = Some s"
      "merge_known (Some s) (prediction_status ev) = s" "failed_status (Some s) \<longrightarrow> status row = Failed"
    by (auto simp: event_applied_def)
  let ?et = "if failed_status (Some (prediction_status ev)) then Some ''ReplicatePredictionError'' else None"
  let ?f = "\<lambda>r. set_error_type ?et (r\<lparr>provider_status := Some s\<rparr>)"
  have "update_provider_status org k (provider_status_str (prediction_status ev)) ?et (led w') =
      Inr (reservation (?f row) False, upd_effect org k ?f (led w'))"
    using row by (simp add: update_provider_status_def Let_def)
  then show ?thesis
    using row
    by (auto simp: apply_replicate_event_def record_event_def ledger_call_def Let_def read_ledger_def get_def
        state_values_def tget_tupd)
qed

theorem webhook_redelivery_witness:
  "let ev = \<lparr>prediction_id = ''p1'', prediction_status = PFailed\<rparr>;
       w0 = fresh_world\<lparr>led := run_ops exec_ledger [SetQuota ''o'' ''p'' 5, Reserve ''o'' ''k'' ''r'' ''p'' 1 JNull] empty_ledger\<rparr>;
       w1 = snd (apply_replicate_event (\<lambda>_. []) ''o'' ''k'' ev w0)
   in fst (apply_replicate_event (\<lambda>_. []) ''o'' ''k'' ev w0) = Inr True \<and>
      fst (apply_replicate_event (\<lambda>_. []) ''o'' ''k'' ev w1) = Inr False"
proof -
  define ev where "ev = \<lparr>prediction_id = ''p1'', prediction_status = PFailed\<rparr>"
  define w0 where "w0 = fresh_world\<lparr>led := run_ops exec_ledger [SetQuota ''o'' ''p'' 5, Reserve ''o'' ''k'' ''r'' ''p'' 1 JNull] empty_ledger\<rparr>"
  define w1 where "w1 = snd (apply_replicate_event (\<lambda>_. []) ''o'' ''k'' ev w0)"
  have "fst (apply_replicate_event (\<lambda>_. []) ''o'' ''k'' ev w0) = Inr True"
    by (simp add: w0_def ev_def fresh_world_def apply_replicate_event_def record_event_def ledger_call_def
        interleave_def read_ledger_def get_def reservation_def state_values_def failed_status_def ledger_eval)
  then have first: "apply_replicate_event (\<lambda>_. []) ''o'' ''k'' ev w0 = (Inr True, w1)"
    by (simp add: w1_def prod_eq_iff)
  have "strip (prediction_id ev) = prediction_id ev"
    by (simp add: ev_def strip_def py_space_def)
  from webhook_redelivery [OF this first] first show ?thesis
    unfolding Let_def ev_def [symmetric] w0_def [symmetric] w1_def [symmetric] by auto
qed

end
