(* ===== verification/Video_Lifecycle.thy ===== *)
theory Video_Lifecycle
  imports Replicate_Webhook
begin

text \<open>
  The durable life cycle of one video prediction (\<open>src/src/orchestrator/tools/video.py\<close>,
  \<open>_durable_prediction_lifecycle\<close>): reserve, submit, wait for the provider's operation id, poll, cancel
  on timeout, store the artifact and settle the effect in the ledger. It runs in the worlds of
  \<open>Paid_Effect\<close>, with the ledger transactions of other processes before every ledger call.

  What the outside answers is collected in a \<open>video_input\<close>: the answer to the submission, how often
  the ledger is read before the deadline while waiting for the operation id, the answers to the
  polls made before the deadline, the answer to the cancellation, and the conversion and the storing
  of the artifact. Statuses of predictions are the raw strings of the provider. Artifacts are their
  JSON dumps.
\<close>

section \<open>Inputs\<close>

record prediction =
  pred_id :: string
  pred_status :: string
  pred_error :: "string option"

text \<open>What the code reads of a rejected submission to describe it.\<close>

record submit_exc = py_exc +
  exc_detail :: "string option"
  exc_body :: "json option"
  exc_text :: "string option"
  exc_str :: string

record video_input =
  webhook_configured :: bool
  submit_answer :: "submit_exc + prediction"
  wait_turns :: nat
  poll_answers :: "(py_exc + prediction) list"
  cancel_answer :: "py_exc + prediction"
  artifact_fn :: "prediction \<Rightarrow> string + jdict"
  persist_fn :: "(jdict \<Rightarrow> perr + jdict) option"
  validate_artifact :: "json \<Rightarrow> perr + jdict"

definition terminal_status :: "string \<Rightarrow> bool" where
  "terminal_status s = (s \<in> {''succeeded'', ''failed'', ''canceled''})"

definition video_error :: "string \<Rightarrow> bool \<Rightarrow> bool \<Rightarrow> string \<Rightarrow> perr" where
  "video_error code retryable uncertain et =
    VideoErr \<lparr>vee_code = code, vee_retryable = retryable, vee_uncertain = uncertain, vee_error_type = et\<rparr>"

text \<open>\<open>httpx.TransportError\<close>, \<open>httpx.HTTPStatusError\<close> and \<open>ReplicateError\<close>: the errors of polling and
  cancelling that are handled.\<close>

fun provider_unavailable :: "exc_kind \<Rightarrow> bool" where
  "provider_unavailable (OtherException _) = False"
| "provider_unavailable _ = True"

definition ambiguous_create :: "exc_kind \<Rightarrow> bool" where
  "ambiguous_create k = (k \<in> {ReadError, ReadTimeout, WriteError, WriteTimeout})"

fun http_status :: "exc_kind \<Rightarrow> int option" where
  "http_status (HTTPStatusError n) = Some n"
| "http_status (ReplicateError st) = st"
| "http_status _ = None"

definition truthy_text :: "(json \<Rightarrow> string) \<Rightarrow> json option \<Rightarrow> string option" where
  "truthy_text pstr v =
    (case v of
       None \<Rightarrow> None
     | Some x \<Rightarrow> if py_truthy x then Some (case x of JStr s \<Rightarrow> s | _ \<Rightarrow> pstr x) else None)"

text \<open>\<open>a or b\<close> on optional strings.\<close>

definition or_else :: "string option \<Rightarrow> string option \<Rightarrow> string option" where
  "or_else a b = (case a of Some (c # cs) \<Rightarrow> a | _ \<Rightarrow> b)"

definition error_detail :: "(json \<Rightarrow> string) \<Rightarrow> submit_exc \<Rightarrow> string option" where
  "error_detail pstr exc =
    (let is_http = (case exc_kind exc of HTTPStatusError _ \<Rightarrow> True | _ \<Rightarrow> False);
         from_response =
           (case exc_body exc of
              Some (JObj m) \<Rightarrow>
                (case truthy_text pstr (fmlookup m ''detail'') of
                   Some d \<Rightarrow> Some d
                 | None \<Rightarrow>
                    (case truthy_text pstr (fmlookup m ''error'') of
                       Some d \<Rightarrow> Some d
                     | None \<Rightarrow> exc_text exc))
            | _ \<Rightarrow> exc_text exc);
         detail = or_else (exc_detail exc) (if is_http then from_response else None)
     in or_else detail (if strip (exc_str exc) \<noteq> [] then Some (exc_str exc) else None))"

definition error_message :: "(json \<Rightarrow> string) \<Rightarrow> submit_exc \<Rightarrow> string" where
  "error_message pstr exc =
    (let et = type_name (exc_kind exc) in
     case error_detail pstr exc of
       Some (c # cs) \<Rightarrow> et @ '': '' @ (c # cs)
     | _ \<Rightarrow> et)"

section \<open>Phases of the life cycle\<close>

text \<open>\<open>wait_for_provider_operation\<close>: \<open>n\<close> turns before the deadline, one after it.\<close>

fun await_operation :: "env \<Rightarrow> org_id \<Rightarrow> string \<Rightarrow> nat \<Rightarrow> world \<Rightarrow> effect_reservation res \<times> world" where
  "await_operation env org k n w =
    (case ledger_call env (read_ledger (get org k)) w of
       (Inl e, w1) \<Rightarrow> (Inl e, w1)
     | (Inr r, w1) \<Rightarrow>
         if provider_operation_id r \<noteq> None \<and> provider_operation_id r \<noteq> Some [] then (Inr r, w1)
         else (case n of 0 \<Rightarrow> (Inr r, w1) | Suc m \<Rightarrow> await_operation env org k m w1))"

declare await_operation.simps [simp del]

definition await_id ::
  "env \<Rightarrow> org_id \<Rightarrow> string \<Rightarrow> nat \<Rightarrow> world \<Rightarrow> (perr + string option) \<times> world" where
  "await_id env org k n w =
    (case await_operation env org k n w of
       (Inl e, w1) \<Rightarrow> (Inl (PyErr e), w1)
     | (Inr r, w1) \<Rightarrow> (Inr (provider_operation_id r), w1))"

definition uncertain_then_await ::
  "env \<Rightarrow> org_id \<Rightarrow> string \<Rightarrow> string \<Rightarrow> string \<Rightarrow> nat \<Rightarrow> world \<Rightarrow> (perr + string option) \<times> world" where
  "uncertain_then_await env org k err et n w =
    (case ledger_call env (mark_uncertain org k err (Some et)) w of
       (Inl e, w1) \<Rightarrow> (Inl (PyErr e), w1)
     | (Inr _, w1) \<Rightarrow> await_id env org k n w1)"

text \<open>An HTTP error answered to the submission: a client error settles the effect as failed, anything
  else is ambiguous.\<close>

definition rejected_submission ::
  "(json \<Rightarrow> string) \<Rightarrow> env \<Rightarrow> org_id \<Rightarrow> string \<Rightarrow> video_input \<Rightarrow> submit_exc \<Rightarrow> world \<Rightarrow>
   (perr + string option) \<times> string option \<times> world" where
  "rejected_submission pstr env org k inp exc w =
    (let et = type_name (exc_kind exc);
         msg = error_message pstr exc;
         ambiguous = (case uncertain_then_await env org k msg et (wait_turns inp) w of
                        (r, w1) \<Rightarrow> (r, Some et, w1))
     in case http_status (exc_kind exc) of
          None \<Rightarrow> ambiguous
        | Some st \<Rightarrow>
            if client_error st then
              (case raise_after (ledger_call env (mark_failed org k msg True (Some et)) w)
                      (video_error ''provider_rejected'' (st = 429) False et) of
                 (r, w1) \<Rightarrow> (r, None, w1))
            else ambiguous)"

text \<open>The submission of a freshly reserved effect; the result is the operation id and the type of the
  error that made the submission ambiguous.\<close>

definition submit_prediction ::
  "(json \<Rightarrow> string) \<Rightarrow> env \<Rightarrow> org_id \<Rightarrow> string \<Rightarrow> video_input \<Rightarrow> world \<Rightarrow>
   (perr + string option) \<times> string option \<times> world" where
  "submit_prediction pstr env org k inp w =
    (if \<not> webhook_configured inp then (Inl (PyErr RuntimeError), None, w)
     else
       let w1 = provider_call org k w in
       case submit_answer inp of
         Inr p \<Rightarrow>
           (case ledger_call env (bind_provider_operation org k (pred_id p) (pred_status p)) w1 of
              (Inl e, w2) \<Rightarrow> (Inl (PyErr e), None, w2)
            | (Inr _, w2) \<Rightarrow> (Inr (Some (pred_id p)), None, w2))
       | Inl exc \<Rightarrow>
           (let kind = exc_kind exc; et = type_name kind in
            if never_sent kind then
              (case raise_after (ledger_call env (mark_failed org k et True (Some et)) w1)
                      (video_error ''provider_unreachable'' True False et) of
                 (r, w2) \<Rightarrow> (r, None, w2))
            else case kind of
              HTTPStatusError _ \<Rightarrow> rejected_submission pstr env org k inp exc w1
            | ReplicateError _ \<Rightarrow> rejected_submission pstr env org k inp exc w1
            | _ \<Rightarrow>
               if ambiguous_create kind then
                 (case uncertain_then_await env org k et et (wait_turns inp) w1 of
                    (r, w2) \<Rightarrow> (r, Some et, w2))
               else (Inl (ProviderErr (py_exc.truncate exc)), None, w1)))"


text \<open>Settling a prediction that succeeded.\<close>

definition finish_prediction ::
  "env \<Rightarrow> org_id \<Rightarrow> string \<Rightarrow> video_input \<Rightarrow> prediction \<Rightarrow> world \<Rightarrow> (perr + jdict) \<times> world" where
  "finish_prediction env org k inp p w =
    (case artifact_fn inp p of
       Inl et \<Rightarrow> raise_after (ledger_call env (mark_failed org k et False (Some et)) w)
                  (video_error ''invalid_prediction_output'' False False et)
     | Inr a \<Rightarrow>
        (case (case persist_fn inp of None \<Rightarrow> Inr a | Some f \<Rightarrow> f a) of
           Inl e \<Rightarrow> (Inl e, w)
         | Inr a' \<Rightarrow>
            (case ledger_call env (mark_succeeded org k
                   (JObj (fmap_of_list [(''provider_prediction_id'', JStr (pred_id p)), (''artifact'', JObj a')]))) w of
               (Inl e, w1) \<Rightarrow> (Inl (PyErr e), w1)
             | (Inr _, w1) \<Rightarrow> (Inr a', w1))))"

text \<open>The polls before the deadline: an error, or the last prediction read.\<close>

fun poll_prediction ::
  "env \<Rightarrow> org_id \<Rightarrow> string \<Rightarrow> (py_exc + prediction) list \<Rightarrow> prediction option \<Rightarrow> world \<Rightarrow>
   (perr + prediction option) \<times> world" where
  "poll_prediction env org k [] prev w = (Inr prev, w)"
| "poll_prediction env org k (a # as) prev w =
    (case a of
       Inl exc \<Rightarrow>
         (if provider_unavailable (exc_kind exc) then
            (let et = type_name (exc_kind exc) in
             raise_after (ledger_call env (mark_uncertain org k et (Some et)) w)
               (video_error ''prediction_poll_unavailable'' True True et))
          else (Inl (ProviderErr exc), w))
     | Inr p \<Rightarrow>
        (case ledger_call env (update_provider_status org k (pred_status p) None) w of
           (Inl e, w1) \<Rightarrow> (Inl (PyErr e), w1)
         | (Inr _, w1) \<Rightarrow>
             if terminal_status (pred_status p) then (Inr (Some p), w1)
             else poll_prediction env org k as (Some p) w1))"

text \<open>The deadline passed: cancel, and take the result if the prediction had succeeded meanwhile.\<close>

definition time_out_prediction ::
  "env \<Rightarrow> org_id \<Rightarrow> string \<Rightarrow> video_input \<Rightarrow> world \<Rightarrow> (perr + jdict) \<times> world" where
  "time_out_prediction env org k inp w =
    (let give_up = (\<lambda>w. raise_after (ledger_call env (mark_uncertain org k ''PredictionTimeout''
             (Some ''PredictionTimeout'')) w) (video_error ''prediction_timeout'' False True ''PredictionTimeout''))
     in case cancel_answer inp of
       Inl exc \<Rightarrow> if provider_unavailable (exc_kind exc) then give_up w else (Inl (ProviderErr exc), w)
     | Inr c \<Rightarrow>
        (case ledger_call env (update_provider_status org k (pred_status c) (Some ''PredictionTimeout'')) w of
           (Inl e, w1) \<Rightarrow> (Inl (PyErr e), w1)
         | (Inr _, w1) \<Rightarrow>
             if pred_status c = ''failed'' \<or> pred_status c = ''canceled'' then
               raise_after (ledger_call env (mark_failed org k (''provider_'' @ pred_status c) False
                   (Some ''PredictionTimeout'')) w1)
                 (video_error (''prediction_'' @ pred_status c) False False ''PredictionTimeout'')
             else if pred_status c = ''succeeded'' then finish_prediction env org k inp c w1
             else give_up w1))"

text \<open>The prediction reached a terminal status.\<close>

definition settle_prediction ::
  "env \<Rightarrow> org_id \<Rightarrow> string \<Rightarrow> video_input \<Rightarrow> prediction \<Rightarrow> world \<Rightarrow> (perr + jdict) \<times> world" where
  "settle_prediction env org k inp p w =
    (if pred_status p \<noteq> ''succeeded'' then
       (let err = (case pred_error p of Some (c # cs) \<Rightarrow> c # cs | _ \<Rightarrow> ''provider_'' @ pred_status p) in
        raise_after (ledger_call env (mark_failed org k err False (Some ''ReplicatePredictionError'')) w)
          (video_error (''prediction_'' @ pred_status p) False False ''ReplicatePredictionError''))
     else finish_prediction env org k inp p w)"

definition follow_prediction ::
  "env \<Rightarrow> org_id \<Rightarrow> string \<Rightarrow> video_input \<Rightarrow> world \<Rightarrow> (perr + jdict) \<times> world" where
  "follow_prediction env org k inp w =
    (case poll_prediction env org k (poll_answers inp) None w of
       (Inl e, w1) \<Rightarrow> (Inl e, w1)
     | (Inr None, w1) \<Rightarrow> time_out_prediction env org k inp w1
     | (Inr (Some p), w1) \<Rightarrow>
         if terminal_status (pred_status p) then settle_prediction env org k inp p w1
         else time_out_prediction env org k inp w1)"

text \<open>Without an operation id the effect stays uncertain; with one, it is followed.\<close>

definition resolve_prediction ::
  "env \<Rightarrow> org_id \<Rightarrow> string \<Rightarrow> video_input \<Rightarrow> string option \<Rightarrow> (perr + string option) \<times> world \<Rightarrow>
   (perr + jdict) \<times> world" where
  "resolve_prediction env org k inp ambiguity = (\<lambda>(r, w).
    (case r of
       Inl e \<Rightarrow> (Inl e, w)
     | Inr pid \<Rightarrow>
         if pid = None \<or> pid = Some [] then
           (Inl (video_error ''prediction_id_unresolved'' False True
              (case ambiguity of Some (c # cs) \<Rightarrow> c # cs | _ \<Rightarrow> ''PredictionIdUnresolved'')), w)
         else follow_prediction env org k inp w))"

definition replay_video :: "video_input \<Rightarrow> effect_reservation \<Rightarrow> world \<Rightarrow> (perr + jdict) \<times> world" where
  "replay_video inp r w =
    (case result r of
       Some (JObj m) \<Rightarrow>
        (case fmlookup m ''artifact'' of
           None \<Rightarrow> (Inl (PyErr RuntimeError), w)
         | Some a \<Rightarrow> if \<not> py_truthy a then (Inl (PyErr RuntimeError), w) else (validate_artifact inp a, w))
     | _ \<Rightarrow> (Inl (PyErr RuntimeError), w))"

definition reserve_or_get ::
  "env \<Rightarrow> org_id \<Rightarrow> string \<Rightarrow> string \<Rightarrow> string \<Rightarrow> int \<Rightarrow> jdict \<Rightarrow> world \<Rightarrow> (perr + effect_reservation) \<times> world" where
  "reserve_or_get env org k rid prov u req w =
    (case ledger_call env (reserve org k rid prov u (JObj req)) w of
       (Inr r, w1) \<Rightarrow> (Inr r, w1)
     | (Inl e, w1) \<Rightarrow>
         if e \<noteq> UncertainEffectError then (Inl (PyErr e), w1)
         else (case ledger_call env (read_ledger (get org k)) w1 of
                 (Inl e', w2) \<Rightarrow> (Inl (PyErr e'), w2)
               | (Inr r, w2) \<Rightarrow> (Inr r, w2)))"

definition durable_prediction_lifecycle ::
  "(json \<Rightarrow> string) \<Rightarrow> env \<Rightarrow> tool_context \<Rightarrow> org_id \<Rightarrow> string \<Rightarrow> string \<Rightarrow> int \<Rightarrow> jdict \<Rightarrow> video_input \<Rightarrow> world \<Rightarrow>
   (perr + jdict) \<times> world" where
  "durable_prediction_lifecycle pstr env ctx org k prov u req inp w =
    (if \<not> has_ledger ctx then (Inl (PyErr RuntimeError), w)
     else case reserve_or_get env org k (ctx_run_id ctx) prov u req w of
       (Inl e, w1) \<Rightarrow> (Inl e, w1)
     | (Inr r, w1) \<Rightarrow>
         if status r = Succeeded then replay_video inp r w1
         else if created r then
           (case submit_prediction pstr env org k inp w1 of
              (s, amb, w2) \<Rightarrow>
                resolve_prediction env org k inp (case amb of None \<Rightarrow> error_type r | Some t \<Rightarrow> Some t) (s, w2))
         else
           let pid = provider_operation_id r in
           if pid = None \<or> pid = Some [] then
             resolve_prediction env org k inp (error_type r) (await_id env org k (wait_turns inp) w1)
           else resolve_prediction env org k inp (error_type r) (Inr pid, w1))"


section \<open>The invariant of the worlds\<close>

lemma await_operation_ok: "world_ok w \<Longrightarrow> world_ok (snd (await_operation env org k n w))"
proof (induction n arbitrary: w)
  case 0
  then show ?case
    by (subst await_operation.simps) (auto split: prod.splits sum.splits dest: ledger_call_ok)
next
  case (Suc n)
  then show ?case
    by (subst await_operation.simps) (auto split: prod.splits sum.splits dest: ledger_call_ok)
qed

lemma await_id_ok: "world_ok w \<Longrightarrow> world_ok (snd (await_id env org k n w))"
  using await_operation_ok [of w env org k n] by (auto simp: await_id_def split: prod.splits sum.splits)

lemma uncertain_then_await_ok: "world_ok w \<Longrightarrow> world_ok (snd (uncertain_then_await env org k err et n w))"
  by (auto simp: uncertain_then_await_def intro: await_id_ok split: prod.splits sum.splits dest: ledger_call_ok)

text \<open>The same facts for results that have been split into answer and world.\<close>

lemma raise_after_okD: "raise_after (ledger_call env f w) err = (r, w') \<Longrightarrow> world_ok w \<Longrightarrow> keeps_ledger f \<Longrightarrow> world_ok w'"
  by (auto simp: raise_after_def split: prod.splits sum.splits dest: ledger_call_ok)

lemma uncertain_then_await_okD: "uncertain_then_await env org k err et n w = (r, w') \<Longrightarrow> world_ok w \<Longrightarrow> world_ok w'"
  using uncertain_then_await_ok [of w env org k err et n] by simp

lemmas world_okD = ledger_call_ok raise_after_okD uncertain_then_await_okD

lemma rejected_submission_ok:
  "world_ok w \<Longrightarrow> world_ok (snd (snd (rejected_submission pstr env org k inp exc w)))"
  by (auto simp: rejected_submission_def Let_def split: option.splits prod.splits dest: world_okD)

lemma submit_prediction_ok:
  assumes "world_ok w" "world_ok (provider_call org k w)"
  shows "world_ok (snd (snd (submit_prediction pstr env org k inp w)))"
proof (cases "submit_answer inp")
  case (Inl exc)
  then show ?thesis
    using assms
    by (cases "exc_kind exc")
      (auto simp: submit_prediction_def Let_def rejected_submission_ok split: prod.splits dest: world_okD)
next
  case (Inr p)
  then show ?thesis
    using assms by (auto simp: submit_prediction_def Let_def split: prod.splits sum.splits dest: world_okD)
qed

lemma finish_prediction_ok: "world_ok w \<Longrightarrow> world_ok (snd (finish_prediction env org k inp p w))"
  by (auto simp: finish_prediction_def raise_after_ok split: prod.splits sum.splits option.splits dest: world_okD)

lemma poll_prediction_ok: "world_ok w \<Longrightarrow> world_ok (snd (poll_prediction env org k as prev w))"
  by (induction as arbitrary: prev w)
    (auto simp: Let_def raise_after_ok split: sum.splits prod.splits dest: world_okD)

lemma time_out_prediction_ok: "world_ok w \<Longrightarrow> world_ok (snd (time_out_prediction env org k inp w))"
  by (auto simp: time_out_prediction_def Let_def raise_after_ok finish_prediction_ok
      split: sum.splits prod.splits dest: world_okD)

lemma settle_prediction_ok: "world_ok w \<Longrightarrow> world_ok (snd (settle_prediction env org k inp p w))"
  by (auto simp: settle_prediction_def Let_def raise_after_ok finish_prediction_ok)

lemma follow_prediction_ok:
  assumes "world_ok w"
  shows "world_ok (snd (follow_prediction env org k inp w))"
  using poll_prediction_ok [OF assms, of env org k "poll_answers inp" None]
  by (auto simp: follow_prediction_def time_out_prediction_ok settle_prediction_ok split: prod.splits sum.splits option.splits)

lemma resolve_prediction_ok:
  "world_ok (snd x) \<Longrightarrow> world_ok (snd (resolve_prediction env org k inp amb x))"
  by (auto simp: resolve_prediction_def follow_prediction_ok split: prod.splits sum.splits)

lemma replay_video_world [simp]: "snd (replay_video inp r w) = w"
  by (auto simp: replay_video_def split: option.splits json.splits)

lemma reserve_or_get_cases:
  assumes "reserve_or_get env org k rid prov u req w = (Inr r, w1)"
  obtains (reserved) "ledger_call env (reserve org k rid prov u (JObj req)) w = (Inr r, w1)"
  | (uncertain) w0 where "ledger_call env (reserve org k rid prov u (JObj req)) w = (Inl UncertainEffectError, w0)"
      "ledger_call env (read_ledger (get org k)) w0 = (Inr r, w1)"
  using assms by (auto simp: reserve_or_get_def split: prod.splits sum.splits if_splits)

lemma read_not_created:
  assumes "ledger_call env (read_ledger (get org k)) w = (Inr r, w1)"
  shows "\<not> created r"
  using assms
  by (auto elim!: ledger_call_cases simp: read_ledger_def get_def split: option.splits)

lemma reserve_or_get_ok:
  assumes "world_ok w"
  shows "world_ok (snd (reserve_or_get env org k rid prov u req w))"
    "reserve_or_get env org k rid prov u req w = (Inr r, w1) \<Longrightarrow> created r \<Longrightarrow> world_ok (provider_call org k w1)"
proof -
  show "world_ok (snd (reserve_or_get env org k rid prov u req w))"
    using assms by (auto simp: reserve_or_get_def split: prod.splits sum.splits dest: world_okD)
  show "world_ok (provider_call org k w1)"
    if "reserve_or_get env org k rid prov u req w = (Inr r, w1)" "created r"
    using that(1)
  proof (cases rule: reserve_or_get_cases)
    case reserved
    then show ?thesis
      using created_call_ok [OF assms] that(2) by blast
  next
    case (uncertain w0)
    then show ?thesis
      using read_not_created that(2) by blast
  qed
qed

lemma lifecycle_ok:
  assumes "world_ok w"
  shows "world_ok (snd (durable_prediction_lifecycle pstr env ctx org k prov u req inp w))"
proof -
  obtain x w1 where rg: "reserve_or_get env org k (ctx_run_id ctx) prov u req w = (x, w1)"
    by fastforce
  have w1: "world_ok w1"
    using reserve_or_get_ok(1) [OF assms, of env org k "ctx_run_id ctx" prov u req] rg by simp
  show ?thesis
  proof (cases x)
    case (Inl e)
    then show ?thesis
      using assms w1 rg by (simp add: durable_prediction_lifecycle_def)
  next
    case (Inr r)
    have "world_ok (snd (snd (submit_prediction pstr env org k inp w1)))" if "created r"
      using submit_prediction_ok [OF w1] reserve_or_get_ok(2) [OF assms rg [unfolded Inr] that] by blast
    then show ?thesis
      using assms w1 rg Inr
      by (auto simp: durable_prediction_lifecycle_def Let_def await_id_ok intro!: resolve_prediction_ok
          split: prod.splits)
  qed
qed


section \<open>Paid tasks of any kind\<close>

record video_attempt =
  va_env :: env
  va_ctx :: tool_context
  va_org :: org_id
  va_key :: string
  va_provider :: string
  va_units :: int
  va_request :: jdict
  va_input :: video_input

definition attempt_video :: "(json \<Rightarrow> string) \<Rightarrow> video_attempt \<Rightarrow> world \<Rightarrow> (perr + jdict) \<times> world" where
  "attempt_video pstr a w = durable_prediction_lifecycle pstr (va_env a) (va_ctx a) (va_org a) (va_key a)
     (va_provider a) (va_units a) (va_request a) (va_input a) w"

datatype paid_task =
    PaidTask paid_attempt
  | VideoTask video_attempt
  | WebhookTask env org_id string replicate_event

fun exec_task :: "(json \<Rightarrow> string) \<Rightarrow> paid_task \<Rightarrow> world \<Rightarrow> world" where
  "exec_task pstr (PaidTask a) w = snd (attempt_paid a w)"
| "exec_task pstr (VideoTask a) w = snd (attempt_video pstr a w)"
| "exec_task pstr (WebhookTask env org k ev) w = snd (apply_replicate_event env org k ev w)"

interpretation task_store: store "exec_task pstr" world_ok for pstr
proof
  show "world_ok (exec_task pstr t w)" if "world_ok w" for t w
    using that by (cases t) (simp_all add: paid_store.inv_exec attempt_video_def lifecycle_ok apply_event_ok)
qed

text \<open>
  C1. No effect is bought twice, whatever mix of work touches it: in any sequence of durable paid
  executions, video life cycles and provider webhooks, for any tenants, with any ledger transactions
  of other processes before every ledger call and any answers of the providers, the ledger invariant
  holds at the end and no effect key was submitted to a provider more than once.
\<close>

theorem effect_submitted_once:
  "ledger_inv (led (run_ops (exec_task pstr) ts fresh_world)) \<and>
   distinct (calls (run_ops (exec_task pstr) ts fresh_world))"
  using task_store.inv_run [OF fresh_world_ok, of pstr ts] by (simp add: world_ok_def)

section \<open>What the phases keep\<close>

text \<open>
  A predicate on the ledger that other processes and the status calls of the life cycle keep is kept
  by the polling and waiting phases.
\<close>

locale phase_invariant =
  fixes env :: env and org :: org_id and k :: string and P :: "ledger \<Rightarrow> bool"
  assumes keep_env: "P (led w) \<Longrightarrow> P (interleave env w)"
    and keep_uncertain: "mark_uncertain org k err et l = Inr (x, l') \<Longrightarrow> P l \<Longrightarrow> P l'"
    and keep_update: "update_provider_status org k pst et l = Inr (x, l') \<Longrightarrow> P l \<Longrightarrow> P l'"
begin

lemma call:
  assumes "ledger_call env f w = (r, w')" "P (led w)" "\<And>l x l'. f l = Inr (x, l') \<Longrightarrow> P l \<Longrightarrow> P l'"
  shows "P (led w')"
  using assms(1) by (cases rule: ledger_call_cases) (simp_all add: assms(3) keep_env [OF assms(2)])

lemma call_update: "ledger_call env (update_provider_status org k pst et) w = (r, w') \<Longrightarrow> P (led w) \<Longrightarrow> P (led w')"
  using call keep_update by blast

lemma call_uncertain: "ledger_call env (mark_uncertain org k err et) w = (r, w') \<Longrightarrow> P (led w) \<Longrightarrow> P (led w')"
  using call keep_uncertain by blast

lemma call_read: "ledger_call env (read_ledger f) w = (r, w') \<Longrightarrow> P (led w) \<Longrightarrow> P (led w')"
  by (erule (1) call) (auto simp: read_ledger_def split: sum.splits)

lemma poll:
  assumes "poll_prediction env org k as prev w = (Inr x, w')" "P (led w)"
  shows "P (led w')"
  using assms
proof (induction as arbitrary: prev w)
  case (Cons a as)
  show ?case
  proof (cases a)
    case (Inl exc)
    then show ?thesis
      using Cons.prems(1) by (auto simp: Let_def raise_after_def split: if_splits prod.splits sum.splits)
  next
    case (Inr p)
    then show ?thesis
      using Cons call_update by (auto split: prod.splits sum.splits if_splits)
  qed
qed simp

lemma await:
  assumes "await_operation env org k n w = (r, w')" "P (led w)"
  shows "P (led w')"
  using assms
proof (induction n arbitrary: w)
  case 0
  then show ?case
    by (subst (asm) await_operation.simps) (auto split: prod.splits sum.splits if_splits dest: call_read)
next
  case (Suc n)
  show ?case
    using Suc.prems(1) Suc.IH call_read [OF _ Suc.prems(2)]
    by (subst (asm) await_operation.simps) (auto split: prod.splits sum.splits if_splits)
qed

lemma uncertain_then_await: "uncertain_then_await env org k err et n w = (r, w') \<Longrightarrow> P (led w) \<Longrightarrow> P (led w')"
  by (auto simp: uncertain_then_await_def await_id_def split: prod.splits sum.splits dest: call_uncertain await)

end

section \<open>Uncertain effects\<close>

definition uncertain_at :: "org_id \<Rightarrow> string \<Rightarrow> ledger \<Rightarrow> bool" where
  "uncertain_at org k l = (\<exists>row. tget ekey (org, k) (external_effects l) = Some row \<and> status row = Uncertain)"

definition no_rescue :: "env \<Rightarrow> bool" where
  "no_rescue env = (\<forall>i. \<forall>p\<in>set (env i). \<not> leaves_uncertain p)"

lemma uncertain_interleave:
  assumes "no_rescue env" "uncertain_at org k (led w)"
  shows "uncertain_at org k (interleave env w)"
proof -
  have "uncertain_at org k (run_ops exec_ledger ops l)"
    if "\<forall>p\<in>set ops. \<not> leaves_uncertain p" "uncertain_at org k l" for ops l
    using that
  proof (induction ops arbitrary: l)
    case (Cons p ops)
    then have "uncertain_at org k (exec_ledger p l)"
      using exec_uncertain [of org k l _ p] by (auto simp: uncertain_at_def)
    then show ?case
      using Cons by simp
  qed simp
  then show ?thesis
    using assms by (simp add: interleave_def no_rescue_def)
qed

lemma uncertain_phases:
  assumes "no_rescue env"
  shows "phase_invariant env org k (uncertain_at org k)"
proof
  show "uncertain_at org k (led w) \<Longrightarrow> uncertain_at org k (interleave env w)" for w
    by (rule uncertain_interleave [OF assms])
qed (auto simp: uncertain_at_def mark_uncertain_def update_provider_status_def Let_def tget_tupd
      split: if_splits sum.splits)

lemma uncertain_blocks:
  assumes "no_rescue env" "uncertain_at org k (led w)"
  shows "ledger_call env (mark_succeeded org k res) w = (Inr x, w') \<Longrightarrow> False"
    "ledger_call env (reserve org k rid p u req) w = (Inr r, w') \<Longrightarrow> False"
  using uncertain_interleave [OF assms]
  by (auto simp: uncertain_at_def mark_succeeded_def reserve_def elim!: ledger_call_cases split: if_splits option.splits)

lemma raise_after_Inl: "raise_after c err = (Inr x, w') \<Longrightarrow> False"
  by (auto simp: raise_after_def split: prod.splits sum.splits)

lemma uncertain_finish:
  assumes "no_rescue env" "uncertain_at org k (led w)"
  shows "finish_prediction env org k inp p w \<noteq> (Inr a, w')"
  using uncertain_blocks(1) [OF assms]
  by (auto simp: finish_prediction_def split: sum.splits option.splits prod.splits dest: raise_after_Inl)

lemma uncertain_time_out:
  assumes "no_rescue env" "uncertain_at org k (led w)"
  shows "time_out_prediction env org k inp w \<noteq> (Inr a, w')"
proof -
  have "uncertain_at org k (led w1)"
    if "ledger_call env (update_provider_status org k pst et) w = (Inr r, w1)" for pst et r w1
    using phase_invariant.call_update [OF uncertain_phases [OF assms(1)] that assms(2)] .
  then show ?thesis
    using uncertain_finish [OF assms(1)]
    by (auto simp: time_out_prediction_def Let_def split: sum.splits prod.splits if_splits dest: raise_after_Inl)
qed

lemma uncertain_follow:
  assumes "no_rescue env" "uncertain_at org k (led w)"
  shows "follow_prediction env org k inp w \<noteq> (Inr a, w')"
  using phase_invariant.poll [OF uncertain_phases [OF assms(1)] _ assms(2)] uncertain_finish [OF assms(1)] uncertain_time_out [OF assms(1)]
  by (auto simp: follow_prediction_def settle_prediction_def Let_def
      split: prod.splits sum.splits option.splits if_splits dest: raise_after_Inl)

lemma uncertain_resolve:
  assumes "no_rescue env" "uncertain_at org k (led (snd x))"
  shows "resolve_prediction env org k inp amb x \<noteq> (Inr a, w')"
  using uncertain_follow [OF assms(1)] assms(2)
  by (auto simp: resolve_prediction_def split: prod.splits sum.splits)

text \<open>Only the submission calls the provider.\<close>

lemma ledger_call_calls: "ledger_call env f w = (r, w') \<Longrightarrow> calls w' = calls w"
  by (auto elim: ledger_call_cases)

lemma raise_after_calls: "raise_after (ledger_call env f w) err = (r, w') \<Longrightarrow> calls w' = calls w"
  by (auto simp: raise_after_def ledger_call_calls split: prod.splits sum.splits)

lemma finish_calls: "finish_prediction env org k inp p w = (r, w') \<Longrightarrow> calls w' = calls w"
  by (auto simp: finish_prediction_def split: sum.splits option.splits prod.splits dest!: raise_after_calls ledger_call_calls)

lemma poll_calls: "poll_prediction env org k as prev w = (r, w') \<Longrightarrow> calls w' = calls w"
  by (induction as arbitrary: prev w)
    (auto simp: Let_def split: sum.splits prod.splits if_splits dest!: raise_after_calls ledger_call_calls)

lemma time_out_calls: "time_out_prediction env org k inp w = (r, w') \<Longrightarrow> calls w' = calls w"
  by (auto simp: time_out_prediction_def Let_def split: sum.splits prod.splits if_splits
      dest!: raise_after_calls ledger_call_calls finish_calls)

lemma follow_calls: "follow_prediction env org k inp w = (r, w') \<Longrightarrow> calls w' = calls w"
  by (auto simp: follow_prediction_def settle_prediction_def Let_def
      split: sum.splits prod.splits option.splits if_splits
      dest!: raise_after_calls poll_calls finish_calls time_out_calls)

lemma await_calls: "await_operation env org k n w = (r, w') \<Longrightarrow> calls w' = calls w"
proof (induction n arbitrary: w)
  case 0
  then show ?case
    by (subst (asm) await_operation.simps) (auto split: prod.splits sum.splits if_splits dest!: ledger_call_calls)
next
  case (Suc n)
  show ?case
    using Suc.prems Suc.IH
    by (subst (asm) await_operation.simps)
      (auto split: prod.splits sum.splits if_splits dest!: ledger_call_calls)
qed

lemma resolve_calls: "calls (snd (resolve_prediction env org k inp amb x)) = calls (snd x)"
  by (auto simp: resolve_prediction_def split: prod.splits sum.splits dest: follow_calls) (metis follow_calls prod.collapse)

lemma await_id_world: "snd (await_id env org k n w) = snd (await_operation env org k n w)"
  by (simp add: await_id_def split: prod.splits sum.splits)

text \<open>
   A video effect that became uncertain cannot be completed by the life cycle itself: as long as no
  other process reconciles it or binds a provider operation, no later life cycle of that effect
  returns an artifact, whatever the provider answers, even when it reports success for the
  prediction that is already bound. The provider is not called again either.
\<close>

theorem uncertain_video_never_returns:
  assumes "no_rescue env" "uncertain_at org k (led w)"
  shows "\<exists>e w'. durable_prediction_lifecycle pstr env ctx org k prov u req inp w = (Inl e, w') \<and> calls w' = calls w"
proof (cases "has_ledger ctx")
  case True
  obtain x w1 where rg: "reserve_or_get env org k (ctx_run_id ctx) prov u req w = (x, w1)"
    by fastforce
  have c: "calls w1 = calls w"
    using rg by (auto simp: reserve_or_get_def split: prod.splits sum.splits if_splits dest!: ledger_call_calls)
  show ?thesis
  proof (cases x)
    case (Inl e)
    then show ?thesis
      using rg c True by (simp add: durable_prediction_lifecycle_def)
  next
    case (Inr r)
    obtain w0 where "uncertain_at org k (led w0)" and read: "ledger_call env (read_ledger (get org k)) w0 = (Inr r, w1)"
      using rg [unfolded Inr]
    proof (cases rule: reserve_or_get_cases)
      case (uncertain w0)
      then have "led w0 = interleave env w"
        by (auto elim!: ledger_call_cases)
      then show ?thesis
        using uncertain uncertain_interleave [OF assms] that by metis
    qed (use uncertain_blocks(2) [OF assms] in blast)
    then have "uncertain_at org k (interleave env w0)" and w1: "uncertain_at org k (led w1)"
      using phase_invariant.call_read [OF uncertain_phases] assms(1) uncertain_interleave by blast+
    then have r: "status r = Uncertain" "\<not> created r"
      using read by (auto elim!: ledger_call_cases simp: read_ledger_def get_def uncertain_at_def)
    let ?pid = "provider_operation_id r"
    define y where "y = (if ?pid = None \<or> ?pid = Some [] then await_id env org k (wait_turns inp) w1 else (Inr ?pid, w1))"
    have y: "uncertain_at org k (led (snd y))" "calls (snd y) = calls w"
      using w1 c phase_invariant.await [OF uncertain_phases [OF assms(1)] _ w1] await_calls
      by (auto simp: y_def await_id_world) (metis prod.collapse)+
    have "durable_prediction_lifecycle pstr env ctx org k prov u req inp w = resolve_prediction env org k inp (error_type r) y"
      using rg Inr r True by (simp add: durable_prediction_lifecycle_def y_def Let_def)
    then show ?thesis
      using uncertain_resolve [OF assms(1) y(1)] resolve_calls [of env org k inp "error_type r" y] y(2)
      by (metis old.sum.exhaust prod.collapse)
  qed
qed (simp add: durable_prediction_lifecycle_def)


definition sample_ctx :: tool_context where
  "sample_ctx = \<lparr>ctx_run_id = ''r'', durable = True, paid_adapters_enabled = True, has_ledger = True\<rparr>"

definition sample_video :: video_input where
  "sample_video = \<lparr>webhook_configured = True,
     submit_answer = Inr \<lparr>pred_id = ''p1'', pred_status = ''starting'', pred_error = None\<rparr>, wait_turns = 0,
     poll_answers = [Inr \<lparr>pred_id = ''p1'', pred_status = ''succeeded'', pred_error = None\<rparr>],
     cancel_answer = Inr \<lparr>pred_id = ''p1'', pred_status = ''canceled'', pred_error = None\<rparr>,
     artifact_fn = (\<lambda>p. Inr (fmap_of_list [(''uri'', JStr (pred_id p))])), persist_fn = None,
     validate_artifact = (\<lambda>j. case j of JObj m \<Rightarrow> Inr m | _ \<Rightarrow> Inl (PyErr ValueError))\<rparr>"

definition sample_world :: world where
  "sample_world = fresh_world\<lparr>led := exec_ledger (SetQuota ''o'' ''p'' 5) empty_ledger\<rparr>"

lemmas video_eval = sample_ctx_def sample_video_def sample_world_def fresh_world_def
  durable_prediction_lifecycle_def reserve_or_get_def submit_prediction_def resolve_prediction_def
  follow_prediction_def settle_prediction_def finish_prediction_def time_out_prediction_def raise_after_def
  provider_call_def ledger_call_def interleave_def read_ledger_def get_def reservation_def terminal_status_def
  uncertain_at_def video_error_def ledger_eval

text \<open>A poll error leaves the effect uncertain; the next life cycle reads a success and still raises.\<close>

theorem uncertain_video_never_returns_witness:
  "let exc = \<lparr>exc_kind = ReadTimeout, exc_cause = None, exc_status_code = NoAttr\<rparr>;
       w1 = snd (durable_prediction_lifecycle (\<lambda>_. []) (\<lambda>_. []) sample_ctx ''o'' ''k'' ''p'' 1 fmempty
              (sample_video\<lparr>poll_answers := [Inl exc]\<rparr>) sample_world)
   in calls w1 = [(''o'', ''k'')] \<and>
      (\<exists>e w2. durable_prediction_lifecycle (\<lambda>_. []) (\<lambda>_. []) sample_ctx ''o'' ''k'' ''p'' 1 fmempty sample_video w1 = (Inl e, w2)
        \<and> calls w2 = [(''o'', ''k'')])"
proof -
  define exc where "exc = \<lparr>exc_kind = ReadTimeout, exc_cause = None, exc_status_code = NoAttr\<rparr>"
  define w1 where "w1 = snd (durable_prediction_lifecycle (\<lambda>_. []) (\<lambda>_. []) sample_ctx ''o'' ''k'' ''p'' 1 fmempty
              (sample_video\<lparr>poll_answers := [Inl exc]\<rparr>) sample_world)"
  have "calls w1 = [(''o'', ''k'')]" "uncertain_at ''o'' ''k'' (led w1)"
    by (simp_all add: w1_def video_eval exc_def)
  then show ?thesis
    using uncertain_video_never_returns [of "\<lambda>_. []" "''o''" "''k''" w1 "\<lambda>_. []" sample_ctx "''p''" 1 fmempty sample_video]
    unfolding Let_def exc_def [symmetric] w1_def [symmetric] by (simp add: no_rescue_def)
qed


section \<open>Completed videos\<close>

text \<open>What records a success of an effect, and the other processes without it.\<close>

fun records_success :: "org_id \<Rightarrow> string \<Rightarrow> ledger_op \<Rightarrow> bool" where
  "records_success org k (MarkSucceeded o' k' res) = (o' = org \<and> k' = k)"
| "records_success org k (MarkReconciled o' k' res) = (o' = org \<and> k' = k)"
| "records_success org k _ = False"

definition quiet :: "org_id \<Rightarrow> string \<Rightarrow> env \<Rightarrow> env" where
  "quiet org k env = (\<lambda>i. filter (\<lambda>p. \<not> records_success org k p) (env i))"

text \<open>An effect of the given payload that has not succeeded yet.\<close>

definition pending_effect :: "org_id \<Rightarrow> string \<Rightarrow> string \<Rightarrow> string \<Rightarrow> int \<Rightarrow> jdict \<Rightarrow> ledger \<Rightarrow> bool" where
  "pending_effect org k rid p u req l = (ledger_inv l \<and> (\<exists>row. tget ekey (org, k) (external_effects l) = Some row \<and>
     same_payload row rid p u (JObj req) \<and> status row \<noteq> Succeeded))"

lemma exec_not_succeeded:
  assumes "tget ekey (org, k) (external_effects l) = Some row" "status row \<noteq> Succeeded" "\<not> records_success org k p"
  shows "\<exists>row'. tget ekey (org, k) (external_effects (exec_ledger p l)) = Some row' \<and> status row' \<noteq> Succeeded"
  using assms
  by (cases p)
    (auto simp: op_defs Let_def commit_def tget_tupd split: option.splits sum.splits if_splits)

lemma pending_exec:
  assumes "pending_effect org k rid p u req l" "\<not> records_success org k q"
  shows "pending_effect org k rid p u req (exec_ledger q l)"
proof -
  obtain row where l: "ledger_inv l" and row: "tget ekey (org, k) (external_effects l) = Some row"
      "same_payload row rid p u (JObj req)" "status row \<noteq> Succeeded"
    using assms(1) by (auto simp: pending_effect_def)
  obtain row' where row': "tget ekey (org, k) (external_effects (exec_ledger q l)) = Some row'" "status row' \<noteq> Succeeded"
    using exec_not_succeeded [OF row(1,3) assms(2)] by blast
  have "effect_le row row'"
    using ledger_store.le_exec [OF l, of q] row(1) row'(1) unfolding ledger_le_def by fastforce
  then have "same_payload row' rid p u (JObj req)"
    using row(2) by (simp add: effect_le_def same_payload_def)
  then show ?thesis
    using row' ledger_store.inv_exec [OF l] by (auto simp: pending_effect_def)
qed

lemma pending_run: "pending_effect org k rid p u req l \<Longrightarrow> \<forall>q \<in> set qs. \<not> records_success org k q \<Longrightarrow>
    pending_effect org k rid p u req (run_ops exec_ledger qs l)"
  by (induction qs arbitrary: l) (simp_all add: pending_exec)

interpretation pending: phase_invariant "quiet org k env" org k "pending_effect org k rid p u req" for org k env rid p u req
proof
  show "pending_effect org k rid p u req (interleave (quiet org k env) w)" if "pending_effect org k rid p u req (led w)" for w
    unfolding interleave_def by (rule pending_run [OF that]) (simp add: quiet_def)
  show "pending_effect org k rid p u req l'" if "mark_uncertain org k err et l = Inr (x, l')" "pending_effect org k rid p u req l" for err et l x l'
    using pending_exec [OF that(2), of "MarkUncertain org k err et"] that(1) by simp
  show "pending_effect org k rid p u req l'" if "update_provider_status org k pst et l = Inr (x, l')" "pending_effect org k rid p u req l" for pst et l x l'
    using pending_exec [OF that(2), of "UpdateStatus org k pst et"] that(1) by simp
qed

lemma pending_bind:
  "bind_provider_operation org k opid pst l = Inr (x, l') \<Longrightarrow> pending_effect org k rid p u req l \<Longrightarrow>
   pending_effect org k rid p u req l'"
  using pending_exec [of org k rid p u req l "BindOperation org k opid pst"] by simp

lemma pending_submit:
  assumes "submit_prediction pstr (quiet org k env) org k inp w = (Inr pid, amb, w')" "pending_effect org k rid p u req (led w)"
  shows "pending_effect org k rid p u req (led w')"
proof -
  have w: "pending_effect org k rid p u req (led (provider_call org k w))"
    using assms(2) by (simp add: provider_call_def)
  have rejected: "pending_effect org k rid p u req (led w')"
    if "rejected_submission pstr (quiet org k env) org k inp exc (provider_call org k w) = (Inr pid, amb, w')" for exc
    using that pending.uncertain_then_await [OF _ w] 
    by (auto simp: rejected_submission_def Let_def split: option.splits if_splits prod.splits dest: raise_after_Inl)
  show ?thesis
  proof (cases "submit_answer inp")
    case (Inl exc)
    then show ?thesis
      using assms(1) rejected pending.uncertain_then_await [OF _ w]
      by (cases "exc_kind exc")
        (auto simp: submit_prediction_def Let_def split: prod.splits if_splits dest: raise_after_Inl)
  next
    case (Inr q)
    then show ?thesis
      using assms(1) pending.call [OF _ w pending_bind]
      by (auto simp: submit_prediction_def Let_def split: prod.splits sum.splits if_splits)
  qed
qed

text \<open>The result that \<open>finish_prediction\<close> stores.\<close>

definition video_result :: "prediction \<Rightarrow> jdict \<Rightarrow> jdict" where
  "video_result p a = fmap_of_list [(''provider_prediction_id'', JStr (pred_id p)), (''artifact'', JObj a)]"

lemma pending_finish:
  assumes "finish_prediction (quiet org k env) org k inp q w = (Inr a, w')" "pending_effect org k rid p u req (led w)"
  shows "completed org k rid p u req (video_result q a) (led w')"
proof -
  obtain row where row: "tget ekey (org, k) (external_effects (interleave (quiet org k env) w)) = Some row"
      "same_payload row rid p u (JObj req)" "status row \<noteq> Succeeded"
    using pending.keep_env [OF assms(2)] by (auto simp: pending_effect_def)
  obtain x where call: "ledger_call (quiet org k env) (mark_succeeded org k (JObj (video_result q a))) w = (Inr x, w')"
    using assms(1) unfolding finish_prediction_def video_result_def [symmetric]
    by (auto split: sum.splits option.splits prod.splits dest: raise_after_Inl)
  then have m: "mark_succeeded org k (JObj (video_result q a)) (interleave (quiet org k env) w) = Inr (x, led w')"
    by (auto elim!: ledger_call_cases)
  then have "status row = Reserved"
    using row by (auto simp: mark_succeeded_def split: if_splits)
  then show ?thesis
    using mark_succeeded_completes [OF m row(1,2)] by blast
qed

lemma pending_time_out:
  assumes "time_out_prediction (quiet org k env) org k inp w = (Inr a, w')" "pending_effect org k rid p u req (led w)"
  shows "\<exists>q. completed org k rid p u req (video_result q a) (led w')"
  using assms(1) pending_finish pending.call_update [OF _ assms(2)]
  by (auto simp: time_out_prediction_def Let_def split: sum.splits prod.splits if_splits dest: raise_after_Inl)
    blast

lemma pending_follow:
  assumes "follow_prediction (quiet org k env) org k inp w = (Inr a, w')" "pending_effect org k rid p u req (led w)"
  shows "\<exists>q. completed org k rid p u req (video_result q a) (led w')"
proof -
  obtain x w1 where poll: "poll_prediction (quiet org k env) org k (poll_answers inp) None w = (Inr x, w1)"
    using assms(1) by (auto simp: follow_prediction_def split: prod.splits sum.splits)
  have w1: "pending_effect org k rid p u req (led w1)"
    using pending.poll [OF poll assms(2)] .
  from assms(1) poll consider "time_out_prediction (quiet org k env) org k inp w1 = (Inr a, w')"
    | q where "settle_prediction (quiet org k env) org k inp q w1 = (Inr a, w')"
    by (auto simp: follow_prediction_def split: option.splits if_splits)
  then show ?thesis
  proof cases
    case 1
    then show ?thesis
      by (rule pending_time_out [OF _ w1])
  next
    case (2 q)
    then have "finish_prediction (quiet org k env) org k inp q w1 = (Inr a, w')"
      by (auto simp: settle_prediction_def Let_def split: if_splits dest: raise_after_Inl)
    then show ?thesis
      using pending_finish [OF _ w1] by blast
  qed
qed

lemma pending_resolve:
  assumes "resolve_prediction (quiet org k env) org k inp amb y = (Inr a, w')"
    and "\<And>x w. y = (Inr x, w) \<Longrightarrow> pending_effect org k rid p u req (led w)"
  shows "\<exists>q. completed org k rid p u req (video_result q a) (led w')"
  using assms pending_follow by (auto simp: resolve_prediction_def split: prod.splits sum.splits if_splits)


text \<open>The ledger holds the artifact \<open>j\<close> for the effect.\<close>

definition stored_artifact :: "org_id \<Rightarrow> string \<Rightarrow> string \<Rightarrow> string \<Rightarrow> int \<Rightarrow> jdict \<Rightarrow> json \<Rightarrow> ledger \<Rightarrow> bool" where
  "stored_artifact org k rid p u req j l =
    (\<exists>res. completed org k rid p u req res l \<and> fmlookup res ''artifact'' = Some j)"

lemma lifecycle_stores:
  assumes ok: "world_ok w" and run: "durable_prediction_lifecycle pstr (quiet org k env) ctx org k p u req inp w = (Inr a, w')"
  shows "\<exists>j. stored_artifact org k (ctx_run_id ctx) p u req j (led w') \<and>
    (j = JObj a \<or> py_truthy j \<and> validate_artifact inp j = Inr a)"
proof -
  have on: "has_ledger ctx"
    using run by (auto simp: durable_prediction_lifecycle_def split: if_splits)
  obtain r w1 where rg: "reserve_or_get (quiet org k env) org k (ctx_run_id ctx) p u req w = (Inr r, w1)"
    using run on by (auto simp: durable_prediction_lifecycle_def split: prod.splits sum.splits)
  obtain row where row: "tget ekey (org, k) (external_effects (led w1)) = Some row"
      "same_payload row (ctx_run_id ctx) p u (JObj req)" "status row = status r" "result row = result r"
    using rg
  proof (cases rule: reserve_or_get_cases)
    case reserved
    then show ?thesis
      using that by (auto elim!: ledger_call_cases elim: reserve_row)
  next
    case (uncertain w0)
    have w0: "led w0 = interleave (quiet org k env) w"
      using uncertain(1) by (auto elim: ledger_call_cases)
    obtain row0 where row0: "tget ekey (org, k) (external_effects (led w0)) = Some row0" "same_payload row0 (ctx_run_id ctx) p u (JObj req)"
      using uncertain(1) w0 by (auto elim!: ledger_call_cases reserve_uncertain)
    have "ledger_inv (led w0)"
      using ok interleave_ok(1) w0 by (simp add: world_ok_def)
    then obtain row where row: "tget ekey (org, k) (external_effects (interleave (quiet org k env) w0)) = Some row" "effect_le row0 row"
      using row_at_call [OF _ row0(1)] by blast
    then have "r = reservation row False" "led w1 = interleave (quiet org k env) w0"
      using uncertain(2) by (auto elim!: ledger_call_cases simp: read_ledger_def get_def)
    then show ?thesis
      using that [of row] row row0(2) by (simp add: effect_le_def same_payload_def)
  qed
  show ?thesis
  proof (cases "status r = Succeeded")
    case True
    then have "replay_video inp r w1 = (Inr a, w')"
      using run on rg by (simp add: durable_prediction_lifecycle_def)
    then show ?thesis
      using row True by (auto simp: replay_video_def stored_artifact_def completed_def split: option.splits json.splits if_splits)
  next
    case False
    let ?P = "pending_effect org k (ctx_run_id ctx) p u req"
    have "world_ok w1"
      using reserve_or_get_ok(1) [OF ok, of "quiet org k env" org k "ctx_run_id ctx" p u req] rg by simp
    then have w1: "?P (led w1)"
      using row False by (auto simp: pending_effect_def world_ok_def)
    obtain amb y where y: "resolve_prediction (quiet org k env) org k inp amb y = (Inr a, w')"
        "\<And>x w. y = (Inr x, w) \<Longrightarrow> ?P (led w)"
    proof (cases "created r")
      case True
      then show ?thesis
        using run on rg False pending_submit [OF _ w1] that
        by (auto simp: durable_prediction_lifecycle_def split: prod.splits) blast
    next
      case nc: False
      show ?thesis
        using run on rg False nc pending.await [OF _ w1] w1 that
        by (auto simp: durable_prediction_lifecycle_def Let_def await_id_def split: prod.splits sum.splits if_splits)
    qed
    obtain q where "completed org k (ctx_run_id ctx) p u req (video_result q a) (led w')"
      using pending_resolve [OF y(1), of "ctx_run_id ctx" p u req] y(2) by blast
    then show ?thesis
      unfolding stored_artifact_def by (intro exI [of _ "JObj a"]) (auto simp: video_result_def)
  qed
qed

text \<open>
  C13. A finished video is not bought again. A life cycle of an effect returned an artifact while other processes did
  anything to the ledger but record a success of this effect themselves. Then every later life cycle of the effect,
  under any interleaving and whatever the provider would answer, returns the same artifact from the ledger without a
  submission, provided \<open>Artifact.model_validate\<close> reads back what was dumped.
\<close>

theorem video_replay:
  assumes ok: "world_ok w" and others: "\<And>i q. q \<in> set (env i) \<Longrightarrow> \<not> records_success org k q"
    and run: "durable_prediction_lifecycle pstr env ctx org k p u req inp w = (Inr a, w')"
    and valid: "validate_artifact inp' = validate_artifact inp" "validate_artifact inp (JObj a) = Inr a" "a \<noteq> fmempty"
  shows "\<exists>w''. durable_prediction_lifecycle pstr env' ctx org k p u req inp' w' = (Inr a, w'') \<and> calls w'' = calls w'"
proof -
  have quiet: "quiet org k env = env"
    using others by (auto simp: quiet_def fun_eq_iff filter_id_conv)
  have on: "has_ledger ctx"
    using run by (auto simp: durable_prediction_lifecycle_def split: if_splits)
  have inv: "ledger_inv (led w')"
    using lifecycle_ok [OF ok, of pstr env ctx org k p u req inp] run by (simp add: world_ok_def)
  obtain j res row where j: "py_truthy j" "validate_artifact inp j = Inr a" "fmlookup res ''artifact'' = Some j"
    and row: "tget ekey (org, k) (external_effects (led w')) = Some row"
      "same_payload row (ctx_run_id ctx) p u (JObj req)" "status row = Succeeded" "result row = Some (JObj res)"
    using lifecycle_stores [OF ok, of pstr org k env ctx p u req inp a w'] quiet run valid
    by (auto simp: stored_artifact_def completed_def) (metis py_truthy.simps(6))
  obtain row' where row': "tget ekey (org, k) (external_effects (interleave env' w')) = Some row'" "effect_le row row'"
    using row_at_call [OF inv row(1)] by blast
  have same: "same_payload row' (ctx_run_id ctx) p u (JObj req)" "status row' = Succeeded" "result row' = Some (JObj res)"
    using row row'(2) by (simp_all add: effect_le_def same_payload_def)
  have "reserve org k (ctx_run_id ctx) p u (JObj req) (interleave env' w') = Inr (reservation row' False, interleave env' w')"
    using reserve_existing [OF interleave_ok(1) [OF inv] row'(1) same(1)] same(2) by simp
  then show ?thesis
    using on same j valid(1)
    by (simp add: durable_prediction_lifecycle_def reserve_or_get_def ledger_call_def Let_def replay_video_def)
qed

theorem video_replay_witness:
  "let a = fmap_of_list [(''uri'', JStr ''p1'')];
       run = durable_prediction_lifecycle (\<lambda>_. []) (\<lambda>_. []) sample_ctx ''o'' ''k'' ''p'' 1 fmempty;
       w1 = snd (run sample_video sample_world)
   in fst (run sample_video sample_world) = Inr a \<and>
      (\<exists>w2. run (sample_video\<lparr>poll_answers := []\<rparr>) w1 = (Inr a, w2) \<and> calls w2 = [(''o'', ''k'')])"
proof -
  define a where "a = fmap_of_list [(''uri'', JStr ''p1'')]"
  define run where "run = durable_prediction_lifecycle (\<lambda>_. []) (\<lambda>_. []) sample_ctx ''o'' ''k'' ''p'' 1 fmempty"
  define w1 where "w1 = snd (run sample_video sample_world)"
  have ok: "world_ok sample_world"
    using ledger_store.inv_exec [OF ledger_inv_empty, of "SetQuota ''o'' ''p'' 5"]
    by (simp add: world_ok_def sample_world_def fresh_world_def)
  have "fst (run sample_video sample_world) = Inr a" and c: "calls w1 = [(''o'', ''k'')]"
    by (simp_all add: a_def w1_def run_def video_eval)
  then have first: "durable_prediction_lifecycle (\<lambda>_. []) (\<lambda>_. []) sample_ctx ''o'' ''k'' ''p'' 1 fmempty sample_video sample_world = (Inr a, w1)"
    by (simp add: w1_def prod_eq_iff run_def)
  have "fmlookup a ''uri'' \<noteq> fmlookup fmempty ''uri''"
    by (simp add: a_def)
  then have ne: "a \<noteq> fmempty"
    by metis
  from video_replay [OF ok _ first, of "sample_video\<lparr>poll_answers := []\<rparr>" "\<lambda>_. []"] ne c first
  show ?thesis
    unfolding Let_def a_def [symmetric] run_def [symmetric] w1_def [symmetric]
    by (simp add: sample_video_def run_def)
qed

end
