(* ===== verification/Durable_Db.thy ===== *)
theory Durable_Db
  imports Prelude "HOL-Library.Char_ord" "HOL-Library.List_Lexorder" "HOL-Library.Product_Lexorder"
begin

text \<open>
  The tables of the durable execution state (\<open>db/models.py\<close>: \<open>Run\<close>, \<open>RunItem\<close>, \<open>Job\<close>, \<open>RunGate\<close>,
  \<open>RunEvent\<close>, \<open>Outbox\<close>), as one state record. Rows carry the organization they belong to. Columns
  generated by the database (\<open>seq\<close>, the \<open>id\<close> of the outbox, \<open>position\<close>) come from counters;
  timestamps are integers in microseconds. Columns that are only written (\<open>updated_at\<close>,
  \<open>published_at\<close>, \<open>resolved_at\<close>) are left out.
\<close>

section \<open>Tables\<close>

type_synonym org = string

datatype run_phase = PhRunning | PhEditing | PhAwaiting | PhReview | PhDone | PhError | PhCancelled

datatype job_status = Queued | Running | Retry | JobSucceeded | JobFailed | JobCancelled

datatype gate_status = GatePending | GateResolved | GateCancelled

datatype outbox_status = OutPending | Publishing | Published | OutFailed

record run_row =
  run_org :: org
  run_key :: string
  run_position :: nat
  run_offer :: "string option"
  run_platform :: "string option"
  run_batch_size :: "int option"
  run_phase :: run_phase
  run_error :: "string option"
  run_error_type :: "string option"
  run_summary :: jdict
  run_state :: jdict

record item_row =
  item_org :: org
  item_run :: string
  item_key :: string
  item_position :: nat
  item_payload :: jdict

record job_row =
  job_org :: org
  job_key :: string
  job_run :: string
  job_kind :: string
  job_status :: job_status
  job_payload :: jdict
  job_attempt :: int
  job_max_attempts :: int
  job_available_at :: int
  job_lease :: "int option"
  job_worker :: "string option"
  job_error :: "string option"
  job_error_type :: "string option"
  job_created_at :: int

record gate_row =
  gate_org :: org
  gate_key :: string
  gate_run :: string
  gate_type :: string
  gate_version :: int
  gate_status :: gate_status
  gate_payload :: jdict
  gate_resolution :: "jdict option"

record event_row =
  ev_org :: org
  ev_seq :: nat
  ev_run :: string
  ev_type :: string
  ev_data :: jdict
  ev_created_at :: int

record outbox_row =
  out_org :: org
  out_key :: nat
  out_topic :: string
  out_message_key :: string
  out_payload :: jdict
  out_status :: outbox_status
  out_attempt :: int
  out_available_at :: int
  out_lease :: "int option"
  out_worker :: "string option"
  out_error :: "string option"

record db =
  runs :: "run_row list"
  run_items :: "item_row list"
  jobs :: "job_row list"
  run_gates :: "gate_row list"
  run_events :: "event_row list"
  outbox :: "outbox_row list"
  next_position :: nat
  next_seq :: nat
  next_outbox :: nat

definition empty_db :: db where
  "empty_db = \<lparr>runs = [], run_items = [], jobs = [], run_gates = [], run_events = [], outbox = [],
     next_position = 1, next_seq = 1, next_outbox = 1\<rparr>"

definition rkey :: "run_row \<Rightarrow> org \<times> string" where "rkey r = (run_org r, run_key r)"
definition ikey :: "item_row \<Rightarrow> org \<times> string \<times> string" where "ikey i = (item_org i, item_run i, item_key i)"
definition jkey :: "job_row \<Rightarrow> org \<times> string" where "jkey j = (job_org j, job_key j)"
definition gkey :: "gate_row \<Rightarrow> org \<times> string" where "gkey g = (gate_org g, gate_key g)"
definition okey :: "outbox_row \<Rightarrow> org \<times> nat" where "okey e = (out_org e, out_key e)"

definition run_exists :: "org \<Rightarrow> string \<Rightarrow> db \<Rightarrow> bool" where
  "run_exists org rid d = (tget rkey (org, rid) (runs d) \<noteq> None)"

text \<open>Microseconds.\<close>

definition seconds :: "int \<Rightarrow> int" where
  "seconds n = n * 1000000"

definition INT_MAX :: int where
  "INT_MAX = 2 ^ 31 - 1"

section \<open>Inserting and updating rows\<close>

text \<open>
  \<open>_append_event\<close> inside a transaction that has read the run, or a row with a foreign key to it, so
  that the run exists; \<open>append_event\<close> is the public operation, where the foreign key can fail.
\<close>

definition add_event :: "org \<Rightarrow> string \<Rightarrow> string \<Rightarrow> jdict \<Rightarrow> int \<Rightarrow> db \<Rightarrow> db" where
  "add_event org rid typ dat ts d = d\<lparr>
     run_events := run_events d @ [\<lparr>ev_org = org, ev_seq = next_seq d, ev_run = rid, ev_type = typ,
        ev_data = dat, ev_created_at = ts\<rparr>],
     next_seq := next_seq d + 1\<rparr>"

definition append_event :: "org \<Rightarrow> string \<Rightarrow> string \<Rightarrow> jdict \<Rightarrow> int \<Rightarrow> db \<Rightarrow> (unit \<times> db) res" where
  "append_event org rid typ dat ts d =
    (if run_exists org rid d then Inr ((), add_event org rid typ dat ts d) else Inl ForeignKeyViolation)"

definition insert_outbox :: "org \<Rightarrow> string \<Rightarrow> string \<Rightarrow> jdict \<Rightarrow> int \<Rightarrow> db \<Rightarrow> db" where
  "insert_outbox org topic mkey p ts d = d\<lparr>
     outbox := outbox d @ [\<lparr>out_org = org, out_key = next_outbox d, out_topic = topic,
        out_message_key = mkey, out_payload = p, out_status = OutPending, out_attempt = 0,
        out_available_at = ts, out_lease = None, out_worker = None, out_error = None\<rparr>],
     next_outbox := next_outbox d + 1\<rparr>"

definition insert_run :: "run_row \<Rightarrow> db \<Rightarrow> db" where
  "insert_run r d = d\<lparr>runs := runs d @ [r\<lparr>run_position := next_position d\<rparr>],
     next_position := next_position d + 1\<rparr>"

definition upd_run :: "org \<Rightarrow> string \<Rightarrow> (run_row \<Rightarrow> run_row) \<Rightarrow> db \<Rightarrow> db" where
  "upd_run org rid f d = d\<lparr>runs := tupd rkey (org, rid) f (runs d)\<rparr>"

definition upd_job :: "org \<Rightarrow> string \<Rightarrow> (job_row \<Rightarrow> job_row) \<Rightarrow> db \<Rightarrow> db" where
  "upd_job org jid f d = d\<lparr>jobs := tupd jkey (org, jid) f (jobs d)\<rparr>"

definition upd_gate :: "org \<Rightarrow> string \<Rightarrow> (gate_row \<Rightarrow> gate_row) \<Rightarrow> db \<Rightarrow> db" where
  "upd_gate org gid f d = d\<lparr>run_gates := tupd gkey (org, gid) f (run_gates d)\<rparr>"

definition upd_outbox :: "org \<Rightarrow> nat \<Rightarrow> (outbox_row \<Rightarrow> outbox_row) \<Rightarrow> db \<Rightarrow> db" where
  "upd_outbox org eid f d = d\<lparr>outbox := tupd okey (org, eid) f (outbox d)\<rparr>"

definition obj :: "(string \<times> json) list \<Rightarrow> jdict" where
  "obj kvs = fmap_of_list kvs"

lemmas row_ops = add_event_def insert_outbox_def insert_run_def upd_run_def upd_job_def upd_gate_def
  upd_outbox_def

lemma rkey_updates [simp]:
  "rkey (run_phase_update f r) = rkey r"
  "rkey (run_error_update g r) = rkey r"
  "rkey (run_error_type_update g r) = rkey r"
  "rkey (run_position_update h r) = rkey r"
  "rkey (run_offer_update g r) = rkey r"
  "rkey (run_platform_update g r) = rkey r"
  "rkey (run_batch_size_update b r) = rkey r"
  "rkey (run_summary_update s r) = rkey r"
  "rkey (run_state_update s r) = rkey r"
  by (simp_all add: rkey_def)

lemma jkey_updates [simp]:
  "jkey (job_status_update f1 j) = jkey j"
  "jkey (job_attempt_update f2 j) = jkey j"
  "jkey (job_available_at_update f2 j) = jkey j"
  "jkey (job_lease_update f3 j) = jkey j"
  "jkey (job_worker_update f4 j) = jkey j"
  "jkey (job_error_update f4 j) = jkey j"
  "jkey (job_error_type_update f4 j) = jkey j"
  by (simp_all add: jkey_def)

lemma gkey_updates [simp]:
  "gkey (gate_status_update f1 g) = gkey g"
  "gkey (gate_resolution_update f2 g) = gkey g"
  by (simp_all add: gkey_def)

lemma okey_updates [simp]:
  "okey (out_status_update f1 e) = okey e"
  "okey (out_attempt_update f2 e) = okey e"
  "okey (out_available_at_update f2 e) = okey e"
  "okey (out_lease_update f3 e) = okey e"
  "okey (out_worker_update f4 e) = okey e"
  "okey (out_error_update f4 e) = okey e"
  by (simp_all add: okey_def)

end
