(* ===== verification/Job_Queue.thy ===== *)
theory Job_Queue
  imports Durable_Db
begin

text \<open>
  The job repository (\<open>src/src/orchestrator/db/jobs.py\<close>, \<open>PostgresJobRepository\<close>): the queue of jobs
  with leases, the human gates of a run, the event log and the outbox. Each definition is one
  transaction of one tenant \<open>org\<close> at time \<open>ts\<close>. \<open>uid\<close> stands for \<open>uuid5(NAMESPACE_URL, _)\<close>. The
  argument \<open>locked\<close> of the two claiming operations holds the rows that other transactions have
  locked at that moment (\<open>FOR UPDATE SKIP LOCKED\<close>). Attempt counters are unbounded integers.
\<close>

section \<open>Jobs\<close>

definition LEASE_SECONDS :: int where
  "LEASE_SECONDS = 120"

definition OUTBOX_MAX_ATTEMPTS :: int where
  "OUTBOX_MAX_ATTEMPTS = 5"

definition lease_until :: "int \<Rightarrow> int" where
  "lease_until ts = ts + seconds LEASE_SECONDS"

definition job_id :: "(string \<Rightarrow> string) \<Rightarrow> org \<Rightarrow> string \<Rightarrow> string \<Rightarrow> string" where
  "job_id uid org rid kind = uid (''orchestrator:'' @ org @ '':'' @ rid @ '':'' @ kind)"

definition new_job :: "org \<Rightarrow> string \<Rightarrow> string \<Rightarrow> string \<Rightarrow> jdict \<Rightarrow> int \<Rightarrow> int \<Rightarrow> job_row" where
  "new_job org jid rid kind p max_att ts = \<lparr>
     job_org = org, job_key = jid, job_run = rid, job_kind = kind, job_status = Queued,
     job_payload = p, job_attempt = 0, job_max_attempts = max_att, job_available_at = ts,
     job_lease = None, job_worker = None, job_error = None, job_error_type = None,
     job_created_at = ts\<rparr>"

definition insert_job :: "job_row \<Rightarrow> db \<Rightarrow> db" where
  "insert_job j d = d\<lparr>jobs := jobs d @ [j]\<rparr>"

text \<open>The message that announces a job: the outbox entry \<open>{"job_id": ..., "run_id": ...}\<close>.\<close>

definition announce :: "org \<Rightarrow> string \<Rightarrow> string \<Rightarrow> string \<Rightarrow> int \<Rightarrow> db \<Rightarrow> db" where
  "announce org topic jid rid ts =
    insert_outbox org topic jid (obj [(''job_id'', JStr jid), (''run_id'', JStr rid)]) ts"

definition new_run :: "org \<Rightarrow> string \<Rightarrow> string option \<Rightarrow> string option \<Rightarrow> int option \<Rightarrow> run_row" where
  "new_run org rid offer platform batch = \<lparr>
     run_org = org, run_key = rid, run_position = 0, run_offer = offer, run_platform = platform,
     run_batch_size = batch, run_phase = PhRunning, run_error = None, run_error_type = None,
     run_summary = fmempty, run_state = fmempty\<rparr>"

definition int32 :: "int \<Rightarrow> bool" where
  "int32 n = (- INT_MAX - 1 \<le> n \<and> n \<le> INT_MAX)"

definition ensure_run :: "org \<Rightarrow> string \<Rightarrow> string \<Rightarrow> string \<Rightarrow> int \<Rightarrow> db \<Rightarrow> db" where
  "ensure_run org rid offer platform batch d =
    (if run_exists org rid d then d
     else insert_run (new_run org rid (Some offer) (Some platform) (Some batch)) d)"

definition enqueue_run ::
  "(string \<Rightarrow> string) \<Rightarrow> org \<Rightarrow> string \<Rightarrow> string \<Rightarrow> string \<Rightarrow> int \<Rightarrow> jdict \<Rightarrow> int \<Rightarrow> int \<Rightarrow> db \<Rightarrow>
   (job_row \<times> db) res" where
  "enqueue_run uid org rid offer platform batch p max_att ts d =
    (let jid = job_id uid org rid ''execute_run'' in
     if \<not> int32 batch then Inl DataError
     else if batch < 0 then Inl CheckViolation
     else if \<not> int32 max_att then Inl DataError
     else if max_att \<le> 0 then Inl CheckViolation
     else
       let d1 = ensure_run org rid offer platform batch d;
           d2 = (case tget jkey (org, jid) (jobs d1) of
                   Some _ \<Rightarrow> d1
                 | None \<Rightarrow>
                     announce org ''run.queued'' jid rid ts
                      (add_event org rid ''run_start''
                         (obj [(''run_id'', JStr rid), (''offer'', JStr offer), (''batch'', JNum (of_int batch))]) ts
                       (add_event org rid ''run_queued'' (obj [(''job_id'', JStr jid)]) ts
                         (insert_job (new_job org jid rid ''execute_run'' p max_att ts) d1))))
       in case tget jkey (org, jid) (jobs d2) of
            None \<Rightarrow> Inl RuntimeError
          | Some j \<Rightarrow> Inr (j, d2))"

definition claimable :: "org \<Rightarrow> int \<Rightarrow> job_row \<Rightarrow> bool" where
  "claimable org ts j = (job_org j = org \<and>
     ((job_status j \<in> {Queued, Retry} \<and> job_available_at j \<le> ts) \<or>
      (job_status j = Running \<and> (case job_lease j of None \<Rightarrow> False | Some e \<Rightarrow> e \<le> ts))))"

definition claim_candidates :: "org \<Rightarrow> string list \<Rightarrow> nat \<Rightarrow> int \<Rightarrow> db \<Rightarrow> string list" where
  "claim_candidates org locked limit ts d =
    map job_key (take limit
      (sort_key (\<lambda>j. (job_available_at j, job_created_at j, job_key j))
        (filter (\<lambda>j. claimable org ts j \<and> job_key j \<notin> set locked) (jobs d))))"

definition take_lease :: "string \<Rightarrow> int \<Rightarrow> job_row \<Rightarrow> job_row" where
  "take_lease w ts j = j\<lparr>
     job_status := Running,
     job_attempt := job_attempt j + 1,
     job_worker := Some w,
     job_lease := Some (lease_until ts),
     job_error := None,
     job_error_type := None\<rparr>"

definition started_event :: "string \<Rightarrow> int \<Rightarrow> job_row \<Rightarrow> db \<Rightarrow> db" where
  "started_event w ts j = add_event (job_org j) (job_run j) ''job_started''
     (obj [(''job_id'', JStr (job_key j)), (''attempt'', JNum (of_int (job_attempt j))),
           (''worker_id'', JStr w)]) ts"

definition claim :: "org \<Rightarrow> string list \<Rightarrow> string \<Rightarrow> nat \<Rightarrow> int \<Rightarrow> db \<Rightarrow> (job_row list \<times> db) res" where
  "claim org locked w limit ts d =
    (let ids = claim_candidates org locked limit ts d;
         hit = (\<lambda>j. job_org j = org \<and> job_key j \<in> set ids);
         js = map (take_lease w ts) (filter hit (jobs d));
         d1 = d\<lparr>jobs := map (\<lambda>j. if hit j then take_lease w ts j else j) (jobs d)\<rparr>
     in Inr (js, fold (started_event w ts) js d1))"

definition holds_lease :: "string \<Rightarrow> int \<Rightarrow> job_row \<Rightarrow> bool" where
  "holds_lease w ts j = (job_status j = Running \<and> job_worker j = Some w \<and>
     (case job_lease j of None \<Rightarrow> False | Some e \<Rightarrow> ts < e))"

text \<open>The row a statement guarded by the lease of worker \<open>w\<close> finds.\<close>

definition leased_job :: "org \<Rightarrow> string \<Rightarrow> string \<Rightarrow> int \<Rightarrow> db \<Rightarrow> job_row option" where
  "leased_job org jid w ts d =
    (case tget jkey (org, jid) (jobs d) of
       None \<Rightarrow> None
     | Some j \<Rightarrow> if holds_lease w ts j then Some j else None)"

definition complete :: "org \<Rightarrow> string \<Rightarrow> string \<Rightarrow> int \<Rightarrow> db \<Rightarrow> (unit \<times> db) res" where
  "complete org jid w ts d =
    (case leased_job org jid w ts d of
       None \<Rightarrow> Inl LeaseLostError
     | Some j \<Rightarrow> Inr ((), add_event org (job_run j) ''job_succeeded'' (obj [(''job_id'', JStr jid)]) ts
         (upd_job org jid (\<lambda>r. r\<lparr>job_status := JobSucceeded, job_lease := None\<rparr>) d)))"

definition renew :: "org \<Rightarrow> string \<Rightarrow> string \<Rightarrow> int \<Rightarrow> db \<Rightarrow> (job_row \<times> db) res" where
  "renew org jid w ts d =
    (case leased_job org jid w ts d of
       None \<Rightarrow> Inl LeaseLostError
     | Some j \<Rightarrow>
        (let f = (\<lambda>r. r\<lparr>job_lease := Some (lease_until ts)\<rparr>)
         in Inr (f j, add_event org (job_run j) ''job_lease_renewed''
              (obj [(''job_id'', JStr jid), (''worker_id'', JStr w)]) ts (upd_job org jid f d))))"

text \<open>\<open>min(5 * 2 ** (attempt - 1), 300)\<close> seconds; a running job has \<open>attempt \<ge> 1\<close>.\<close>

definition backoff_seconds :: "int \<Rightarrow> int" where
  "backoff_seconds attempt = min (5 * 2 ^ nat (attempt - 1)) 300"

definition opt_str :: "string option \<Rightarrow> json" where
  "opt_str s = (case s of None \<Rightarrow> JNull | Some x \<Rightarrow> JStr x)"

definition fail_row :: "bool \<Rightarrow> string \<Rightarrow> string option \<Rightarrow> int \<Rightarrow> job_row \<Rightarrow> job_row" where
  "fail_row will_retry err et ts j = j\<lparr>
     job_status := (if will_retry then Retry else JobFailed),
     job_available_at := ts + seconds (if will_retry then backoff_seconds (job_attempt j) else 0),
     job_lease := None,
     job_worker := None,
     job_error := Some (take 2000 err),
     job_error_type := Some (take 200 (case et of None \<Rightarrow> ''Error'' | Some s \<Rightarrow> if s = [] then ''Error'' else s))\<rparr>"

definition fail_event :: "string \<Rightarrow> int \<Rightarrow> job_row \<Rightarrow> db \<Rightarrow> db" where
  "fail_event typ ts j = add_event (job_org j) (job_run j) typ
     (obj [(''job_id'', JStr (job_key j)), (''attempt'', JNum (of_int (job_attempt j))),
           (''error'', opt_str (job_error j)), (''error_type'', opt_str (job_error_type j))]) ts"

definition fail_run :: "int \<Rightarrow> job_row \<Rightarrow> db \<Rightarrow> db" where
  "fail_run ts j d =
    add_event (job_org j) (job_run j) ''error''
      (obj [(''message'', JStr (case job_error j of None \<Rightarrow> ''job failed''
          | Some e \<Rightarrow> if e = [] then ''job failed'' else e))]) ts
     (upd_run (job_org j) (job_run j)
        (\<lambda>r. r\<lparr>run_phase := PhError, run_error := job_error j, run_error_type := job_error_type j\<rparr>) d)"

definition fail ::
  "org \<Rightarrow> string \<Rightarrow> string \<Rightarrow> string \<Rightarrow> string option \<Rightarrow> bool \<Rightarrow> int \<Rightarrow> db \<Rightarrow> (job_row \<times> db) res" where
  "fail org jid w err et retryable ts d =
    (case leased_job org jid w ts d of
       None \<Rightarrow> Inl LeaseLostError
     | Some j \<Rightarrow>
        (let will_retry = (retryable \<and> job_attempt j < job_max_attempts j);
             failed = fail_row will_retry err et ts j;
             d1 = upd_job org jid (fail_row will_retry err et ts) d;
             d2 = fail_event (if will_retry then ''job_retry'' else ''job_failed'') ts failed d1
         in Inr (failed, if will_retry then d2 else fail_run ts failed d2)))"

definition get_job :: "org \<Rightarrow> string \<Rightarrow> db \<Rightarrow> job_row option" where
  "get_job org jid d = tget jkey (org, jid) (jobs d)"

definition get_initial_run_payload :: "org \<Rightarrow> string \<Rightarrow> db \<Rightarrow> jdict option" where
  "get_initial_run_payload org rid d =
    (case sort_key job_created_at
        (filter (\<lambda>j. job_org j = org \<and> job_run j = rid \<and> job_kind j = ''execute_run'') (jobs d)) of
       [] \<Rightarrow> None
     | j # _ \<Rightarrow> Some (job_payload j))"

section \<open>Gates\<close>

definition next_gate_version :: "org \<Rightarrow> string \<Rightarrow> string \<Rightarrow> db \<Rightarrow> int" where
  "next_gate_version org rid gt d =
    fold max (map gate_version
      (filter (\<lambda>g. gate_org g = org \<and> gate_run g = rid \<and> gate_type g = gt) (run_gates d))) 0 + 1"

definition gate_phase :: "string \<Rightarrow> run_phase" where
  "gate_phase gt = (if gt = ''edit_concepts'' then PhEditing
     else if gt = ''review_creative_plan'' then PhReview else PhAwaiting)"

definition gate_public_type :: "string \<Rightarrow> string" where
  "gate_public_type gt = (if gt = ''edit_concepts'' then ''awaiting_concept_edit''
     else if gt = ''review_creative_plan'' then ''awaiting_review'' else ''awaiting_approval'')"

definition open_gate ::
  "(string \<Rightarrow> string) \<Rightarrow> org \<Rightarrow> string \<Rightarrow> string \<Rightarrow> jdict \<Rightarrow> int \<Rightarrow> db \<Rightarrow> (gate_row \<times> db) res" where
  "open_gate uid org rid gt p ts d =
    (if \<not> run_exists org rid d then Inl ValueError
     else
       let v = next_gate_version org rid gt d;
           gid = job_id uid org rid (''gate:'' @ gt @ '':'' @ str_int v);
           g = \<lparr>gate_org = org, gate_key = gid, gate_run = rid, gate_type = gt, gate_version = v,
                gate_status = GatePending, gate_payload = p, gate_resolution = None\<rparr>
       in if tget gkey (org, gid) (run_gates d) \<noteq> None then Inl UniqueViolation
          else
            let d1 = upd_run org rid (\<lambda>r. r\<lparr>run_phase := gate_phase gt\<rparr>)
                       (d\<lparr>run_gates := run_gates d @ [g]\<rparr>);
                d2 = add_event org rid ''gate_opened''
                       (obj [(''gate_id'', JStr gid), (''gate_type'', JStr gt),
                             (''version'', JNum (of_int v)), (''payload'', JObj p)]) ts d1;
                d3 = add_event org rid (gate_public_type gt)
                       (obj [(''run_id'', JStr rid), (''gate_id'', JStr gid),
                             (''version'', JNum (of_int v)), (''gate_type'', JStr gt)]
                        ++\<^sub>f fmdrop ''type'' p) ts d2
            in Inr (g, d3))"

definition get_pending_gate :: "org \<Rightarrow> string \<Rightarrow> db \<Rightarrow> gate_row option" where
  "get_pending_gate org rid d =
    (case sort_key (\<lambda>g. - gate_version g)
        (filter (\<lambda>g. gate_org g = org \<and> gate_run g = rid \<and> gate_status g = GatePending) (run_gates d)) of
       [] \<Rightarrow> None
     | g # _ \<Rightarrow> Some g)"

definition resume_payload :: "gate_row \<Rightarrow> jdict \<Rightarrow> jdict option \<Rightarrow> jdict" where
  "resume_payload g resolution initial = obj [
     (''gate_id'', JStr (gate_key g)),
     (''gate_version'', JNum (of_int (gate_version g))),
     (''gate_type'', JStr (gate_type g)),
     (''gate'', JObj (gate_payload g)),
     (''resolution'', JObj resolution),
     (''run'', JObj (case initial of None \<Rightarrow> fmempty | Some p \<Rightarrow> p))]"

definition resume_job_id :: "(string \<Rightarrow> string) \<Rightarrow> gate_row \<Rightarrow> string" where
  "resume_job_id uid g = job_id uid (gate_org g) (gate_run g)
     (''resume:'' @ gate_key g @ '':'' @ str_int (gate_version g))"

definition resolve_gate ::
  "(string \<Rightarrow> string) \<Rightarrow> org \<Rightarrow> string \<Rightarrow> int \<Rightarrow> jdict \<Rightarrow> int \<Rightarrow> db \<Rightarrow> (job_row \<times> db) res" where
  "resolve_gate uid org gid v resolution ts d =
    (case tget gkey (org, gid) (run_gates d) of
       None \<Rightarrow> Inl StaleGateError
     | Some g \<Rightarrow>
         if gate_version g \<noteq> v then Inl StaleGateError
         else if gate_status g = GateCancelled then Inl CancelledGateError
         else if gate_status g \<noteq> GatePending then Inl StaleGateError
         else
           let rid = gate_run g;
               jid = resume_job_id uid g;
               j = new_job org jid rid ''resume_run''
                     (resume_payload g resolution (get_initial_run_payload org rid d)) 5 ts;
               d1 = upd_gate org gid
                      (\<lambda>r. r\<lparr>gate_status := GateResolved, gate_resolution := Some resolution\<rparr>) d
           in if tget jkey (org, jid) (jobs d1) \<noteq> None then Inl UniqueViolation
              else Inr (j, add_event org rid ''gate_resolved''
                     (obj [(''gate_id'', JStr gid), (''gate_type'', JStr (gate_type g)),
                           (''version'', JNum (of_int v))]) ts
                    (upd_run org rid (\<lambda>r. r\<lparr>run_phase := PhRunning\<rparr>)
                      (announce org ''run.resume'' jid rid ts (insert_job j d1)))))"

definition live_phase :: "run_phase \<Rightarrow> bool" where
  "live_phase ph = (ph \<in> {PhRunning, PhEditing, PhAwaiting, PhReview})"

definition live_job :: "job_status \<Rightarrow> bool" where
  "live_job st = (st \<in> {Queued, Running, Retry})"

record cancellation_summary =
  cancelled_gates :: nat
  cancelled_runs :: nat
  cancelled_jobs :: nat

definition cancel_pending_test_runs :: "org \<Rightarrow> string \<Rightarrow> int \<Rightarrow> db \<Rightarrow> (cancellation_summary \<times> db) res" where
  "cancel_pending_test_runs org reason ts d =
    (let hit_gate = (\<lambda>g. gate_org g = org \<and> gate_status g = GatePending);
         gates = filter hit_gate (run_gates d);
         rids = sort (remdups (map gate_run gates))
     in if rids = [] then Inr (\<lparr>cancelled_gates = 0, cancelled_runs = 0, cancelled_jobs = 0\<rparr>, d)
        else
          let hit_run = (\<lambda>r. run_org r = org \<and> run_key r \<in> set rids \<and> live_phase (run_phase r));
              hit_job = (\<lambda>j. job_org j = org \<and> job_run j \<in> set rids \<and> live_job (job_status j));
              d1 = d\<lparr>
                run_gates := map (\<lambda>g. if hit_gate g then g\<lparr>gate_status := GateCancelled,
                    gate_resolution := Some (obj [(''reason'', JStr reason)])\<rparr> else g) (run_gates d),
                runs := map (\<lambda>r. if hit_run r then r\<lparr>run_phase := PhCancelled,
                    run_error := Some reason\<rparr> else r) (runs d),
                jobs := map (\<lambda>j. if hit_job j then j\<lparr>job_status := JobCancelled, job_error := Some reason,
                    job_lease := None, job_worker := None\<rparr> else j) (jobs d)\<rparr>
          in Inr (\<lparr>cancelled_gates = length gates, cancelled_runs = length (filter hit_run (runs d)),
                   cancelled_jobs = length (filter hit_job (jobs d))\<rparr>,
                  fold (\<lambda>rid. add_event org rid ''run_cancelled'' (obj [(''reason'', JStr reason)]) ts) rids d1))"

section \<open>Events and outbox\<close>

definition list_events :: "org \<Rightarrow> string \<Rightarrow> nat \<Rightarrow> db \<Rightarrow> event_row list" where
  "list_events org rid after_seq d =
    sort_key ev_seq (filter (\<lambda>e. ev_org e = org \<and> ev_run e = rid \<and> after_seq < ev_seq e) (run_events d))"

definition list_outbox :: "org \<Rightarrow> db \<Rightarrow> outbox_row list" where
  "list_outbox org d = sort_key out_key (filter (\<lambda>e. out_org e = org) (outbox d))"

definition deliverable :: "org \<Rightarrow> int \<Rightarrow> outbox_row \<Rightarrow> bool" where
  "deliverable org ts e = (out_org e = org \<and>
     ((out_status e = OutPending \<and> out_available_at e \<le> ts) \<or>
      (out_status e = Publishing \<and> (case out_lease e of None \<Rightarrow> False | Some x \<Rightarrow> x \<le> ts))))"

definition take_outbox_lease :: "string \<Rightarrow> int \<Rightarrow> outbox_row \<Rightarrow> outbox_row" where
  "take_outbox_lease w ts e = e\<lparr>
     out_status := Publishing,
     out_attempt := out_attempt e + 1,
     out_worker := Some w,
     out_lease := Some (lease_until ts),
     out_error := None\<rparr>"

definition claim_outbox ::
  "org \<Rightarrow> nat list \<Rightarrow> string \<Rightarrow> nat \<Rightarrow> int \<Rightarrow> db \<Rightarrow> (outbox_row list \<times> db) res" where
  "claim_outbox org locked w limit ts d =
    (let ids = map out_key (take limit (sort_key (\<lambda>e. (out_available_at e, out_key e))
                 (filter (\<lambda>e. deliverable org ts e \<and> out_key e \<notin> set locked) (outbox d))));
         hit = (\<lambda>e. out_org e = org \<and> out_key e \<in> set ids)
     in Inr (map (take_outbox_lease w ts) (filter hit (outbox d)),
             d\<lparr>outbox := map (\<lambda>e. if hit e then take_outbox_lease w ts e else e) (outbox d)\<rparr>))"

definition leased_entry :: "org \<Rightarrow> nat \<Rightarrow> string \<Rightarrow> int \<Rightarrow> db \<Rightarrow> outbox_row option" where
  "leased_entry org eid w ts d =
    (case tget okey (org, eid) (outbox d) of
       None \<Rightarrow> None
     | Some e \<Rightarrow> if out_status e = Publishing \<and> out_worker e = Some w \<and>
                    (case out_lease e of None \<Rightarrow> False | Some x \<Rightarrow> ts < x)
                 then Some e else None)"

definition mark_outbox_published :: "org \<Rightarrow> nat \<Rightarrow> string \<Rightarrow> int \<Rightarrow> db \<Rightarrow> (unit \<times> db) res" where
  "mark_outbox_published org eid w ts d =
    (case leased_entry org eid w ts d of
       None \<Rightarrow> Inl LeaseLostError
     | Some e \<Rightarrow> Inr ((), upd_outbox org eid
         (\<lambda>r. r\<lparr>out_status := Published, out_lease := None, out_worker := None\<rparr>) d))"

definition fail_outbox :: "org \<Rightarrow> nat \<Rightarrow> string \<Rightarrow> string \<Rightarrow> int \<Rightarrow> db \<Rightarrow> (outbox_row \<times> db) res" where
  "fail_outbox org eid w err ts d =
    (case leased_entry org eid w ts d of
       None \<Rightarrow> Inl LeaseLostError
     | Some e \<Rightarrow>
        (let will_retry = (out_attempt e < OUTBOX_MAX_ATTEMPTS);
             f = (\<lambda>r. r\<lparr>
                out_status := (if will_retry then OutPending else OutFailed),
                out_available_at := ts + seconds (if will_retry then backoff_seconds (out_attempt e) else 0),
                out_lease := None,
                out_worker := None,
                out_error := Some (take 2000 err)\<rparr>)
         in Inr (f e, upd_outbox org eid f d)))"

end
