(* ===== verification/Run_Store.thy ===== *)
theory Run_Store
  imports Job_Queue
begin

text \<open>
  The read model of runs (\<open>src/src/orchestrator/db/runs.py\<close>, \<open>PostgresRunRepository\<close>) on the tables
  \<open>runs\<close> and \<open>run_items\<close>. The generated \<open>position\<close> columns of both tables take their values from one
  counter, since only their order within a table is read. \<open>pstr\<close> is Python's \<open>str\<close> on the JSON values
  that are not strings; nothing is assumed of it.
\<close>

section \<open>Operations\<close>

definition run_phase_of :: "string \<Rightarrow> run_phase option" where
  "run_phase_of s =
    (if s = ''running'' then Some PhRunning
     else if s = ''editing'' then Some PhEditing
     else if s = ''awaiting'' then Some PhAwaiting
     else if s = ''review'' then Some PhReview
     else if s = ''done'' then Some PhDone
     else if s = ''error'' then Some PhError
     else if s = ''cancelled'' then Some PhCancelled
     else None)"

definition upsert_run :: "run_row \<Rightarrow> (run_row \<Rightarrow> run_row) \<Rightarrow> db \<Rightarrow> db" where
  "upsert_run r f d =
    (if run_exists (run_org r) (run_key r) d then upd_run (run_org r) (run_key r) f d
     else insert_run r d)"

definition delete_items :: "(item_row \<Rightarrow> bool) \<Rightarrow> db \<Rightarrow> db" where
  "delete_items P d = d\<lparr>run_items := filter (\<lambda>i. \<not> P i) (run_items d)\<rparr>"

definition start ::
  "org \<Rightarrow> string \<Rightarrow> string option \<Rightarrow> string option \<Rightarrow> int option \<Rightarrow> db \<Rightarrow> (unit \<times> db) res" where
  "start org rid offer platform batch d =
    (if \<not> (case batch of None \<Rightarrow> True | Some b \<Rightarrow> int32 b) then Inl DataError
     else if \<not> (case batch of None \<Rightarrow> True | Some b \<Rightarrow> 0 \<le> b) then Inl CheckViolation
     else Inr ((), delete_items (\<lambda>i. item_org i = org \<and> item_run i = rid)
       (upsert_run (new_run org rid offer platform batch)
          (\<lambda>r. r\<lparr>run_offer := offer, run_platform := platform, run_batch_size := batch,
                 run_phase := PhRunning, run_error := None, run_error_type := None,
                 run_summary := fmempty, run_state := fmempty\<rparr>) d)))"

text \<open>\<open>str(item.get("id") or "").strip()\<close>\<close>

definition item_ident :: "(json \<Rightarrow> string) \<Rightarrow> jdict \<Rightarrow> string" where
  "item_ident pstr item =
    (case fmlookup item ''id'' of
       None \<Rightarrow> []
     | Some v \<Rightarrow> if \<not> py_truthy v then [] else strip (case v of JStr s \<Rightarrow> s | _ \<Rightarrow> pstr v))"

definition upsert_item :: "org \<Rightarrow> string \<Rightarrow> string \<times> jdict \<Rightarrow> db \<Rightarrow> db" where
  "upsert_item org rid = (\<lambda>(iid, p) d.
    (case tget ikey (org, rid, iid) (run_items d) of
       Some _ \<Rightarrow> d\<lparr>run_items := tupd ikey (org, rid, iid) (\<lambda>i. i\<lparr>item_payload := p\<rparr>) (run_items d)\<rparr>
     | None \<Rightarrow> d\<lparr>run_items := run_items d @ [\<lparr>item_org = org, item_run = rid, item_key = iid,
            item_position = next_position d, item_payload = p\<rparr>],
          next_position := next_position d + 1\<rparr>))"

definition save ::
  "(json \<Rightarrow> string) \<Rightarrow> org \<Rightarrow> string \<Rightarrow> string \<Rightarrow> jdict \<Rightarrow> jdict \<Rightarrow> jdict list \<Rightarrow> string option \<Rightarrow>
   string option \<Rightarrow> db \<Rightarrow> (unit \<times> db) res" where
  "save pstr org rid phase state summary items err et d =
    (case run_phase_of phase of
       None \<Rightarrow> Inl ValueError
     | Some ph \<Rightarrow>
        (let ids = map (item_ident pstr) items in
         if [] \<in> set ids then Inl ValueError
         else
           let d1 = upsert_run
                 ((new_run org rid None None None)\<lparr>run_phase := ph, run_error := err, run_error_type := et,
                     run_summary := summary, run_state := state\<rparr>)
                 (\<lambda>r. r\<lparr>run_phase := ph, run_error := err, run_error_type := et,
                     run_summary := summary, run_state := state\<rparr>) d;
               d2 = fold (upsert_item org rid) (zip ids items) d1
           in Inr ((), delete_items (\<lambda>i. item_org i = org \<and> item_run i = rid \<and> item_key i \<notin> set ids) d2)))"

record run_snapshot =
  snap_run_id :: string
  snap_phase :: run_phase
  snap_offer :: "string option"
  snap_platform :: "string option"
  snap_batch_size :: "int option"
  snap_error :: "string option"
  snap_error_type :: "string option"
  snap_summary :: jdict
  snap_state :: jdict
  snap_items :: "jdict list"

definition get_run :: "org \<Rightarrow> string \<Rightarrow> db \<Rightarrow> run_snapshot option" where
  "get_run org rid d =
    (case tget rkey (org, rid) (runs d) of
       None \<Rightarrow> None
     | Some r \<Rightarrow> Some \<lparr>snap_run_id = run_key r, snap_phase = run_phase r, snap_offer = run_offer r,
         snap_platform = run_platform r, snap_batch_size = run_batch_size r, snap_error = run_error r,
         snap_error_type = run_error_type r, snap_summary = run_summary r, snap_state = run_state r,
         snap_items = map item_payload (sort_key item_position
           (filter (\<lambda>i. item_org i = org \<and> item_run i = rid) (run_items d)))\<rparr>)"

definition list_index :: "org \<Rightarrow> db \<Rightarrow> (string \<times> run_phase \<times> string option \<times> string option) list" where
  "list_index org d =
    map (\<lambda>r. (run_key r, run_phase r, run_error r, run_error_type r))
      (rev (sort_key run_position (filter (\<lambda>r. run_org r = org) (runs d))))"

end
