(* ===== verification/Job_Store.thy ===== *)
theory Job_Store
  imports Run_Store "HOL-Library.Sublist"
begin

text \<open>
  The transactions of \<open>Job_Queue\<close> and \<open>Run_Store\<close> as one store: the invariant \<open>db_inv\<close> of the
  durable tables, the order \<open>db_le\<close> in which they only move forward, their interpretation as a
  store, and the properties of leases, retries, gates, events and the outbox.
\<close>

section \<open>Transactions\<close>

datatype job_op =
    EnqueueRun org string string string int jdict int int
  | Claim org "string list" string nat int
  | Complete org string string int
  | Renew org string string int
  | FailJob org string string string "string option" bool int
  | OpenGate org string string jdict int
  | ResolveGate org string int jdict int
  | CancelPending org string int
  | AppendEvent org string string jdict int
  | ClaimOutbox org "nat list" string nat int
  | MarkPublished org nat string int
  | FailOutbox org nat string string int
  | StartRun org string "string option" "string option" "int option"
  | SaveRun org string string jdict jdict "jdict list" "string option" "string option"

fun exec_job :: "(string \<Rightarrow> string) \<Rightarrow> (json \<Rightarrow> string) \<Rightarrow> job_op \<Rightarrow> db \<Rightarrow> db" where
  "exec_job uid ps (EnqueueRun org rid offer platform batch p m ts) d =
     commit (enqueue_run uid org rid offer platform batch p m ts d) d"
| "exec_job uid ps (Claim org locked w limit ts) d = commit (claim org locked w limit ts d) d"
| "exec_job uid ps (Complete org jid w ts) d = commit (complete org jid w ts d) d"
| "exec_job uid ps (Renew org jid w ts) d = commit (renew org jid w ts d) d"
| "exec_job uid ps (FailJob org jid w err et retryable ts) d = commit (fail org jid w err et retryable ts d) d"
| "exec_job uid ps (OpenGate org rid gt p ts) d = commit (open_gate uid org rid gt p ts d) d"
| "exec_job uid ps (ResolveGate org gid v res ts) d = commit (resolve_gate uid org gid v res ts d) d"
| "exec_job uid ps (CancelPending org reason ts) d = commit (cancel_pending_test_runs org reason ts d) d"
| "exec_job uid ps (AppendEvent org rid typ dat ts) d = commit (append_event org rid typ dat ts d) d"
| "exec_job uid ps (ClaimOutbox org locked w limit ts) d = commit (claim_outbox org locked w limit ts d) d"
| "exec_job uid ps (MarkPublished org eid w ts) d = commit (mark_outbox_published org eid w ts d) d"
| "exec_job uid ps (FailOutbox org eid w err ts) d = commit (fail_outbox org eid w err ts d) d"
| "exec_job uid ps (StartRun org rid offer platform batch) d = commit (start org rid offer platform batch d) d"
| "exec_job uid ps (SaveRun org rid ph st su items err et) d = commit (save ps org rid ph st su items err et d) d"

fun job_op_org :: "job_op \<Rightarrow> org" where
  "job_op_org (EnqueueRun org rid offer platform batch p m ts) = org"
| "job_op_org (Claim org locked w limit ts) = org"
| "job_op_org (Complete org jid w ts) = org"
| "job_op_org (Renew org jid w ts) = org"
| "job_op_org (FailJob org jid w err et retryable ts) = org"
| "job_op_org (OpenGate org rid gt p ts) = org"
| "job_op_org (ResolveGate org gid v res ts) = org"
| "job_op_org (CancelPending org reason ts) = org"
| "job_op_org (AppendEvent org rid typ dat ts) = org"
| "job_op_org (ClaimOutbox org locked w limit ts) = org"
| "job_op_org (MarkPublished org eid w ts) = org"
| "job_op_org (FailOutbox org eid w err ts) = org"
| "job_op_org (StartRun org rid offer platform batch) = org"
| "job_op_org (SaveRun org rid ph st su items err et) = org"

section \<open>Invariant and order\<close>

definition job_wf :: "job_row \<Rightarrow> bool" where
  "job_wf j = (0 \<le> job_attempt j \<and> 0 < job_max_attempts j \<and>
     (job_status j = Running \<longleftrightarrow> job_lease j \<noteq> None) \<and>
     (job_status j = Running \<longrightarrow> job_worker j \<noteq> None \<and> 1 \<le> job_attempt j) \<and>
     (job_status j = Queued \<longrightarrow> job_attempt j = 0 \<and> job_worker j = None) \<and>
     (job_status j = Retry \<longrightarrow> 1 \<le> job_attempt j \<and> job_attempt j < job_max_attempts j \<and>
        job_worker j = None \<and> job_error j \<noteq> None) \<and>
     (job_status j = JobFailed \<longrightarrow> job_error j \<noteq> None))"

definition gate_wf :: "gate_row \<Rightarrow> bool" where
  "gate_wf g = (0 < gate_version g \<and> (gate_status g = GatePending \<longleftrightarrow> gate_resolution g = None))"

definition outbox_wf :: "outbox_row \<Rightarrow> bool" where
  "outbox_wf e = (0 \<le> out_attempt e \<and>
     (out_status e = Publishing \<longleftrightarrow> out_lease e \<noteq> None) \<and>
     (out_status e = Publishing \<longleftrightarrow> out_worker e \<noteq> None) \<and>
     (out_status e = Publishing \<longrightarrow> 1 \<le> out_attempt e))"

text \<open>A generated column: its values increase in the order of insertion and stay below the counter.\<close>

definition serial :: "('r \<Rightarrow> nat) \<Rightarrow> 'r list \<Rightarrow> nat \<Rightarrow> bool" where
  "serial col rows next = (sorted_wrt (<) (map col rows) \<and> (\<forall>r\<in>set rows. col r < next))"

definition mkey :: "outbox_row \<Rightarrow> org \<times> string" where
  "mkey e = (out_org e, out_message_key e)"

definition runs_ok :: "db \<Rightarrow> bool" where
  "runs_ok d = (keyed rkey (runs d) \<and> serial run_position (runs d) (next_position d))"

definition items_ok :: "db \<Rightarrow> bool" where
  "items_ok d = (keyed ikey (run_items d) \<and> serial item_position (run_items d) (next_position d) \<and>
     (\<forall>i\<in>set (run_items d). run_exists (item_org i) (item_run i) d))"

definition jobs_ok :: "db \<Rightarrow> bool" where
  "jobs_ok d = (keyed jkey (jobs d) \<and>
     (\<forall>j\<in>set (jobs d). job_wf j \<and> run_exists (job_org j) (job_run j) d))"

definition gates_ok :: "(string \<Rightarrow> string) \<Rightarrow> db \<Rightarrow> bool" where
  "gates_ok uid d = (keyed gkey (run_gates d) \<and>
     (\<forall>g\<in>set (run_gates d). gate_wf g \<and> run_exists (gate_org g) (gate_run g) d \<and>
        (gate_status g = GateResolved \<longrightarrow> (gate_org g, resume_job_id uid g) \<in> jkey ` set (jobs d))))"

definition events_ok :: "db \<Rightarrow> bool" where
  "events_ok d = (serial ev_seq (run_events d) (next_seq d) \<and>
     (\<forall>e\<in>set (run_events d). run_exists (ev_org e) (ev_run e) d))"

definition outbox_ok :: "db \<Rightarrow> bool" where
  "outbox_ok d = (serial out_key (outbox d) (next_outbox d) \<and> (\<forall>e\<in>set (outbox d). outbox_wf e) \<and>
     map mkey (outbox d) = map jkey (jobs d))"

definition db_inv :: "(string \<Rightarrow> string) \<Rightarrow> db \<Rightarrow> bool" where
  "db_inv uid d = (runs_ok d \<and> items_ok d \<and> jobs_ok d \<and> gates_ok uid d \<and> events_ok d \<and> outbox_ok d)"

lemmas db_inv_defs = db_inv_def runs_ok_def items_ok_def jobs_ok_def gates_ok_def events_ok_def outbox_ok_def

definition terminal_job :: "job_status \<Rightarrow> bool" where
  "terminal_job st = (st \<in> {JobSucceeded, JobFailed, JobCancelled})"

definition job_le :: "job_row \<Rightarrow> job_row \<Rightarrow> bool" where
  "job_le j j' = (job_run j' = job_run j \<and> job_kind j' = job_kind j \<and> job_payload j' = job_payload j \<and>
     job_max_attempts j' = job_max_attempts j \<and> job_attempt j \<le> job_attempt j' \<and>
     (terminal_job (job_status j) \<longrightarrow> j' = j))"

definition gate_le :: "gate_row \<Rightarrow> gate_row \<Rightarrow> bool" where
  "gate_le g g' = (gate_run g' = gate_run g \<and> gate_type g' = gate_type g \<and>
     gate_version g' = gate_version g \<and> gate_payload g' = gate_payload g \<and>
     (gate_status g \<noteq> GatePending \<longrightarrow> g' = g))"

definition outbox_le :: "outbox_row \<Rightarrow> outbox_row \<Rightarrow> bool" where
  "outbox_le e e' = (out_topic e' = out_topic e \<and> out_message_key e' = out_message_key e \<and>
     out_payload e' = out_payload e \<and> out_attempt e \<le> out_attempt e' \<and>
     (out_status e \<in> {Published, OutFailed} \<longrightarrow> e' = e))"

text \<open>Every row of a table is still there, further on.\<close>

definition table_le :: "('r \<Rightarrow> 'k) \<Rightarrow> ('r \<Rightarrow> 'r \<Rightarrow> bool) \<Rightarrow> 'r list \<Rightarrow> 'r list \<Rightarrow> bool" where
  "table_le key le rows rows' = (\<forall>k r. tget key k rows = Some r \<longrightarrow>
     (\<exists>r'. tget key k rows' = Some r' \<and> le r r'))"

definition db_le :: "db \<Rightarrow> db \<Rightarrow> bool" where
  "db_le d d' = (table_le jkey job_le (jobs d) (jobs d') \<and>
     table_le gkey gate_le (run_gates d) (run_gates d') \<and>
     table_le okey outbox_le (outbox d) (outbox d') \<and>
     prefix (run_events d) (run_events d') \<and>
     rkey ` set (runs d) \<subseteq> rkey ` set (runs d'))"

lemma row_le_refl [simp]: "job_le j j" "gate_le g g" "outbox_le e e"
  by (simp_all add: job_le_def gate_le_def outbox_le_def)

lemma job_le_trans: "job_le a b \<Longrightarrow> job_le b c \<Longrightarrow> job_le a c"
  by (auto simp: job_le_def)

lemma gate_le_trans: "gate_le a b \<Longrightarrow> gate_le b c \<Longrightarrow> gate_le a c"
  by (auto simp: gate_le_def)

lemma outbox_le_trans: "outbox_le a b \<Longrightarrow> outbox_le b c \<Longrightarrow> outbox_le a c"
  by (auto simp: outbox_le_def)

lemma table_le_refl: "(\<And>r. le r r) \<Longrightarrow> table_le key le rows rows"
  by (auto simp: table_le_def)

lemma table_le_trans:
  assumes "\<And>a b c. le a b \<Longrightarrow> le b c \<Longrightarrow> le a c"
    and "table_le key le xs ys" "table_le key le ys zs"
  shows "table_le key le xs zs"
  using assms unfolding table_le_def by meson

lemma table_le_append: "(\<And>r. le r r) \<Longrightarrow> table_le key le rows (rows @ rows')"
  by (auto simp: table_le_def)

lemma tget_map:
  assumes "\<And>r. r \<in> set rows \<Longrightarrow> key (g r) = key r"
  shows "tget key k (map g rows) = map_option g (tget key k rows)"
  using assms by (induction rows) auto

lemma table_le_map:
  assumes "\<And>r. r \<in> set rows \<Longrightarrow> key (g r) = key r" "\<And>r. r \<in> set rows \<Longrightarrow> le r (g r)"
  shows "table_le key le rows (map g rows)"
  using assms by (auto simp: table_le_def tget_map dest: tget_SomeD)

lemma db_le_refl [simp]: "db_le d d"
  by (simp add: db_le_def table_le_refl)

lemma db_le_trans: "db_le a b \<Longrightarrow> db_le b c \<Longrightarrow> db_le a c"
  unfolding db_le_def
  by (auto intro: prefix_order.trans table_le_trans [OF job_le_trans] table_le_trans [OF gate_le_trans]
      table_le_trans [OF outbox_le_trans])

lemma db_leD:
  assumes "db_le d d'"
  shows "tget jkey k (jobs d) = Some j \<Longrightarrow> \<exists>j'. tget jkey k (jobs d') = Some j' \<and> job_le j j'"
    "tget gkey k (run_gates d) = Some g \<Longrightarrow> \<exists>g'. tget gkey k (run_gates d') = Some g' \<and> gate_le g g'"
    "prefix (run_events d) (run_events d')"
    "run_exists org rid d \<Longrightarrow> run_exists org rid d'"
  using assms by (auto simp: db_le_def table_le_def run_exists_def tget_None_iff simp del: split_paired_All)

text \<open>One transaction, or part of one: the invariant is kept and nothing is taken back.\<close>

definition db_step :: "(string \<Rightarrow> string) \<Rightarrow> db \<Rightarrow> db \<Rightarrow> bool" where
  "db_step uid d d' = (db_inv uid d' \<and> db_le d d')"

lemma db_step_refl: "db_inv uid d \<Longrightarrow> db_step uid d d"
  by (simp add: db_step_def)

lemma db_step_trans: "db_step uid a b \<Longrightarrow> (db_inv uid b \<Longrightarrow> db_step uid b c) \<Longrightarrow> db_step uid a c"
  unfolding db_step_def using db_le_trans by blast

lemma db_step_inv: "db_step uid a b \<Longrightarrow> db_inv uid b"
  by (simp add: db_step_def)


section \<open>Primitive row operations\<close>

lemma run_exists_iff: "run_exists org rid d \<longleftrightarrow> (org, rid) \<in> rkey ` set (runs d)"
  by (simp add: run_exists_def tget_None_iff)

lemma run_exists_cong: "map rkey (runs d') = map rkey (runs d) \<Longrightarrow> run_exists org rid d' = run_exists org rid d"
  unfolding run_exists_iff by (metis list.set_map)

lemma serial_append [simp]:
  "serial col (rows @ [r]) (Suc (col r)) \<longleftrightarrow> serial col rows (col r)"
  by (auto simp: serial_def sorted_wrt_append less_Suc_eq)

lemma serial_mono: "serial col rows n \<Longrightarrow> n \<le> m \<Longrightarrow> serial col rows m"
  by (fastforce simp: serial_def)

lemma serial_map: "(\<And>r. r \<in> set rows \<Longrightarrow> col (g r) = col r) \<Longrightarrow> serial col (map g rows) n = serial col rows n"
  by (simp add: serial_def cong: map_cong)

lemma keyed_map: "(\<And>r. r \<in> set rows \<Longrightarrow> key (g r) = key r) \<Longrightarrow> keyed key (map g rows) = keyed key rows"
  by (simp add: keyed_def cong: map_cong)

lemma add_event_sel [simp]:
  "runs (add_event org rid typ dat ts d) = runs d"
  "run_items (add_event org rid typ dat ts d) = run_items d"
  "jobs (add_event org rid typ dat ts d) = jobs d"
  "run_gates (add_event org rid typ dat ts d) = run_gates d"
  "outbox (add_event org rid typ dat ts d) = outbox d"
  "next_position (add_event org rid typ dat ts d) = next_position d"
  "next_outbox (add_event org rid typ dat ts d) = next_outbox d"
  "run_exists o' r' (add_event org rid typ dat ts d) = run_exists o' r' d"
  by (simp_all add: add_event_def run_exists_def)

lemma run_exists_upd [simp]:
  "run_exists org rid (jobs_update f1 d) = run_exists org rid d"
  "run_exists org rid (run_gates_update f2 d) = run_exists org rid d"
  "run_exists org rid (outbox_update f3 d) = run_exists org rid d"
  "run_exists org rid (run_items_update f4 d) = run_exists org rid d"
  "run_exists org rid (next_outbox_update f5 d) = run_exists org rid d"
  "run_exists org rid (next_position_update f5 d) = run_exists org rid d"
  by (simp_all add: run_exists_def)

lemma add_event_step:
  assumes "db_inv uid d" "run_exists org rid d"
  shows "db_step uid d (add_event org rid typ dat ts d)"
  using assms
  by (simp add: db_step_def db_inv_defs db_le_def table_le_refl)
    (simp add: add_event_def serial_def sorted_wrt_append less_Suc_eq)

lemma add_events_step:
  assumes "db_inv uid d" "\<And>x. x \<in> set xs \<Longrightarrow> run_exists (o' x) (r' x) d"
  shows "db_step uid d (fold (\<lambda>x. add_event (o' x) (r' x) (typ x) (dat x) (ts x)) xs d)"
  using assms
proof (induction xs arbitrary: d)
  case (Cons x xs)
  have "db_step uid d (add_event (o' x) (r' x) (typ x) (dat x) (ts x) d)"
    using Cons.prems by (intro add_event_step) auto
  then show ?case
    using Cons by (auto intro: db_step_trans)
qed (simp add: db_step_refl)

lemma insert_run_step:
  assumes "db_inv uid d" "\<not> run_exists (run_org r) (run_key r) d"
  shows "db_step uid d (insert_run r d)"
proof -
  have exists: "run_exists org rid (insert_run r d)" if "run_exists org rid d" for org rid
    using that by (auto simp: run_exists_iff insert_run_def)
  have "runs_ok (insert_run r d)"
    using assms by (simp add: db_inv_defs insert_run_def keyed_snoc run_exists_def)
      (simp add: rkey_def serial_def sorted_wrt_append less_Suc_eq)
  moreover have "serial item_position (run_items d) (Suc (next_position d))"
    using assms by (auto simp: db_inv_defs intro: serial_mono)
  ultimately show ?thesis
    using assms(1) exists by (auto simp: db_step_def db_inv_defs db_le_def table_le_refl insert_run_def)
qed

lemma run_exists_upd_run:
  "(\<And>r. rkey (f r) = rkey r) \<Longrightarrow> run_exists o' r' (upd_run org rid f d) = run_exists o' r' d"
  by (rule run_exists_cong) (simp add: upd_run_def map_key_tupd)

lemma upd_run_step:
  assumes "db_inv uid d" "\<And>r. rkey (f r) = rkey r" "\<And>r. run_position (f r) = run_position r"
  shows "db_step uid d (upd_run org rid f d)"
proof -
  have exists: "run_exists o' r' (upd_run org rid f d) = run_exists o' r' d" for o' r'
    using assms(2) by (rule run_exists_upd_run)
  have "runs_ok (upd_run org rid f d)"
    using assms by (simp add: db_inv_defs upd_run_def keyed_tupd) (simp add: tupd_def serial_map)
  moreover have "map rkey (tupd rkey (org, rid) f (runs d)) = map rkey (runs d)"
    by (rule map_key_tupd) (rule assms(2))
  then have "rkey ` set (tupd rkey (org, rid) f (runs d)) = rkey ` set (runs d)"
    by (metis list.set_map)
  ultimately show ?thesis
    using assms(1) exists by (simp add: db_step_def db_inv_defs db_le_def table_le_refl upd_run_def)
qed

lemma map_jobs_step:
  assumes "db_inv uid d"
    and "\<And>j. j \<in> set (jobs d) \<Longrightarrow> jkey (g j) = jkey j"
    and "\<And>j. j \<in> set (jobs d) \<Longrightarrow> job_wf j \<Longrightarrow> job_wf (g j) \<and> job_le j (g j)"
  shows "db_step uid d (d\<lparr>jobs := map g (jobs d)\<rparr>)"
proof -
  have wf: "job_wf (g j)" "job_le j (g j)" "run_exists (job_org j) (job_run j) d" if "j \<in> set (jobs d)" for j
    using assms that by (auto simp: db_inv_defs)
  have "jobs_ok (d\<lparr>jobs := map g (jobs d)\<rparr>)"
    using assms(1,2) wf by (auto simp: db_inv_defs keyed_map job_le_def) (metis jkey_def prod.inject)+
  moreover have "map jkey (map g (jobs d)) = map jkey (jobs d)"
    using assms(2) by simp
  moreover from this have "jkey ` set (map g (jobs d)) = jkey ` set (jobs d)"
    by (metis list.set_map)
  ultimately show ?thesis
    using assms(1,2) wf
    by (auto simp: db_step_def db_inv_defs db_le_def table_le_refl intro: table_le_map)
qed

lemma map_gates_step:
  assumes "db_inv uid d"
    and "\<And>g. g \<in> set (run_gates d) \<Longrightarrow> gkey (h g) = gkey g"
    and "\<And>g. g \<in> set (run_gates d) \<Longrightarrow> gate_wf g \<Longrightarrow> gate_wf (h g) \<and> gate_le g (h g)"
    and "\<And>g. g \<in> set (run_gates d) \<Longrightarrow> gate_status g \<noteq> GateResolved \<Longrightarrow> gate_status (h g) = GateResolved \<Longrightarrow>
      (gate_org g, resume_job_id uid g) \<in> jkey ` set (jobs d)"
  shows "db_step uid d (d\<lparr>run_gates := map h (run_gates d)\<rparr>)"
proof -
  have wf: "gate_wf (h g)" "gate_le g (h g)" "run_exists (gate_org g) (gate_run g) d" if "g \<in> set (run_gates d)" for g
    using assms that by (auto simp: db_inv_defs)
  have same: "gate_org (h g) = gate_org g" "gate_run (h g) = gate_run g" "resume_job_id uid (h g) = resume_job_id uid g"
    if "g \<in> set (run_gates d)" for g
    using assms(2) [OF that] wf(2) [OF that] by (simp_all add: gkey_def gate_le_def resume_job_id_def)
  have resolved: "(gate_org g, resume_job_id uid g) \<in> jkey ` set (jobs d)"
    if "g \<in> set (run_gates d)" "gate_status (h g) = GateResolved" for g
    using assms(1,4) that by (cases "gate_status g = GateResolved") (auto simp: db_inv_defs)
  have "gates_ok uid (d\<lparr>run_gates := map h (run_gates d)\<rparr>)"
    using assms(1,2) wf same resolved by (simp add: db_inv_defs keyed_map)
  then show ?thesis
    using assms(1,2) wf by (auto simp: db_step_def db_inv_def db_le_def table_le_refl intro: table_le_map)
      (auto simp: db_inv_defs)
qed

lemma map_outbox_step:
  assumes "db_inv uid d"
    and "\<And>e. e \<in> set (outbox d) \<Longrightarrow> okey (h e) = okey e"
    and "\<And>e. e \<in> set (outbox d) \<Longrightarrow> outbox_wf e \<Longrightarrow> outbox_wf (h e) \<and> outbox_le e (h e)"
  shows "db_step uid d (d\<lparr>outbox := map h (outbox d)\<rparr>)"
proof -
  have wf: "outbox_wf (h e)" "outbox_le e (h e)" if "e \<in> set (outbox d)" for e
    using assms that by (auto simp: db_inv_defs)
  have same: "out_key (h e) = out_key e" "mkey (h e) = mkey e" if "e \<in> set (outbox d)" for e
    using assms(2) [OF that] wf(2) [OF that] by (simp_all add: okey_def mkey_def outbox_le_def)
  have eq: "map mkey (outbox d) = map jkey (jobs d)"
    using assms(1) by (simp add: db_inv_defs)
  have "map (mkey \<circ> h) (outbox d) = map jkey (jobs d)"
    unfolding eq [symmetric] using same by simp
  then have "outbox_ok (d\<lparr>outbox := map h (outbox d)\<rparr>)"
    using assms(1) wf same by (simp add: db_inv_defs serial_map)
  then show ?thesis
    using assms(1,2) wf by (auto simp: db_step_def db_inv_def db_le_def table_le_refl intro: table_le_map)
      (auto simp: db_inv_defs)
qed


lemma add_event_announce:
  "announce org topic jid rid ts (add_event o' r' typ dat ts' d) =
   add_event o' r' typ dat ts' (announce org topic jid rid ts d)"
  by (simp add: announce_def insert_outbox_def add_event_def)

lemma run_exists_announce [simp]:
  "run_exists o' r' (announce org topic jid rid ts (insert_job j d)) = run_exists o' r' d"
  by (simp add: announce_def insert_outbox_def insert_job_def)

lemma announce_job_step:
  assumes inv: "db_inv uid d" and fresh: "tget jkey (jkey j) (jobs d) = None"
    and wf: "job_wf j" and run: "run_exists (job_org j) (job_run j) d"
  shows "db_step uid d (announce (job_org j) topic (job_key j) rid ts (insert_job j d))"
proof -
  let ?d = "announce (job_org j) topic (job_key j) rid ts (insert_job j d)"
  have sel: "jobs ?d = jobs d @ [j]" "runs ?d = runs d" "run_items ?d = run_items d"
      "run_gates ?d = run_gates d" "run_events ?d = run_events d" "next_position ?d = next_position d"
      "next_seq ?d = next_seq d" "next_outbox ?d = Suc (next_outbox d)" "run_exists o' r' ?d = run_exists o' r' d" for o' r'
    by (simp_all add: announce_def insert_outbox_def insert_job_def run_exists_def)
  obtain e where e: "outbox ?d = outbox d @ [e]" "mkey e = jkey j" "out_key e = next_outbox d" "outbox_wf e"
    by (simp add: announce_def insert_outbox_def insert_job_def mkey_def jkey_def outbox_wf_def)
  have "outbox_ok ?d"
    using inv e sel serial_append [of out_key "outbox d" e] by (auto simp: db_inv_defs)
  moreover have "jobs_ok ?d"
    using inv fresh wf run by (auto simp: db_inv_defs sel keyed_snoc)
  moreover have "gates_ok uid ?d"
    using inv by (auto simp: db_inv_defs sel)
  ultimately show ?thesis
    using inv by (auto simp: db_step_def db_le_def sel e(1) table_le_append table_le_refl db_inv_defs)
qed

lemma insert_gate_step:
  assumes "db_inv uid d" "tget gkey (gkey g) (run_gates d) = None" "gate_wf g"
    and "gate_status g = GatePending" "run_exists (gate_org g) (gate_run g) d"
  shows "db_step uid d (d\<lparr>run_gates := run_gates d @ [g]\<rparr>)"
  using assms by (auto simp: db_step_def db_inv_defs db_le_def table_le_refl table_le_append keyed_snoc)

lemma delete_items_step:
  assumes "db_inv uid d"
  shows "db_step uid d (delete_items P d)"
  using assms
  by (auto simp: db_step_def db_inv_defs db_le_def table_le_refl delete_items_def serial_def keyed_def
      sorted_wrt_filter sorted_wrt_map distinct_map_filter)

lemma upsert_item_step:
  assumes "db_inv uid d" "run_exists org rid d"
  shows "db_step uid d (upsert_item org rid x d)"
proof -
  obtain iid p where x: "x = (iid, p)"
    by (cases x)
  let ?new = "\<lparr>item_org = org, item_run = rid, item_key = iid, item_position = next_position d, item_payload = p\<rparr>"
  let ?f = "\<lambda>i. i\<lparr>item_payload := p\<rparr>"
  have keep: "ikey (?f i) = ikey i" for i
    by (simp add: ikey_def)
  show ?thesis
  proof (cases "tget ikey (org, rid, iid) (run_items d)")
    case None
    have "serial run_position (runs d) (Suc (next_position d))"
      using assms(1) by (auto simp: db_inv_defs intro: serial_mono)
    moreover have "serial item_position (run_items d @ [?new]) (Suc (next_position d))"
      using assms(1) serial_append [of item_position "run_items d" ?new] by (simp add: db_inv_defs)
    moreover have "keyed ikey (run_items d @ [?new])"
      using assms(1) None by (simp add: db_inv_defs keyed_snoc ikey_def)
    ultimately show ?thesis
      using assms None
      by (auto simp: x upsert_item_def db_step_def db_inv_defs db_le_def table_le_refl)
  next
    case (Some i)
    have "serial item_position (tupd ikey (org, rid, iid) ?f (run_items d)) (next_position d)"
      using assms(1) by (simp add: db_inv_defs tupd_def serial_map)
    moreover have "keyed ikey (tupd ikey (org, rid, iid) ?f (run_items d))"
      using assms(1) by (simp add: db_inv_defs keyed_tupd keep)
    moreover have "\<forall>y\<in>set (tupd ikey (org, rid, iid) ?f (run_items d)). run_exists (item_org y) (item_run y) d"
      using assms(1) by (auto simp: db_inv_defs set_tupd)
    ultimately show ?thesis
      using assms(1) Some by (simp add: x upsert_item_def db_step_def db_inv_defs db_le_def table_le_refl)
  qed
qed

lemma run_exists_upsert_item [simp]: "run_exists o' r' (upsert_item org rid x d) = run_exists o' r' d"
  by (auto simp: upsert_item_def split: prod.splits option.splits)

lemma upsert_items_step:
  "db_inv uid d \<Longrightarrow> run_exists org rid d \<Longrightarrow> db_step uid d (fold (upsert_item org rid) xs d)"
proof (induction xs arbitrary: d)
  case (Cons x xs)
  have "db_step uid d (upsert_item org rid x d)"
    using Cons.prems by (rule upsert_item_step)
  then show ?case
    using Cons by (auto intro: db_step_trans)
qed (simp add: db_step_refl)

lemma upsert_run_step:
  assumes "db_inv uid d" "\<And>r. rkey (f r) = rkey r" "\<And>r. run_position (f r) = run_position r"
  shows "db_step uid d (upsert_run r f d)"
  using assms by (simp add: upsert_run_def upd_run_step insert_run_step)

lemma run_exists_upsert_run:
  assumes "\<And>r. rkey (f r) = rkey r"
  shows "run_exists (run_org r) (run_key r) (upsert_run r f d)"
proof (cases "run_exists (run_org r) (run_key r) d")
  case True
  then show ?thesis
    using assms by (simp add: upsert_run_def run_exists_upd_run)
next
  case False
  then show ?thesis
    by (simp add: upsert_run_def run_exists_iff insert_run_def) (simp add: rkey_def)
qed

section \<open>Every transaction keeps the invariant and moves forward\<close>

lemma upd_job_step:
  assumes "db_inv uid d" "tget jkey (org, jid) (jobs d) = Some j" "\<And>r. jkey (f r) = jkey r"
    and "job_wf j \<Longrightarrow> job_wf (f j) \<and> job_le j (f j)"
  shows "db_step uid d (upd_job org jid f d)"
proof -
  have "r = j" if "r \<in> set (jobs d)" "jkey r = (org, jid)" for r
    using assms(1,2) that by (auto simp: db_inv_defs intro: tget_unique)
  then show ?thesis
    unfolding upd_job_def tupd_def
    using assms by (intro map_jobs_step) auto
qed

lemma upd_job_sel [simp]:
  "run_exists o' r' (upd_job org jid f d) = run_exists o' r' d"
  by (simp add: upd_job_def)

lemma leased_jobD:
  assumes "leased_job org jid w ts d = Some j"
  shows "tget jkey (org, jid) (jobs d) = Some j" "holds_lease w ts j" "job_org j = org" "job_key j = jid"
proof -
  show *: "tget jkey (org, jid) (jobs d) = Some j" "holds_lease w ts j"
    using assms by (auto simp: leased_job_def split: option.splits if_splits)
  from tget_key [OF *(1)] show "job_org j = org" "job_key j = jid"
    by (simp_all add: jkey_def)
qed

lemma job_run_exists: "db_inv uid d \<Longrightarrow> tget jkey k (jobs d) = Some j \<Longrightarrow> run_exists (job_org j) (job_run j) d"
  by (auto simp: db_inv_defs dest: tget_SomeD)

lemma enqueue_run_step:
  assumes inv: "db_inv uid d"
    and res: "enqueue_run uid org rid offer platform batch p max_att ts d = Inr (j, d')"
  shows "db_step uid d d'"
proof -
  let ?d1 = "ensure_run org rid offer platform batch d"
  let ?jid = "job_id uid org rid ''execute_run''"
  let ?j = "new_job org ?jid rid ''execute_run'' p max_att ts"
  have d1: "db_step uid d ?d1"
    unfolding ensure_run_def using inv
    by (auto intro!: insert_run_step db_step_refl simp: new_run_def)
  have run: "run_exists org rid ?d1"
    by (auto simp: ensure_run_def run_exists_iff insert_run_def) (simp add: new_run_def rkey_def)
  have max_att: "0 < max_att"
    using res by (auto simp: enqueue_run_def Let_def split: if_splits)
  have "db_step uid ?d1 (announce org topic ?jid rid ts (insert_job ?j ?d1))"
    if "tget jkey (org, ?jid) (jobs ?d1) = None" for topic
    using announce_job_step [OF db_step_inv [OF d1], of ?j topic rid ts] that run max_att
    by (simp add: new_job_def jkey_def job_wf_def)
  then have new: "db_step uid ?d1 (add_event org rid t1 x1 ts (add_event org rid t2 x2 ts
      (announce org topic ?jid rid ts (insert_job ?j ?d1))))"
    if "tget jkey (org, ?jid) (jobs ?d1) = None" for topic t1 x1 t2 x2
    using that run by (auto intro!: db_step_trans [OF _ add_event_step])
  have "db_step uid ?d1 d'"
  proof (cases "tget jkey (org, ?jid) (jobs ?d1)")
    case None
    then show ?thesis
      using res new by (auto simp: enqueue_run_def Let_def add_event_announce split: if_splits option.splits)
  next
    case (Some j1)
    then show ?thesis
      using res db_step_inv [OF d1]
      by (auto simp: enqueue_run_def Let_def intro: db_step_refl split: if_splits)
  qed
  then show ?thesis
    using d1 db_step_trans by blast
qed


lemma claim_candidate:
  assumes "keyed jkey (jobs d)" "j \<in> set (jobs d)" "job_org j = org"
    and "job_key j \<in> set (claim_candidates org locked limit ts d)"
  shows "claimable org ts j" "job_key j \<notin> set locked"
proof -
  obtain j' where j': "j' \<in> set (jobs d)" "claimable org ts j'" "job_key j' \<notin> set locked" "job_key j' = job_key j"
    using assms(4) set_take_subset unfolding claim_candidates_def by fastforce
  then have "jkey j' = jkey j"
    using assms(3) by (simp add: jkey_def claimable_def)
  then have "j' = j"
    using assms(1,2) j'(1) keyed_inj by metis
  then show "claimable org ts j" "job_key j \<notin> set locked"
    using j' by simp_all
qed

lemma take_lease_sel [simp]:
  "jkey (take_lease w ts j) = jkey j" "job_org (take_lease w ts j) = job_org j"
  "job_key (take_lease w ts j) = job_key j" "job_run (take_lease w ts j) = job_run j"
  "job_status (take_lease w ts j) = Running" "job_worker (take_lease w ts j) = Some w"
  "job_lease (take_lease w ts j) = Some (lease_until ts)"
  "job_attempt (take_lease w ts j) = job_attempt j + 1"
  "job_max_attempts (take_lease w ts j) = job_max_attempts j"
  "job_kind (take_lease w ts j) = job_kind j" "job_payload (take_lease w ts j) = job_payload j"
  by (simp_all add: take_lease_def)

lemma take_lease_ok:
  assumes "claimable org ts j" "job_wf j"
  shows "job_wf (take_lease w ts j) \<and> job_le j (take_lease w ts j)"
proof
  show "job_wf (take_lease w ts j)"
    using assms(2) by (simp add: job_wf_def)
  have "\<not> terminal_job (job_status j)"
    using assms(1) by (cases "job_status j") (simp_all add: claimable_def terminal_job_def)
  then show "job_le j (take_lease w ts j)"
    by (simp add: job_le_def)
qed

lemma claim_step:
  assumes inv: "db_inv uid d" and res: "claim org locked w limit ts d = Inr (js, d')"
  shows "db_step uid d d'"
proof -
  let ?hit = "\<lambda>j. job_org j = org \<and> job_key j \<in> set (claim_candidates org locked limit ts d)"
  let ?d1 = "d\<lparr>jobs := map (\<lambda>j. if ?hit j then take_lease w ts j else j) (jobs d)\<rparr>"
  have keyed: "keyed jkey (jobs d)"
    using inv by (simp add: db_inv_defs)
  have ok: "job_wf (take_lease w ts j) \<and> job_le j (take_lease w ts j)"
    if "j \<in> set (jobs d)" "job_wf j" "?hit j" for j
    using take_lease_ok [OF claim_candidate(1) [OF keyed that(1)] that(2)] that(3) by blast
  have d1: "db_step uid d ?d1"
    using inv ok by (intro map_jobs_step) auto
  have js: "js = map (take_lease w ts) (filter ?hit (jobs d))" and d': "d' = fold (started_event w ts) js ?d1"
    using res by (auto simp: claim_def Let_def)
  have "run_exists (job_org j) (job_run j) ?d1" if "j \<in> set js" for j
    using that inv by (auto simp: js db_inv_defs)
  then have "db_step uid ?d1 d'"
    unfolding d' started_event_def [abs_def] by (rule add_events_step [OF db_step_inv [OF d1]])
  then show ?thesis
    using d1 db_step_trans by blast
qed

lemma leased_job_step:
  assumes inv: "db_inv uid d" and j: "leased_job org jid w ts d = Some j"
    and f: "\<And>r. jkey (f r) = jkey r" "job_wf j \<Longrightarrow> job_wf (f j)"
      "\<not> terminal_job (job_status j) \<Longrightarrow> job_le j (f j)"
  shows "db_step uid d (upd_job org jid f d)" "run_exists org (job_run j) (upd_job org jid f d)"
proof -
  note lj = leased_jobD [OF j]
  have "\<not> terminal_job (job_status j)"
    using lj(2) by (simp add: holds_lease_def terminal_job_def)
  then show "db_step uid d (upd_job org jid f d)"
    using f by (intro upd_job_step [OF inv lj(1)]) simp_all
  show "run_exists org (job_run j) (upd_job org jid f d)"
    using job_run_exists [OF inv lj(1)] lj(3) by simp
qed

lemma complete_step:
  assumes inv: "db_inv uid d" and res: "complete org jid w ts d = Inr (x, d')"
  shows "db_step uid d d'"
proof -
  obtain j where j: "leased_job org jid w ts d = Some j"
    using res by (auto simp: complete_def split: option.splits)
  let ?f = "\<lambda>r. r\<lparr>job_status := JobSucceeded, job_lease := None\<rparr>"
  have "job_wf j \<Longrightarrow> job_wf (?f j)" "\<not> terminal_job (job_status j) \<Longrightarrow> job_le j (?f j)"
    by (simp_all add: job_wf_def job_le_def)
  note step = leased_job_step [where f = ?f, OF inv j _ this, simplified]
  show ?thesis
    using res j step by (auto simp: complete_def intro!: db_step_trans [OF _ add_event_step])
qed

lemma renew_step:
  assumes inv: "db_inv uid d" and res: "renew org jid w ts d = Inr (x, d')"
  shows "db_step uid d d'"
proof -
  obtain j where j: "leased_job org jid w ts d = Some j"
    using res by (auto simp: renew_def split: option.splits)
  let ?f = "\<lambda>r. r\<lparr>job_lease := Some (lease_until ts)\<rparr>"
  have "job_wf j \<Longrightarrow> job_wf (?f j)" "\<not> terminal_job (job_status j) \<Longrightarrow> job_le j (?f j)"
    using leased_jobD(2) [OF j] by (simp_all add: job_wf_def job_le_def holds_lease_def)
  note step = leased_job_step [where f = ?f, OF inv j _ this, simplified]
  show ?thesis
    using res j step by (auto simp: renew_def Let_def intro!: db_step_trans [OF _ add_event_step])
qed

lemma fail_row_sel [simp]:
  "jkey (fail_row b err et ts j) = jkey j" "job_org (fail_row b err et ts j) = job_org j"
  "job_key (fail_row b err et ts j) = job_key j"
  "job_run (fail_row b err et ts j) = job_run j" "job_kind (fail_row b err et ts j) = job_kind j"
  "job_payload (fail_row b err et ts j) = job_payload j"
  "job_attempt (fail_row b err et ts j) = job_attempt j"
  "job_max_attempts (fail_row b err et ts j) = job_max_attempts j"
  "job_status (fail_row b err et ts j) = (if b then Retry else JobFailed)"
  "job_lease (fail_row b err et ts j) = None" "job_worker (fail_row b err et ts j) = None"
  "job_error (fail_row b err et ts j) = Some (take 2000 err)"
  by (simp_all add: fail_row_def)

lemma fail_run_step:
  assumes "db_inv uid d" "run_exists (job_org j) (job_run j) d"
  shows "db_step uid d (fail_run ts j d)"
  unfolding fail_run_def
  by (rule db_step_trans [OF upd_run_step add_event_step]) (simp_all add: run_exists_upd_run assms)

lemma fail_step:
  assumes inv: "db_inv uid d" and res: "fail org jid w err et retryable ts d = Inr (x, d')"
  shows "db_step uid d d'"
proof -
  obtain j where j: "leased_job org jid w ts d = Some j"
    using res by (auto simp: fail_def split: option.splits)
  note lj = leased_jobD [OF j]
  define b where "b = (retryable \<and> job_attempt j < job_max_attempts j)"
  let ?d1 = "upd_job org jid (fail_row b err et ts) d"
  let ?d2 = "fail_event (if b then ''job_retry'' else ''job_failed'') ts (fail_row b err et ts j) ?d1"
  have "job_wf j \<Longrightarrow> job_wf (fail_row b err et ts j)"
      "\<not> terminal_job (job_status j) \<Longrightarrow> job_le j (fail_row b err et ts j)"
    using lj(2) by (simp_all add: job_wf_def job_le_def b_def holds_lease_def)
  note step = leased_job_step [where f = "fail_row b err et ts", OF inv j _ this, simplified]
  have d2: "db_step uid d ?d2"
    using step lj(3) unfolding fail_event_def by (auto intro!: db_step_trans [OF _ add_event_step])
  have run2: "run_exists (job_org j) (job_run j) ?d2"
    using step(2) lj(3) by (simp add: fail_event_def)
  have "db_step uid d (fail_run ts (fail_row b err et ts j) ?d2)"
    by (rule db_step_trans [OF d2 fail_run_step]) (use run2 in simp_all)
  moreover have "d' = (if b then ?d2 else fail_run ts (fail_row b err et ts j) ?d2)"
    using res j unfolding fail_def b_def [symmetric] by (auto simp: Let_def b_def [symmetric])
  ultimately show ?thesis
    using d2 by (cases b) auto
qed


lemma upd_run_exists [simp]:
  "run_exists o' r' (upd_run org rid (run_phase_update g) d) = run_exists o' r' d"
  by (rule run_exists_upd_run) simp

lemma next_gate_version_pos: "0 < next_gate_version org rid gt d"
proof -
  have "n \<le> fold max xs n" for xs and n :: int
    by (induction xs arbitrary: n) (simp, metis fold_simps(2) max.cobounded2 order_trans)
  then show ?thesis
    by (simp add: next_gate_version_def add_strict_increasing zle_add1_eq_le)
qed

lemma open_gate_step:
  assumes inv: "db_inv uid d" and res: "open_gate uid org rid gt p ts d = Inr (g, d')"
  shows "db_step uid d d'"
proof -
  let ?v = "next_gate_version org rid gt d"
  let ?gid = "job_id uid org rid (''gate:'' @ gt @ '':'' @ str_int ?v)"
  let ?g = "\<lparr>gate_org = org, gate_key = ?gid, gate_run = rid, gate_type = gt, gate_version = ?v,
                gate_status = GatePending, gate_payload = p, gate_resolution = None\<rparr>"
  have run: "run_exists org rid d" and fresh: "tget gkey (org, ?gid) (run_gates d) = None"
    using res by (auto simp: open_gate_def Let_def split: if_splits)
  have "gate_wf ?g"
    by (simp add: gate_wf_def next_gate_version_pos)
  then have "db_step uid d (d\<lparr>run_gates := run_gates d @ [?g]\<rparr>)"
    using fresh run by (intro insert_gate_step [OF inv]) (simp_all add: gkey_def)
  then have "db_step uid d (upd_run org rid (\<lambda>r. r\<lparr>run_phase := gate_phase gt\<rparr>) (d\<lparr>run_gates := run_gates d @ [?g]\<rparr>))"
    by (rule db_step_trans [OF _ upd_run_step]) simp_all
  moreover have "run_exists org rid (upd_run org rid (\<lambda>r. r\<lparr>run_phase := gate_phase gt\<rparr>) (d\<lparr>run_gates := run_gates d @ [?g]\<rparr>))"
    using run by simp
  ultimately show ?thesis
    using res by (auto simp: open_gate_def Let_def intro!: db_step_trans [OF _ add_event_step] split: if_splits)
qed

lemma resolve_gate_cases:
  assumes "resolve_gate uid org gid v resolution ts d = Inr (j, d')"
  obtains g where
    "tget gkey (org, gid) (run_gates d) = Some g" "gate_version g = v" "gate_status g = GatePending"
    "tget jkey (org, resume_job_id uid g) (jobs d) = None"
    "j = new_job org (resume_job_id uid g) (gate_run g) ''resume_run''
       (resume_payload g resolution (get_initial_run_payload org (gate_run g) d)) 5 ts"
    "d' = add_event org (gate_run g) ''gate_resolved''
       (obj [(''gate_id'', JStr gid), (''gate_type'', JStr (gate_type g)), (''version'', JNum (of_int v))]) ts
      (upd_run org (gate_run g) (\<lambda>r. r\<lparr>run_phase := PhRunning\<rparr>)
        (upd_gate org gid (\<lambda>r. r\<lparr>gate_status := GateResolved, gate_resolution := Some resolution\<rparr>)
          (announce org ''run.resume'' (resume_job_id uid g) (gate_run g) ts (insert_job j d))))"
proof -
  have swap: "announce o1 t1 j1 r1 ts (insert_job jj (upd_gate o2 g2 f d)) =
      upd_gate o2 g2 f (announce o1 t1 j1 r1 ts (insert_job jj d))" for o1 t1 j1 r1 jj o2 g2 f
    by (simp add: announce_def insert_outbox_def insert_job_def upd_gate_def)
  have "jobs (upd_gate o2 g2 f d) = jobs d" for o2 g2 f
    by (simp add: upd_gate_def)
  then show thesis
    using assms that unfolding resolve_gate_def
    by (auto simp: Let_def swap split: option.splits if_splits)
qed

lemma resolve_gate_step:
  assumes inv: "db_inv uid d" and res: "resolve_gate uid org gid v resolution ts d = Inr (j, d')"
  shows "db_step uid d d'"
  using res
proof (cases rule: resolve_gate_cases)
  case (1 g)
  let ?jid = "resume_job_id uid g"
  let ?d1 = "announce org ''run.resume'' ?jid (gate_run g) ts (insert_job j d)"
  let ?f = "\<lambda>r. r\<lparr>gate_status := GateResolved, gate_resolution := Some resolution\<rparr>"
  have g: "g \<in> set (run_gates d)" "gate_org g = org" "gate_key g = gid"
    using tget_SomeD [OF 1(1)] by (auto simp: gkey_def)
  have run: "run_exists org (gate_run g) d"
    using inv g by (auto simp: db_inv_defs)
  have j: "jkey j = (org, ?jid)" "job_wf j" "job_org j = org" "job_run j = gate_run g" "job_key j = ?jid"
    by (simp_all add: 1(5) new_job_def jkey_def job_wf_def)
  have d1: "db_step uid d ?d1"
    using announce_job_step [OF inv, of j "''run.resume''" "gate_run g" ts] 1(4) run j by simp
  have gates: "run_gates ?d1 = run_gates d" and jobs: "jobs ?d1 = jobs d @ [j]"
    by (simp_all add: announce_def insert_outbox_def insert_job_def)
  have only: "r = g" if "r \<in> set (run_gates d)" "gkey r = (org, gid)" for r
    using inv 1(1) that by (auto simp: db_inv_defs intro: tget_unique)
  have "db_step uid ?d1 (upd_gate org gid ?f ?d1)"
    unfolding upd_gate_def tupd_def
  proof (rule map_gates_step [OF db_step_inv [OF d1]])
    fix r
    assume "r \<in> set (run_gates ?d1)"
    then have r: "r \<in> set (run_gates d)"
      by (simp add: gates)
    show "gkey (if gkey r = (org, gid) then ?f r else r) = gkey r"
      by simp
    show "gate_wf (if gkey r = (org, gid) then ?f r else r) \<and>
        gate_le r (if gkey r = (org, gid) then ?f r else r)" if "gate_wf r"
      using that only [OF r] 1(3) by (auto simp: gate_wf_def gate_le_def)
    show "(gate_org r, resume_job_id uid r) \<in> jkey ` set (jobs ?d1)"
      if "gate_status r \<noteq> GateResolved" "gate_status (if gkey r = (org, gid) then ?f r else r) = GateResolved"
      using that only [OF r] j(1) g(2) by (auto simp: jobs split: if_splits)
  qed
  then have "db_step uid d (upd_gate org gid ?f ?d1)"
    using d1 db_step_trans by blast
  then have d3: "db_step uid d (upd_run org (gate_run g) (\<lambda>r. r\<lparr>run_phase := PhRunning\<rparr>) (upd_gate org gid ?f ?d1))"
    by (rule db_step_trans [OF _ upd_run_step]) simp_all
  have "run_exists org (gate_run g) (upd_run org (gate_run g) (\<lambda>r. r\<lparr>run_phase := PhRunning\<rparr>) (upd_gate org gid ?f ?d1))"
    using run by (simp add: upd_gate_def)
  then show ?thesis
    unfolding 1(6) by (intro db_step_trans [OF d3 add_event_step])
qed


lemma map_runs_step:
  assumes "db_inv uid d" "\<And>r. rkey (f r) = rkey r" "\<And>r. run_position (f r) = run_position r"
  shows "db_step uid d (d\<lparr>runs := map f (runs d)\<rparr>)"
proof -
  have exists: "run_exists o' r' (d\<lparr>runs := map f (runs d)\<rparr>) = run_exists o' r' d" for o' r'
    by (rule run_exists_cong) (simp add: assms(2))
  have "runs_ok (d\<lparr>runs := map f (runs d)\<rparr>)"
    using assms by (simp add: db_inv_defs keyed_map serial_map)
  then show ?thesis
    using assms exists by (simp add: db_step_def db_inv_defs db_le_def table_le_refl image_image)
qed

definition cancel_gate :: "org \<Rightarrow> string \<Rightarrow> gate_row \<Rightarrow> gate_row" where
  "cancel_gate org reason g = (if gate_org g = org \<and> gate_status g = GatePending
     then g\<lparr>gate_status := GateCancelled, gate_resolution := Some (obj [(''reason'', JStr reason)])\<rparr> else g)"

definition cancel_run :: "org \<Rightarrow> string \<Rightarrow> string set \<Rightarrow> run_row \<Rightarrow> run_row" where
  "cancel_run org reason rids r = (if run_org r = org \<and> run_key r \<in> rids \<and> live_phase (run_phase r)
     then r\<lparr>run_phase := PhCancelled, run_error := Some reason\<rparr> else r)"

definition cancel_job :: "org \<Rightarrow> string \<Rightarrow> string set \<Rightarrow> job_row \<Rightarrow> job_row" where
  "cancel_job org reason rids j = (if job_org j = org \<and> job_run j \<in> rids \<and> live_job (job_status j)
     then j\<lparr>job_status := JobCancelled, job_error := Some reason, job_lease := None, job_worker := None\<rparr> else j)"

definition pending_runs :: "org \<Rightarrow> db \<Rightarrow> string list" where
  "pending_runs org d =
    sort (remdups (map gate_run (filter (\<lambda>g. gate_org g = org \<and> gate_status g = GatePending) (run_gates d))))"

lemma cancel_cases:
  assumes "cancel_pending_test_runs org reason ts d = Inr (x, d')"
  obtains "d' = d"
  | "d' = fold (\<lambda>rid. add_event org rid ''run_cancelled'' (obj [(''reason'', JStr reason)]) ts) (pending_runs org d)
       (d\<lparr>run_gates := map (cancel_gate org reason) (run_gates d),
          runs := map (cancel_run org reason (set (pending_runs org d))) (runs d),
          jobs := map (cancel_job org reason (set (pending_runs org d))) (jobs d)\<rparr>)"
  using assms unfolding cancel_pending_test_runs_def Let_def pending_runs_def [symmetric]
    cancel_gate_def [abs_def] cancel_run_def [abs_def] cancel_job_def [abs_def]
  by (auto split: if_splits)

lemma cancel_job_ok: "job_wf j \<Longrightarrow> job_wf (cancel_job org reason rids j) \<and> job_le j (cancel_job org reason rids j)"
  unfolding cancel_job_def
  by (cases "job_status j") (simp_all add: job_wf_def job_le_def terminal_job_def live_job_def)

lemma cancel_gate_ok: "gate_wf g \<Longrightarrow> gate_wf (cancel_gate org reason g) \<and> gate_le g (cancel_gate org reason g)"
  unfolding cancel_gate_def by (simp add: gate_wf_def gate_le_def)

lemma cancel_keys [simp]:
  "gkey (cancel_gate org reason g) = gkey g" "jkey (cancel_job org reason rids j) = jkey j"
  "rkey (cancel_run org reason rids r) = rkey r" "run_position (cancel_run org reason rids r) = run_position r"
  by (simp_all add: cancel_gate_def cancel_job_def cancel_run_def)

lemma cancel_step:
  assumes inv: "db_inv uid d" and res: "cancel_pending_test_runs org reason ts d = Inr (x, d')"
  shows "db_step uid d d'"
  using res
proof (cases rule: cancel_cases)
  case 1
  then show ?thesis
    using inv by (simp add: db_step_refl)
next
  case 2
  let ?R = "set (pending_runs org d)"
  let ?g = "\<lambda>d. d\<lparr>run_gates := map (cancel_gate org reason) (run_gates d)\<rparr>"
  let ?r = "\<lambda>d. d\<lparr>runs := map (cancel_run org reason ?R) (runs d)\<rparr>"
  let ?j = "\<lambda>d. d\<lparr>jobs := map (cancel_job org reason ?R) (jobs d)\<rparr>"
  have "db_step uid d (?g d)"
    using inv cancel_gate_ok by (intro map_gates_step) (auto simp: cancel_gate_def split: if_splits)
  then have "db_step uid d (?r (?g d))"
    by (rule db_step_trans [OF _ map_runs_step]) simp_all
  then have d1: "db_step uid d (?j (?r (?g d)))"
    by (rule db_step_trans [OF _ map_jobs_step]) (simp_all add: cancel_job_ok)
  have "run_exists org rid d" if "rid \<in> ?R" for rid
    using that inv by (auto simp: pending_runs_def db_inv_defs)
  then have runs: "run_exists org rid (?j (?r (?g d)))" if "rid \<in> ?R" for rid
    using that by (simp add: run_exists_iff image_image)
  have "d' = fold (\<lambda>rid. add_event org rid ''run_cancelled'' (obj [(''reason'', JStr reason)]) ts)
      (pending_runs org d) (?j (?r (?g d)))"
    using 2 by simp
  also have "db_step uid (?j (?r (?g d))) \<dots>"
    using runs by (rule add_events_step [OF db_step_inv [OF d1]])
  finally show ?thesis
    using d1 db_step_trans by blast
qed

lemma append_event_step:
  "db_inv uid d \<Longrightarrow> append_event org rid tp dat ts d = Inr (x, d') \<Longrightarrow> db_step uid d d'"
  by (auto simp: append_event_def add_event_step split: if_splits)

lemma serial_inj: "serial col rows n \<Longrightarrow> distinct (map col rows)"
  by (simp add: serial_def strict_sorted_iff)

lemma outbox_keyed:
  assumes "db_inv uid d"
  shows "keyed okey (outbox d)"
proof -
  have "distinct (map out_key (outbox d))"
    using assms serial_inj by (auto simp: db_inv_defs)
  then show ?thesis
    by (auto simp: keyed_def okey_def distinct_map inj_on_def)
qed

lemma upd_outbox_step:
  assumes inv: "db_inv uid d" and e: "tget okey (org, eid) (outbox d) = Some e"
    and f: "\<And>r. okey (f r) = okey r" "outbox_wf e \<Longrightarrow> outbox_wf (f e) \<and> outbox_le e (f e)"
  shows "db_step uid d (upd_outbox org eid f d)"
proof -
  have "r = e" if "r \<in> set (outbox d)" "okey r = (org, eid)" for r
    using outbox_keyed [OF inv] e that by (rule tget_unique)
  then show ?thesis
    unfolding upd_outbox_def tupd_def using inv f by (intro map_outbox_step) auto
qed

lemma leased_entryD:
  assumes "leased_entry org eid w ts d = Some e"
  shows "tget okey (org, eid) (outbox d) = Some e" "out_status e = Publishing"
  using assms by (auto simp: leased_entry_def split: option.splits if_splits)

lemma mark_published_step:
  assumes inv: "db_inv uid d" and res: "mark_outbox_published org eid w ts d = Inr (x, d')"
  shows "db_step uid d d'"
proof -
  obtain e where e: "leased_entry org eid w ts d = Some e"
    using res by (auto simp: mark_outbox_published_def split: option.splits)
  have "db_step uid d (upd_outbox org eid (\<lambda>r. r\<lparr>out_status := Published, out_lease := None, out_worker := None\<rparr>) d)"
    using leased_entryD(2) [OF e]
    by (intro upd_outbox_step [OF inv leased_entryD(1) [OF e]]) (simp_all add: outbox_wf_def outbox_le_def)
  then show ?thesis
    using res e by (simp add: mark_outbox_published_def)
qed

lemma fail_outbox_step:
  assumes inv: "db_inv uid d" and res: "fail_outbox org eid w err ts d = Inr (x, d')"
  shows "db_step uid d d'"
proof -
  obtain e where e: "leased_entry org eid w ts d = Some e"
    using res by (auto simp: fail_outbox_def split: option.splits)
  let ?f = "\<lambda>r. r\<lparr>out_status := (if out_attempt e < OUTBOX_MAX_ATTEMPTS then OutPending else OutFailed),
      out_available_at := ts + seconds (if out_attempt e < OUTBOX_MAX_ATTEMPTS then backoff_seconds (out_attempt e) else 0),
      out_lease := None, out_worker := None, out_error := Some (take 2000 err)\<rparr>"
  have "db_step uid d (upd_outbox org eid ?f d)"
    using leased_entryD(2) [OF e]
    by (intro upd_outbox_step [OF inv leased_entryD(1) [OF e]]) (simp_all add: outbox_wf_def outbox_le_def)
  then show ?thesis
    using res e by (simp add: fail_outbox_def Let_def)
qed


lemma claim_outbox_step:
  assumes inv: "db_inv uid d" and res: "claim_outbox org locked w limit ts d = Inr (es, d')"
  shows "db_step uid d d'"
proof -
  define ids where "ids = map out_key (take limit (sort_key (\<lambda>e. (out_available_at e, out_key e))
     (filter (\<lambda>e. deliverable org ts e \<and> out_key e \<notin> set locked) (outbox d))))"
  have inj: "distinct (map out_key (outbox d))"
    using inv serial_inj by (auto simp: db_inv_defs)
  have hit: "deliverable org ts e" if e: "e \<in> set (outbox d)" "out_key e \<in> set ids" for e
  proof -
    obtain e' where "e' \<in> set (outbox d)" "deliverable org ts e'" "out_key e' = out_key e"
      using e(2) set_take_subset unfolding ids_def by fastforce
    then show ?thesis
      using inj e(1) by (auto simp: distinct_map inj_on_def)
  qed
  have ok: "outbox_wf (take_outbox_lease w ts e) \<and> outbox_le e (take_outbox_lease w ts e)"
    if "deliverable org ts e" "outbox_wf e" for e
  proof -
    have "out_status e \<notin> {Published, OutFailed}"
      using that(1) by (auto simp: deliverable_def)
    then show ?thesis
      using that(2) by (simp add: outbox_wf_def outbox_le_def take_outbox_lease_def)
  qed
  have "d' = d\<lparr>outbox := map (\<lambda>e. if out_org e = org \<and> out_key e \<in> set ids then take_outbox_lease w ts e else e) (outbox d)\<rparr>"
    using res by (simp add: claim_outbox_def Let_def ids_def)
  then show ?thesis
    using inv hit ok by (auto intro!: map_outbox_step simp: take_outbox_lease_def)
qed

lemma start_step:
  assumes inv: "db_inv uid d" and res: "start org rid offer platform batch d = Inr (x, d')"
  shows "db_step uid d d'"
proof -
  let ?f = "\<lambda>r. r\<lparr>run_offer := offer, run_platform := platform, run_batch_size := batch,
                 run_phase := PhRunning, run_error := None, run_error_type := None,
                 run_summary := fmempty, run_state := fmempty\<rparr>"
  have "db_step uid d (upsert_run (new_run org rid offer platform batch) ?f d)"
    by (rule upsert_run_step [OF inv]) simp_all
  then show ?thesis
    using res by (auto simp: start_def intro: db_step_trans delete_items_step split: if_splits)
qed

lemma save_step:
  assumes inv: "db_inv uid d" and res: "save ps org rid phase state summary items err et d = Inr (x, d')"
  shows "db_step uid d d'"
proof -
  obtain ph where ph: "run_phase_of phase = Some ph"
    using res by (auto simp: save_def split: option.splits)
  let ?r = "(new_run org rid None None None)\<lparr>run_phase := ph, run_error := err, run_error_type := et,
                     run_summary := summary, run_state := state\<rparr>"
  let ?f = "\<lambda>r. r\<lparr>run_phase := ph, run_error := err, run_error_type := et,
                     run_summary := summary, run_state := state\<rparr>"
  let ?ids = "map (item_ident ps) items"
  have d1: "db_step uid d (upsert_run ?r ?f d)"
    by (rule upsert_run_step [OF inv]) simp_all
  have "run_exists org rid (upsert_run ?r ?f d)"
    using run_exists_upsert_run [of ?f ?r d] by (simp add: new_run_def)
  then have "db_step uid d (fold (upsert_item org rid) (zip ?ids items) (upsert_run ?r ?f d))"
    by (intro db_step_trans [OF d1 upsert_items_step])
  then show ?thesis
    using res ph by (auto simp: save_def Let_def intro: db_step_trans delete_items_step split: if_splits)
qed

lemmas job_steps = enqueue_run_step claim_step complete_step renew_step fail_step open_gate_step
  resolve_gate_step cancel_step append_event_step claim_outbox_step mark_published_step
  fail_outbox_step start_step save_step

lemma exec_job_step:
  assumes "db_inv uid d"
  shows "db_step uid d (exec_job uid ps p d)"
  using assms by (cases p) (simp_all, (rule commit_keeps, erule (1) job_steps, erule db_step_refl)+)

lemma db_inv_empty [simp]: "db_inv uid empty_db"
  by (simp add: db_inv_defs empty_db_def serial_def)

interpretation job_store: ordered_store "exec_job uid ps" "db_inv uid" db_le for uid ps
  by unfold_locales (use exec_job_step in \<open>auto simp: db_step_def intro: db_le_trans\<close>)

end
