(* ===== verification/Job_Properties.thy ===== *)
theory Job_Properties
  imports Job_Store
begin

text \<open>
  The properties of the durable job store: leases are exclusive and final outcomes final, gates are
  resolved once, every job is announced exactly once, the event log is append-only and readable in
  pages, retries follow the backoff, tenants are isolated.
\<close>

section \<open>Tenants\<close>

definition db_view :: "org \<Rightarrow> db \<Rightarrow>
    run_row list \<times> item_row list \<times> job_row list \<times> gate_row list \<times> event_row list \<times> outbox_row list" where
  "db_view org d = (filter (\<lambda>r. run_org r = org) (runs d), filter (\<lambda>i. item_org i = org) (run_items d),
     filter (\<lambda>j. job_org j = org) (jobs d), filter (\<lambda>g. gate_org g = org) (run_gates d),
     filter (\<lambda>e. ev_org e = org) (run_events d), filter (\<lambda>e. out_org e = org) (outbox d))"

lemma filter_map_other:
  assumes "\<And>x. P (g x) = P x" "\<And>x. P x \<Longrightarrow> g x = x"
  shows "filter P (map g xs) = filter P xs"
  using assms by (induction xs) auto

lemma add_event_view [tenant_simps]: "o' \<noteq> org \<Longrightarrow> db_view org (add_event o' rid tp dat ts d) = db_view org d"
  by (simp add: db_view_def add_event_def)

lemma add_events_view [tenant_simps]:
  "(\<And>x. x \<in> set xs \<Longrightarrow> oo x \<noteq> org) \<Longrightarrow>
    db_view org (fold (\<lambda>x. add_event (oo x) (rr x) (tp x) (dat x) (ts x)) xs d) = db_view org d"
  by (induction xs arbitrary: d) (simp_all add: tenant_simps)

lemma insert_run_view [tenant_simps]: "run_org r \<noteq> org \<Longrightarrow> db_view org (insert_run r d) = db_view org d"
  by (simp add: db_view_def insert_run_def)

lemma map_runs_view:
  assumes "\<And>r. run_org (f r) = run_org r" "\<And>r. run_org r = org \<Longrightarrow> f r = r"
  shows "db_view org (d\<lparr>runs := map f (runs d)\<rparr>) = db_view org d"
  using assms by (simp add: db_view_def filter_map_other)

lemma map_jobs_view:
  assumes "\<And>j. job_org (f j) = job_org j" "\<And>j. job_org j = org \<Longrightarrow> f j = j"
  shows "db_view org (d\<lparr>jobs := map f (jobs d)\<rparr>) = db_view org d"
  using assms by (simp add: db_view_def filter_map_other)

lemma map_gates_view:
  assumes "\<And>g. gate_org (f g) = gate_org g" "\<And>g. gate_org g = org \<Longrightarrow> f g = g"
  shows "db_view org (d\<lparr>run_gates := map f (run_gates d)\<rparr>) = db_view org d"
  using assms by (simp add: db_view_def filter_map_other)

lemma map_outbox_view:
  assumes "\<And>e. out_org (f e) = out_org e" "\<And>e. out_org e = org \<Longrightarrow> f e = e"
  shows "db_view org (d\<lparr>outbox := map f (outbox d)\<rparr>) = db_view org d"
  using assms by (simp add: db_view_def filter_map_other)

lemma upd_run_view:
  "o' \<noteq> org \<Longrightarrow> (\<And>r. rkey (f r) = rkey r) \<Longrightarrow> db_view org (upd_run o' rid f d) = db_view org d"
  unfolding upd_run_def tupd_def by (rule map_runs_view) (auto simp: rkey_def)

lemma upd_job_view:
  "o' \<noteq> org \<Longrightarrow> (\<And>r. jkey (f r) = jkey r) \<Longrightarrow> db_view org (upd_job o' jid f d) = db_view org d"
  unfolding upd_job_def tupd_def by (rule map_jobs_view) (auto simp: jkey_def)

lemma upd_gate_view:
  "o' \<noteq> org \<Longrightarrow> (\<And>r. gkey (f r) = gkey r) \<Longrightarrow> db_view org (upd_gate o' gid f d) = db_view org d"
  unfolding upd_gate_def tupd_def by (rule map_gates_view) (auto simp: gkey_def)

lemma upd_outbox_view:
  "o' \<noteq> org \<Longrightarrow> (\<And>r. okey (f r) = okey r) \<Longrightarrow> db_view org (upd_outbox o' eid f d) = db_view org d"
  unfolding upd_outbox_def tupd_def by (rule map_outbox_view) (auto simp: okey_def)

lemma announce_view [tenant_simps]:
  "o' \<noteq> org \<Longrightarrow> job_org j \<noteq> org \<Longrightarrow> db_view org (announce o' topic jid rid ts (insert_job j d)) = db_view org d"
  by (simp add: db_view_def announce_def insert_outbox_def insert_job_def)

lemma delete_items_view:
  "(\<And>i. item_org i = org \<Longrightarrow> \<not> P i) \<Longrightarrow> db_view org (delete_items P d) = db_view org d"
  by (auto simp: db_view_def delete_items_def filter_filter intro: filter_cong)

lemma upsert_item_view: "o' \<noteq> org \<Longrightarrow> db_view org (upsert_item o' rid x d) = db_view org d"
  unfolding upsert_item_def db_view_def tupd_def
  by (auto simp: ikey_def intro!: filter_map_other split: prod.splits option.splits)

lemma upsert_items_view [tenant_simps]:
  "o' \<noteq> org \<Longrightarrow> db_view org (fold (upsert_item o' rid) xs d) = db_view org d"
  by (induction xs arbitrary: d) (simp_all add: upsert_item_view)

lemma upsert_run_view:
  "run_org r \<noteq> org \<Longrightarrow> (\<And>r. rkey (f r) = rkey r) \<Longrightarrow> db_view org (upsert_run r f d) = db_view org d"
  by (simp add: upsert_run_def upd_run_view insert_run_view)

lemma enqueue_run_view:
  assumes "enqueue_run uid o' rid offer platform batch p m ts d = Inr (j, d')" "o' \<noteq> org"
  shows "db_view org d' = db_view org d"
proof -
  have "db_view org (ensure_run o' rid offer platform batch d) = db_view org d"
    using assms(2) by (simp add: ensure_run_def insert_run_view new_run_def)
  then show ?thesis
    using assms by (auto simp: enqueue_run_def Let_def add_event_announce tenant_simps new_job_def
        split: if_splits option.splits)
qed

lemma claim_view:
  assumes "claim o' locked w limit ts d = Inr (js, d')" "o' \<noteq> org"
  shows "db_view org d' = db_view org d"
proof -
  let ?hit = "\<lambda>j. job_org j = o' \<and> job_key j \<in> set (claim_candidates o' locked limit ts d)"
  let ?d1 = "d\<lparr>jobs := map (\<lambda>j. if ?hit j then take_lease w ts j else j) (jobs d)\<rparr>"
  have "db_view org ?d1 = db_view org d"
    using assms(2) by (intro map_jobs_view) auto
  moreover have "db_view org (fold (started_event w ts) (map (take_lease w ts) (filter ?hit (jobs d))) ?d1) = db_view org ?d1"
    unfolding started_event_def [abs_def] using assms(2) by (intro add_events_view) auto
  ultimately show ?thesis
    using assms(1) by (auto simp: claim_def Let_def)
qed

lemma fail_view:
  assumes "fail o' jid w err et retryable ts d = Inr (j', d')" "o' \<noteq> org"
  shows "db_view org d' = db_view org d"
  using assms
  by (auto simp: fail_def Let_def fail_run_def fail_event_def tenant_simps upd_run_view upd_job_view
      dest: leased_jobD(3) split: option.splits if_splits)

lemma resolve_gate_view:
  assumes "resolve_gate uid o' gid v res ts d = Inr (j, d')" "o' \<noteq> org"
  shows "db_view org d' = db_view org d"
  using assms(1)
proof (cases rule: resolve_gate_cases)
  case (1 g)
  then show ?thesis
    using assms(2) by (simp add: tenant_simps upd_run_view upd_gate_view new_job_def)
qed

lemma cancel_view:
  assumes "cancel_pending_test_runs o' reason ts d = Inr (x, d')" "o' \<noteq> org"
  shows "db_view org d' = db_view org d"
  using assms(1)
proof (cases rule: cancel_cases)
  case 2
  have "db_view org d' = db_view org (d\<lparr>run_gates := map (cancel_gate o' reason) (run_gates d),
          runs := map (cancel_run o' reason (set (pending_runs o' d))) (runs d),
          jobs := map (cancel_job o' reason (set (pending_runs o' d))) (jobs d)\<rparr>)"
    unfolding 2 using assms(2) by (intro add_events_view)
  also have "\<dots> = db_view org d"
    using assms(2)
    by (auto simp: db_view_def cancel_gate_def cancel_run_def cancel_job_def intro!: filter_map_other)
  finally show ?thesis .
qed simp

lemma complete_view:
  "complete o' jid w ts d = Inr (x, d') \<Longrightarrow> o' \<noteq> org \<Longrightarrow> db_view org d' = db_view org d"
  by (auto simp: complete_def tenant_simps upd_job_view split: option.splits)

lemma renew_view:
  "renew o' jid w ts d = Inr (x, d') \<Longrightarrow> o' \<noteq> org \<Longrightarrow> db_view org d' = db_view org d"
  by (auto simp: renew_def Let_def tenant_simps upd_job_view split: option.splits)

lemma append_event_view:
  "append_event o' rid tp dat ts d = Inr (x, d') \<Longrightarrow> o' \<noteq> org \<Longrightarrow> db_view org d' = db_view org d"
  by (auto simp: append_event_def tenant_simps split: if_splits)

lemma open_gate_view:
  assumes "open_gate uid o' rid gt p ts d = Inr (g, d')" "o' \<noteq> org"
  shows "db_view org d' = db_view org d"
proof -
  have "db_view org (d\<lparr>run_gates := run_gates d @ [g']\<rparr>) = db_view org d" if "gate_org g' = o'" for g'
    using that assms(2) by (simp add: db_view_def)
  then show ?thesis
    using assms by (auto simp: open_gate_def Let_def tenant_simps upd_run_view split: if_splits)
qed

lemma claim_outbox_view:
  "claim_outbox o' locked w limit ts d = Inr (x, d') \<Longrightarrow> o' \<noteq> org \<Longrightarrow> db_view org d' = db_view org d"
  by (auto simp: claim_outbox_def Let_def take_outbox_lease_def intro!: map_outbox_view)

lemma mark_published_view:
  "mark_outbox_published o' eid w ts d = Inr (x, d') \<Longrightarrow> o' \<noteq> org \<Longrightarrow> db_view org d' = db_view org d"
  by (auto simp: mark_outbox_published_def upd_outbox_view split: option.splits)

lemma fail_outbox_view:
  "fail_outbox o' eid w err ts d = Inr (x, d') \<Longrightarrow> o' \<noteq> org \<Longrightarrow> db_view org d' = db_view org d"
  by (auto simp: fail_outbox_def Let_def upd_outbox_view split: option.splits)

lemma start_view:
  assumes "start o' rid offer platform batch d = Inr (x, d')" "o' \<noteq> org"
  shows "db_view org d' = db_view org d"
  using assms
  by (auto simp: start_def delete_items_view upsert_run_view new_run_def split: if_splits)

lemma save_view:
  assumes "save ps o' rid phase state summary items err et d = Inr (x, d')" "o' \<noteq> org"
  shows "db_view org d' = db_view org d"
  using assms
  by (auto simp: save_def Let_def delete_items_view upsert_run_view upsert_items_view new_run_def
      split: if_splits option.splits)

lemmas job_views = enqueue_run_view claim_view complete_view renew_view fail_view open_gate_view
  resolve_gate_view cancel_view append_event_view claim_outbox_view mark_published_view
  fail_outbox_view start_view save_view

lemma exec_job_view:
  assumes "job_op_org p \<noteq> org"
  shows "db_view org (exec_job uid ps p d) = db_view org d"
  using assms
  by (cases p) (simp_all, (rule commit_keeps [where P = "\<lambda>d'. db_view org d' = db_view org d"],
      erule (1) job_views, rule refl)+)

interpretation job_tenants: tenant_store "exec_job uid ps" job_op_org db_view for uid ps
  by unfold_locales (rule exec_job_view)


section \<open>Which operations change a leased job\<close>

lemma jobs_sel [simp]:
  "jobs (upd_run org rid f d) = jobs d"
  "jobs (upd_gate org rid g d) = jobs d"
  "jobs (upd_outbox org eid h d) = jobs d"
  "jobs (upd_job org jid k d) = tupd jkey (org, jid) k (jobs d)"
  "jobs (announce org topic jid rid ts d) = jobs d"
  "jobs (insert_job j d) = jobs d @ [j]"
  "jobs (insert_run r d) = jobs d"
  "jobs (delete_items P d) = jobs d"
  by (simp_all add: upd_run_def upd_gate_def upd_outbox_def upd_job_def announce_def insert_outbox_def
      insert_job_def insert_run_def delete_items_def)

lemma jobs_fold_events [simp]:
  "jobs (fold (\<lambda>x. add_event (oo x) (rr x) (tp x) (dat x) (ts x)) xs d) = jobs d"
  by (induction xs arbitrary: d) simp_all

lemma jobs_started_event [simp]: "jobs (started_event w ts j d) = jobs d"
  by (simp add: started_event_def)

lemma jobs_started [simp]: "jobs (fold (started_event w ts) js d) = jobs d"
  by (induction js arbitrary: d) simp_all

lemma jobs_upserts [simp]:
  "jobs (upsert_item org rid x d) = jobs d"
  "jobs (fold (upsert_item org rid) xs d) = jobs d"
  "jobs (upsert_run r f d) = jobs d"
  "jobs (ensure_run org rid offer platform batch d) = jobs d"
proof -
  show item: "jobs (upsert_item org rid x d) = jobs d" for x d
    by (auto simp: upsert_item_def split: prod.splits option.splits)
  show "jobs (fold (upsert_item org rid) xs d) = jobs d"
    by (induction xs arbitrary: d) (simp_all add: item)
  show "jobs (upsert_run r f d) = jobs d"
    by (simp add: upsert_run_def)
  show "jobs (ensure_run org rid offer platform batch d) = jobs d"
    by (simp add: ensure_run_def)
qed

text \<open>The operations that may change a job leased to \<open>w\<close> until \<open>e\<close>: the holder's own, a claim after
  the lease has expired, and the cancellation of the tenant's pending runs.\<close>

fun disturbs :: "org \<Rightarrow> string \<Rightarrow> string \<Rightarrow> int \<Rightarrow> job_op \<Rightarrow> bool" where
  "disturbs org jid w e (Claim o' locked w' limit ts) = (o' = org \<and> e \<le> ts)"
| "disturbs org jid w e (Complete o' jid' w' ts) = (o' = org \<and> jid' = jid \<and> w' = w)"
| "disturbs org jid w e (Renew o' jid' w' ts) = (o' = org \<and> jid' = jid \<and> w' = w)"
| "disturbs org jid w e (FailJob o' jid' w' err et retryable ts) = (o' = org \<and> jid' = jid \<and> w' = w)"
| "disturbs org jid w e (CancelPending o' reason ts) = (o' = org)"
| "disturbs org jid w e _ = False"

lemma claim_jobs:
  "claim org locked w limit ts d = Inr (js, d') \<Longrightarrow>
    jobs d' = map (\<lambda>j. if job_org j = org \<and> job_key j \<in> set (claim_candidates org locked limit ts d)
      then take_lease w ts j else j) (jobs d)"
  by (auto simp: claim_def Let_def)

lemma claim_others:
  assumes keyed: "keyed jkey (jobs d)" and j: "tget jkey (org, jid) (jobs d) = Some j"
    and res: "claim o' locked w limit ts d = Inr (js, d')" and no: "o' \<noteq> org \<or> \<not> claimable org ts j"
  shows "tget jkey (org, jid) (jobs d') = Some j" "\<And>x. x \<in> set js \<Longrightarrow> jkey x \<noteq> (org, jid)"
proof -
  have mem: "j \<in> set (jobs d)" "job_org j = org" "job_key j = jid"
    using tget_SomeD [OF j] by (auto simp: jkey_def)
  have hit: "\<not> (job_org j = o' \<and> job_key j \<in> set (claim_candidates o' locked limit ts d))"
    using no mem claim_candidate(1) [OF keyed mem(1), of o' locked limit ts] by auto
  then show "tget jkey (org, jid) (jobs d') = Some j"
    unfolding claim_jobs [OF res] using j by (auto simp: tget_map)
  show "jkey x \<noteq> (org, jid)" if "x \<in> set js" for x
  proof
    assume x: "jkey x = (org, jid)"
    obtain j' where j': "j' \<in> set (jobs d)" "x = take_lease w ts j'" "job_org j' = o'"
        "job_key j' \<in> set (claim_candidates o' locked limit ts d)"
      using res \<open>x \<in> set js\<close> by (auto simp: claim_def Let_def)
    then have "j' = j"
      using x tget_unique [OF keyed j] by simp
    then show False
      using j' hit by simp
  qed
qed

lemma leased_tupd_other:
  assumes "tget jkey (org, jid) (jobs d) = Some j" "leased_job o' jid' w' ts d = Some j'"
    and "\<not> (o' = org \<and> jid' = jid \<and> w' = w)" "job_worker j = Some w" "\<And>r. jkey (f r) = jkey r"
  shows "tget jkey (org, jid) (tupd jkey (o', jid') f (jobs d)) = Some j"
proof -
  have "(o', jid') \<noteq> (org, jid)"
    using leased_jobD [OF assms(2)] assms(1,3,4) by (auto simp: holds_lease_def)
  then show ?thesis
    using assms(1,5) by (auto simp: tget_tupd)
qed

lemma undisturbed:
  assumes inv: "db_inv uid d" and j: "tget jkey (org, jid) (jobs d) = Some j"
    and held: "job_status j = Running" "job_worker j = Some w" "job_lease j = Some e"
    and p: "\<not> disturbs org jid w e p"
  shows "tget jkey (org, jid) (jobs (exec_job uid ps p d)) = Some j"
proof -
  note keep = commit_keeps [where P = "\<lambda>d'. tget jkey (org, jid) (jobs d') = Some j", OF _ j]
  note other = leased_tupd_other [OF j _ _ held(2)]
  show ?thesis
  proof (cases p)
    case (Claim o' locked w' limit ts)
    have keyed: "keyed jkey (jobs d)"
      using inv by (simp add: db_inv_defs)
    have "o' \<noteq> org \<or> \<not> claimable org ts j"
      using p Claim held by (auto simp: claimable_def)
    then have "tget jkey (org, jid) (jobs d') = Some j" if "claim o' locked w' limit ts d = Inr (js, d')" for js d'
      using claim_others(1) [OF keyed j that] by blast
    then show ?thesis
      unfolding Claim exec_job.simps by (rule keep)
  next
    case (CancelPending o' reason ts)
    have o': "o' \<noteq> org" "job_org j = org"
      using p CancelPending tget_key [OF j] by (auto simp: jkey_def)
    have "tget jkey (org, jid) (map (cancel_job o' reason R) (jobs d)) = Some j" for R
      using j o' by (simp add: tget_map cancel_job_def)
    then show ?thesis
      unfolding CancelPending exec_job.simps by (intro keep) (auto simp: j elim!: cancel_cases)
  next
    case (FailJob o' jid' w' err et retryable ts)
    then show ?thesis
      using p unfolding FailJob exec_job.simps
      by (intro keep) (auto intro!: other simp: fail_def Let_def fail_event_def fail_run_def
          split: option.splits if_splits)
  next
    case (EnqueueRun o' rid offer platform batch q m ts)
    then show ?thesis
      unfolding EnqueueRun exec_job.simps
      by (intro keep) (auto simp: j enqueue_run_def Let_def split: option.splits if_splits)
  next
    case (ResolveGate o' gid v res ts)
    then show ?thesis
      unfolding ResolveGate exec_job.simps by (intro keep) (auto simp: j elim!: resolve_gate_cases)
  next
    case (Complete o' jid' w' ts)
    then show ?thesis
      using p unfolding Complete exec_job.simps
      by (intro keep) (auto intro!: other simp: complete_def split: option.splits)
  next
    case (Renew o' jid' w' ts)
    then show ?thesis
      using p unfolding Renew exec_job.simps
      by (intro keep) (auto intro!: other simp: renew_def Let_def split: option.splits)
  qed (use j in \<open>auto simp: commit_def open_gate_def Let_def append_event_def claim_outbox_def
      mark_outbox_published_def fail_outbox_def start_def save_def split: option.splits\<close>)
qed


lemma lease_exclusive_row:
  assumes "db_inv uid d" "tget jkey (org, jid) (jobs d) = Some j" "job_status j = Running"
    "job_worker j = Some w" "job_lease j = Some e" "list_all (\<lambda>p. \<not> disturbs org jid w e p) ops"
  shows "tget jkey (org, jid) (jobs (run_ops (exec_job uid ps) ops d)) = Some j"
  using assms
proof (induction ops arbitrary: d)
  case (Cons p ops)
  have "tget jkey (org, jid) (jobs (exec_job uid ps p d)) = Some j"
    using Cons.prems by (intro undisturbed [OF _ _ Cons.prems(3-5)]) auto
  then show ?case
    using Cons.IH [OF job_store.inv_exec] Cons.prems by simp
qed simp

lemma terminal_row_final:
  assumes "db_inv uid d" "tget jkey (org, jid) (jobs d) = Some j" "terminal_job (job_status j)"
  shows "tget jkey (org, jid) (jobs (run_ops (exec_job uid ps) ops d)) = Some j"
proof -
  obtain j' where "tget jkey (org, jid) (jobs (run_ops (exec_job uid ps) ops d)) = Some j'" "job_le j j'"
    using db_leD(1) [OF job_store.le_run [OF assms(1)] assms(2)] by blast
  then show ?thesis
    using assms(3) by (simp add: job_le_def)
qed

text \<open>A leased job that only the cancellation of the tenant's pending runs may disturb.\<close>

definition cancelled_row :: "job_row \<Rightarrow> string \<Rightarrow> job_row" where
  "cancelled_row j reason = j\<lparr>job_status := JobCancelled, job_error := Some reason, job_lease := None, job_worker := None\<rparr>"

lemma cancel_pending_row:
  assumes j: "tget jkey (org, jid) (jobs d) = Some j" and running: "job_status j = Running"
  shows "tget jkey (org, jid) (jobs (exec_job uid ps (CancelPending org reason ts) d)) \<in> {Some j, Some (cancelled_row j reason)}"
proof (cases "cancel_pending_test_runs org reason ts d")
  case (Inr xd)
  have row: "tget jkey (org, jid) (map (cancel_job org reason R) (jobs d)) \<in> {Some j, Some (cancelled_row j reason)}" for R
    using j by (simp add: tget_map cancel_job_def cancelled_row_def)
  show ?thesis
    using Inr j row [of "set (pending_runs org d)"] by (cases xd) (auto elim!: cancel_cases)
qed (use j in simp)

lemma lease_exclusive_or_cancelled:
  assumes "db_inv uid d" "tget jkey (org, jid) (jobs d) = Some j" "job_status j = Running" "job_worker j = Some w" "job_lease j = Some e"
    and "\<And>p. p \<in> set ops \<Longrightarrow> disturbs org jid w e p \<Longrightarrow> \<exists>reason ts. p = CancelPending org reason ts"
  shows "tget jkey (org, jid) (jobs (run_ops (exec_job uid ps) ops d)) = Some j \<or>
    (\<exists>reason ts. CancelPending org reason ts \<in> set ops \<and>
      tget jkey (org, jid) (jobs (run_ops (exec_job uid ps) ops d)) = Some (cancelled_row j reason))"
  using assms
proof (induction ops arbitrary: d)
  case (Cons p ops)
  let ?d = "exec_job uid ps p d"
  have inv: "db_inv uid ?d"
    using Cons.prems(1) by (rule job_store.inv_exec)
  have IH: ?case if "tget jkey (org, jid) (jobs ?d) = Some j"
    using Cons.IH [OF inv that Cons.prems(3-5)] Cons.prems(6) by auto
  show ?case
  proof (cases "disturbs org jid w e p")
    case True
    then obtain reason ts where p: "p = CancelPending org reason ts"
      using Cons.prems(6) [of p] by auto
    consider "tget jkey (org, jid) (jobs ?d) = Some j" | "tget jkey (org, jid) (jobs ?d) = Some (cancelled_row j reason)"
      using cancel_pending_row [OF Cons.prems(2,3), of uid ps reason ts] p by auto
    then show ?thesis
    proof cases
      case 2
      then have "tget jkey (org, jid) (jobs (run_ops (exec_job uid ps) ops ?d)) = Some (cancelled_row j reason)"
        by (intro terminal_row_final [OF inv]) (simp_all add: cancelled_row_def terminal_job_def)
      then show ?thesis
        using p by auto
    qed (rule IH)
  next
    case False
    then show ?thesis
      using undisturbed [OF Cons.prems(1-5)] IH by blast
  qed
qed simp

section \<open>Properties\<close>

text \<open>The equations that evaluate the transactions on concrete databases.\<close>

lemmas job_eval = empty_db_def enqueue_run_def claim_def complete_def renew_def fail_def open_gate_def
  resolve_gate_def append_event_def claim_candidates_def claimable_def leased_job_def holds_lease_def
  take_lease_def started_event_def fail_row_def fail_event_def fail_run_def
  new_job_def new_run_def insert_job_def announce_def ensure_run_def row_ops run_exists_def job_id_def
  resume_job_id_def next_gate_version_def rkey_def jkey_def gkey_def okey_def Let_def lease_until_def
  LEASE_SECONDS_def seconds_def int32_def INT_MAX_def gate_phase_def

text \<open>
  C25. Leases are exclusive: worker \<open>w\<close> holds the lease of a job until \<open>e\<close>, and any operations run but claims of the
  tenant after \<open>e\<close> and the own reports of \<open>w\<close> on the job. Then the row of the job is as it was, or one of them
  cancelled the pending runs of the tenant, which sets it to cancelled; no claim before \<open>e\<close> hands the job out; and
  every \<open>complete\<close>, \<open>renew\<close> or \<open>fail\<close> of another worker raises \<open>LeaseLostError\<close>.
\<close>

theorem lease_exclusive:
  assumes inv: "db_inv uid d" and j: "tget jkey (org, jid) (jobs d) = Some j"
    and held: "job_status j = Running" "job_worker j = Some w" "job_lease j = Some e"
    and ops: "\<And>p. p \<in> set ops \<Longrightarrow> disturbs org jid w e p \<Longrightarrow> \<exists>reason ts. p = CancelPending org reason ts"
  shows "(tget jkey (org, jid) (jobs (run_ops (exec_job uid ps) ops d)) = Some j \<or>
      (\<exists>reason ts. CancelPending org reason ts \<in> set ops \<and>
         tget jkey (org, jid) (jobs (run_ops (exec_job uid ps) ops d)) = Some (cancelled_row j reason))) \<and>
    (ts < e \<longrightarrow> (\<exists>js d'. claim org locked w' limit ts (run_ops (exec_job uid ps) ops d) = Inr (js, d') \<and>
       (org, jid) \<notin> jkey ` set js)) \<and>
    (w' \<noteq> w \<longrightarrow>
       complete org jid w' ts (run_ops (exec_job uid ps) ops d) = Inl LeaseLostError \<and>
       renew org jid w' ts (run_ops (exec_job uid ps) ops d) = Inl LeaseLostError \<and>
       fail org jid w' err et retryable ts (run_ops (exec_job uid ps) ops d) = Inl LeaseLostError)"
proof -
  let ?d = "run_ops (exec_job uid ps) ops d"
  have row: "tget jkey (org, jid) (jobs ?d) = Some j \<or> (\<exists>reason ts. CancelPending org reason ts \<in> set ops \<and>
      tget jkey (org, jid) (jobs ?d) = Some (cancelled_row j reason))"
    using lease_exclusive_or_cancelled [OF inv j held ops] .
  then obtain j' where j': "tget jkey (org, jid) (jobs ?d) = Some j'" "j' = j \<or> (\<exists>reason. j' = cancelled_row j reason)"
    by blast
  have "keyed jkey (jobs ?d)"
    using job_store.inv_run [OF inv] by (simp add: db_inv_defs)
  moreover have "\<not> claimable org ts j'" if "ts < e"
    using that j'(2) held by (auto simp: claimable_def cancelled_row_def)
  ultimately have "\<exists>js d'. claim org locked w' limit ts ?d = Inr (js, d') \<and> (org, jid) \<notin> jkey ` set js" if "ts < e"
    using that claim_others(2) [OF _ j'(1), of org locked w' limit ts] by (fastforce simp: claim_def Let_def)
  moreover have "leased_job org jid w' ts ?d = None" if "w' \<noteq> w"
    using j' that held by (auto simp: leased_job_def holds_lease_def cancelled_row_def)
  ultimately show ?thesis
    using row by (simp add: complete_def renew_def fail_def)
qed

abbreviation (input) demo_ops :: "job_op list" where
  "demo_ops \<equiv> [EnqueueRun ''o'' ''r'' ''offer'' ''tiktok'' 1 fmempty 5 0, Claim ''o'' [] ''w1'' 1 0]"

abbreviation (input) demo_job :: string where
  "demo_job \<equiv> ''orchestrator:o:r:execute_run''"

theorem lease_exclusive_witness:
  "complete ''o'' demo_job ''w2'' 6
     (run_ops (exec_job (\<lambda>s. s) (\<lambda>_. [])) [Claim ''o'' [] ''w2'' 1 5]
       (run_ops (exec_job (\<lambda>s. s) (\<lambda>_. [])) demo_ops empty_db)) = Inl LeaseLostError"
proof -
  define d where "d = run_ops (exec_job (\<lambda>s. s) (\<lambda>_. [])) demo_ops empty_db"
  have inv: "db_inv (\<lambda>s. s) d"
    unfolding d_def by (rule job_store.inv_run) simp
  obtain j where "tget jkey (''o'', demo_job) (jobs d) = Some j"
    and "job_status j = Running" "job_worker j = Some ''w1''" "job_lease j = Some 120000000"
    by (simp add: d_def job_eval)
  from lease_exclusive [OF inv this, of "[Claim ''o'' [] ''w2'' 1 5]" _ 6 _ "''w2''"]
  show ?thesis
    by (simp add: d_def)
qed

text \<open>
  C26. Final outcomes of jobs are final: a job that succeeded, failed or was cancelled keeps its row
  unchanged under every further sequence of operations.
\<close>

theorem terminal_jobs_final:
  assumes "db_inv uid d" "tget jkey (org, jid) (jobs d) = Some j" "terminal_job (job_status j)"
  shows "tget jkey (org, jid) (jobs (run_ops (exec_job uid ps) ops d)) = Some j"
  by (rule terminal_row_final [OF assms])

theorem terminal_jobs_final_witness:
  "\<exists>j. tget jkey (''o'', demo_job) (jobs (run_ops (exec_job (\<lambda>s. s) (\<lambda>_. []))
      (demo_ops @ [Complete ''o'' demo_job ''w1'' 7] @ [Claim ''o'' [] ''w2'' 1 999999999]) empty_db)) = Some j \<and>
    job_status j = JobSucceeded"
proof -
  define d where "d = run_ops (exec_job (\<lambda>s. s) (\<lambda>_. [])) (demo_ops @ [Complete ''o'' demo_job ''w1'' 7]) empty_db"
  have inv: "db_inv (\<lambda>s. s) d"
    unfolding d_def by (rule job_store.inv_run) simp
  obtain j where j: "tget jkey (''o'', demo_job) (jobs d) = Some j" "job_status j = JobSucceeded"
    by (simp add: d_def job_eval)
  then have "terminal_job (job_status j)"
    by (simp add: terminal_job_def)
  from terminal_jobs_final [OF inv j(1) this, of "\<lambda>_. []" "[Claim ''o'' [] ''w2'' 1 999999999]"] j(2)
  show ?thesis
    by (simp add: d_def)
qed

text \<open>
  C27. A gate is resolved at most once: after a successful \<open>resolve_gate\<close>, whatever happens next,
  every further resolution of the gate raises \<open>StaleGateError\<close>, and the one resume job it created,
  carrying the resolution, stays in the queue's table.
\<close>

theorem gate_resolved_once:
  assumes inv: "db_inv uid d" and res: "resolve_gate uid org gid v resolution ts d = Inr (j, d1)"
  shows "resolve_gate uid org gid v' resolution' ts' (run_ops (exec_job uid ps) ops d1) = Inl StaleGateError \<and>
    (\<exists>j'. tget jkey (org, job_key j) (jobs (run_ops (exec_job uid ps) ops d1)) = Some j' \<and>
       job_kind j' = ''resume_run'' \<and> fmlookup (job_payload j') ''resolution'' = Some (JObj resolution))"
proof -
  have step: "db_step uid d d1"
    using inv res by (rule resolve_gate_step)
  obtain g where g: "tget gkey (org, gid) (run_gates d1) = Some g" "gate_status g = GateResolved"
    and j: "tget jkey (org, job_key j) (jobs d1) = Some j" "job_kind j = ''resume_run''"
      "fmlookup (job_payload j) ''resolution'' = Some (JObj resolution)"
    using res
  proof (cases rule: resolve_gate_cases)
    case (1 g)
    have "run_gates d1 = tupd gkey (org, gid)
        (\<lambda>r. r\<lparr>gate_status := GateResolved, gate_resolution := Some resolution\<rparr>) (run_gates d)"
      by (simp add: 1(6) upd_run_def upd_gate_def announce_def insert_outbox_def insert_job_def)
    then have "tget gkey (org, gid) (run_gates d1) =
        Some (g\<lparr>gate_status := GateResolved, gate_resolution := Some resolution\<rparr>)"
      using 1(1) by (simp add: tget_tupd)
    moreover have "jobs d1 = jobs d @ [j]" "jkey j = (org, job_key j)" "job_key j = resume_job_id uid g"
      by (simp_all add: 1(5,6) new_job_def jkey_def)
    moreover have "job_kind j = ''resume_run''"
        "fmlookup (job_payload j) ''resolution'' = Some (JObj resolution)"
      by (simp_all add: 1(5) new_job_def resume_payload_def obj_def fmlookup_of_list)
    ultimately show thesis
      using 1(4) that [of "g\<lparr>gate_status := GateResolved, gate_resolution := Some resolution\<rparr>"] by simp
  qed
  have le: "db_le d1 (run_ops (exec_job uid ps) ops d1)"
    using db_step_inv [OF step] by (rule job_store.le_run)
  obtain g' where "tget gkey (org, gid) (run_gates (run_ops (exec_job uid ps) ops d1)) = Some g'" "gate_le g g'"
    using db_leD(2) [OF le g(1)] by blast
  moreover obtain j' where
    "tget jkey (org, job_key j) (jobs (run_ops (exec_job uid ps) ops d1)) = Some j'" "job_le j j'"
    using db_leD(1) [OF le j(1)] by blast
  ultimately show ?thesis
    using g(2) j(2,3) by (auto simp: resolve_gate_def gate_le_def job_le_def)
qed

theorem gate_resolved_once_witness:
  "let d = run_ops (exec_job (\<lambda>s. s) (\<lambda>_. [])) (demo_ops @ [OpenGate ''o'' ''r'' ''g'' fmempty 3]) empty_db;
       gid = ''orchestrator:o:r:gate:g:1'';
       d1 = commit (resolve_gate (\<lambda>s. s) ''o'' gid 1 fmempty 4 d) d
   in length (jobs d1) = 2 \<and> resolve_gate (\<lambda>s. s) ''o'' gid 1 fmempty 5 d1 = Inl StaleGateError"
proof -
  define d where "d = run_ops (exec_job (\<lambda>s. s) (\<lambda>_. [])) (demo_ops @ [OpenGate ''o'' ''r'' ''g'' fmempty 3]) empty_db"
  define gid where "gid = ''orchestrator:o:r:gate:g:1''"
  have inv: "db_inv (\<lambda>s. s) d"
    unfolding d_def by (rule job_store.inv_run) simp
  obtain j d1 where r: "resolve_gate (\<lambda>s. s) ''o'' gid 1 fmempty 4 d = Inr (j, d1)" "length (jobs d1) = 2"
    by (simp add: d_def gid_def job_eval str_int_def str_nat.simps)
  from gate_resolved_once [OF inv r(1), of 1 fmempty 5 "\<lambda>_. []" "[]"] r
  show ?thesis
    unfolding Let_def d_def [symmetric] gid_def [symmetric] by simp
qed

text \<open>
   Every job is announced exactly once: after any sequence of operations the messages of the
  outbox are, one by one and in order, those of the jobs, and no two jobs share an id.
\<close>

theorem jobs_announced_once:
  "map mkey (outbox (run_ops (exec_job uid ps) ops empty_db)) = map jkey (jobs (run_ops (exec_job uid ps) ops empty_db)) \<and>
   distinct (map jkey (jobs (run_ops (exec_job uid ps) ops empty_db)))"
  using job_store.inv_run [OF db_inv_empty, of uid ps ops] by (simp add: db_inv_defs keyed_def)

lemma serial_sort: "serial col rows n \<Longrightarrow> sort_key col (filter P rows) = filter P rows"
  by (intro sort_key_id_if_sorted sorted_filter) (simp add: serial_def strict_sorted_iff)

text \<open>
   The event log is append-only and can be read in pages: reading a run's events from the start is
  reading those up to any sequence number and then those after it, and a later read of a page only
  extends what an earlier one returned.
\<close>

theorem events_pages:
  assumes inv: "db_inv uid d"
  shows "list_events org rid 0 d = filter (\<lambda>e. ev_seq e \<le> a) (list_events org rid 0 d) @ list_events org rid a d \<and>
    prefix (list_events org rid a d) (list_events org rid a (run_ops (exec_job uid ps) ops d))"
proof
  have serial: "serial ev_seq (run_events d) (next_seq d)"
    using inv by (simp add: db_inv_defs)
  have split: "sorted_wrt (<) (map ev_seq es) \<Longrightarrow> filter P es = filter (\<lambda>e. P e \<and> ev_seq e \<le> a) es @ filter (\<lambda>e. P e \<and> a < ev_seq e) es" for es P
  proof (induction es)
    case (Cons x es)
    then show ?case
    proof (cases "ev_seq x \<le> a")
      case False
      then have "filter (\<lambda>e. P e \<and> ev_seq e \<le> a) es = []"
        using Cons.prems by (fastforce simp: filter_empty_conv)
      then show ?thesis
        using Cons False by simp
    qed (use Cons in simp)
  qed simp
  have "list_events org rid 0 d = filter (\<lambda>e. (ev_org e = org \<and> ev_run e = rid \<and> 0 < ev_seq e)) (run_events d)"
    using serial by (simp add: list_events_def serial_sort)
  moreover have "list_events org rid a d = filter (\<lambda>e. (ev_org e = org \<and> ev_run e = rid \<and> 0 < ev_seq e) \<and> a < ev_seq e) (run_events d)"
    using serial by (auto simp: list_events_def serial_sort intro!: filter_cong)
  ultimately show "list_events org rid 0 d = filter (\<lambda>e. ev_seq e \<le> a) (list_events org rid 0 d) @ list_events org rid a d"
    using split [of "run_events d" "\<lambda>e. ev_org e = org \<and> ev_run e = rid \<and> 0 < ev_seq e"] serial
    by (simp add: serial_def conj_ac)
  have "serial ev_seq (run_events (run_ops (exec_job uid ps) ops d)) (next_seq (run_ops (exec_job uid ps) ops d))"
    using job_store.inv_run [OF inv, of ps ops] by (simp add: db_inv_defs)
  moreover have "prefix (run_events d) (run_events (run_ops (exec_job uid ps) ops d))"
    using job_store.le_run [OF inv, of ps ops] by (simp add: db_le_def)
  ultimately show "prefix (list_events org rid a d) (list_events org rid a (run_ops (exec_job uid ps) ops d))"
    using serial by (auto simp: list_events_def serial_sort filter_mono_prefix)
qed

theorem events_pages_witness:
  "let d = run_ops (exec_job (\<lambda>s. s) (\<lambda>_. [])) demo_ops empty_db
   in length (list_events ''o'' ''r'' 0 d) = 3 \<and>
      list_events ''o'' ''r'' 0 d =
        filter (\<lambda>e. ev_seq e \<le> 2) (list_events ''o'' ''r'' 0 d) @ list_events ''o'' ''r'' 2 d"
proof -
  define d where "d = run_ops (exec_job (\<lambda>s. s) (\<lambda>_. [])) demo_ops empty_db"
  have inv: "db_inv (\<lambda>s. s) d"
    unfolding d_def by (rule job_store.inv_run) simp
  have "length (list_events ''o'' ''r'' 0 d) = 3"
    by (simp add: d_def list_events_def job_eval)
  then show ?thesis
    using events_pages [OF inv, of "''o''" "''r''" 2] unfolding Let_def d_def [symmetric] by blast
qed


text \<open>The delay of a retry, in seconds: it doubles from 5 and is capped at 300.\<close>

lemma backoff_bounds: "5 \<le> backoff_seconds n" "backoff_seconds n \<le> 300"
proof -
  have "(1::int) \<le> 2 ^ nat (n - 1)"
    by simp
  then have "(5::int) \<le> 5 * 2 ^ nat (n - 1)"
    by linarith
  then show "5 \<le> backoff_seconds n" "backoff_seconds n \<le> 300"
    by (simp_all add: backoff_seconds_def)
qed

text \<open>
   Failing a leased job: it is released and, when the failure is retryable and attempts remain,
  becomes due again after a backoff between 5 and 300 seconds with its run untouched; otherwise it
  is failed for good and its run enters the phase \<open>error\<close> with the job's error.
\<close>

theorem fail_retries_or_ends_run:
  assumes inv: "db_inv uid d" and j: "leased_job org jid w ts d = Some j"
  shows "\<exists>j' d'. fail org jid w err et retryable ts d = Inr (j', d') \<and>
    tget jkey (org, jid) (jobs d') = Some j' \<and> job_lease j' = None \<and> job_worker j' = None \<and>
    job_attempt j' = job_attempt j \<and>
    (if retryable \<and> job_attempt j < job_max_attempts j
     then job_status j' = Retry \<and> ts + seconds 5 \<le> job_available_at j' \<and>
       job_available_at j' \<le> ts + seconds 300 \<and> runs d' = runs d
     else job_status j' = JobFailed \<and>
       (\<exists>r. tget rkey (org, job_run j) (runs d') = Some r \<and> run_phase r = PhError \<and>
            run_error r = Some (take 2000 err)))"
proof -
  note lj = leased_jobD [OF j]
  define b where "b = (retryable \<and> job_attempt j < job_max_attempts j)"
  let ?j = "fail_row b err et ts j"
  let ?d2 = "fail_event (if b then ''job_retry'' else ''job_failed'') ts ?j (upd_job org jid (fail_row b err et ts) d)"
  have res: "fail org jid w err et retryable ts d = Inr (?j, if b then ?d2 else fail_run ts ?j ?d2)"
    using j by (simp add: fail_def Let_def b_def [symmetric])
  have row: "tget jkey (org, jid) (jobs (if b then ?d2 else fail_run ts ?j ?d2)) = Some ?j"
    using lj(1) by (simp add: fail_event_def fail_run_def tget_tupd)
  obtain r where "tget rkey (org, job_run j) (runs d) = Some r"
    using job_run_exists [OF inv lj(1)] lj(3) by (auto simp: run_exists_def)
  then have run: "tget rkey (org, job_run j) (runs (fail_run ts ?j ?d2)) =
      Some (r\<lparr>run_phase := PhError, run_error := job_error ?j, run_error_type := job_error_type ?j\<rparr>)"
    using lj(3) by (simp add: fail_run_def fail_event_def upd_run_def upd_job_def tget_tupd)
  have delay: "b \<Longrightarrow> job_available_at ?j = ts + seconds (backoff_seconds (job_attempt j))"
    by (simp add: fail_row_def)
  have "runs ?d2 = runs d"
    by (simp add: fail_event_def upd_job_def)
  then show ?thesis
    using res row run delay backoff_bounds [of "job_attempt j"]
    by (cases b) (simp_all add: b_def [symmetric] seconds_def)
qed

theorem fail_retries_or_ends_run_witness:
  "\<exists>j' d'. fail ''o'' demo_job ''w1'' ''boom'' None True 9
      (run_ops (exec_job (\<lambda>s. s) (\<lambda>_. [])) demo_ops empty_db) = Inr (j', d') \<and> job_status j' = Retry"
proof -
  define d where "d = run_ops (exec_job (\<lambda>s. s) (\<lambda>_. [])) demo_ops empty_db"
  have inv: "db_inv (\<lambda>s. s) d"
    unfolding d_def by (rule job_store.inv_run) simp
  obtain j where "leased_job ''o'' demo_job ''w1'' 9 d = Some j" "job_attempt j < job_max_attempts j"
    by (simp add: d_def job_eval)
  with fail_retries_or_ends_run [OF inv this(1), of "''boom''" None True] show ?thesis
    unfolding d_def [symmetric] by auto
qed

text \<open>
   Crash loops are not bounded by \<open>max_attempts\<close>: a job whose workers die without reporting is
  claimed again each time its lease expires, for as many attempts as one likes, whatever its
  \<open>max_attempts\<close> says; only \<open>fail\<close> compares the two.
\<close>

theorem crashed_job_reclaimed_forever:
  "\<exists>j. jobs (run_ops (exec_job uid ps)
        (EnqueueRun org rid offer platform 1 p 1 0 #
         map (\<lambda>i. Claim org [] w 1 (int i * seconds LEASE_SECONDS)) [0..<n]) empty_db) = [j] \<and>
     job_attempt j = int n \<and> job_max_attempts j = 1"
proof -
  let ?d = "\<lambda>n. run_ops (exec_job uid ps)
        (EnqueueRun org rid offer platform 1 p 1 0 #
         map (\<lambda>i. Claim org [] w 1 (int i * seconds LEASE_SECONDS)) [0..<n]) empty_db"
  have "\<exists>j. jobs (?d n) = [j] \<and> job_attempt j = int n \<and> job_max_attempts j = 1 \<and>
      claimable org (int n * seconds LEASE_SECONDS) j"
  proof (induction n)
    case 0
    then show ?case
      by (simp add: job_eval)
  next
    case (Suc n)
    then obtain j where j: "jobs (?d n) = [j]" "job_attempt j = int n" "job_max_attempts j = 1"
        "claimable org (int n * seconds LEASE_SECONDS) j"
      by blast
    have "?d (Suc n) = exec_job uid ps (Claim org [] w 1 (int n * seconds LEASE_SECONDS)) (?d n)"
      by simp
    then have "jobs (?d (Suc n)) = [take_lease w (int n * seconds LEASE_SECONDS) j]"
      using j(1,4) by (simp add: claim_def Let_def claim_candidates_def claimable_def)
    moreover have "claimable org (int (Suc n) * seconds LEASE_SECONDS) (take_lease w (int n * seconds LEASE_SECONDS) j)"
      using j(4) by (simp add: claimable_def lease_until_def algebra_simps)
    ultimately show ?case
      using j by simp
  qed
  then show ?thesis
    by blast
qed

text \<open>
   Enqueuing is idempotent: once a run has been enqueued, enqueuing it again after any other
  operations returns the same job and changes nothing.
\<close>

theorem enqueue_idempotent:
  assumes inv: "db_inv uid d" and res: "enqueue_run uid org rid offer platform batch p m ts d = Inr (j, d1)"
  shows "\<exists>j'. enqueue_run uid org rid offer' platform' batch p' m ts' (run_ops (exec_job uid ps) ops d1) =
      Inr (j', run_ops (exec_job uid ps) ops d1) \<and>
    job_key j' = job_key j \<and> job_payload j' = job_payload j \<and> job_attempt j \<le> job_attempt j'"
proof -
  let ?d = "run_ops (exec_job uid ps) ops d1" and ?jid = "job_id uid org rid ''execute_run''"
  have inv1: "db_inv uid d1"
    using enqueue_run_step [OF inv res] by (rule db_step_inv)
  have j: "tget jkey (org, ?jid) (jobs d1) = Some j" and ok: "int32 batch" "0 \<le> batch" "int32 m" "0 < m"
    using res by (auto simp: enqueue_run_def Let_def split: if_splits option.splits)
  have "run_exists org rid (ensure_run org rid offer platform batch d)"
    by (auto simp: ensure_run_def run_exists_iff insert_run_def) (simp add: new_run_def rkey_def)
  then have "run_exists org rid d1"
    using res by (auto simp: enqueue_run_def Let_def add_event_announce split: if_splits option.splits)
  moreover have le: "db_le d1 ?d"
    using inv1 by (rule job_store.le_run)
  ultimately have run: "run_exists org rid ?d"
    using db_leD(4) by blast
  obtain j' where j': "tget jkey (org, ?jid) (jobs ?d) = Some j'" "job_le j j'"
    using db_leD(1) [OF le j] by blast
  have "job_key j = ?jid" "job_key j' = ?jid"
    using tget_key [OF j] tget_key [OF j'(1)] by (simp_all add: jkey_def)
  then show ?thesis
    using j' ok run by (simp add: enqueue_run_def Let_def ensure_run_def job_le_def)
qed

theorem enqueue_idempotent_witness:
  "let d = exec_job (\<lambda>s. s) (\<lambda>_. []) (EnqueueRun ''o'' ''r'' ''offer'' ''tiktok'' 1 fmempty 5 0) empty_db
   in length (jobs d) = 1 \<and>
      exec_job (\<lambda>s. s) (\<lambda>_. []) (EnqueueRun ''o'' ''r'' ''offer'' ''tiktok'' 1 fmempty 5 8) d = d"
proof -
  define d where "d = exec_job (\<lambda>s. s) (\<lambda>_. []) (EnqueueRun ''o'' ''r'' ''offer'' ''tiktok'' 1 fmempty 5 0) empty_db"
  obtain j where j: "enqueue_run (\<lambda>s. s) ''o'' ''r'' ''offer'' ''tiktok'' 1 fmempty 5 0 empty_db = Inr (j, d)"
    by (simp add: d_def job_eval)
  have "length (jobs d) = 1"
    by (simp add: d_def job_eval)
  moreover have "exec_job (\<lambda>s. s) (\<lambda>_. []) (EnqueueRun ''o'' ''r'' ''offer'' ''tiktok'' 1 fmempty 5 8) d = d"
    using enqueue_idempotent [OF db_inv_empty j, of "''offer''" "''tiktok''" fmempty 8 "\<lambda>_. []" "[]"] by auto
  ultimately show ?thesis
    unfolding Let_def d_def [symmetric] by simp
qed

text \<open>
   A due job is never withheld: a claim with room for all jobs returns every job of the tenant that
  is due and not locked by another transaction, each now running under a fresh lease of the claimer.
\<close>

theorem claim_hands_out_due_jobs:
  assumes "keyed jkey (jobs d)" "length (jobs d) \<le> limit"
    and "j \<in> set (jobs d)" "claimable org ts j" "job_key j \<notin> set locked"
  shows "\<exists>js d'. claim org locked w limit ts d = Inr (js, d') \<and> take_lease w ts j \<in> set js \<and>
    tget jkey (jkey j) (jobs d') = Some (take_lease w ts j) \<and> holds_lease w ts (take_lease w ts j)"
proof -
  have "length (filter P (jobs d)) \<le> limit" for P
    using assms(2) length_filter_le le_trans by blast
  then have "job_key j \<in> set (claim_candidates org locked limit ts d)"
    using assms(3-5) by (simp add: claim_candidates_def)
  moreover have "job_org j = org"
    using assms(4) by (simp add: claimable_def)
  moreover have "tget jkey (jkey j) (jobs d) = Some j"
    using assms(1,3) by (simp add: tget_Some_iff)
  ultimately show ?thesis
    using assms(3)
    by (auto simp: claim_def Let_def tget_map holds_lease_def lease_until_def seconds_def LEASE_SECONDS_def)
qed

theorem claim_hands_out_due_jobs_witness:
  "\<exists>js d'. claim ''o'' [] ''w'' 1 3
     (exec_job (\<lambda>s. s) (\<lambda>_. []) (EnqueueRun ''o'' ''r'' ''offer'' ''tiktok'' 1 fmempty 5 0) empty_db) = Inr (js, d') \<and>
     js \<noteq> []"
proof -
  define d where "d = exec_job (\<lambda>s. s) (\<lambda>_. []) (EnqueueRun ''o'' ''r'' ''offer'' ''tiktok'' 1 fmempty 5 0) empty_db"
  obtain j where j: "jobs d = [j]" "claimable ''o'' 3 j"
    by (simp add: d_def job_eval)
  then show ?thesis
    using claim_hands_out_due_jobs [of d 1 j "''o''" 3 "[]" "''w''"] unfolding d_def [symmetric]
    by (auto simp: keyed_def)
qed

text \<open>
   Cancelling the pending runs of a tenant leaves none of its gates pending, and none of the jobs
  of the runs that had a pending gate runnable.
\<close>

theorem cancel_leaves_nothing_pending:
  "\<exists>s d'. cancel_pending_test_runs org reason ts d = Inr (s, d') \<and>
    (\<forall>g\<in>set (run_gates d'). gate_org g = org \<longrightarrow> gate_status g \<noteq> GatePending) \<and>
    (\<forall>j\<in>set (jobs d'). job_org j = org \<and> job_run j \<in> set (pending_runs org d) \<longrightarrow> terminal_job (job_status j)) \<and>
    cancelled_gates s = length (filter (\<lambda>g. gate_org g = org \<and> gate_status g = GatePending) (run_gates d))"
proof -
  have gates: "run_gates (fold (\<lambda>x. add_event o' (rr x) (tp x) (dat x) (tt x)) xs d) = run_gates d" for o' rr tp dat tt xs d
    by (induction xs arbitrary: d) simp_all
  have terminal: "terminal_job st = (\<not> live_job st)" for st
    by (cases st) (simp_all add: terminal_job_def live_job_def)
  show ?thesis
  proof (cases "pending_runs org d = []")
    case True
    moreover have "set (pending_runs org d) =
        gate_run ` set (filter (\<lambda>g. gate_org g = org \<and> gate_status g = GatePending) (run_gates d))"
      by (simp add: pending_runs_def)
    ultimately have "filter (\<lambda>g. gate_org g = org \<and> gate_status g = GatePending) (run_gates d) = []"
      by simp
    then show ?thesis
      by (auto simp: cancel_pending_test_runs_def Let_def pending_runs_def filter_empty_conv)
  next
    case False
    let ?R = "set (pending_runs org d)"
    let ?d = "fold (\<lambda>rid. add_event org rid ''run_cancelled'' (obj [(''reason'', JStr reason)]) ts) (pending_runs org d)
       (d\<lparr>run_gates := map (cancel_gate org reason) (run_gates d),
          runs := map (cancel_run org reason ?R) (runs d), jobs := map (cancel_job org reason ?R) (jobs d)\<rparr>)"
    obtain s where s: "cancel_pending_test_runs org reason ts d = Inr (s, ?d)"
        "cancelled_gates s = length (filter (\<lambda>g. gate_org g = org \<and> gate_status g = GatePending) (run_gates d))"
      using False unfolding cancel_pending_test_runs_def Let_def pending_runs_def [symmetric]
        cancel_gate_def [abs_def] cancel_run_def [abs_def] cancel_job_def [abs_def] by simp
    have gate: "gate_org (cancel_gate org reason g) = org \<longrightarrow> gate_status (cancel_gate org reason g) \<noteq> GatePending" for g
      by (simp add: cancel_gate_def)
    have job: "job_org (cancel_job org reason ?R j) = org \<and> job_run (cancel_job org reason ?R j) \<in> ?R \<longrightarrow>
        terminal_job (job_status (cancel_job org reason ?R j))" for j
      unfolding terminal cancel_job_def by (auto simp: live_job_def)
    have "\<forall>g\<in>set (run_gates ?d). gate_org g = org \<longrightarrow> gate_status g \<noteq> GatePending"
      using gate by (simp add: gates)
    moreover have "\<forall>j\<in>set (jobs ?d). job_org j = org \<and> job_run j \<in> ?R \<longrightarrow> terminal_job (job_status j)"
      using job by simp
    ultimately show ?thesis
      using s by blast
  qed
qed

theorem cancel_leaves_nothing_pending_witness:
  "\<exists>s d'. cancel_pending_test_runs ''o'' ''reset'' 9
      (run_ops (exec_job (\<lambda>s. s) (\<lambda>_. [])) (demo_ops @ [OpenGate ''o'' ''r'' ''g'' fmempty 3]) empty_db) = Inr (s, d') \<and>
    cancelled_gates s = 1"
proof -
  define d where "d = run_ops (exec_job (\<lambda>s. s) (\<lambda>_. [])) (demo_ops @ [OpenGate ''o'' ''r'' ''g'' fmempty 3]) empty_db"
  have "length (filter (\<lambda>g. gate_org g = ''o'' \<and> gate_status g = GatePending) (run_gates d)) = 1"
    by (simp add: d_def job_eval)
  then show ?thesis
    using cancel_leaves_nothing_pending [of "''o''" "''reset''" 9 d] unfolding d_def [symmetric] by metis
qed

text \<open>
   Tenant isolation of the durable store: operations of other organizations change none of the
  runs, items, jobs, gates, events and outbox entries of an organization.
\<close>

theorem job_tenant_isolation:
  assumes "\<And>p. p \<in> set ops \<Longrightarrow> job_op_org p \<noteq> org"
  shows "db_view org (run_ops (exec_job uid ps) ops d) = db_view org d"
  using assms by (rule job_tenants.view_run_others)

theorem job_tenant_isolation_witness:
  "db_view ''a'' (run_ops (exec_job (\<lambda>s. s) (\<lambda>_. [])) [CancelPending ''b'' ''x'' 0] empty_db) = db_view ''a'' empty_db"
  by (rule job_tenant_isolation) simp

end
