(* ===== verification/Run_Properties.thy ===== *)
theory Run_Properties
  imports Job_Store "HOL-Library.AList"
begin

text \<open>
  The run repository as a store of snapshots: \<open>get_run\<close> after \<open>save\<close>. The items of a run are, in the
  order of their positions, an association list from item ids to payloads, and \<open>save\<close> acts on it by
  updating the ids it is given and dropping the others.
\<close>

section \<open>Items as an association list\<close>

definition run_rows :: "org \<Rightarrow> string \<Rightarrow> db \<Rightarrow> item_row list" where
  "run_rows org rid d = filter (\<lambda>i. item_org i = org \<and> item_run i = rid) (run_items d)"

definition item_kvs :: "org \<Rightarrow> string \<Rightarrow> db \<Rightarrow> (string \<times> jdict) list" where
  "item_kvs org rid d = map (\<lambda>i. (item_key i, item_payload i)) (run_rows org rid d)"

lemma kvs_tupd:
  assumes "keyed ikey rows" "\<exists>i\<in>set rows. ikey i = (org, rid, k)"
  shows "map (\<lambda>i. (item_key i, item_payload i)) (filter (\<lambda>i. item_org i = org \<and> item_run i = rid)
      (tupd ikey (org, rid, k) (\<lambda>i. i\<lparr>item_payload := p\<rparr>) rows)) =
    AList.update k p (map (\<lambda>i. (item_key i, item_payload i)) (filter (\<lambda>i. item_org i = org \<and> item_run i = rid) rows))"
  using assms
proof (induction rows)
  case (Cons i rows)
  show ?case
  proof (cases "ikey i = (org, rid, k)")
    case True
    then have "tget ikey (org, rid, k) rows = None"
      using Cons.prems(1) by (auto simp: keyed_def tget_None_iff)
    moreover have "item_org i = org" "item_run i = rid" "item_key i = k"
      using True by (simp_all add: ikey_def)
    ultimately show ?thesis
      using True by (simp add: tupd_absent)
  next
    case False
    then have "\<not> (item_org i = org \<and> item_run i = rid \<and> item_key i = k)"
      by (simp add: ikey_def)
    moreover have "\<exists>i\<in>set rows. ikey i = (org, rid, k)" "keyed ikey rows"
      using Cons.prems False by (auto simp: keyed_def)
    ultimately show ?thesis
      using Cons.IH False by auto
  qed
qed simp

lemma update_absent: "k \<notin> fst ` set kvs \<Longrightarrow> AList.update k v kvs = kvs @ [(k, v)]"
  by (induction kvs) auto

lemma kvs_upsert_item:
  assumes "db_inv uid d"
  shows "item_kvs org rid (upsert_item org rid (k, p) d) = AList.update k p (item_kvs org rid d)"
proof (cases "tget ikey (org, rid, k) (run_items d)")
  case None
  then have "k \<notin> fst ` set (item_kvs org rid d)"
    by (force simp: item_kvs_def run_rows_def tget_None_iff ikey_def)
  then have "AList.update k p (item_kvs org rid d) = item_kvs org rid d @ [(k, p)]"
    by (rule update_absent)
  then show ?thesis
    using None by (simp add: upsert_item_def item_kvs_def run_rows_def)
next
  case (Some i)
  have "keyed ikey (run_items d)"
    using assms by (simp add: db_inv_defs)
  moreover have "\<exists>i\<in>set (run_items d). ikey i = (org, rid, k)"
    using tget_SomeD [OF Some] by blast
  ultimately show ?thesis
    using Some by (simp add: upsert_item_def item_kvs_def run_rows_def kvs_tupd)
qed

lemma kvs_upsert_items:
  assumes "db_inv uid d" "run_exists org rid d" "length ks = length ps"
  shows "item_kvs org rid (fold (upsert_item org rid) (zip ks ps) d) = AList.updates ks ps (item_kvs org rid d)"
  using assms(3,1,2)
proof (induction ks ps arbitrary: d rule: list_induct2)
  case Nil
  then show ?case
    by (simp add: AList.updates_def)
next
  case (Cons k ks p ps)
  have "db_inv uid (upsert_item org rid (k, p) d)"
    using upsert_item_step [OF Cons.prems] by (rule db_step_inv)
  then show ?case
    using Cons by (simp add: AList.updates_def kvs_upsert_item [OF Cons.prems(1)])
qed

lemma item_kvs_distinct:
  assumes "db_inv uid d"
  shows "distinct (map fst (item_kvs org rid d))"
proof -
  have "distinct (map ikey (run_rows org rid d))"
    using assms by (auto simp: db_inv_defs keyed_def run_rows_def intro: distinct_map_filter)
  moreover have "map ikey (run_rows org rid d) = map (\<lambda>k. (org, rid, k)) (map fst (item_kvs org rid d))"
    by (auto simp: run_rows_def item_kvs_def ikey_def)
  ultimately show ?thesis
    by (metis distinct_map)
qed

lemma item_kvs_cong: "run_items d' = run_items d \<Longrightarrow> item_kvs org rid d' = item_kvs org rid d"
  by (simp add: item_kvs_def run_rows_def)

lemma run_items_upsert_run [simp]: "run_items (upsert_run r f d) = run_items d"
  by (simp add: upsert_run_def upd_run_def insert_run_def)

lemma get_run_items:
  assumes "db_inv uid d" "tget rkey (org, rid) (runs d) = Some r"
  shows "get_run org rid d = Some \<lparr>snap_run_id = run_key r, snap_phase = run_phase r, snap_offer = run_offer r,
         snap_platform = run_platform r, snap_batch_size = run_batch_size r, snap_error = run_error r,
         snap_error_type = run_error_type r, snap_summary = run_summary r, snap_state = run_state r,
         snap_items = map snd (item_kvs org rid d)\<rparr>"
proof -
  have "sorted (map item_position (run_rows org rid d))"
    using assms(1) unfolding run_rows_def
    by (intro sorted_filter) (auto simp: db_inv_defs serial_def strict_sorted_iff)
  then have "sort_key item_position (run_rows org rid d) = run_rows org rid d"
    by (rule sort_key_id_if_sorted)
  then show ?thesis
    using assms(2) by (simp add: get_run_def item_kvs_def run_rows_def comp_def)
qed

text \<open>The abstract effect of \<open>save\<close> on the items of the run.\<close>

definition saved_items :: "string list \<Rightarrow> jdict list \<Rightarrow> (string \<times> jdict) list \<Rightarrow> (string \<times> jdict) list" where
  "saved_items ids items kvs = filter (\<lambda>kv. fst kv \<in> set ids) (AList.updates ids items kvs)"

lemma save_items:
  assumes inv: "db_inv uid d" and res: "save ps org rid phase state summary items err et d = Inr (x, d')"
  shows "item_kvs org rid d' = saved_items (map (item_ident ps) items) items (item_kvs org rid d)"
proof -
  obtain ph where ph: "run_phase_of phase = Some ph"
    using res by (auto simp: save_def split: option.splits)
  let ?r = "(new_run org rid None None None)\<lparr>run_phase := ph, run_error := err, run_error_type := et,
                     run_summary := summary, run_state := state\<rparr>"
  let ?f = "\<lambda>r. r\<lparr>run_phase := ph, run_error := err, run_error_type := et,
                     run_summary := summary, run_state := state\<rparr>"
  let ?ids = "map (item_ident ps) items"
  let ?d1 = "upsert_run ?r ?f d"
  have d1: "db_inv uid ?d1"
    by (rule db_step_inv [OF upsert_run_step [OF inv]]) simp_all
  have "run_exists org rid ?d1"
    using run_exists_upsert_run [of ?f ?r d] by (simp add: new_run_def)
  then have "item_kvs org rid (fold (upsert_item org rid) (zip ?ids items) ?d1) =
      AList.updates ?ids items (item_kvs org rid d)"
    using kvs_upsert_items [OF d1] item_kvs_cong [of ?d1 d] by simp
  moreover have "item_kvs org rid (delete_items (\<lambda>i. item_org i = org \<and> item_run i = rid \<and> item_key i \<notin> S) e) =
      filter (\<lambda>kv. fst kv \<in> S) (item_kvs org rid e)" for S e
    by (auto simp: item_kvs_def run_rows_def delete_items_def filter_map comp_def filter_filter
        intro!: arg_cong [where f = "map _"] filter_cong)
  ultimately show ?thesis
    using res ph by (auto simp: save_def Let_def saved_items_def split: if_splits)
qed

lemma updates_prefix:
  assumes "distinct ids" "length ids = length items" "prefix (map fst kvs) ids"
  shows "AList.updates ids items kvs = zip ids items"
  using assms(2,1,3)
proof (induction ids items arbitrary: kvs rule: list_induct2)
  case (Cons k ids p items)
  have upd: "AList.updates ids items ((k, p) # rest) = (k, p) # AList.updates ids items rest"
    if "k \<notin> set ids" for rest
    using Cons.hyps that
    by (induction ids items arbitrary: rest rule: list_induct2) (auto simp: AList.updates_def)
  show ?case
  proof (cases kvs)
    case Nil
    then show ?thesis
      using Cons.IH [of "[]"] Cons.prems upd [of "[]"] by (simp add: AList.updates_def)
  next
    case (Cons kv rest)
    then have "fst kv = k" "prefix (map fst rest) ids"
      using Cons.prems(2) by auto
    then show ?thesis
      using Cons.IH [of rest] Cons.prems(1) upd [of rest] Cons by (cases kv) (simp add: AList.updates_def)
  qed
qed (simp add: AList.updates_def)


lemma save_run_row:
  assumes inv: "db_inv uid d" and res: "save ps org rid phase state summary items err et d = Inr (x, d')"
  shows "\<exists>r ph. tget rkey (org, rid) (runs d') = Some r \<and> run_phase_of phase = Some ph \<and> run_phase r = ph \<and>
    run_state r = state \<and> run_summary r = summary \<and> run_error r = err \<and> run_error_type r = et \<and>
    (\<forall>r0. tget rkey (org, rid) (runs d) = Some r0 \<longrightarrow>
       run_offer r = run_offer r0 \<and> run_platform r = run_platform r0 \<and> run_batch_size r = run_batch_size r0)"
proof -
  have items: "runs (fold (upsert_item org rid) xs e) = runs e" for xs e
    by (induction xs arbitrary: e) (auto simp: upsert_item_def split: prod.splits option.splits)
  obtain ph where ph: "run_phase_of phase = Some ph"
    using res by (auto simp: save_def split: option.splits)
  let ?r = "(new_run org rid None None None)\<lparr>run_phase := ph, run_error := err, run_error_type := et,
                     run_summary := summary, run_state := state\<rparr>"
  let ?f = "\<lambda>r. r\<lparr>run_phase := ph, run_error := err, run_error_type := et,
                     run_summary := summary, run_state := state\<rparr>"
  have d': "runs d' = runs (upsert_run ?r ?f d)"
    using res ph by (auto simp: save_def Let_def delete_items_def items split: if_splits)
  have ids: "run_org ?r = org" "run_key ?r = rid" "rkey ?r = (org, rid)"
    by (simp_all add: new_run_def rkey_def)
  show ?thesis
  proof (cases "tget rkey (org, rid) (runs d)")
    case None
    then have "tget rkey (org, rid) (runs d') = Some (?r\<lparr>run_position := next_position d\<rparr>)"
      using ids by (simp add: d' upsert_run_def run_exists_def insert_run_def)
    then show ?thesis
      using ph None by simp
  next
    case (Some r0)
    then have "tget rkey (org, rid) (runs d') = Some (?f r0)"
      using ids by (simp add: d' upsert_run_def run_exists_def upd_run_def tget_tupd)
    then show ?thesis
      using ph Some by simp
  qed
qed

section \<open>The order of the saved items\<close>

text \<open>The ids, each where it first occurs.\<close>

fun first_ids :: "string list \<Rightarrow> string list" where
  "first_ids [] = []"
| "first_ids (k # ks) = k # filter (\<lambda>i. i \<noteq> k) (first_ids ks)"

lemma set_first_ids: "set (first_ids ks) = set ks"
  by (induction ks) auto

lemma updates_keys:
  assumes "length ids = length items"
  shows "map fst (AList.updates ids items kvs) = map fst kvs @ filter (\<lambda>i. i \<notin> set (map fst kvs)) (first_ids ids)"
  using assms
proof (induction ids items arbitrary: kvs rule: list_induct2)
  case (Cons k ids p items)
  have step: "AList.updates (k # ids) (p # items) kvs = AList.updates ids items (AList.update k p kvs)"
    by (simp add: AList.updates_def)
  show ?case
  proof (cases "k \<in> set (map fst kvs)")
    case True
    then have "filter (\<lambda>i. i \<notin> set (map fst kvs)) (first_ids (k # ids)) = filter (\<lambda>i. i \<notin> set (map fst kvs)) (first_ids ids)"
      by (auto simp: filter_filter intro!: filter_cong)
    moreover have "map fst (AList.update k p kvs) = map fst kvs"
      using True by (simp add: AList.update_keys)
    ultimately show ?thesis
      unfolding step Cons.IH by simp
  next
    case False
    then have "map fst (AList.update k p kvs) = map fst kvs @ [k]"
      by (simp add: AList.update_keys)
    moreover have "filter (\<lambda>i. i \<notin> set (map fst kvs)) (first_ids (k # ids)) =
        k # filter (\<lambda>i. i \<notin> set (map fst kvs @ [k])) (first_ids ids)"
      using False by (auto simp: filter_filter intro!: filter_cong)
    ultimately show ?thesis
      unfolding step Cons.IH by simp
  qed
qed (simp add: AList.updates_def)

lemma kvs_from_keys: "distinct (map fst kvs) \<Longrightarrow> kvs = map (\<lambda>i. (i, the (map_of kvs i))) (map fst kvs)"
  by (rule sym, unfold map_map comp_def, rule map_idI) (metis map_of_is_SomeI option.sel prod.collapse)

lemma saved_items_order:
  assumes "distinct (map fst kvs)" "length ids = length items"
  shows "map snd (saved_items ids items kvs) =
    map (\<lambda>i. the (map_of (rev (zip ids items)) i))
      (filter (\<lambda>i. i \<in> set ids) (map fst kvs) @ filter (\<lambda>i. i \<notin> set (map fst kvs)) (first_ids ids))"
proof -
  let ?new = "AList.updates ids items kvs"
  have latest: "map_of ?new i = map_of (rev (zip ids items)) i" if "i \<in> set ids" for i
  proof -
    have "i \<in> set (map fst (rev (zip ids items)))"
      using that assms(2) by (simp add: rev_map [symmetric])
    then obtain v where "map_of (rev (zip ids items)) i = Some v"
      by (metis map_of_eq_None_iff list.set_map not_Some_eq)
    then show ?thesis
      by (simp add: AList.updates_conv' map_upds_def)
  qed
  have "?new = map (\<lambda>i. (i, the (map_of ?new i))) (map fst ?new)"
    by (rule kvs_from_keys [OF AList.distinct_updates [OF assms(1)]])
  then have "saved_items ids items kvs = filter (\<lambda>kv. fst kv \<in> set ids) (map (\<lambda>i. (i, the (map_of ?new i))) (map fst ?new))"
    unfolding saved_items_def by (rule arg_cong)
  then have "map snd (saved_items ids items kvs) = map (\<lambda>i. the (map_of ?new i)) (filter (\<lambda>i. i \<in> set ids) (map fst ?new))"
    by (simp add: filter_map comp_def)
  also have "\<dots> = map (\<lambda>i. the (map_of (rev (zip ids items)) i)) (filter (\<lambda>i. i \<in> set ids) (map fst ?new))"
    by (rule map_cong) (auto simp: latest)
  also have "filter (\<lambda>i. i \<in> set ids) (map fst ?new) =
      filter (\<lambda>i. i \<in> set ids) (map fst kvs) @ filter (\<lambda>i. i \<notin> set (map fst kvs)) (first_ids ids)"
    unfolding updates_keys [OF assms(2)] by (auto simp: filter_filter set_first_ids intro!: filter_cong)
  finally show ?thesis .
qed

section \<open>Property\<close>

text \<open>
  C37. Saving a run and reading it back: the snapshot read after \<open>save\<close> has the saved phase, state,
  summary and error, and the offer, platform and batch size the run already had. Its items are those whose id is saved,
  each as it was saved last: first the items that were stored already, in their stored order, and then the new
  ones in the order in which their ids first occur in the call. In particular they are exactly the items of the call, in their
  order, when its ids are distinct and the stored ones are a first part of them.
\<close>

theorem save_get_roundtrip:
  assumes inv: "db_inv uid d" and res: "save ps org rid phase state summary items err et d = Inr (x, d')"
    and ids: "ids = map (item_ident ps) items" and stored: "stored = map fst (item_kvs org rid d)"
  shows "\<exists>s. get_run org rid d' = Some s \<and> run_phase_of phase = Some (snap_phase s) \<and> snap_state s = state \<and>
    snap_summary s = summary \<and> snap_error s = err \<and> snap_error_type s = et \<and>
    snap_items s = map (\<lambda>i. the (map_of (rev (zip ids items)) i))
      (filter (\<lambda>i. i \<in> set ids) stored @ filter (\<lambda>i. i \<notin> set stored) (first_ids ids)) \<and>
    (distinct ids \<and> prefix stored ids \<longrightarrow> snap_items s = items) \<and>
    (\<forall>s0. get_run org rid d = Some s0 \<longrightarrow> snap_offer s = snap_offer s0 \<and>
       snap_platform s = snap_platform s0 \<and> snap_batch_size s = snap_batch_size s0)"
proof -
  have inv': "db_inv uid d'"
    using save_step [OF inv res] by (rule db_step_inv)
  have len: "length ids = length items"
    by (simp add: ids)
  have kvs: "item_kvs org rid d' = saved_items ids items (item_kvs org rid d)"
    unfolding ids by (rule save_items [OF inv res])
  have order: "map snd (item_kvs org rid d') = map (\<lambda>i. the (map_of (rev (zip ids items)) i))
      (filter (\<lambda>i. i \<in> set ids) stored @ filter (\<lambda>i. i \<notin> set stored) (first_ids ids))"
    unfolding kvs stored by (rule saved_items_order [OF item_kvs_distinct [OF inv] len])
  have same: "map snd (item_kvs org rid d') = items" if "distinct ids" "prefix stored ids"
  proof -
    have "item_kvs org rid d' = filter (\<lambda>kv. fst kv \<in> set ids) (zip ids items)"
      unfolding kvs saved_items_def using updates_prefix [OF that(1) len that(2) [unfolded stored]] by simp
    also have "\<dots> = zip ids items"
      by (rule filter_True) (auto dest: set_zip_leftD)
    finally show ?thesis
      using len by simp
  qed
  obtain r where r: "tget rkey (org, rid) (runs d') = Some r"
    using save_run_row [OF inv res] by blast
  show ?thesis
    using save_run_row [OF inv res] get_run_items [OF inv' r] get_run_items [OF inv] order same r
    by (fastforce simp: get_run_def split: option.splits)
qed

text \<open>Two items are saved, and then the second one before the first: they stay in their stored order.\<close>

theorem save_get_roundtrip_witness:
  "let a = obj [(''id'', JStr ''a'')]; b = obj [(''id'', JStr ''b'')] in
   \<exists>d1 d2 s1 s2. save (\<lambda>_. []) ''o'' ''r'' ''running'' fmempty fmempty [a, b] None None empty_db = Inr ((), d1) \<and>
     get_run ''o'' ''r'' d1 = Some s1 \<and> snap_items s1 = [a, b] \<and>
     save (\<lambda>_. []) ''o'' ''r'' ''done'' fmempty fmempty [b, a] None None d1 = Inr ((), d2) \<and>
     get_run ''o'' ''r'' d2 = Some s2 \<and> snap_phase s2 = PhDone \<and> snap_items s2 = [a, b]"
proof -
  define a b where "a = obj [(''id'', JStr ''a'')]" and "b = obj [(''id'', JStr ''b'')]"
  have id: "item_ident (\<lambda>_. []) a = ''a''" "item_ident (\<lambda>_. []) b = ''b''"
    by (simp_all add: a_def b_def item_ident_def obj_def fmlookup_of_list strip_def py_space_def)
  then obtain d1 where d1: "save (\<lambda>_. []) ''o'' ''r'' ''running'' fmempty fmempty [a, b] None None empty_db = Inr ((), d1)"
    by (simp add: save_def run_phase_of_def Let_def)
  obtain d2 where d2: "save (\<lambda>_. []) ''o'' ''r'' ''done'' fmempty fmempty [b, a] None None d1 = Inr ((), d2)"
    using id by (simp add: save_def run_phase_of_def Let_def)
  have none: "item_kvs ''o'' ''r'' empty_db = []"
    by (simp add: item_kvs_def run_rows_def empty_db_def)
  have inv: "db_inv u d1" for u
    by (rule db_step_inv [OF save_step [OF db_inv_empty d1]])
  have stored: "map fst (item_kvs ''o'' ''r'' d1) = [''a'', ''b'']"
    using save_items [OF db_inv_empty d1] by (simp add: none id saved_items_def AList.updates_def)
  obtain s1 where "get_run ''o'' ''r'' d1 = Some s1" "snap_items s1 = [a, b]"
    using save_get_roundtrip [OF db_inv_empty d1 refl refl] by (auto simp: id none)
  moreover obtain s2 where "get_run ''o'' ''r'' d2 = Some s2" "run_phase_of ''done'' = Some (snap_phase s2)" "snap_items s2 = [a, b]"
    using save_get_roundtrip [OF inv d2 refl refl] by (auto simp: id stored)
  ultimately show ?thesis
    unfolding Let_def a_def [symmetric] b_def [symmetric] using d1 d2 by (auto simp: run_phase_of_def)
qed

end
