(* ===== verification/Media_Storage.thy ===== *)
theory Media_Storage
  imports Prelude
begin

text \<open>
  Storage of media bytes (\<open>src/src/orchestrator/storage\<close>: \<open>base.py\<close>, \<open>local.py\<close>, \<open>multi.py\<close>,
  \<open>resolve.py\<close>). Bytes are lists of characters. The file system is the set of regular files and
  directories by their absolute path, a list of components; permissions, symbolic links and disk
  space are left out. Downloading (HTTP and \<open>data:\<close> URIs), the MIME table and SHA-256 are arguments.

  The locale \<open>object_store\<close> states what a storage backend promises about deleting objects; it is
  interpreted on the local backend and on the router over several backends.
\<close>

type_synonym bytes = string
type_synonym path = "string list"

section \<open>URIs\<close>

text \<open>\<open>urlparse(uri).scheme\<close>; hosts with unbalanced brackets, which it rejects, are left out.\<close>

definition scheme_char :: "char \<Rightarrow> bool" where
  "scheme_char c = (let n = (of_char c :: nat) in
     (65 \<le> n \<and> n \<le> 90) \<or> (97 \<le> n \<and> n \<le> 122) \<or> (48 \<le> n \<and> n \<le> 57) \<or> c \<in> set ''+-.'')"

definition ascii_alpha :: "char \<Rightarrow> bool" where
  "ascii_alpha c = (let n = (of_char c :: nat) in (65 \<le> n \<and> n \<le> 90) \<or> (97 \<le> n \<and> n \<le> 122))"

text \<open>Leading control characters and spaces are dropped, tabs and line breaks removed.\<close>

definition url_clean :: "string \<Rightarrow> string" where
  "url_clean u = filter (\<lambda>c. (of_char c :: nat) \<notin> {9, 10, 13}) (dropWhile (\<lambda>c. (of_char c :: nat) \<le> 32) u)"

definition url_scheme :: "string \<Rightarrow> string" where
  "url_scheme u0 =
    (let u = url_clean u0; s = takeWhile (\<lambda>c. c \<noteq> CHR '':'') u in
     if s \<noteq> u \<and> s \<noteq> [] \<and> ascii_alpha (hd s) \<and> list_all scheme_char s then py_lower s else [])"

definition starts_with :: "string \<Rightarrow> string \<Rightarrow> bool" where
  "starts_with p s = (take (length p) s = p)"

definition is_downloadable :: "string \<Rightarrow> bool" where
  "is_downloadable uri =
    (if uri = [] then False
     else if starts_with ''data:'' uri then True
     else url_scheme uri = ''http'' \<or> url_scheme uri = ''https'')"

record fetched_media =
  fetched_data :: bytes
  fetched_content_type :: string
  fetched_ext :: string

text \<open>\<open>fetch\<close> is the download proper: \<open>None\<close> for every failure.\<close>

definition fetch_media :: "(string \<Rightarrow> fetched_media option) \<Rightarrow> string \<Rightarrow> fetched_media option" where
  "fetch_media fetch uri = (if \<not> is_downloadable uri then None else fetch uri)"

text \<open>The extension of a MIME type; \<open>guess\<close> is \<open>mimetypes.guess_extension\<close>.\<close>

definition mime_table :: "(string \<times> string) list" where
  "mime_table =
    [(''image/png'', ''png''), (''image/jpeg'', ''jpg''), (''image/webp'', ''webp''), (''image/gif'', ''gif''),
     (''image/avif'', ''avif''), (''image/svg+xml'', ''svg''), (''audio/mpeg'', ''mp3''), (''audio/mp3'', ''mp3''),
     (''audio/wav'', ''wav''), (''audio/x-wav'', ''wav''), (''audio/mp4'', ''m4a''), (''audio/ogg'', ''ogg''),
     (''video/mp4'', ''mp4''), (''video/webm'', ''webm'')]"

definition ext_from_mime :: "(string \<Rightarrow> string option) \<Rightarrow> string \<Rightarrow> string" where
  "ext_from_mime guess content_type =
    (let mime = py_lower (strip (takeWhile (\<lambda>c. c \<noteq> CHR '';'') content_type)) in
     case map_of mime_table mime of
       Some e \<Rightarrow> e
     | None \<Rightarrow>
        (case (if mime \<noteq> [] then guess mime else None) of
           None \<Rightarrow> ''bin''
         | Some [] \<Rightarrow> ''bin''
         | Some g \<Rightarrow> dropWhile (\<lambda>c. c = CHR ''.'') g))"

record stored_object =
  so_backend :: string
  so_key :: string
  so_uri :: string
  so_content_type :: string
  so_size_bytes :: int
  so_sha256 :: string

section \<open>Local backend\<close>

record file_system =
  files :: "(path, bytes) fmap"
  dirs :: "path fset"

record local_storage =
  ls_root :: path
  ls_web_prefix :: string

text \<open>Splitting at slashes; \<open>Path\<close> drops empty components and \<open>.\<close>.\<close>

fun split_at :: "char \<Rightarrow> string \<Rightarrow> string list" where
  "split_at c [] = [[]]"
| "split_at c (x # xs) =
    (if x = c then [] # split_at c xs
     else case split_at c xs of [] \<Rightarrow> [[x]] | p # ps \<Rightarrow> (x # p) # ps)"

definition path_parts :: "string \<Rightarrow> path" where
  "path_parts key = filter (\<lambda>p. p \<noteq> [] \<and> p \<noteq> ''.'') (split_at (CHR ''/'') key)"

text \<open>\<open>root / Path(key)\<close>: an absolute path replaces the root, and \<open>..\<close> stays in the path.\<close>

definition join_path :: "path \<Rightarrow> string \<Rightarrow> path" where
  "join_path root key = (if starts_with ''/'' key then path_parts key else root @ path_parts key)"

definition resolve_key :: "local_storage \<Rightarrow> string \<Rightarrow> path res" where
  "resolve_key st key =
    (if key = [] \<or> starts_with ''/'' key \<or> ''..'' \<in> set (path_parts key) then Inl ValueError
     else Inr (join_path (ls_root st) key))"

text \<open>
  The file that the operating system finds under a path: \<open>..\<close> goes up, and stays where it is at the top. Files are
  known by the paths that this returns.
\<close>

definition real_path :: "path \<Rightarrow> path" where
  "real_path p = fold (\<lambda>c q. if c = ''..'' then butlast q else q @ [c]) p []"

definition key_file :: "local_storage \<Rightarrow> string \<Rightarrow> path res" where
  "key_file st key = (case resolve_key st key of Inl e \<Rightarrow> Inl e | Inr p \<Rightarrow> Inr (real_path p))"

definition rstrip_char :: "char \<Rightarrow> string \<Rightarrow> string" where
  "rstrip_char c s = rev (dropWhile (\<lambda>x. x = c) (rev s))"

definition local_media_storage :: "path \<Rightarrow> string \<Rightarrow> local_storage" where
  "local_media_storage root prefix = \<lparr>ls_root = root, ls_web_prefix = rstrip_char (CHR ''/'') prefix\<rparr>"

definition local_stored :: "(bytes \<Rightarrow> string) \<Rightarrow> local_storage \<Rightarrow> string \<Rightarrow> bytes \<Rightarrow> string \<Rightarrow> stored_object" where
  "local_stored sha st key data content_type =
    \<lparr>so_backend = ''local'', so_key = key, so_uri = ls_web_prefix st @ ''/'' @ key,
     so_content_type = content_type, so_size_bytes = int (length data), so_sha256 = sha data\<rparr>"

text \<open>\<open>path.parent.mkdir(parents=True, exist_ok=True)\<close> and \<open>path.write_bytes(data)\<close>.\<close>

definition proper_prefixes :: "path \<Rightarrow> path list" where
  "proper_prefixes p = map (\<lambda>n. take n p) [0..<length p]"

definition write_file :: "path \<Rightarrow> bytes \<Rightarrow> file_system \<Rightarrow> unit res \<times> file_system" where
  "write_file p data fs =
    (if list_ex (\<lambda>d. d |\<in>| fmdom (files fs)) (proper_prefixes p) then (Inl OSError, fs)
     else
       let fs1 = fs\<lparr>dirs := dirs fs |\<union>| fset_of_list (proper_prefixes p)\<rparr> in
       if p |\<in>| dirs fs1 then (Inl OSError, fs1)
       else (Inr (), fs1\<lparr>files := fmupd p data (files fs1)\<rparr>))"

definition unlink_file :: "path \<Rightarrow> file_system \<Rightarrow> unit res \<times> file_system" where
  "unlink_file p fs =
    (if list_ex (\<lambda>d. d |\<in>| fmdom (files fs)) (proper_prefixes p) \<or> p |\<in>| dirs fs then (Inl OSError, fs)
     else (Inr (), fs\<lparr>files := fmdrop p (files fs)\<rparr>))"

definition put_bytes_with_ext ::
  "(bytes \<Rightarrow> string) \<Rightarrow> local_storage \<Rightarrow> bytes \<Rightarrow> string \<Rightarrow> string \<Rightarrow> string \<Rightarrow> file_system \<Rightarrow>
   stored_object res \<times> file_system" where
  "put_bytes_with_ext sha st data key_base content_type ext fs =
    (let key = key_base @ ''.'' @ ext in
     case key_file st key of
       Inl e \<Rightarrow> (Inl e, fs)
     | Inr p \<Rightarrow>
        (case write_file p data fs of
           (Inl e, fs') \<Rightarrow> (Inl e, fs')
         | (Inr _, fs') \<Rightarrow> (Inr (local_stored sha st key data content_type), fs')))"

definition local_put_bytes ::
  "(bytes \<Rightarrow> string) \<Rightarrow> (string \<Rightarrow> string option) \<Rightarrow> local_storage \<Rightarrow> bytes \<Rightarrow> string \<Rightarrow> string \<Rightarrow> file_system \<Rightarrow>
   stored_object res \<times> file_system" where
  "local_put_bytes sha guess st data key_base content_type fs =
    put_bytes_with_ext sha st data key_base content_type (ext_from_mime guess content_type) fs"

definition local_put_from_url ::
  "(bytes \<Rightarrow> string) \<Rightarrow> (string \<Rightarrow> fetched_media option) \<Rightarrow> local_storage \<Rightarrow> string \<Rightarrow> string \<Rightarrow> file_system \<Rightarrow>
   stored_object option res \<times> file_system" where
  "local_put_from_url sha fetch st uri key_base fs =
    (case fetch_media fetch uri of
       None \<Rightarrow> (Inr None, fs)
     | Some m \<Rightarrow>
        (case put_bytes_with_ext sha st (fetched_data m) key_base (fetched_content_type m) (fetched_ext m) fs of
           (Inl e, fs') \<Rightarrow> (Inl e, fs')
         | (Inr so, fs') \<Rightarrow> (Inr (Some so), fs')))"

definition local_signed_url :: "local_storage \<Rightarrow> string \<Rightarrow> string res" where
  "local_signed_url st key =
    (case resolve_key st key of Inl e \<Rightarrow> Inl e | Inr _ \<Rightarrow> Inr (ls_web_prefix st @ ''/'' @ key))"

definition local_delete :: "local_storage \<Rightarrow> string \<Rightarrow> file_system \<Rightarrow> unit res \<times> file_system" where
  "local_delete st key fs =
    (case key_file st key of Inl e \<Rightarrow> (Inl e, fs) | Inr p \<Rightarrow> unlink_file p fs)"

definition local_exists :: "local_storage \<Rightarrow> string \<Rightarrow> file_system \<Rightarrow> bool res" where
  "local_exists st key fs =
    (case key_file st key of Inl e \<Rightarrow> Inl e | Inr p \<Rightarrow> Inr (p |\<in>| fmdom (files fs)))"


section \<open>The storage protocol\<close>

text \<open>
  A \<open>MediaStorage\<close> as the record of its methods over a state \<open>'s\<close>; \<open>None\<close> for a method that the
  object does not have. \<open>get_signed_url\<close> takes the time to live.
\<close>

record 's storage_ops =
  op_backend :: string
  op_put_bytes :: "bytes \<Rightarrow> string \<Rightarrow> string \<Rightarrow> 's \<Rightarrow> stored_object res \<times> 's"
  op_put_from_url :: "string \<Rightarrow> string \<Rightarrow> 's \<Rightarrow> stored_object option res \<times> 's"
  op_signed_url :: "(string \<Rightarrow> int \<Rightarrow> string res) option"
  op_signed_url_for :: "(string \<Rightarrow> string \<Rightarrow> int \<Rightarrow> string res) option"
  op_delete :: "string \<Rightarrow> 's \<Rightarrow> unit res \<times> 's"
  op_delete_from :: "(string \<Rightarrow> string \<Rightarrow> 's \<Rightarrow> unit res \<times> 's) option"
  op_exists :: "string \<Rightarrow> 's \<Rightarrow> bool res"
  op_exists_in :: "(string \<Rightarrow> string \<Rightarrow> 's \<Rightarrow> bool res) option"

definition local_ops ::
  "(bytes \<Rightarrow> string) \<Rightarrow> (string \<Rightarrow> string option) \<Rightarrow> (string \<Rightarrow> fetched_media option) \<Rightarrow> local_storage \<Rightarrow>
   file_system storage_ops" where
  "local_ops sha guess fetch st =
    \<lparr>op_backend = ''local'', op_put_bytes = local_put_bytes sha guess st,
     op_put_from_url = local_put_from_url sha fetch st,
     op_signed_url = Some (\<lambda>key ttl. local_signed_url st key), op_signed_url_for = None,
     op_delete = local_delete st, op_delete_from = None,
     op_exists = local_exists st, op_exists_in = None\<rparr>"

section \<open>Several backends\<close>

record 's multi_storage =
  backends :: "(string \<times> 's storage_ops) list"
  write_backend :: string

definition multi_media_storage :: "(string \<times> 's storage_ops) list \<Rightarrow> string \<Rightarrow> 's multi_storage res" where
  "multi_media_storage bs wb =
    (if map_of bs wb = None then Inl ValueError else Inr \<lparr>backends = bs, write_backend = wb\<rparr>)"

definition storage_of :: "'s multi_storage \<Rightarrow> string \<Rightarrow> 's storage_ops res" where
  "storage_of ms b = (case map_of (backends ms) b of None \<Rightarrow> Inl ValueError | Some st \<Rightarrow> Inr st)"

definition multi_put_bytes where
  "multi_put_bytes ms data key_base content_type s =
    (case storage_of ms (write_backend ms) of
       Inl e \<Rightarrow> (Inl e, s) | Inr st \<Rightarrow> op_put_bytes st data key_base content_type s)"

definition multi_put_from_url where
  "multi_put_from_url ms uri key_base s =
    (case storage_of ms (write_backend ms) of
       Inl e \<Rightarrow> (Inl e, s) | Inr st \<Rightarrow> op_put_from_url st uri key_base s)"

definition multi_signed_url_for :: "'s multi_storage \<Rightarrow> string \<Rightarrow> string \<Rightarrow> int \<Rightarrow> string res" where
  "multi_signed_url_for ms b key ttl =
    (case storage_of ms b of
       Inl e \<Rightarrow> Inl e
     | Inr st \<Rightarrow> (case op_signed_url st of None \<Rightarrow> Inl AttributeError | Some f \<Rightarrow> f key ttl))"

definition multi_delete_from :: "'s multi_storage \<Rightarrow> string \<Rightarrow> string \<Rightarrow> 's \<Rightarrow> unit res \<times> 's" where
  "multi_delete_from ms b key s =
    (case storage_of ms b of Inl e \<Rightarrow> (Inl e, s) | Inr st \<Rightarrow> op_delete st key s)"

definition multi_exists_in :: "'s multi_storage \<Rightarrow> string \<Rightarrow> string \<Rightarrow> 's \<Rightarrow> bool res" where
  "multi_exists_in ms b key s =
    (case storage_of ms b of Inl e \<Rightarrow> Inl e | Inr st \<Rightarrow> op_exists st key s)"

definition multi_ops :: "'s multi_storage \<Rightarrow> 's storage_ops" where
  "multi_ops ms =
    \<lparr>op_backend = write_backend ms, op_put_bytes = multi_put_bytes ms, op_put_from_url = multi_put_from_url ms,
     op_signed_url = Some (multi_signed_url_for ms (write_backend ms)),
     op_signed_url_for = Some (multi_signed_url_for ms),
     op_delete = multi_delete_from ms (write_backend ms), op_delete_from = Some (multi_delete_from ms),
     op_exists = multi_exists_in ms (write_backend ms), op_exists_in = Some (multi_exists_in ms)\<rparr>"

section \<open>Signed URLs\<close>

text \<open>A JSON payload with its dictionaries in order; \<open>POther\<close> is any value that is no container or string.\<close>

datatype payload = PDict "(string \<times> payload) list" | PList "payload list" | PStr string | POther json

definition pointer_after :: "string \<Rightarrow> string \<Rightarrow> (string \<times> string) option" where
  "pointer_after b rest =
    (case dropWhile (\<lambda>c. c \<noteq> CHR ''/'') rest of
       [] \<Rightarrow> None
     | _ # key \<Rightarrow> if key = [] then None else Some (b, key))"

definition object_pointer_from_uri :: "string \<Rightarrow> (string \<times> string) option" where
  "object_pointer_from_uri uri =
    (if starts_with ''r2://'' uri then pointer_after ''r2'' (drop 5 uri)
     else if starts_with ''s3://'' uri then pointer_after ''s3'' (drop 5 uri)
     else None)"

definition r2_key_from_uri :: "string \<Rightarrow> string option" where
  "r2_key_from_uri uri =
    (case object_pointer_from_uri uri of Some (b, key) \<Rightarrow> if b = ''r2'' then Some key else None | None \<Rightarrow> None)"

text \<open>One pointer: \<open>Inr None\<close> when the storage cannot sign it.\<close>

definition sign_pointer :: "'s storage_ops \<Rightarrow> int \<Rightarrow> string \<times> string \<Rightarrow> string option res" where
  "sign_pointer st ttl ptr =
    (case op_signed_url_for st of
       Some f \<Rightarrow> (case f (fst ptr) (snd ptr) ttl of Inl e \<Rightarrow> Inl e | Inr u \<Rightarrow> Inr (Some u))
     | None \<Rightarrow>
        (case op_signed_url st of
           Some f \<Rightarrow>
             if op_backend st = fst ptr
             then (case f (snd ptr) ttl of Inl e \<Rightarrow> Inl e | Inr u \<Rightarrow> Inr (Some u))
             else Inr None
         | None \<Rightarrow> Inr None))"

type_synonym url_cache = "((string \<times> string) \<times> string) list"

fun walk :: "(string \<times> string \<Rightarrow> string option res) \<Rightarrow> payload \<Rightarrow> url_cache \<Rightarrow> (payload \<times> url_cache) res"
and walk_items :: "(string \<times> string \<Rightarrow> string option res) \<Rightarrow> (string \<times> payload) list \<Rightarrow> url_cache \<Rightarrow>
      ((string \<times> payload) list \<times> url_cache) res"
and walk_list :: "(string \<times> string \<Rightarrow> string option res) \<Rightarrow> payload list \<Rightarrow> url_cache \<Rightarrow> (payload list \<times> url_cache) res"
where
  "walk sg (PDict kvs) c = (case walk_items sg kvs c of Inl e \<Rightarrow> Inl e | Inr (r, c') \<Rightarrow> Inr (PDict r, c'))"
| "walk sg (PList xs) c = (case walk_list sg xs c of Inl e \<Rightarrow> Inl e | Inr (r, c') \<Rightarrow> Inr (PList r, c'))"
| "walk sg (PStr u) c =
    (case object_pointer_from_uri u of
       None \<Rightarrow> Inr (PStr u, c)
     | Some ptr \<Rightarrow>
        (case map_of c ptr of
           Some url \<Rightarrow> Inr (PStr url, c)
         | None \<Rightarrow>
            (case sg ptr of
               Inl e \<Rightarrow> Inl e
             | Inr None \<Rightarrow> Inr (PStr u, c)
             | Inr (Some url) \<Rightarrow> Inr (PStr url, (ptr, url) # c))))"
| "walk sg (POther j) c = Inr (POther j, c)"
| "walk_items sg [] c = Inr ([], c)"
| "walk_items sg ((k, x) # kvs) c =
    (case walk sg x c of
       Inl e \<Rightarrow> Inl e
     | Inr (y, c1) \<Rightarrow>
        (case walk_items sg kvs c1 of Inl e \<Rightarrow> Inl e | Inr (r, c2) \<Rightarrow> Inr ((k, y) # r, c2)))"
| "walk_list sg [] c = Inr ([], c)"
| "walk_list sg (x # xs) c =
    (case walk sg x c of
       Inl e \<Rightarrow> Inl e
     | Inr (y, c1) \<Rightarrow> (case walk_list sg xs c1 of Inl e \<Rightarrow> Inl e | Inr (r, c2) \<Rightarrow> Inr (y # r, c2)))"

definition resolve_signed_uris :: "'s storage_ops option \<Rightarrow> int \<Rightarrow> payload \<Rightarrow> payload res" where
  "resolve_signed_uris storage ttl p =
    (case storage of
       None \<Rightarrow> Inr p
     | Some st \<Rightarrow>
         if op_signed_url st = None \<and> op_signed_url_for st = None then Inr p
         else (case walk (sign_pointer st ttl) p [] of Inl e \<Rightarrow> Inl e | Inr (q, _) \<Rightarrow> Inr q))"


section \<open>Facts about the local backend\<close>

definition under :: "path \<Rightarrow> path \<Rightarrow> bool" where
  "under root p = (take (length root) p = root)"

lemma under_append [simp]: "under root (root @ p)"
  by (simp add: under_def)

lemma real_path_append: "''..'' \<notin> set q \<Longrightarrow> real_path (p @ q) = real_path p @ q"
proof -
  have "fold (\<lambda>c q. if c = ''..'' then butlast q else q @ [c]) q acc = acc @ q" if "''..'' \<notin> set q" for acc
    using that by (induction q arbitrary: acc) auto
  then show "''..'' \<notin> set q \<Longrightarrow> real_path (p @ q) = real_path p @ q"
    by (simp add: real_path_def)
qed

text \<open>What the guard of \<open>_resolve\<close> ensures.\<close>

lemma key_file_Inr:
  assumes "key_file st key = Inr p"
  shows "p = real_path (ls_root st) @ path_parts key"
  using assms real_path_append by (auto simp: key_file_def resolve_key_def join_path_def split: if_splits)

lemma key_file_under: "key_file st key = Inr p \<Longrightarrow> under (real_path (ls_root st)) p"
  using key_file_Inr by fastforce

lemma key_file_signed: "key_file st key = Inr p \<Longrightarrow> \<exists>q. resolve_key st key = Inr q"
  by (auto simp: key_file_def split: sum.splits)

lemma write_file_other: "write_file p data fs = (r, fs') \<Longrightarrow> q \<noteq> p \<Longrightarrow> fmlookup (files fs') q = fmlookup (files fs) q"
  by (auto simp: write_file_def Let_def split: if_splits)

lemma write_file_same: "write_file p data fs = (Inr u, fs') \<Longrightarrow> fmlookup (files fs') p = Some data \<and> p |\<notin>| dirs fs'"
  by (auto simp: write_file_def Let_def split: if_splits)

lemma unlink_file_other: "unlink_file p fs = (r, fs') \<Longrightarrow> q \<noteq> p \<Longrightarrow> fmlookup (files fs') q = fmlookup (files fs) q"
  by (auto simp: unlink_file_def split: if_splits)

lemmas key_file_eval = key_file_def resolve_key_def join_path_def real_path_def path_parts_def starts_with_def

lemma put_cases:
  assumes "put_bytes_with_ext sha st data kb ct ext fs = (r, fs')"
  obtains (invalid) e where "key_file st (kb @ ''.'' @ ext) = Inl e" "r = Inl e" "fs' = fs"
  | (unwritten) p e where "key_file st (kb @ ''.'' @ ext) = Inr p" "write_file p data fs = (Inl e, fs')" "r = Inl e"
  | (written) p where "key_file st (kb @ ''.'' @ ext) = Inr p" "write_file p data fs = (Inr (), fs')"
      "r = Inr (local_stored sha st (kb @ ''.'' @ ext) data ct)"
  using assms by (auto simp: put_bytes_with_ext_def Let_def split: sum.splits prod.splits)

lemma put_other:
  assumes "put_bytes_with_ext sha st data kb ct ext fs = (r, fs')"
    and "\<And>p. key_file st (kb @ ''.'' @ ext) = Inr p \<Longrightarrow> q \<noteq> p"
  shows "fmlookup (files fs') q = fmlookup (files fs) q"
  using assms(1)
proof (cases rule: put_cases)
  case (unwritten p e)
  then show ?thesis
    using write_file_other assms(2) by blast
next
  case (written p)
  then show ?thesis
    using write_file_other assms(2) by blast
qed simp

section \<open>What a backend promises about deletion\<close>

text \<open>
  \<open>loc b k\<close> is the place of the object with key \<open>k\<close> in backend \<open>b\<close> (none for an invalid key) and \<open>look s l\<close> the
  bytes at a place.
\<close>

locale object_store =
  fixes del :: "string \<Rightarrow> string \<Rightarrow> 's \<Rightarrow> unit res \<times> 's"
    and loc :: "string \<Rightarrow> string \<Rightarrow> 'l option"
    and look :: "'s \<Rightarrow> 'l \<Rightarrow> bytes option"
  assumes del_subset: "look (snd (del b k s)) l = None \<or> look (snd (del b k s)) l = look s l"
    and del_others: "loc b k \<noteq> Some l \<Longrightarrow> look (snd (del b k s)) l = look s l"
    and del_gone: "fst (del b k s) = Inr () \<Longrightarrow> loc b k = Some l \<Longrightarrow> look (snd (del b k s)) l = None"
begin

lemma del_ok: "del b k s = (Inr (), s') \<Longrightarrow> look s' l = (if loc b k = Some l then None else look s l)"
  using del_others [of b k l s] del_gone [of b k s l] by auto

lemma del_kept: "del b k s = (r, s') \<Longrightarrow> look s' l \<noteq> None \<Longrightarrow> look s l \<noteq> None"
  using del_subset [of b k s l] by auto

lemma del_other_place: "del b k s = (r, s') \<Longrightarrow> loc b k \<noteq> Some l \<Longrightarrow> look s' l = look s l"
  using del_others [of b k l s] by simp

end

definition local_loc :: "local_storage \<Rightarrow> string \<Rightarrow> path option" where
  "local_loc st k = (case key_file st k of Inl _ \<Rightarrow> None | Inr p \<Rightarrow> Some p)"

interpretation local_objects: object_store "\<lambda>b. local_delete st" "\<lambda>b. local_loc st" "\<lambda>fs. fmlookup (files fs)" for st
  by unfold_locales
    (auto simp: local_delete_def unlink_file_def local_loc_def split: sum.splits if_splits)

text \<open>A router over local backends with different roots, for one file system.\<close>

definition multi_loc :: "(string \<times> local_storage) list \<Rightarrow> string \<Rightarrow> string \<Rightarrow> path option" where
  "multi_loc sts b k = (case map_of sts b of None \<Rightarrow> None | Some st \<Rightarrow> local_loc st k)"

definition multi_of_locals ::
  "(bytes \<Rightarrow> string) \<Rightarrow> (string \<Rightarrow> string option) \<Rightarrow> (string \<Rightarrow> fetched_media option) \<Rightarrow>
   (string \<times> local_storage) list \<Rightarrow> string \<Rightarrow> file_system multi_storage" where
  "multi_of_locals sha guess fetch sts wb =
    \<lparr>backends = map (\<lambda>(b, st). (b, local_ops sha guess fetch st)) sts, write_backend = wb\<rparr>"

lemma map_of_map_pair: "map_of (map (\<lambda>(b, st). (b, f st)) xs) k = map_option f (map_of xs k)"
  by (induction xs) auto

lemma multi_of_locals_delete:
  "multi_delete_from (multi_of_locals sha guess fetch sts wb) b k fs =
    (case map_of sts b of None \<Rightarrow> (Inl ValueError, fs) | Some st \<Rightarrow> local_delete st k fs)"
  by (auto simp: multi_delete_from_def storage_of_def multi_of_locals_def map_of_map_pair local_ops_def split: option.splits)

interpretation multi_objects: object_store "multi_delete_from (multi_of_locals sha guess fetch sts wb)" "multi_loc sts"
  "\<lambda>fs. fmlookup (files fs)" for sha guess fetch sts wb
  by unfold_locales
    (use local_objects.del_subset local_objects.del_others local_objects.del_gone in
      \<open>auto simp: multi_of_locals_delete multi_loc_def split: option.splits\<close>)

section \<open>Properties\<close>

text \<open>The deletions and writes a process makes through a local backend.\<close>

datatype local_op =
    LPutBytes bytes string string
  | LPutUrl string string
  | LDelete string

fun exec_local ::
  "(bytes \<Rightarrow> string) \<Rightarrow> (string \<Rightarrow> string option) \<Rightarrow> (string \<Rightarrow> fetched_media option) \<Rightarrow> local_storage \<Rightarrow>
   local_op \<Rightarrow> file_system \<Rightarrow> file_system" where
  "exec_local sha guess fetch st (LPutBytes data kb ct) fs = snd (local_put_bytes sha guess st data kb ct fs)"
| "exec_local sha guess fetch st (LPutUrl uri kb) fs = snd (local_put_from_url sha fetch st uri kb fs)"
| "exec_local sha guess fetch st (LDelete k) fs = snd (local_delete st k fs)"

lemma exec_local_outside:
  assumes "\<not> under (real_path (ls_root st)) p"
  shows "fmlookup (files (exec_local sha guess fetch st q fs)) p = fmlookup (files fs) p"
proof -
  have other: "key_file st k = Inr p' \<Longrightarrow> p \<noteq> p'" for k p'
    using assms key_file_under by blast
  then have put: "put_bytes_with_ext sha st data kb ct ext fs = (r, fs') \<Longrightarrow> fmlookup (files fs') p = fmlookup (files fs) p"
    for data kb ct ext r fs'
    using put_other by blast
  show ?thesis
  proof (cases q)
    case (LPutBytes data kb ct)
    then show ?thesis
      using put by (simp add: local_put_bytes_def) (metis prod.collapse)
  next
    case (LPutUrl uri kb)
    then show ?thesis
      using put by (auto simp: local_put_from_url_def split: option.splits prod.splits sum.splits)
  next
    case (LDelete k)
    then show ?thesis
      using other unlink_file_other by (auto simp: local_delete_def split: sum.splits) (metis prod.collapse)
  qed
qed

interpretation local_outside: tenant_store "exec_local sha guess fetch st" "\<lambda>_. True"
  "\<lambda>inside fs. if inside then None else Some (\<lambda>p. if under (real_path (ls_root st)) p then None else fmlookup (files fs) p)"
  for sha guess fetch st
  by unfold_locales (auto simp: exec_local_outside)

lemma unguarded_keys_escape:
  "real_path (join_path [''srv'', ''videos''] ''../secret'') = [''srv'', ''secret'']"
  "real_path (join_path [''srv'', ''videos''] ''/srv/secret'') = [''srv'', ''secret'']"
  by code_simp+

text \<open>
  C39. Storage keys cannot leave the storage root: whatever keys, URIs and bytes untrusted input makes the
  program store or delete, in any order, no file outside the root of the local backend is created,
  changed or removed. A key that is joined to the root could leave it, with \<open>..\<close> or as an absolute path
  (\<open>unguarded_keys_escape\<close>); the guard of \<open>_resolve\<close> is what forbids it.
\<close>

theorem local_storage_contained:
  assumes "\<not> under (real_path (ls_root st)) p"
  shows "fmlookup (files (run_ops (exec_local sha guess fetch st) ops fs)) p = fmlookup (files fs) p"
  using local_outside.view_run_others [of ops False st sha guess fetch fs] assms by (auto dest: fun_cong [where x = p])

theorem local_storage_contained_witness:
  "let st = local_media_storage [''srv'', ''videos''] ''/videos/'';
       fs = \<lparr>files = fmap_of_list [([''srv'', ''secret''], ''x'')], dirs = {||}\<rparr>
   in fmlookup (files (run_ops (exec_local (\<lambda>_. []) (\<lambda>_. None) (\<lambda>_. None) st)
        [LDelete ''../secret'', LDelete ''/srv/secret'', LPutBytes ''y'' ''a/../../secret'' ''image/png''] fs)) [''srv'', ''secret''] = Some ''x''"
proof -
  define st where "st = local_media_storage [''srv'', ''videos''] ''/videos/''"
  have "\<not> under (real_path (ls_root st)) [''srv'', ''secret'']"
    by (simp add: st_def local_media_storage_def under_def real_path_def)
  then show ?thesis
    unfolding Let_def st_def [symmetric] by (subst local_storage_contained) simp_all
qed

text \<open>
   Stored objects can be read back: when \<open>put_bytes\<close> returns, the object exists under the returned key
  with exactly the bytes given, its URI is the URL under which the key is served, and deleting its
  key succeeds and removes it.
\<close>

theorem local_put_roundtrip:
  assumes "local_put_bytes sha guess st data kb ct fs = (Inr so, fs')"
  shows "local_exists st (so_key so) fs' = Inr True \<and>
    (\<exists>p. key_file st (so_key so) = Inr p \<and> fmlookup (files fs') p = Some data) \<and>
    local_signed_url st (so_key so) = Inr (so_uri so) \<and>
    (\<exists>fs''. local_delete st (so_key so) fs' = (Inr (), fs'') \<and> local_exists st (so_key so) fs'' = Inr False)"
proof -
  obtain p where p: "key_file st (so_key so) = Inr p" and w: "write_file p data fs = (Inr (), fs')"
    and so: "so = local_stored sha st (so_key so) data ct"
    using assms unfolding local_put_bytes_def by (cases rule: put_cases) (auto simp: local_stored_def)
  have data: "fmlookup (files fs') p = Some data"
    using write_file_same [OF w] by simp
  then have dom: "p |\<in>| fmdom (files fs')"
    by (simp add: fmlookup_dom_iff)
  have uri: "so_uri so = ls_web_prefix st @ ''/'' @ so_key so"
    by (subst so) (simp add: local_stored_def)
  have "\<not> list_ex (\<lambda>d. d |\<in>| fmdom (files fs')) (proper_prefixes p)" "p |\<notin>| dirs fs'"
    using w write_file_same [OF w]
    by (auto simp: write_file_def Let_def list_ex_iff proper_prefixes_def split: if_splits)
  then have "local_delete st (so_key so) fs' = (Inr (), fs'\<lparr>files := fmdrop p (files fs')\<rparr>)"
    using p by (simp add: local_delete_def unlink_file_def)
  then show ?thesis
    using p key_file_signed [OF p] data dom uri by (auto simp: local_exists_def local_signed_url_def)
qed

theorem local_put_roundtrip_witness:
  "let st = local_media_storage [''srv''] ''/videos/'';
       r = local_put_bytes (\<lambda>_. ''h'') (\<lambda>_. None) st ''data'' ''run/clip-0'' ''video/mp4'' \<lparr>files = fmempty, dirs = {||}\<rparr>
   in local_exists st ''run/clip-0.mp4'' (snd r) = Inr True \<and> local_signed_url st ''run/clip-0.mp4'' = Inr ''/videos/run/clip-0.mp4''"
proof -
  define st where "st = local_media_storage [''srv''] ''/videos/''"
  define fs :: file_system where "fs = \<lparr>files = fmempty, dirs = {||}\<rparr>"
  define r where "r = local_put_bytes (\<lambda>_. ''h'') (\<lambda>_. None) st ''data'' ''run/clip-0'' ''video/mp4'' fs"
  define so where "so = local_stored (\<lambda>_. ''h'') st ''run/clip-0.mp4'' ''data'' ''video/mp4''"
  have "fst r = Inr so"
    by (simp add: r_def so_def st_def fs_def local_put_bytes_def put_bytes_with_ext_def resolve_key_def key_file_def join_path_def real_path_def starts_with_def
        path_parts_def write_file_def proper_prefixes_def ext_from_mime_def mime_table_def strip_def py_space_def
        py_lower_def py_lower_char_def local_media_storage_def upt_rec)
  then have "local_put_bytes (\<lambda>_. ''h'') (\<lambda>_. None) st ''data'' ''run/clip-0'' ''video/mp4'' fs = (Inr so, snd r)"
    by (simp add: r_def prod_eq_iff)
  moreover have "so_key so = ''run/clip-0.mp4''" "so_uri so = ''/videos/run/clip-0.mp4''"
    by (simp_all add: so_def local_stored_def st_def local_media_storage_def rstrip_char_def)
  ultimately show ?thesis
    using local_put_roundtrip [of "\<lambda>_. ''h''" "\<lambda>_. None" st "''data''" "''run/clip-0''" "''video/mp4''" fs so "snd r"]
    unfolding Let_def st_def [symmetric] fs_def [symmetric] r_def [symmetric] by simp
qed

section \<open>Signing once\<close>

text \<open>The reference: every pointer is replaced by its URL, with no cache.\<close>

fun sign_payload :: "(string \<times> string \<Rightarrow> string option res) \<Rightarrow> payload \<Rightarrow> payload res"
and sign_items :: "(string \<times> string \<Rightarrow> string option res) \<Rightarrow> (string \<times> payload) list \<Rightarrow> (string \<times> payload) list res"
and sign_list :: "(string \<times> string \<Rightarrow> string option res) \<Rightarrow> payload list \<Rightarrow> payload list res"
where
  "sign_payload sg (PDict kvs) = (case sign_items sg kvs of Inl e \<Rightarrow> Inl e | Inr r \<Rightarrow> Inr (PDict r))"
| "sign_payload sg (PList xs) = (case sign_list sg xs of Inl e \<Rightarrow> Inl e | Inr r \<Rightarrow> Inr (PList r))"
| "sign_payload sg (PStr u) =
    (case object_pointer_from_uri u of
       None \<Rightarrow> Inr (PStr u)
     | Some ptr \<Rightarrow> (case sg ptr of Inl e \<Rightarrow> Inl e | Inr None \<Rightarrow> Inr (PStr u) | Inr (Some url) \<Rightarrow> Inr (PStr url)))"
| "sign_payload sg (POther j) = Inr (POther j)"
| "sign_items sg [] = Inr []"
| "sign_items sg ((k, x) # kvs) =
    (case sign_payload sg x of
       Inl e \<Rightarrow> Inl e | Inr y \<Rightarrow> (case sign_items sg kvs of Inl e \<Rightarrow> Inl e | Inr r \<Rightarrow> Inr ((k, y) # r)))"
| "sign_list sg [] = Inr []"
| "sign_list sg (x # xs) =
    (case sign_payload sg x of
       Inl e \<Rightarrow> Inl e | Inr y \<Rightarrow> (case sign_list sg xs of Inl e \<Rightarrow> Inl e | Inr r \<Rightarrow> Inr (y # r)))"

definition cache_ok :: "(string \<times> string \<Rightarrow> string option res) \<Rightarrow> url_cache \<Rightarrow> bool" where
  "cache_ok sg c = (distinct (map fst c) \<and> (\<forall>(ptr, url)\<in>set c. sg ptr = Inr (Some url)))"

definition agrees :: "(string \<times> string \<Rightarrow> string option res) \<Rightarrow> ('x \<times> url_cache) res \<Rightarrow> 'x res \<Rightarrow> bool" where
  "agrees sg r ref = (case r of Inl e \<Rightarrow> ref = Inl e | Inr (x, c) \<Rightarrow> ref = Inr x \<and> cache_ok sg c)"

lemma walk_agrees:
  "cache_ok sg c \<Longrightarrow> agrees sg (walk sg p c) (sign_payload sg p)"
  "cache_ok sg c \<Longrightarrow> agrees sg (walk_items sg kvs c) (sign_items sg kvs)"
  "cache_ok sg c \<Longrightarrow> agrees sg (walk_list sg xs c) (sign_list sg xs)"
proof (induction sg p c and sg kvs c and sg xs c rule: walk_walk_items_walk_list.induct)
  case (3 sg u c)
  show ?case
  proof (cases "object_pointer_from_uri u")
    case (Some ptr)
    show ?thesis
    proof (cases "map_of c ptr")
      case None
      then have "ptr \<notin> fst ` set c"
        by (simp add: map_of_eq_None_iff)
      then show ?thesis
        using Some None 3 by (auto simp: agrees_def cache_ok_def split: sum.splits option.splits)
    next
      case (Some url)
      then have "sg ptr = Inr (Some url)"
        using 3 map_of_SomeD by (fastforce simp: cache_ok_def)
      then show ?thesis
        using Some \<open>object_pointer_from_uri u = Some ptr\<close> 3 by (simp add: agrees_def)
    qed
  qed (use 3 in \<open>simp add: agrees_def\<close>)
next
  case (6 sg k x kvs c)
  show ?case
  proof (cases "walk sg x c")
    case (Inl e)
    then show ?thesis
      using "6.IH"(1) "6.prems" by (simp add: agrees_def)
  next
    case (Inr r)
    obtain y c1 where r: "r = (y, c1)"
      by fastforce
    have x: "sign_payload sg x = Inr y" "cache_ok sg c1"
      using "6.IH"(1) "6.prems" Inr r by (simp_all add: agrees_def)
    have "agrees sg (walk_items sg kvs c1) (sign_items sg kvs)"
      by (rule "6.IH"(2) [OF Inr r [symmetric] x(2)])
    then show ?thesis
      using Inr r x by (auto simp: agrees_def split: sum.splits)
  qed
next
  case (8 sg x xs c)
  show ?case
  proof (cases "walk sg x c")
    case (Inl e)
    then show ?thesis
      using "8.IH"(1) "8.prems" by (simp add: agrees_def)
  next
    case (Inr r)
    obtain y c1 where r: "r = (y, c1)"
      by fastforce
    have x: "sign_payload sg x = Inr y" "cache_ok sg c1"
      using "8.IH"(1) "8.prems" Inr r by (simp_all add: agrees_def)
    have "agrees sg (walk_list sg xs c1) (sign_list sg xs)"
      by (rule "8.IH"(2) [OF Inr r [symmetric] x(2)])
    then show ?thesis
      using Inr r x by (auto simp: agrees_def split: sum.splits)
  qed
qed (auto simp: agrees_def split: sum.splits prod.splits)

text \<open>
   Caching is transparent: \<open>resolve_signed_uris\<close> returns exactly the payload in which every canonical
  object pointer is replaced by the URL signed for it, and raises exactly when signing one of them
  raises, although it signs each pointer at most once.
\<close>

theorem resolve_signed_uris_reference:
  "resolve_signed_uris (Some st) ttl p = sign_payload (sign_pointer st ttl) p"
proof (cases "op_signed_url st = None \<and> op_signed_url_for st = None")
  case True
  then have none: "sign_pointer st ttl ptr = Inr None" for ptr
    by (simp add: sign_pointer_def)
  have "sign_payload (sign_pointer st ttl) p = Inr p" "sign_items (sign_pointer st ttl) kvs = Inr kvs"
    "sign_list (sign_pointer st ttl) xs = Inr xs" for kvs xs
    using none
    by (induction "sign_pointer st ttl" p and "sign_pointer st ttl" kvs and "sign_pointer st ttl" xs
        rule: sign_payload_sign_items_sign_list.induct) (auto split: option.splits)
  then show ?thesis
    using True by (simp add: resolve_signed_uris_def)
next
  case False
  have "agrees (sign_pointer st ttl) (walk (sign_pointer st ttl) p []) (sign_payload (sign_pointer st ttl) p)"
    by (rule walk_agrees) (simp add: cache_ok_def)
  then show ?thesis
    using False by (auto simp: resolve_signed_uris_def agrees_def split: sum.splits)
qed

end
