(* ===== verification/Artifact_Store.thy ===== *)
theory Artifact_Store
  imports Prelude "HOL-Library.Char_ord" "HOL-Library.List_Lexorder"
begin

text \<open>
  The relational record of media artifacts (\<open>src/src/orchestrator/storage/records.py\<close>,
  \<open>storage/retention.py\<close>, \<open>storage/db.py\<close>, \<open>db/artifacts.py\<close>): one row per stored object, with its
  retention class and expiry, in PostgreSQL (one table for all tenants) or in a local SQLite file.

  Instants are integers, microseconds since the epoch; comparing them stands for comparing the
  \<open>timestamptz\<close> column and, since every instant is rendered in UTC by \<open>isoformat\<close>, for comparing the
  text column of SQLite. \<open>digest\<close> is the first 32 hexadecimal digits of SHA-256 and \<open>coll\<close> the
  collation of the PostgreSQL database, both arguments.

  The locale \<open>artifact_repository\<close> is the contract that the callers rely on; both repositories
  satisfy it, and \<open>sqlite_refines_postgres\<close> relates them directly.
\<close>

section \<open>Retention classes\<close>

definition RETENTION_KEEP :: string where "RETENTION_KEEP = ''keep''"
definition RETENTION_REJECTED :: string where "RETENTION_REJECTED = ''rejected''"
definition RETENTION_INTERMEDIATE :: string where "RETENTION_INTERMEDIATE = ''intermediate''"

type_synonym instant = int

definition day :: int where
  "day = 24 * 60 * 60 * 1000000"

definition ttl_days :: "string \<rightharpoonup> int" where
  "ttl_days = [RETENTION_REJECTED \<mapsto> 3, RETENTION_INTERMEDIATE \<mapsto> 2]"

definition expires_at_for :: "string \<Rightarrow> instant \<Rightarrow> instant option res" where
  "expires_at_for c now =
    (if c \<noteq> RETENTION_KEEP \<and> ttl_days c = None then Inl ValueError
     else Inr (case ttl_days c of None \<Rightarrow> None | Some d \<Rightarrow> Some (now + d * day)))"

section \<open>Records\<close>

record artifact_record =
  ar_run_id :: string
  ar_kind :: string
  ar_storage_backend :: string
  ar_storage_key :: string
  ar_item_id :: "string option"
  ar_creator_id :: "string option"
  ar_content_type :: "string option"
  ar_size_bytes :: "int option"
  ar_sha256 :: "string option"
  ar_source_uri :: "string option"
  ar_retention_class :: string
  ar_expires_at :: "instant option"
  ar_meta :: jdict

definition artifact_id :: "(string \<Rightarrow> string) \<Rightarrow> artifact_record \<Rightarrow> string" where
  "artifact_id digest a = digest (ar_run_id a @ '':'' @ ar_storage_key a)"

definition set_class :: "string \<Rightarrow> instant option \<Rightarrow> artifact_record \<Rightarrow> artifact_record" where
  "set_class c e a = a\<lparr>ar_retention_class := c, ar_expires_at := e\<rparr>"

text \<open>The rows: the SQLite table has the id beside the record, the PostgreSQL table also the tenant.\<close>

record sqlite_row =
  ar_id :: string
  ar_rec :: artifact_record

record artifact_row = sqlite_row +
  ar_org :: string

abbreviation row_key :: "'a sqlite_row_scheme \<Rightarrow> string" where
  "row_key r \<equiv> ar_storage_key (ar_rec r)"

definition fits_int64 :: "int option \<Rightarrow> bool" where
  "fits_int64 n = (case n of None \<Rightarrow> True | Some k \<Rightarrow> - (2 ^ 63) \<le> k \<and> k < 2 ^ 63)"

definition due :: "instant \<Rightarrow> artifact_record \<Rightarrow> bool" where
  "due now a = (case ar_expires_at a of None \<Rightarrow> False | Some e \<Rightarrow> e \<le> now)"

section \<open>PostgreSQL\<close>

definition akey :: "artifact_row \<Rightarrow> string \<times> string" where
  "akey r = (ar_org r, ar_id r)"

text \<open>\<open>INSERT \<dots> ON CONFLICT (organization_id, id) DO UPDATE\<close> under \<open>UNIQUE (organization_id, storage_key)\<close>.\<close>

definition pg_record ::
  "(string \<Rightarrow> string) \<Rightarrow> string \<Rightarrow> artifact_record \<Rightarrow> artifact_row list \<Rightarrow> (artifact_record \<times> artifact_row list) res" where
  "pg_record digest org a t =
    (let i = artifact_id digest a in
     if \<not> fits_int64 (ar_size_bytes a) then Inl DataError
     else if \<exists>r\<in>set t. ar_org r = org \<and> row_key r = ar_storage_key a \<and> ar_id r \<noteq> i then Inl UniqueViolation
     else if tget akey (org, i) t = None then Inr (a, t @ [\<lparr>ar_id = i, ar_rec = a, ar_org = org\<rparr>])
     else Inr (a, tupd akey (org, i) (ar_rec_update (\<lambda>_. a)) t))"

definition pg_get :: "string \<Rightarrow> string \<Rightarrow> artifact_row list \<Rightarrow> artifact_record option" where
  "pg_get org i t = map_option ar_rec (tget akey (org, i) t)"

definition pg_select :: "(string \<Rightarrow> 'c::linorder) \<Rightarrow> (artifact_row \<Rightarrow> bool) \<Rightarrow> artifact_row list \<Rightarrow> artifact_record list" where
  "pg_select coll P t = map ar_rec (sort_key (\<lambda>r. coll (row_key r)) (filter P t))"

definition pg_by_run :: "(string \<Rightarrow> 'c::linorder) \<Rightarrow> string \<Rightarrow> string \<Rightarrow> artifact_row list \<Rightarrow> artifact_record list" where
  "pg_by_run coll org rid t = pg_select coll (\<lambda>r. ar_org r = org \<and> ar_run_id (ar_rec r) = rid) t"

definition pg_by_key :: "string \<Rightarrow> string \<Rightarrow> artifact_row list \<Rightarrow> artifact_record option" where
  "pg_by_key org k t = map_option ar_rec (find (\<lambda>r. ar_org r = org \<and> row_key r = k) t)"

definition pg_update :: "string \<Rightarrow> string \<Rightarrow> (artifact_record \<Rightarrow> artifact_record) \<Rightarrow> artifact_row list \<Rightarrow> artifact_row list" where
  "pg_update org k f t = map (\<lambda>r. if ar_org r = org \<and> row_key r = k then ar_rec_update f r else r) t"

definition pg_set_retention ::
  "string \<Rightarrow> string \<Rightarrow> string \<Rightarrow> instant \<Rightarrow> artifact_row list \<Rightarrow> (unit \<times> artifact_row list) res" where
  "pg_set_retention org k c now t =
    (case expires_at_for c now of Inl e \<Rightarrow> Inl e | Inr x \<Rightarrow> Inr ((), pg_update org k (set_class c x) t))"

definition pg_set_storage_backend :: "string \<Rightarrow> string \<Rightarrow> string \<Rightarrow> artifact_row list \<Rightarrow> artifact_row list" where
  "pg_set_storage_backend org k b t = pg_update org k (ar_storage_backend_update (\<lambda>_. b)) t"

definition pg_expired :: "(string \<Rightarrow> 'c::linorder) \<Rightarrow> string \<Rightarrow> instant \<Rightarrow> artifact_row list \<Rightarrow> artifact_record list" where
  "pg_expired coll org now t = pg_select coll (\<lambda>r. ar_org r = org \<and> due now (ar_rec r)) t"

definition pg_delete :: "string \<Rightarrow> string \<Rightarrow> artifact_row list \<Rightarrow> artifact_row list" where
  "pg_delete org i t = filter (\<lambda>r. \<not> (ar_org r = org \<and> ar_id r = i)) t"

section \<open>SQLite\<close>

text \<open>\<open>INSERT OR REPLACE\<close> removes every row that conflicts on the id or on the unique storage key.\<close>

definition sq_record ::
  "(string \<Rightarrow> string) \<Rightarrow> artifact_record \<Rightarrow> sqlite_row list \<Rightarrow> (artifact_record \<times> sqlite_row list) res" where
  "sq_record digest a t =
    (let i = artifact_id digest a in
     if \<not> fits_int64 (ar_size_bytes a) then Inl OverflowError
     else Inr (a, filter (\<lambda>r. ar_id r \<noteq> i \<and> row_key r \<noteq> ar_storage_key a) t @ [\<lparr>ar_id = i, ar_rec = a\<rparr>]))"

definition sq_get :: "string \<Rightarrow> sqlite_row list \<Rightarrow> artifact_record option" where
  "sq_get i t = map_option ar_rec (find (\<lambda>r. ar_id r = i) t)"

definition sq_by_key :: "string \<Rightarrow> sqlite_row list \<Rightarrow> artifact_record option" where
  "sq_by_key k t = map_option ar_rec (find (\<lambda>r. row_key r = k) t)"

definition sq_select :: "(sqlite_row \<Rightarrow> bool) \<Rightarrow> sqlite_row list \<Rightarrow> artifact_record list" where
  "sq_select P t = map ar_rec (sort_key row_key (filter P t))"

definition sq_by_run :: "string \<Rightarrow> sqlite_row list \<Rightarrow> artifact_record list" where
  "sq_by_run rid t = sq_select (\<lambda>r. ar_run_id (ar_rec r) = rid) t"

definition sq_set_retention :: "string \<Rightarrow> string \<Rightarrow> instant \<Rightarrow> sqlite_row list \<Rightarrow> (unit \<times> sqlite_row list) res" where
  "sq_set_retention k c now t =
    (case expires_at_for c now of
       Inl e \<Rightarrow> Inl e
     | Inr x \<Rightarrow> Inr ((), map (\<lambda>r. if row_key r = k then ar_rec_update (set_class c x) r else r) t))"

definition sq_expired :: "instant \<Rightarrow> sqlite_row list \<Rightarrow> artifact_record list" where
  "sq_expired now t = sq_select (\<lambda>r. due now (ar_rec r)) t"

definition sq_delete :: "string \<Rightarrow> sqlite_row list \<Rightarrow> sqlite_row list" where
  "sq_delete i t = filter (\<lambda>r. ar_id r \<noteq> i) t"

section \<open>The contract\<close>

text \<open>
  \<open>compat a db\<close> says that the id of \<open>a\<close> is not the id of a record with another storage key, that is,
  that the digest does not collide there.
\<close>

locale artifact_repository =
  fixes inv :: "'db \<Rightarrow> bool"
    and compat :: "artifact_record \<Rightarrow> 'db \<Rightarrow> bool"
    and ident :: "artifact_record \<Rightarrow> string"
    and put :: "artifact_record \<Rightarrow> 'db \<Rightarrow> (artifact_record \<times> 'db) res"
    and by_key :: "string \<Rightarrow> 'db \<Rightarrow> artifact_record option"
    and set_retention :: "string \<Rightarrow> string \<Rightarrow> instant \<Rightarrow> 'db \<Rightarrow> (unit \<times> 'db) res"
    and expired :: "instant \<Rightarrow> 'db \<Rightarrow> artifact_record list"
    and delete :: "string \<Rightarrow> 'db \<Rightarrow> 'db"
  assumes inv_record: "inv db \<Longrightarrow> put a db = Inr (b, db') \<Longrightarrow> inv db'"
    and inv_set: "inv db \<Longrightarrow> set_retention k c now db = Inr (u, db') \<Longrightarrow> inv db'"
    and inv_delete: "inv db \<Longrightarrow> inv (delete i db)"
    and by_key_key: "by_key k db = Some a \<Longrightarrow> ar_storage_key a = k"
    and record_returns: "put a db = Inr (b, db') \<Longrightarrow> b = a"
    and by_key_record: "inv db \<Longrightarrow> compat a db \<Longrightarrow> put a db = Inr (b, db') \<Longrightarrow>
      by_key k db' = (if k = ar_storage_key a then Some a else by_key k db)"
    and set_unknown: "set_retention k c now db = Inl e \<longleftrightarrow> expires_at_for c now = Inl e"
    and by_key_set: "set_retention k c now db = Inr (u, db') \<Longrightarrow> expires_at_for c now = Inr x \<Longrightarrow>
      by_key k' db' = (if k' = k then map_option (set_class c x) (by_key k db) else by_key k' db)"
    and expired_due: "inv db \<Longrightarrow> a \<in> set (expired now db) \<longleftrightarrow> by_key (ar_storage_key a) db = Some a \<and> due now a"
    and expired_distinct: "inv db \<Longrightarrow> distinct (map ar_storage_key (expired now db))"
    and by_key_delete: "inv db \<Longrightarrow> by_key k db = Some a \<Longrightarrow>
      by_key k' (delete (ident a) db) = (if k' = k then None else by_key k' db)"
begin

text \<open>A classified artifact expires when its class says so, and not before.\<close>

lemma set_then_due:
  assumes "inv db" "set_retention k c now db = Inr (u, db')" "by_key k db = Some a" "expires_at_for c now = Inr x"
  shows "by_key k db' = Some (set_class c x a)"
    and "set_class c x a \<in> set (expired later db') \<longleftrightarrow> (\<exists>e. x = Some e \<and> e \<le> later)"
proof -
  show new: "by_key k db' = Some (set_class c x a)"
    using by_key_set [OF assms(2,4), of k] assms(3) by simp
  have "ar_storage_key (set_class c x a) = k"
    using by_key_key [OF new] .
  then show "set_class c x a \<in> set (expired later db') \<longleftrightarrow> (\<exists>e. x = Some e \<and> e \<le> later)"
    using expired_due [OF inv_set [OF assms(1,2)], of "set_class c x a" later] new
    by (auto simp: due_def set_class_def split: option.splits)
qed

end

section \<open>PostgreSQL satisfies the contract\<close>

definition okey :: "artifact_row \<Rightarrow> string \<times> string" where
  "okey r = (ar_org r, row_key r)"

definition pg_inv :: "(string \<Rightarrow> string) \<Rightarrow> artifact_row list \<Rightarrow> bool" where
  "pg_inv digest t = (keyed akey t \<and> keyed okey t \<and>
     (\<forall>r\<in>set t. ar_id r = artifact_id digest (ar_rec r)))"

definition pg_compat :: "(string \<Rightarrow> string) \<Rightarrow> string \<Rightarrow> artifact_record \<Rightarrow> artifact_row list \<Rightarrow> bool" where
  "pg_compat digest org a t =
    (\<forall>r\<in>set t. ar_org r = org \<and> ar_id r = artifact_id digest a \<longrightarrow> row_key r = ar_storage_key a)"

lemma pg_by_key_tget: "pg_by_key org k t = map_option ar_rec (tget okey (org, k) t)"
  by (simp add: pg_by_key_def tget_def okey_def)

lemma set_class_sel [simp]:
  "ar_storage_key (set_class c x a) = ar_storage_key a" "ar_run_id (set_class c x a) = ar_run_id a"
  "artifact_id digest (set_class c x a) = artifact_id digest a"
  by (simp_all add: set_class_def artifact_id_def)


lemma akey_simps [simp]: "akey (ar_rec_update f r) = akey r" "ar_org (ar_rec_update f r) = ar_org r"
  by (simp_all add: akey_def)

lemma pg_record_cases:
  assumes "pg_record digest org a t = Inr (x, t')"
  obtains (inserted) "tget akey (org, artifact_id digest a) t = None" "x = a"
      "t' = t @ [\<lparr>ar_id = artifact_id digest a, ar_rec = a, ar_org = org\<rparr>]"
      "tget okey (org, ar_storage_key a) t = None"
  | (updated) r where "tget akey (org, artifact_id digest a) t = Some r" "x = a"
      "t' = tupd akey (org, artifact_id digest a) (ar_rec_update (\<lambda>_. a)) t"
      "\<And>r. r \<in> set t \<Longrightarrow> ar_org r = org \<Longrightarrow> row_key r = ar_storage_key a \<Longrightarrow> ar_id r = artifact_id digest a"
proof (cases "tget akey (org, artifact_id digest a) t")
  case None
  then have "r \<in> set t \<Longrightarrow> ar_org r = org \<Longrightarrow> ar_id r \<noteq> artifact_id digest a" for r
    by (auto simp: tget_None_iff akey_def image_iff)
  then have "tget okey (org, ar_storage_key a) t = None"
    using assms by (auto simp: pg_record_def Let_def tget_None_iff okey_def split: if_splits)
  then show thesis
    using inserted None assms by (auto simp: pg_record_def Let_def split: if_splits)
next
  case (Some r)
  then show thesis
    using updated assms by (auto simp: pg_record_def Let_def split: if_splits)
qed

lemma keyed_update_distinct:
  assumes "keyed key t" "\<And>r s. r \<in> set t \<Longrightarrow> s \<in> set t \<Longrightarrow> key (f r) = key (f s) \<Longrightarrow> key r = key s"
  shows "keyed key (map f t)"
proof -
  have "inj_on (key \<circ> f) (set t)"
    using assms by (intro inj_onI) (metis comp_apply keyed_inj)
  then show ?thesis
    using assms(1) unfolding keyed_def map_map by (simp add: distinct_map)
qed

lemma pg_inv_record:
  assumes "pg_inv digest t" "pg_record digest org a t = Inr (x, t')"
  shows "pg_inv digest t'"
  using assms(2)
proof (cases rule: pg_record_cases)
  case inserted
  then show ?thesis
    using assms(1) by (auto simp: pg_inv_def keyed_snoc akey_def okey_def)
next
  case (updated r)
  have k: "keyed akey t'"
    using assms(1) updated by (simp add: pg_inv_def table_simps)
  have "keyed okey t'"
    unfolding updated(3) tupd_def
  proof (rule keyed_update_distinct)
    show "keyed okey t"
      using assms(1) by (simp add: pg_inv_def)
    show "okey r = okey s" if "r \<in> set t" "s \<in> set t"
        "okey (if akey r = (org, artifact_id digest a) then ar_rec_update (\<lambda>_. a) r else r) =
         okey (if akey s = (org, artifact_id digest a) then ar_rec_update (\<lambda>_. a) s else s)" for r s
    proof -
      have "akey r = akey s \<Longrightarrow> r = s"
        using assms(1) that(1,2) keyed_inj [of akey t] by (simp add: pg_inv_def)
      then show ?thesis
        using that updated(4) by (auto simp: okey_def akey_def split: if_splits)
    qed
  qed
  moreover have "\<forall>r\<in>set t'. ar_id r = artifact_id digest (ar_rec r)"
    using assms(1) updated(3) by (auto simp: pg_inv_def akey_def elim!: in_tupdE)
  ultimately show ?thesis
    using k by (simp add: pg_inv_def)
qed

lemma pg_update_tupd:
  "pg_update org k f t = tupd okey (org, k) (ar_rec_update f) t"
  by (auto simp: pg_update_def tupd_def okey_def)

lemma pg_update_props:
  assumes "\<And>a. ar_storage_key (f a) = ar_storage_key a" "\<And>a. ar_run_id (f a) = ar_run_id a"
  shows "pg_inv digest t \<Longrightarrow> pg_inv digest (pg_update org k f t)"
    and "pg_by_key org' k' (pg_update org k f t) =
      (if (org', k') = (org, k) then map_option f (pg_by_key org k t) else pg_by_key org' k' t)"
proof -
  have ok: "okey (ar_rec_update f r) = okey r" for r
    by (simp add: okey_def assms)
  show "pg_inv digest (pg_update org k f t)" if "pg_inv digest t"
  proof -
    have "map akey (tupd okey (org, k) (ar_rec_update f) t) = map akey t"
      by (simp add: tupd_def)
    then show ?thesis
      using that unfolding pg_update_tupd
      by (auto simp: pg_inv_def keyed_tupd ok keyed_def artifact_id_def assms map_key_tupd elim!: in_tupdE)
  qed
  show "pg_by_key org' k' (pg_update org k f t) =
      (if (org', k') = (org, k) then map_option f (pg_by_key org k t) else pg_by_key org' k' t)"
    unfolding pg_update_tupd pg_by_key_tget by (simp add: tget_tupd ok option.map_comp comp_def)
qed

lemma pg_by_key_Some:
  "pg_inv digest t \<Longrightarrow> pg_by_key org k t = Some a \<longleftrightarrow> (\<exists>r\<in>set t. ar_org r = org \<and> row_key r = k \<and> ar_rec r = a)"
  unfolding pg_by_key_tget pg_inv_def by (auto simp: tget_Some_iff okey_def)

lemma pg_by_key_record:
  assumes "pg_inv digest t" "pg_compat digest org a t" "pg_record digest org a t = Inr (x, t')"
  shows "pg_by_key org k t' = (if k = ar_storage_key a then Some a else pg_by_key org k t)"
  using assms(3)
proof (cases rule: pg_record_cases)
  case inserted
  then show ?thesis
    unfolding pg_by_key_tget inserted(3) by (auto simp: okey_def split: option.splits)
next
  case (updated r)
  have r: "r \<in> set t" "ar_org r = org" "ar_id r = artifact_id digest a"
    using tget_SomeD [OF updated(1)] by (simp_all add: akey_def)
  have key: "row_key r = ar_storage_key a"
    using assms(2) r by (simp add: pg_compat_def)
  have "(akey s = (org, artifact_id digest a)) = (okey s = (org, ar_storage_key a))" if "s \<in> set t" for s
    using assms(1,2) that updated(4) by (auto simp: pg_compat_def akey_def okey_def)
  then have "t' = tupd okey (org, ar_storage_key a) (\<lambda>s. s\<lparr>ar_rec := a\<rparr>) t"
    unfolding updated(3) tupd_def by simp
  moreover have "tget okey (org, k) (tupd okey (org, ar_storage_key a) (\<lambda>s. s\<lparr>ar_rec := a\<rparr>) u) =
      (if k = ar_storage_key a then map_option (\<lambda>s. s\<lparr>ar_rec := a\<rparr>) (tget okey (org, k) u) else tget okey (org, k) u)" for u
  proof (induction u)
    case (Cons s u)
    have "okey s = (org, ar_storage_key a) \<Longrightarrow> okey (s\<lparr>ar_rec := a\<rparr>) = okey s"
      by (simp add: okey_def)
    then show ?case
      using Cons by auto
  qed simp
  moreover have "tget okey (org, ar_storage_key a) t \<noteq> None"
    using r key by (auto simp: tget_None_iff okey_def)
  ultimately show ?thesis
    unfolding pg_by_key_tget by auto
qed


lemma pg_select_set: "set (pg_select coll P t) = ar_rec ` {r \<in> set t. P r}"
  by (simp add: pg_select_def)

lemma pg_select_distinct:
  assumes "pg_inv digest t" "\<And>r. P r \<Longrightarrow> ar_org r = org"
  shows "distinct (map ar_storage_key (pg_select coll P t))"
proof -
  have "inj_on row_key (set (filter P t))"
    using assms keyed_inj [of okey t] by (auto simp: inj_on_def pg_inv_def okey_def)
  moreover have "distinct t"
    using assms(1) by (auto simp: pg_inv_def keyed_def distinct_map)
  ultimately have "distinct (map row_key (filter P t))"
    by (simp add: distinct_map)
  then have "distinct (map row_key (sort_key (\<lambda>r. coll (row_key r)) (filter P t)))"
    by (simp add: distinct_map)
  then show ?thesis
    by (simp add: pg_select_def comp_def)
qed

lemma pg_by_key_delete:
  assumes "pg_inv digest t" "pg_by_key org k t = Some a"
  shows "pg_by_key org k' (pg_delete org (artifact_id digest a) t) = (if k' = k then None else pg_by_key org k' t)"
proof -
  obtain r where r: "r \<in> set t" "ar_org r = org" "row_key r = k" "ar_rec r = a"
    using assms pg_by_key_Some by blast
  have same: "ar_org s = org \<and> ar_id s = artifact_id digest a \<longleftrightarrow> ar_org s = org \<and> row_key s = k" if "s \<in> set t" for s
    using assms(1) that r keyed_inj [of akey t s r] keyed_inj [of okey t s r]
    by (auto simp: pg_inv_def akey_def okey_def)
  have "find (\<lambda>s. ar_org s = org \<and> row_key s = k') (filter (\<lambda>s. \<not> (ar_org s = org \<and> row_key s = k)) u) =
      (if k' = k then None else find (\<lambda>s. ar_org s = org \<and> row_key s = k') u)" for u :: "artifact_row list"
    by (induction u) auto
  moreover have "pg_delete org (artifact_id digest a) t = filter (\<lambda>s. \<not> (ar_org s = org \<and> row_key s = k)) t"
    unfolding pg_delete_def using same by (intro filter_cong) auto
  ultimately show ?thesis
    by (simp add: pg_by_key_def)
qed

lemma pg_inv_delete: "pg_inv digest t \<Longrightarrow> pg_inv digest (pg_delete org i t)"
  by (auto simp: pg_inv_def pg_delete_def keyed_def distinct_map_filter)

interpretation pg: artifact_repository "pg_inv digest" "pg_compat digest org" "artifact_id digest" "pg_record digest org"
  "pg_by_key org" "pg_set_retention org" "pg_expired coll org" "pg_delete org"
  for digest org and coll :: "string \<Rightarrow> 'c::linorder"
proof (unfold_locales, goal_cases)
  case (1 t a b t')
  then show ?case
    by (rule pg_inv_record)
next
  case (2 t k c now u t')
  then show ?case
    by (auto simp: pg_set_retention_def intro: pg_update_props(1) split: sum.splits)
next
  case (3 t i)
  then show ?case
    by (rule pg_inv_delete)
next
  case (4 k t a)
  then show ?case
    by (auto simp: pg_by_key_tget okey_def dest!: tget_key)
next
  case (5 a t b t')
  then show ?case
    by (auto elim: pg_record_cases)
next
  case (6 t a b t' k)
  then show ?case
    by (rule pg_by_key_record)
next
  case (7 k c now t e)
  show ?case
    by (auto simp: pg_set_retention_def split: sum.splits)
next
  case (8 k c now t u t' x k')
  then show ?case
    by (auto simp: pg_set_retention_def pg_update_props(2))
next
  case (9 t a now)
  then show ?case
    using pg_by_key_Some by (auto simp: pg_expired_def pg_select_set)
next
  case (10 t now)
  then show ?case
    unfolding pg_expired_def by (rule pg_select_distinct) auto
next
  case (11 t k a k')
  then show ?case
    by (rule pg_by_key_delete)
qed


section \<open>SQLite satisfies the contract\<close>

definition sq_inv :: "(string \<Rightarrow> string) \<Rightarrow> sqlite_row list \<Rightarrow> bool" where
  "sq_inv digest t = (keyed ar_id t \<and> keyed row_key t \<and> (\<forall>r\<in>set t. ar_id r = artifact_id digest (ar_rec r)))"

definition sq_compat :: "(string \<Rightarrow> string) \<Rightarrow> artifact_record \<Rightarrow> sqlite_row list \<Rightarrow> bool" where
  "sq_compat digest a t = (\<forall>r\<in>set t. ar_id r = artifact_id digest a \<longrightarrow> row_key r = ar_storage_key a)"

lemma sq_by_key_tget: "sq_by_key k t = map_option ar_rec (tget row_key k t)"
  by (simp add: sq_by_key_def tget_def)

lemma sq_by_key_Some: "sq_inv digest t \<Longrightarrow> sq_by_key k t = Some a \<longleftrightarrow> (\<exists>r\<in>set t. row_key r = k \<and> ar_rec r = a)"
  unfolding sq_by_key_tget sq_inv_def by (auto simp: tget_Some_iff)

lemma find_filter_other:
  "(\<And>r. r \<in> set t \<Longrightarrow> Q r \<Longrightarrow> P r) \<Longrightarrow> find Q (filter P t) = find Q t"
  by (induction t) auto

lemma find_filter_none: "(\<And>r. r \<in> set t \<Longrightarrow> Q r \<Longrightarrow> \<not> P r) \<Longrightarrow> find Q (filter P t) = None"
  by (auto simp: find_None_iff)

lemma sq_by_key_record:
  assumes "sq_compat digest a t" "sq_record digest a t = Inr (b, t')"
  shows "sq_by_key k t' = (if k = ar_storage_key a then Some a else sq_by_key k t)"
proof -
  let ?keep = "\<lambda>r. ar_id r \<noteq> artifact_id digest a \<and> row_key r \<noteq> ar_storage_key a"
  have t': "t' = filter ?keep t @ [\<lparr>ar_id = artifact_id digest a, ar_rec = a\<rparr>]"
    using assms(2) by (auto simp: sq_record_def Let_def split: if_splits)
  have gone: "tget row_key (ar_storage_key a) (filter ?keep t) = None"
    unfolding tget_def by (rule find_filter_none) auto
  have kept: "tget row_key k (filter ?keep t) = tget row_key k t" if "k \<noteq> ar_storage_key a"
    unfolding tget_def using that assms(1) by (intro find_filter_other) (auto simp: sq_compat_def)
  show ?thesis
    unfolding t' sq_by_key_tget using gone kept by (auto split: option.splits)
qed

lemma sq_by_key_delete:
  assumes "sq_inv digest t" "sq_by_key k t = Some a"
  shows "sq_by_key k' (sq_delete (artifact_id digest a) t) = (if k' = k then None else sq_by_key k' t)"
proof -
  obtain r where r: "r \<in> set t" "row_key r = k" "ar_rec r = a"
    using assms sq_by_key_Some by blast
  have "ar_id s = artifact_id digest a \<longleftrightarrow> row_key s = k" if "s \<in> set t" for s
    using assms(1) that r keyed_inj [of ar_id t s r] keyed_inj [of row_key t s r] by (auto simp: sq_inv_def)
  then have "tget row_key k' (sq_delete (artifact_id digest a) t) = (if k' = k then None else tget row_key k' t)"
    unfolding sq_delete_def tget_def by (auto intro!: find_filter_other find_filter_none)
  then show ?thesis
    by (simp add: sq_by_key_tget)
qed

lemma sq_select_distinct:
  assumes "sq_inv digest t"
  shows "distinct (map ar_storage_key (sq_select P t))"
proof -
  have "distinct (map row_key (sort_key row_key (filter P t)))"
    using assms by (auto simp: sq_inv_def keyed_def distinct_map inj_on_def)
  then show ?thesis
    by (simp add: sq_select_def comp_def)
qed

lemma sq_set_tupd:
  "sq_set_retention k c now t = Inr (u, t') \<Longrightarrow> expires_at_for c now = Inr x \<Longrightarrow>
   t' = tupd row_key k (ar_rec_update (set_class c x)) t"
  by (auto simp: sq_set_retention_def tupd_def)

lemma sq_inv_set:
  assumes "sq_inv digest t" "sq_set_retention k c now t = Inr (u, t')"
  shows "sq_inv digest t'"
proof -
  obtain x where "expires_at_for c now = Inr x"
    using assms(2) by (auto simp: sq_set_retention_def split: sum.splits)
  then have t': "t' = tupd row_key k (ar_rec_update (set_class c x)) t"
    by (rule sq_set_tupd [OF assms(2)])
  have "map ar_id t' = map ar_id t"
    by (simp add: t' tupd_def)
  then show ?thesis
    using assms(1) by (auto simp: sq_inv_def keyed_def t' map_key_tupd elim!: in_tupdE)
qed

interpretation sq: artifact_repository "sq_inv digest" "sq_compat digest" "artifact_id digest" "sq_record digest"
  sq_by_key sq_set_retention sq_expired sq_delete for digest
proof (unfold_locales, goal_cases)
  case (1 t a b t')
  then show ?case
    by (auto simp: sq_inv_def sq_record_def Let_def keyed_snoc keyed_filter tget_None_iff split: if_splits)
next
  case (2 t k c now u t')
  then show ?case
    by (rule sq_inv_set)
next
  case (3 t i)
  then show ?case
    by (auto simp: sq_inv_def sq_delete_def keyed_filter)
next
  case (4 k t a)
  then show ?case
    by (auto simp: sq_by_key_tget dest!: tget_key)
next
  case (5 a t b t')
  then show ?case
    by (auto simp: sq_record_def Let_def split: if_splits)
next
  case (6 t a b t' k)
  then show ?case
    by (intro sq_by_key_record)
next
  case (7 k c now t e)
  show ?case
    by (auto simp: sq_set_retention_def split: sum.splits)
next
  case (8 k c now t u t' x k')
  then show ?case
    unfolding sq_set_tupd [OF 8] by (simp add: sq_by_key_tget tget_tupd option.map_comp comp_def)
next
  case (9 t a now)
  then show ?case
    using sq_by_key_Some by (auto simp: sq_expired_def sq_select_def)
next
  case (10 t now)
  then show ?case
    unfolding sq_expired_def by (rule sq_select_distinct)
next
  case (11 t k a k')
  then show ?case
    by (rule sq_by_key_delete)
qed


section \<open>The two repositories agree\<close>

datatype repo_op = Record artifact_record | Classify string string instant | Remove string

fun pg_exec :: "(string \<Rightarrow> string) \<Rightarrow> string \<Rightarrow> repo_op \<Rightarrow> artifact_row list \<Rightarrow> artifact_row list" where
  "pg_exec digest org (Record a) t = commit (pg_record digest org a t) t"
| "pg_exec digest org (Classify k c now) t = commit (pg_set_retention org k c now t) t"
| "pg_exec digest org (Remove i) t = pg_delete org i t"

fun sq_exec :: "(string \<Rightarrow> string) \<Rightarrow> repo_op \<Rightarrow> sqlite_row list \<Rightarrow> sqlite_row list" where
  "sq_exec digest (Record a) t = commit (sq_record digest a t) t"
| "sq_exec digest (Classify k c now) t = commit (sq_set_retention k c now t) t"
| "sq_exec digest (Remove i) t = sq_delete i t"

text \<open>
  Storage keys belong to one run and ids determine them, as \<open>ArtifactRecord.id\<close> expects of its
  callers: keys start with the run id.
\<close>

definition consistent :: "(string \<Rightarrow> string) \<Rightarrow> artifact_record set \<Rightarrow> bool" where
  "consistent digest V = (\<forall>a\<in>V. \<forall>b\<in>V.
     (ar_storage_key a = ar_storage_key b \<longrightarrow> ar_run_id a = ar_run_id b) \<and>
     (artifact_id digest a = artifact_id digest b \<longrightarrow> ar_storage_key a = ar_storage_key b))"

fun recorded :: "repo_op \<Rightarrow> artifact_record set" where
  "recorded (Record a) = {a}"
| "recorded _ = {}"

definition of_pg :: "string \<Rightarrow> artifact_row list \<Rightarrow> sqlite_row set" where
  "of_pg org t = set (map (\<lambda>r. \<lparr>ar_id = ar_id r, ar_rec = ar_rec r\<rparr>) (filter (\<lambda>r. ar_org r = org) t))"

definition known :: "artifact_record set \<Rightarrow> sqlite_row list \<Rightarrow> bool" where
  "known V s = (\<forall>r\<in>set s. \<exists>a\<in>V. row_key r = ar_storage_key a \<and> ar_run_id (ar_rec r) = ar_run_id a)"

definition sim :: "(string \<Rightarrow> string) \<Rightarrow> string \<Rightarrow> artifact_record set \<Rightarrow> artifact_row list \<Rightarrow> sqlite_row list \<Rightarrow> bool" where
  "sim digest org V t s = (pg_inv digest t \<and> sq_inv digest s \<and> of_pg org t = set s \<and> known V s)"

lemma knownD: "known V s \<Longrightarrow> r \<in> set s \<Longrightarrow> \<exists>a\<in>V. row_key r = ar_storage_key a \<and> ar_run_id (ar_rec r) = ar_run_id a"
  by (simp add: known_def)

lemma of_pg_update:
  "of_pg org (pg_update org k f t) = (\<lambda>r. if row_key r = k then ar_rec_update f r else r) ` of_pg org t"
  unfolding of_pg_def pg_update_def by (induction t) (auto simp: insert_commute Collect_conv_if image_iff)

lemma of_pg_put:
  "of_pg org (tupd akey (org, i) (ar_rec_update (\<lambda>_. a)) t) = {r \<in> of_pg org t. ar_id r \<noteq> i} \<union>
     (if tget akey (org, i) t = None then {} else {\<lparr>ar_id = i, ar_rec = a\<rparr>})"
proof (induction t)
  case (Cons r t)
  have "akey r = (org, i) \<longleftrightarrow> ar_org r = org \<and> ar_id r = i"
    by (simp add: akey_def)
  then show ?case
    using Cons unfolding of_pg_def by (cases "ar_org r = org"; cases "ar_id r = i") auto
qed (simp add: of_pg_def)

lemma of_pg_delete: "of_pg org (pg_delete org i t) = {r \<in> of_pg org t. ar_id r \<noteq> i}"
  unfolding of_pg_def pg_delete_def by (induction t) auto

lemma sim_row:
  assumes "sim digest org V t s" "r \<in> set t" "ar_org r = org"
  shows "\<lparr>ar_id = ar_id r, ar_rec = ar_rec r\<rparr> \<in> set s"
  using assms by (auto simp: sim_def of_pg_def)

lemma sim_ids:
  assumes sim: "sim digest org V t s" and con: "consistent digest V" and "a \<in> V" "r \<in> set s"
  shows "ar_id r = artifact_id digest a \<longleftrightarrow> row_key r = ar_storage_key a"
proof -
  obtain b where b: "b \<in> V" "row_key r = ar_storage_key b" "ar_run_id (ar_rec r) = ar_run_id b"
    using sim \<open>r \<in> set s\<close> knownD unfolding sim_def by blast
  have "ar_id r = artifact_id digest (ar_rec r)"
    using sim \<open>r \<in> set s\<close> unfolding sim_def sq_inv_def by blast
  also have "\<dots> = artifact_id digest b"
    using b by (simp add: artifact_id_def)
  finally have id: "ar_id r = artifact_id digest b" .
  have "artifact_id digest b = artifact_id digest a \<Longrightarrow> ar_storage_key b = ar_storage_key a"
    "ar_storage_key b = ar_storage_key a \<Longrightarrow> ar_run_id b = ar_run_id a"
    using con b(1) \<open>a \<in> V\<close> unfolding consistent_def by blast+
  then show ?thesis
    using id b(2) by (auto simp: artifact_id_def)
qed

lemma sim_record:
  assumes sim: "sim digest org V t s" and con: "consistent digest V" and a: "a \<in> V"
  shows "sim digest org V (pg_exec digest org (Record a) t) (sq_exec digest (Record a) s)"
proof (cases "fits_int64 (ar_size_bytes a)")
  case True
  let ?i = "artifact_id digest a"
  let ?s' = "filter (\<lambda>r. ar_id r \<noteq> ?i \<and> row_key r \<noteq> ar_storage_key a) s @ [\<lparr>ar_id = ?i, ar_rec = a\<rparr>]"
  have s': "sq_record digest a s = Inr (a, ?s')"
    using True by (simp add: sq_record_def Let_def)
  have ids: "ar_id r = ?i \<longleftrightarrow> row_key r = ar_storage_key a" if "r \<in> set t" "ar_org r = org" for r
    using sim_ids [OF sim con a sim_row [OF sim that]] by simp
  have "\<not> (\<exists>r\<in>set t. ar_org r = org \<and> row_key r = ar_storage_key a \<and> ar_id r \<noteq> ?i)"
    using ids by blast
  then obtain t' where t': "pg_record digest org a t = Inr (a, t')"
    using True by (cases "tget akey (org, ?i) t = None") (simp_all add: pg_record_def Let_def)
  have "of_pg org t' = {r \<in> of_pg org t. ar_id r \<noteq> ?i} \<union> {\<lparr>ar_id = ?i, ar_rec = a\<rparr>}"
    using t'
  proof (cases rule: pg_record_cases)
    case inserted
    then show ?thesis
      by (auto simp: of_pg_def tget_None_iff akey_def image_iff)
  next
    case (updated r)
    then show ?thesis
      by (simp add: of_pg_put)
  qed
  also have "of_pg org t = set s"
    using sim by (simp add: sim_def)
  also have "{r \<in> set s. ar_id r \<noteq> ?i} \<union> {\<lparr>ar_id = ?i, ar_rec = a\<rparr>} = set ?s'"
    using sim_ids [OF sim con a] by auto
  finally have "of_pg org t' = set ?s'" .
  moreover have "pg_inv digest t'" "sq_inv digest ?s'"
    using sim pg.inv_record t' sq.inv_record s' unfolding sim_def by blast+
  moreover have "known V ?s'"
    using sim a by (auto simp: sim_def known_def)
  ultimately have "sim digest org V t' ?s'"
    unfolding sim_def by blast
  then show ?thesis
    by (simp add: t' s')
next
  case False
  then show ?thesis
    using sim by (simp add: pg_record_def sq_record_def)
qed

lemma sim_classify:
  assumes "sim digest org V t s"
  shows "sim digest org V (pg_exec digest org (Classify k c now) t) (sq_exec digest (Classify k c now) s)"
proof (cases "expires_at_for c now")
  case (Inl e)
  then show ?thesis
    using assms by (simp add: pg_set_retention_def sq_set_retention_def)
next
  case (Inr x)
  let ?f = "\<lambda>r. if row_key r = k then ar_rec_update (set_class c x) r else r"
  let ?t' = "pg_update org k (set_class c x) t"
  have "pg_set_retention org k c now t = Inr ((), ?t')" "sq_set_retention k c now s = Inr ((), map ?f s)"
    using Inr by (simp_all add: pg_set_retention_def sq_set_retention_def)
  moreover from this have "pg_inv digest ?t'" "sq_inv digest (map ?f s)"
    using assms pg.inv_set sq.inv_set unfolding sim_def by blast+
  moreover have "of_pg org ?t' = ?f ` of_pg org t"
    by (rule of_pg_update)
  moreover have "known V (map ?f s)"
    using assms by (auto simp: sim_def known_def)
  ultimately show ?thesis
    using assms by (simp add: sim_def)
qed

lemma sim_remove:
  assumes "sim digest org V t s"
  shows "sim digest org V (pg_exec digest org (Remove i) t) (sq_exec digest (Remove i) s)"
proof -
  note of_pg_delete [of org i t]
  moreover have "known V (sq_delete i s)"
    using assms by (auto simp: sim_def known_def sq_delete_def)
  ultimately show ?thesis
    using assms pg.inv_delete [of digest t org i] sq.inv_delete [of digest s i] by (simp add: sim_def) (simp add: sq_delete_def)
qed


lemma sim_run:
  assumes "sim digest org V t s" "consistent digest V" "\<And>p. p \<in> set ops \<Longrightarrow> recorded p \<subseteq> V"
  shows "sim digest org V (run_ops (pg_exec digest org) ops t) (run_ops (sq_exec digest) ops s)"
  using assms
proof (induction ops arbitrary: t s)
  case (Cons p ops)
  have "recorded p \<subseteq> V"
    using Cons.prems(3) by simp
  then have "sim digest org V (pg_exec digest org p t) (sq_exec digest p s)"
    using sim_record [OF Cons.prems(1,2)] sim_classify [OF Cons.prems(1)] sim_remove [OF Cons.prems(1)]
    by (cases p) simp_all
  then show ?case
    using Cons.IH Cons.prems by simp
qed simp

lemma sim_by_key:
  assumes "sim digest org V t s"
  shows "pg_by_key org k t = sq_by_key k s"
proof (rule option.expand)
  have "pg_by_key org k t = Some a \<longleftrightarrow> sq_by_key k s = Some a" for a
  proof -
    have "(\<exists>r\<in>set t. ar_org r = org \<and> row_key r = k \<and> ar_rec r = a) \<longleftrightarrow> (\<exists>r\<in>of_pg org t. row_key r = k \<and> ar_rec r = a)"
      by (auto simp: of_pg_def)
    moreover have "pg_inv digest t" "sq_inv digest s" "of_pg org t = set s"
      using assms by (simp_all add: sim_def)
    ultimately show ?thesis
      by (simp add: pg_by_key_Some sq_by_key_Some)
  qed
  then show "(pg_by_key org k t = None) = (sq_by_key k s = None)"
    and "pg_by_key org k t \<noteq> None \<Longrightarrow> sq_by_key k s \<noteq> None \<Longrightarrow> the (pg_by_key org k t) = the (sq_by_key k s)"
    by (metis option.collapse option.distinct(1))+
qed

text \<open>
  C38. The two artifact repositories are interchangeable: after any sequence of recording, classifying and
  removing artifacts in which storage keys belong to one run each and ids do not collide, starting
  empty, the PostgreSQL table read for a tenant and the SQLite table return the same record for every
  storage key and the same set of expired artifacts at every time.
\<close>

theorem repositories_agree:
  assumes "consistent digest (\<Union>p\<in>set ops. recorded p)"
  shows "pg_by_key org k (run_ops (pg_exec digest org) ops []) = sq_by_key k (run_ops (sq_exec digest) ops []) \<and>
    set (pg_expired coll org now (run_ops (pg_exec digest org) ops [])) = set (sq_expired now (run_ops (sq_exec digest) ops []))"
proof -
  let ?V = "\<Union>p\<in>set ops. recorded p"
  let ?t = "run_ops (pg_exec digest org) ops []" and ?s = "run_ops (sq_exec digest) ops []"
  have "sim digest org ?V [] []"
    by (simp add: sim_def pg_inv_def sq_inv_def of_pg_def known_def)
  then have sim: "sim digest org ?V ?t ?s"
    by (rule sim_run [OF _ assms]) blast
  then have "pg_inv digest ?t" "sq_inv digest ?s"
    by (simp_all add: sim_def)
  then have "a \<in> set (pg_expired coll org now ?t) \<longleftrightarrow> a \<in> set (sq_expired now ?s)" for a
    using sim_by_key [OF sim] by (simp add: pg.expired_due sq.expired_due)
  then show ?thesis
    using sim_by_key [OF sim] by blast
qed

definition sample_artifact :: "string \<Rightarrow> string \<Rightarrow> artifact_record" where
  "sample_artifact rid key = \<lparr>ar_run_id = rid, ar_kind = ''clip'', ar_storage_backend = ''local'', ar_storage_key = key,
     ar_item_id = None, ar_creator_id = None, ar_content_type = None, ar_size_bytes = Some 5, ar_sha256 = None,
     ar_source_uri = None, ar_retention_class = RETENTION_KEEP, ar_expires_at = None, ar_meta = fmempty\<rparr>"

lemmas retention_eval = expires_at_for_def ttl_days_def day_def RETENTION_KEEP_def RETENTION_REJECTED_def
  RETENTION_INTERMEDIATE_def set_class_def due_def

theorem repositories_agree_witness:
  "let ops = [Record (sample_artifact ''r'' ''r/a''), Record (sample_artifact ''r'' ''r/b''),
              Classify ''r/a'' RETENTION_REJECTED 0, Remove ''none''];
       s = run_ops (sq_exec id) ops []
   in map ar_storage_key (sq_expired (3 * day) s) = [''r/a''] \<and>
      set (pg_expired id ''o'' (3 * day) (run_ops (pg_exec id ''o'') ops [])) = set (sq_expired (3 * day) s)"
proof -
  define ops where "ops = [Record (sample_artifact ''r'' ''r/a''), Record (sample_artifact ''r'' ''r/b''),
              Classify ''r/a'' RETENTION_REJECTED 0, Remove ''none'']"
  have "map ar_storage_key (sq_expired (3 * day) (run_ops (sq_exec id) ops [])) = [''r/a'']"
    by (simp add: ops_def sample_artifact_def sq_record_def sq_set_retention_def sq_delete_def sq_expired_def
        sq_select_def artifact_id_def fits_int64_def retention_eval)
  moreover have "consistent id (\<Union>p\<in>set ops. recorded p)"
    by (simp add: ops_def consistent_def sample_artifact_def artifact_id_def)
  ultimately show ?thesis
    using repositories_agree [of id ops "''o''" "''r/a''" id "3 * day"]
    unfolding Let_def ops_def [symmetric] by simp
qed

end
