(* ===== verification/Item_State.thy ===== *)
theory Item_State
  imports Prelude
begin

text \<open>
  The state of the production graph (\<open>src/src/orchestrator/graph/state.py\<close>): artifacts, quality
  checks, failures and the item that flows through the per-item subgraph, with the additive reducers
  of the batch. Costs are rational numbers: the additions and roundings of the program are exact
  here. Metadata and concepts are JSON dictionaries.
\<close>

record artifact =
  art_kind :: string
  art_uri :: string
  art_meta :: jdict

record qc_result =
  qc_passed :: bool
  qc_score :: rat
  qc_reasons :: "string list"

record failure_detail =
  fd_code :: string
  fd_type :: string
  fd_message :: string
  fd_stage :: string
  fd_provider :: string
  fd_item_id :: string
  fd_effect_key :: string
  fd_retryable :: bool
  fd_uncertain :: bool

record item =
  item_id :: string
  concept :: jdict
  creator_ref :: "string option"
  creator_voice_ref :: "string option"
  creator_image_uri :: "string option"
  creator_image_local_path :: "string option"
  script :: "string option"
  item_tier :: "string option"
  clips :: "artifact list"
  qc :: "qc_result option"
  attempts :: int
  voiceover :: "artifact option"
  assembled :: "artifact option"
  dropped :: bool
  item_error :: "string option"
  failure :: "failure_detail option"
  cost_usd :: rat

text \<open>\<open>uuid\<close> is the fresh identifier.\<close>

definition new_item ::
  "string \<Rightarrow> jdict \<Rightarrow> string option \<Rightarrow> string option \<Rightarrow> string option \<Rightarrow> string option \<Rightarrow> item" where
  "new_item uuid c ref voice img path =
    \<lparr>item_id = uuid, concept = c, creator_ref = ref, creator_voice_ref = voice, creator_image_uri = img,
     creator_image_local_path = path, script = None, item_tier = None, clips = [], qc = None, attempts = 0,
     voiceover = None, assembled = None, dropped = False, item_error = None, failure = None, cost_usd = 0\<rparr>"

text \<open>The reducers; \<open>None\<close> is a channel that has no value yet.\<close>

definition add_items :: "item list option \<Rightarrow> item list option \<Rightarrow> item list" where
  "add_items left right = (case left of None \<Rightarrow> [] | Some l \<Rightarrow> l) @ (case right of None \<Rightarrow> [] | Some r \<Rightarrow> r)"

definition add_cost :: "rat option \<Rightarrow> rat option \<Rightarrow> rat" where
  "add_cost left right = (case left of None \<Rightarrow> 0 | Some l \<Rightarrow> l) + (case right of None \<Rightarrow> 0 | Some r \<Rightarrow> r)"

text \<open>\<open>round(x, n)\<close>: to the nearest multiple of \<open>10\<^sup>-\<^sup>n\<close>, ties to the even one.\<close>

definition py_round :: "nat \<Rightarrow> rat \<Rightarrow> rat" where
  "py_round n x =
    (let y = x * 10 ^ n; f = \<lfloor>y\<rfloor>; d = y - of_int f
     in of_int (if d < 1 / 2 then f else if d > 1 / 2 then f + 1 else if even f then f else f + 1) / 10 ^ n)"

lemma py_round_nonneg: "0 \<le> x \<Longrightarrow> 0 \<le> py_round n x"
  by (auto simp: py_round_def Let_def)

lemma py_round_close: "\<bar>py_round n x - x\<bar> \<le> 1 / (2 * 10 ^ n)"
proof -
  let ?y = "x * 10 ^ n"
  let ?r = "py_round n x * 10 ^ n"
  have "\<bar>?r - ?y\<bar> \<le> 1 / 2"
    using of_int_floor_le [of ?y] floor_correct [of ?y]
    by (simp add: py_round_def Let_def abs_le_iff; linarith)
  then have "\<bar>py_round n x - x\<bar> * 10 ^ n \<le> 1 / 2"
    by (metis abs_mult abs_of_nonneg left_diff_distrib zero_le_numeral zero_le_power)
  then show ?thesis
    by (simp add: field_simps)
qed

end
