(* ===== verification/Media_Store.thy ===== *)
theory Media_Store
  imports Media_Storage Artifact_Store Item_State
begin

text \<open>
  Persisting the media of creators and items (\<open>src/src/orchestrator/media_store.py\<close>), purging expired
  artifacts (\<open>storage/retention.py\<close>) and moving a run between object stores
  (\<open>storage/migration.py\<close>). A storage backend is a \<open>storage_ops\<close> record and a repository its
  operations; the state is the pair of both. \<open>sha\<close> and \<open>digest\<close> are as in the other theories, \<open>pstr\<close> is
  Python's \<open>str\<close> on JSON values that are not strings.
\<close>

section \<open>Steps\<close>

type_synonym ('s, 'db, 'a) step = "'s \<times> 'db \<Rightarrow> 'a res \<times> 's \<times> 'db"

definition ret :: "'a \<Rightarrow> ('s, 'db, 'a) step" where
  "ret x w = (Inr x, w)"

definition andthen :: "('s, 'db, 'a) step \<Rightarrow> ('a \<Rightarrow> ('s, 'db, 'b) step) \<Rightarrow> ('s, 'db, 'b) step" where
  "andthen m f w = (case m w of (Inl e, w') \<Rightarrow> (Inl e, w') | (Inr x, w') \<Rightarrow> f x w')"

definition on_storage :: "('s \<Rightarrow> 'a res \<times> 's) \<Rightarrow> ('s, 'db, 'a) step" where
  "on_storage f w = (case f (fst w) of (r, s) \<Rightarrow> (r, s, snd w))"

definition on_db :: "('db \<Rightarrow> ('a \<times> 'db) res) \<Rightarrow> ('s, 'db, 'a) step" where
  "on_db f w = (case f (snd w) of Inl e \<Rightarrow> (Inl e, w) | Inr (x, db) \<Rightarrow> (Inr x, fst w, db))"

text \<open>A repository that may be absent: its \<open>record\<close>.\<close>

type_synonym 'db recorder = "(artifact_record \<Rightarrow> 'db \<Rightarrow> (artifact_record \<times> 'db) res) option"

section \<open>Recording stored objects\<close>

definition from_stored ::
  "stored_object \<Rightarrow> string \<Rightarrow> string \<Rightarrow> string option \<Rightarrow> string option \<Rightarrow> string \<Rightarrow> artifact_record" where
  "from_stored so rid kind iid cid src =
    \<lparr>ar_run_id = rid, ar_kind = kind, ar_storage_backend = so_backend so, ar_storage_key = so_key so,
     ar_item_id = iid, ar_creator_id = cid, ar_content_type = Some (so_content_type so),
     ar_size_bytes = Some (so_size_bytes so), ar_sha256 = Some (so_sha256 so), ar_source_uri = Some src,
     ar_retention_class = RETENTION_KEEP, ar_expires_at = None, ar_meta = fmempty\<rparr>"

definition record_stored ::
  "'db recorder \<Rightarrow> stored_object \<Rightarrow> string \<Rightarrow> string \<Rightarrow> string \<Rightarrow> string option \<Rightarrow> string option \<Rightarrow>
   ('s, 'db, unit) step" where
  "record_stored db so rid kind src iid cid =
    (case db of
       None \<Rightarrow> ret ()
     | Some rec \<Rightarrow> andthen (on_db (rec (from_stored so rid kind iid cid src))) (\<lambda>_. ret ()))"

definition pointer :: "stored_object \<Rightarrow> (string \<times> json) list" where
  "pointer so = [(''storage_key'', JStr (so_key so)), (''storage_backend'', JStr (so_backend so))]"

text \<open>\<open>meta.update(\<dots>)\<close>\<close>

definition dict_update :: "jdict \<Rightarrow> (string \<times> json) list \<Rightarrow> jdict" where
  "dict_update m kvs = m ++\<^sub>f fmap_of_list kvs"

text \<open>The branch shared by clips, voice-over and final video: download, rewrite and record.\<close>

definition persist_artifact ::
  "'s storage_ops \<Rightarrow> 'db recorder \<Rightarrow> string \<Rightarrow> string \<Rightarrow> string \<Rightarrow> string \<Rightarrow> artifact \<Rightarrow> ('s, 'db, artifact) step" where
  "persist_artifact st db rid iid key_base default_kind a =
    andthen (on_storage (op_put_from_url st (art_uri a) key_base)) (\<lambda>r.
      case r of
        None \<Rightarrow> ret a
      | Some so \<Rightarrow>
          andthen (record_stored db so rid (if art_kind a \<noteq> [] then art_kind a else default_kind) (art_uri a) (Some iid) None)
            (\<lambda>_. ret (a\<lparr>art_uri := so_uri so,
               art_meta := dict_update (dict_update (art_meta a) [(''source_uri'', JStr (art_uri a))]) (pointer so)\<rparr>)))"

definition persist_base_clip ::
  "'s storage_ops \<Rightarrow> 'db recorder \<Rightarrow> string \<Rightarrow> string \<Rightarrow> string \<Rightarrow> artifact \<Rightarrow> ('s, 'db, artifact) step" where
  "persist_base_clip st db rid iid key_base a =
    (case fmlookup (art_meta a) ''base_clip_uri'' of
       Some (JStr base_uri) \<Rightarrow>
         andthen (on_storage (op_put_from_url st base_uri key_base)) (\<lambda>r.
           case r of
             None \<Rightarrow> ret a
           | Some so \<Rightarrow>
               andthen (record_stored db so rid ''base_clip'' base_uri (Some iid) None)
                 (\<lambda>_. ret (a\<lparr>art_meta := dict_update (art_meta a)
                    [(''base_clip_source_uri'', JStr base_uri), (''base_clip_uri'', JStr (so_uri so)),
                     (''base_clip_storage_key'', JStr (so_key so)),
                     (''base_clip_storage_backend'', JStr (so_backend so))]\<rparr>)))
     | _ \<Rightarrow> ret a)"

fun persist_clips ::
  "'s storage_ops \<Rightarrow> 'db recorder \<Rightarrow> string \<Rightarrow> string \<Rightarrow> string \<Rightarrow> nat \<Rightarrow> artifact list \<Rightarrow> ('s, 'db, artifact list) step" where
  "persist_clips st db rid iid prefix n [] = ret []"
| "persist_clips st db rid iid prefix n (c # cs) =
    andthen (persist_artifact st db rid iid (prefix @ ''/clip-'' @ str_nat n) ''clip'' c) (\<lambda>c1.
    andthen (persist_base_clip st db rid iid (prefix @ ''/base-clip-'' @ str_nat n) c1) (\<lambda>c2.
    andthen (persist_clips st db rid iid prefix (Suc n) cs) (\<lambda>rest. ret (c2 # rest))))"

definition persist_optional ::
  "(artifact \<Rightarrow> ('s, 'db, artifact) step) \<Rightarrow> artifact option \<Rightarrow> ('s, 'db, artifact option) step" where
  "persist_optional f a = (case a of None \<Rightarrow> ret None | Some x \<Rightarrow> andthen (f x) (\<lambda>y. ret (Some y)))"

definition persist_item_media ::
  "'s storage_ops \<Rightarrow> 'db recorder \<Rightarrow> string \<Rightarrow> item \<Rightarrow> ('s, 'db, item) step" where
  "persist_item_media st db rid it =
    (let iid = (if item_id it \<noteq> [] then item_id it else ''item'');
         prefix = rid @ ''/items/'' @ iid
     in andthen (persist_clips st db rid iid prefix 0 (clips it)) (\<lambda>cs.
        andthen (persist_optional (persist_artifact st db rid iid (prefix @ ''/voiceover'') ''voiceover'') (voiceover it)) (\<lambda>v.
        andthen (persist_optional (persist_artifact st db rid iid (prefix @ ''/assembled'') ''video'') (assembled it)) (\<lambda>a.
          ret (it\<lparr>clips := cs, voiceover := v, assembled := a\<rparr>)))))"

text \<open>\<open>persist_artifact_from_url\<close> and \<open>persist_artifact_bytes\<close>.\<close>

definition persist_artifact_from_url ::
  "'s storage_ops \<Rightarrow> 'db recorder \<Rightarrow> string \<Rightarrow> string \<Rightarrow> string \<Rightarrow> string \<Rightarrow> artifact \<Rightarrow> ('s, 'db, artifact) step" where
  "persist_artifact_from_url st db rid iid basename kind a =
    (if \<not> is_downloadable (art_uri a) then ret a
     else
       andthen (on_storage (op_put_from_url st (art_uri a) (rid @ ''/items/'' @ iid @ ''/'' @ basename))) (\<lambda>r.
         case r of
           None \<Rightarrow> ret a
         | Some so \<Rightarrow>
             andthen (record_stored db so rid kind (art_uri a) (Some iid) None)
               (\<lambda>_. ret (a\<lparr>art_uri := so_uri so,
                  art_meta := dict_update (dict_update (art_meta a) [(''source_uri'', JStr (art_uri a))]) (pointer so)\<rparr>))))"

definition json_text :: "(json \<Rightarrow> string) \<Rightarrow> json \<Rightarrow> string" where
  "json_text pstr v = (case v of JStr s \<Rightarrow> s | _ \<Rightarrow> pstr v)"

text \<open>\<open>str(m.get(k) or dflt)\<close>\<close>

definition get_or :: "(json \<Rightarrow> string) \<Rightarrow> jdict \<Rightarrow> string \<Rightarrow> string \<Rightarrow> string" where
  "get_or pstr m k dflt =
    (case fmlookup m k of Some v \<Rightarrow> if py_truthy v then json_text pstr v else dflt | None \<Rightarrow> dflt)"

definition persist_artifact_bytes ::
  "(json \<Rightarrow> string) \<Rightarrow> 's storage_ops \<Rightarrow> 'db recorder \<Rightarrow> bytes \<Rightarrow> string \<Rightarrow> string \<Rightarrow> string \<Rightarrow> string \<Rightarrow> string \<Rightarrow> jdict \<Rightarrow>
   ('s, 'db, artifact) step" where
  "persist_artifact_bytes pstr st db data rid iid basename kind content_type meta =
    (let src = ''generated:'' @ get_or pstr meta ''provider'' ''local'' in
     andthen (on_storage (op_put_bytes st data (rid @ ''/items/'' @ iid @ ''/'' @ basename) content_type)) (\<lambda>so.
     andthen (record_stored db so rid kind src (Some iid) None) (\<lambda>_.
       ret \<lparr>art_kind = kind, art_uri = so_uri so,
            art_meta = dict_update (dict_update meta [(''source_uri'', JStr src)]) (pointer so)\<rparr>)))"


section \<open>Creators\<close>

text \<open>\<open>root\<close> is the media root, under which a stored image also has a local path.\<close>

definition persist_creator_image ::
  "'s storage_ops \<Rightarrow> 'db recorder \<Rightarrow> string option \<Rightarrow> string \<Rightarrow> string \<Rightarrow> jdict \<Rightarrow> ('s, 'db, jdict) step" where
  "persist_creator_image st db root rid cid c =
    (case fmlookup c ''upscaled_base'' of
       Some (JStr uri) \<Rightarrow>
         andthen (on_storage (op_put_from_url st uri (rid @ ''/'' @ cid @ ''/image''))) (\<lambda>r.
           case r of
             None \<Rightarrow> ret c
           | Some so \<Rightarrow>
               andthen (record_stored db so rid ''image'' uri None (Some cid))
                 (\<lambda>_. ret (dict_update c
                    ([(''upscaled_base'', JStr (so_uri so)), (''image_source_uri'', JStr uri)] @
                     (case root of None \<Rightarrow> [] | Some d \<Rightarrow> [(''image_local_path'', JStr (d @ ''/'' @ so_key so))])))))
     | _ \<Rightarrow> ret c)"

definition persist_creator_voice ::
  "'s storage_ops \<Rightarrow> 'db recorder \<Rightarrow> string \<Rightarrow> string \<Rightarrow> jdict \<Rightarrow> ('s, 'db, jdict) step" where
  "persist_creator_voice st db rid cid c =
    (case fmlookup c ''voice_id'' of
       Some (JStr uri) \<Rightarrow>
         andthen (on_storage (op_put_from_url st uri (rid @ ''/'' @ cid @ ''/voice''))) (\<lambda>r.
           case r of
             None \<Rightarrow> ret c
           | Some so \<Rightarrow>
               andthen (record_stored db so rid ''voice'' uri None (Some cid))
                 (\<lambda>_. let u = JStr (so_uri so);
                          ref = (case fmlookup c ''voice_model_ref'' of
                                   Some v \<Rightarrow> if py_truthy v then v else u
                                 | None \<Rightarrow> u)
                       in ret (dict_update c [(''voice_id'', u), (''voice_ref'', ref), (''voice'', ref),
                            (''voice_preview_uri'', u), (''voice_source_uri'', JStr uri)])))
     | _ \<Rightarrow> ret c)"

definition persist_creator_media ::
  "(json \<Rightarrow> string) \<Rightarrow> 's storage_ops \<Rightarrow> 'db recorder \<Rightarrow> string option \<Rightarrow> string \<Rightarrow> jdict \<Rightarrow> ('s, 'db, jdict) step" where
  "persist_creator_media pstr st db root rid c =
    (let cid = get_or pstr c ''id'' ''creator'' in
     andthen (persist_creator_image st db root rid cid c) (persist_creator_voice st db rid cid))"

text \<open>A voice candidate: its id, its preview (the dump of an artifact) and the other fields.\<close>

record voice_candidate =
  vc_fields :: jdict
  vc_preview :: jdict

definition persist_voice_candidate ::
  "(json \<Rightarrow> string) \<Rightarrow> (string \<Rightarrow> fetched_media option) \<Rightarrow> 's storage_ops \<Rightarrow> 'db recorder \<Rightarrow> string \<Rightarrow> string \<Rightarrow> string \<Rightarrow>
   voice_candidate \<Rightarrow> ('s, 'db, voice_candidate) step" where
  "persist_voice_candidate pstr fetch st db rid cid design_hash v =
    (let vid = strip (get_or pstr (vc_fields v) ''candidate_id'' []);
         meta = (case fmlookup (vc_preview v) ''meta'' of Some (JObj m) \<Rightarrow> m | _ \<Rightarrow> fmempty);
         src = ''generated:'' @ get_or pstr meta ''provider'' ''voice''
     in case fmlookup (vc_preview v) ''uri'' of
          Some (JStr uri) \<Rightarrow>
            if vid = [] then (\<lambda>w. (Inl ValueError, w))
            else (case fetch_media fetch uri of
                    None \<Rightarrow> (\<lambda>w. (Inl RuntimeError, w))
                  | Some m \<Rightarrow>
                      andthen (on_storage (op_put_bytes st (fetched_data m)
                        (''runs/'' @ rid @ ''/creators/'' @ cid @ ''/voice-candidates/'' @ design_hash @ ''/'' @ vid) ''audio/mpeg''))
                        (\<lambda>so.
                      andthen (record_stored db so rid ''voice_candidate'' src None (Some cid)) (\<lambda>_.
                        ret \<lparr>vc_fields = dict_update (vc_fields v) [(''media_type'', JStr ''audio/mpeg'')],
                             vc_preview = dict_update (vc_preview v)
                               [(''uri'', JStr (so_uri so)),
                                (''meta'', JObj (dict_update (dict_update meta [(''candidate_id'', JStr vid)]) (pointer so)))]\<rparr>)))
        | _ \<Rightarrow> (\<lambda>w. (Inl ValueError, w)))"

fun persist_voice_candidates ::
  "(json \<Rightarrow> string) \<Rightarrow> (string \<Rightarrow> fetched_media option) \<Rightarrow> 's storage_ops \<Rightarrow> 'db recorder \<Rightarrow> string \<Rightarrow> string \<Rightarrow> string \<Rightarrow>
   voice_candidate list \<Rightarrow> ('s, 'db, voice_candidate list) step" where
  "persist_voice_candidates pstr fetch st db rid cid h [] = ret []"
| "persist_voice_candidates pstr fetch st db rid cid h (v # vs) =
    andthen (persist_voice_candidate pstr fetch st db rid cid h v) (\<lambda>v1.
    andthen (persist_voice_candidates pstr fetch st db rid cid h vs) (\<lambda>rest. ret (v1 # rest)))"

section \<open>Purging\<close>

definition delete_object :: "'s storage_ops \<Rightarrow> artifact_record \<Rightarrow> 's \<Rightarrow> unit res \<times> 's" where
  "delete_object st a =
    (case op_delete_from st of
       Some f \<Rightarrow> f (ar_storage_backend a) (ar_storage_key a)
     | None \<Rightarrow> op_delete st (ar_storage_key a))"

text \<open>Bytes first, row second; \<open>purged\<close> is what the loop has collected when it ends or raises.\<close>

fun purge_loop ::
  "'s storage_ops \<Rightarrow> (artifact_record \<Rightarrow> 'db \<Rightarrow> 'db) \<Rightarrow> artifact_record list \<Rightarrow> string list \<Rightarrow>
   ('s, 'db, string list) step" where
  "purge_loop st del_row [] purged = ret purged"
| "purge_loop st del_row (a # as) purged =
    andthen (on_storage (delete_object st a)) (\<lambda>_ w.
      purge_loop st del_row as (purged @ [ar_storage_key a]) (fst w, del_row a (snd w)))"

definition purge_expired ::
  "'s storage_ops \<Rightarrow> (instant \<Rightarrow> 'db \<Rightarrow> artifact_record list) \<Rightarrow> (artifact_record \<Rightarrow> 'db \<Rightarrow> 'db) \<Rightarrow> instant \<Rightarrow>
   ('s, 'db, string list) step" where
  "purge_expired st expired del_row now w = purge_loop st del_row (expired now (snd w)) [] w"

section \<open>Moving a run between object stores\<close>

text \<open>
  An object store of the migration as the record of its methods: \<open>get_object\<close>, \<open>put_object\<close> (key,
  bytes, content type and the metadata, of which \<open>head_object\<close> reads the checksum) and \<open>head_object\<close>
  (size and checksum).
\<close>

record 's transfer_store =
  ts_backend :: string
  ts_get :: "string \<Rightarrow> 's \<Rightarrow> bytes res"
  ts_put :: "string \<Rightarrow> bytes \<Rightarrow> string \<Rightarrow> (string \<times> string) list \<Rightarrow> 's \<Rightarrow> unit res \<times> 's"
  ts_head :: "string \<Rightarrow> 's \<Rightarrow> (int \<times> string) res"

definition or_default :: "string option \<Rightarrow> string \<Rightarrow> string" where
  "or_default x d = (case x of Some (c # cs) \<Rightarrow> c # cs | _ \<Rightarrow> d)"

definition migrate_one ::
  "(bytes \<Rightarrow> string) \<Rightarrow> (string \<Rightarrow> string) \<Rightarrow> 's transfer_store \<Rightarrow> 's transfer_store \<Rightarrow>
   (string \<Rightarrow> string \<Rightarrow> 'db \<Rightarrow> 'db) \<Rightarrow> artifact_record \<Rightarrow> ('s, 'db, unit) step" where
  "migrate_one sha digest src dst set_backend a w =
    (case ts_get src (ar_storage_key a) (fst w) of
       Inl e \<Rightarrow> (Inl e, w)
     | Inr data \<Rightarrow>
        (let h = sha data;
             metadata = [(''sha256'', h), (''run-id'', ar_run_id a), (''artifact-id'', artifact_id digest a),
                         (''source-backend'', ts_backend src)]
         in if or_default (ar_sha256 a) h \<noteq> h then (Inl RuntimeError, w)
            else
              andthen (on_storage (ts_put dst (ar_storage_key a) data
                  (or_default (ar_content_type a) ''application/octet-stream'') metadata)) (\<lambda>_ w1.
                case ts_head dst (ar_storage_key a) (fst w1) of
                  Inl e \<Rightarrow> (Inl e, w1)
                | Inr (n, digest') \<Rightarrow>
                    if n \<noteq> int (length data) \<or> digest' \<noteq> h then (Inl RuntimeError, w1)
                    else (Inr (), fst w1, set_backend (ar_storage_key a) (ts_backend dst) (snd w1))) w))"

fun migrate_loop ::
  "(bytes \<Rightarrow> string) \<Rightarrow> (string \<Rightarrow> string) \<Rightarrow> 's transfer_store \<Rightarrow> 's transfer_store \<Rightarrow>
   (string \<Rightarrow> string \<Rightarrow> 'db \<Rightarrow> 'db) \<Rightarrow> artifact_record list \<Rightarrow> string list \<Rightarrow> string list \<Rightarrow>
   ('s, 'db, string list \<times> string list) step" where
  "migrate_loop sha digest src dst set_backend [] copied skipped = ret (copied, skipped)"
| "migrate_loop sha digest src dst set_backend (a # as) copied skipped =
    (if ar_storage_backend a \<noteq> ts_backend src
     then migrate_loop sha digest src dst set_backend as copied (skipped @ [ar_storage_key a])
     else andthen (migrate_one sha digest src dst set_backend a)
       (\<lambda>_. migrate_loop sha digest src dst set_backend as (copied @ [ar_storage_key a]) skipped))"

definition migrate_run_objects ::
  "(bytes \<Rightarrow> string) \<Rightarrow> (string \<Rightarrow> string) \<Rightarrow> 's transfer_store \<Rightarrow> 's transfer_store \<Rightarrow>
   (string \<Rightarrow> string \<Rightarrow> 'db \<Rightarrow> 'db) \<Rightarrow> (string \<Rightarrow> 'db \<Rightarrow> artifact_record list) \<Rightarrow> string \<Rightarrow>
   ('s, 'db, string list \<times> string list) step" where
  "migrate_run_objects sha digest src dst set_backend by_run rid w =
    migrate_loop sha digest src dst set_backend (by_run rid (snd w)) [] [] w"


section \<open>What purging keeps\<close>

lemma andthen_cases:
  assumes "andthen m f w = (r, w')"
  obtains (raised) e where "m w = (Inl e, w')" "r = Inl e"
  | (returned) x w1 where "m w = (Inr x, w1)" "f x w1 = (r, w')"
  using assms by (auto simp: andthen_def split: prod.splits sum.splits)

lemma on_storage_cases:
  assumes "on_storage f w = (r, w')"
  obtains s where "f (fst w) = (r, s)" "w' = (s, snd w)"
  using assms by (auto simp: on_storage_def split: prod.splits)

text \<open>A repository and a storage together, as the purge uses them.\<close>

locale purging =
  repo: artifact_repository inv compat ident put by_key set_retention expired delete +
  store: object_store del loc look
  for inv :: "'db \<Rightarrow> bool" and compat ident put by_key set_retention expired delete
    and del :: "string \<Rightarrow> string \<Rightarrow> 's \<Rightarrow> unit res \<times> 's" and loc :: "string \<Rightarrow> string \<Rightarrow> 'l option" and look +
  fixes st :: "'s storage_ops"
  assumes deletes: "delete_object st a = del (ar_storage_backend a) (ar_storage_key a)"
begin

text \<open>Every stored object has a row that points to it.\<close>

definition covered :: "'s \<Rightarrow> 'db \<Rightarrow> bool" where
  "covered s db = (\<forall>l. look s l \<noteq> None \<longrightarrow> (\<exists>k a. by_key k db = Some a \<and> loc (ar_storage_backend a) k = Some l))"

definition placed :: "artifact_record \<Rightarrow> 'l \<Rightarrow> bool" where
  "placed a l = (loc (ar_storage_backend a) (ar_storage_key a) = Some l)"

definition current :: "artifact_record list \<Rightarrow> 'db \<Rightarrow> bool" where
  "current as db = (distinct (map ar_storage_key as) \<and> (\<forall>a\<in>set as. by_key (ar_storage_key a) db = Some a))"

lemma purge_loop_result:
  assumes "purge_loop st (\<lambda>a. delete (ident a)) as acc (s, db) = (r, s', db')" "inv db" "current as db"
  shows "\<exists>n. inv db' \<and> (\<forall>k. by_key k db' = (if k \<in> ar_storage_key ` set (take n as) then None else by_key k db)) \<and>
    (\<forall>ks. r = Inr ks \<longrightarrow> n = length as \<and> ks = acc @ map ar_storage_key as) \<and>
    (\<forall>l. (\<forall>a\<in>set as. \<not> placed a l) \<longrightarrow> look s' l = look s l) \<and>
    (\<forall>l. look s' l \<noteq> None \<longrightarrow> look s l \<noteq> None \<and> (\<forall>a\<in>set (take n as). \<not> placed a l)) \<and>
    (covered s db \<longrightarrow> covered s' db')"
  using assms
proof (induction as arbitrary: acc s db)
  case Nil
  then show ?case
    by (auto simp: ret_def)
next
  case (Cons a as)
  have step: "andthen (on_storage (delete_object st a)) (\<lambda>_ w.
      purge_loop st (\<lambda>a. delete (ident a)) as (acc @ [ar_storage_key a]) (fst w, delete (ident a) (snd w))) (s, db) = (r, s', db')"
    using Cons.prems(1) by simp
  have a: "by_key (ar_storage_key a) db = Some a"
    using Cons.prems(3) by (simp add: current_def)
  from step show ?case
  proof (cases rule: andthen_cases)
    case (raised e)
    then have del: "del (ar_storage_backend a) (ar_storage_key a) s = (Inl e, s')" and db': "db' = db"
      by (auto simp: deletes elim!: on_storage_cases)
    have "covered s db \<longrightarrow> covered s' db'"
      using store.del_kept [OF del] unfolding covered_def db' by blast
    moreover have "\<forall>l. (\<forall>b\<in>set (a # as). \<not> placed b l) \<longrightarrow> look s' l = look s l"
      using store.del_other_place [OF del] unfolding placed_def by simp
    moreover have "\<forall>l. look s' l \<noteq> None \<longrightarrow> look s l \<noteq> None \<and> (\<forall>b\<in>set (take 0 (a # as)). \<not> placed b l)"
      using store.del_kept [OF del] by simp
    moreover have "\<forall>ks. r = Inr ks \<longrightarrow> 0 = length (a # as) \<and> ks = acc @ map ar_storage_key (a # as)"
      using raised(2) by simp
    moreover have "\<forall>k. by_key k db' = (if k \<in> ar_storage_key ` set (take 0 (a # as)) then None else by_key k db)"
      by (simp add: db')
    ultimately show ?thesis
      using Cons.prems(2) unfolding db' by blast
  next
    case (returned u w1)
    then obtain s1 where del: "del (ar_storage_backend a) (ar_storage_key a) s = (Inr (), s1)" and w1: "w1 = (s1, db)"
      by (auto simp: deletes elim!: on_storage_cases)
    let ?db1 = "delete (ident a) db"
    have look1: "look s1 l = (if placed a l then None else look s l)" for l
      using store.del_ok [OF del] by (simp add: placed_def)
    have by1: "by_key k ?db1 = (if k = ar_storage_key a then None else by_key k db)" for k
      by (rule repo.by_key_delete [OF Cons.prems(2) a])
    have "ar_storage_key b \<noteq> ar_storage_key a \<and> by_key (ar_storage_key b) db = Some b" if "b \<in> set as" for b
      using Cons.prems(3) that unfolding current_def by (metis distinct.simps(2) image_eqI list.set_intros(2) list.set_map list.simps(9))
    then have "by_key (ar_storage_key b) ?db1 = Some b" if "b \<in> set as" for b
      using that by (simp only: by1) simp
    then have cur1: "current as ?db1"
      using Cons.prems(3) unfolding current_def by simp
    have inv1: "inv ?db1"
      using repo.inv_delete Cons.prems(2) .
    have rest: "purge_loop st (\<lambda>a. delete (ident a)) as (acc @ [ar_storage_key a]) (s1, ?db1) = (r, s', db')"
      using returned(2) w1 by simp
    from Cons.IH [OF rest inv1 cur1] obtain n where n: "inv db'"
        "\<And>k. by_key k db' = (if k \<in> ar_storage_key ` set (take n as) then None else by_key k ?db1)"
        "\<And>ks. r = Inr ks \<Longrightarrow> n = length as \<and> ks = (acc @ [ar_storage_key a]) @ map ar_storage_key as"
        "\<And>l. \<forall>b\<in>set as. \<not> placed b l \<Longrightarrow> look s' l = look s1 l"
        "\<And>l. look s' l \<noteq> None \<Longrightarrow> look s1 l \<noteq> None \<and> (\<forall>b\<in>set (take n as). \<not> placed b l)"
        "covered s1 ?db1 \<Longrightarrow> covered s' db'"
      by blast
    have "covered s1 ?db1" if "covered s db"
      unfolding covered_def
    proof (intro allI impI)
      fix l assume "look s1 l \<noteq> None"
      then have "look s l \<noteq> None" "loc (ar_storage_backend a) (ar_storage_key a) \<noteq> Some l"
        by (auto simp: look1 placed_def split: if_splits)
      then show "\<exists>k b. by_key k ?db1 = Some b \<and> loc (ar_storage_backend b) k = Some l"
        using that a by1 unfolding covered_def by (metis option.inject)
    qed
    then have "covered s db \<longrightarrow> covered s' db'"
      using n(6) by blast
    moreover have "look s' l = look s l" if "\<forall>b\<in>set (a # as). \<not> placed b l" for l
      using that n(4) [of l] look1 [of l] by simp
    moreover have "look s l \<noteq> None \<and> (\<forall>b\<in>set (take (Suc n) (a # as)). \<not> placed b l)" if "look s' l \<noteq> None" for l
      using n(5) [OF that] look1 [of l] by (cases "placed a l") simp_all
    moreover have "by_key k db' = (if k \<in> ar_storage_key ` set (take (Suc n) (a # as)) then None else by_key k db)" for k
      by (simp add: n(2) by1)
    moreover have "Suc n = length (a # as) \<and> ks = acc @ map ar_storage_key (a # as)" if "r = Inr ks" for ks
      using n(3) [OF that] by simp
    ultimately show ?thesis
      using n(1) by blast
  qed
qed

lemma purge_result:
  assumes "inv db" "purge_expired st expired (\<lambda>a. delete (ident a)) now (s, db) = (r, s', db')"
  shows "inv db'"
    and "\<not> due now a \<Longrightarrow> by_key k db' = Some a \<longleftrightarrow> by_key k db = Some a"
    and "by_key k db' = None \<or> by_key k db' = by_key k db"
    and "r = Inr ks \<Longrightarrow> ks = map ar_storage_key (expired now db) \<and> expired now db' = []"
    and "\<forall>a\<in>set (expired now db). \<not> placed a l \<Longrightarrow> look s' l = look s l"
    and "b \<in> set (expired now db) \<Longrightarrow> by_key (ar_storage_key b) db' = None \<Longrightarrow> placed b l \<Longrightarrow> look s' l = None"
    and "covered s db \<Longrightarrow> covered s' db'"
proof -
  let ?as = "expired now db"
  have cur: "current ?as db"
    using repo.expired_distinct [OF assms(1)] repo.expired_due [OF assms(1)] by (simp add: current_def)
  have "purge_loop st (\<lambda>a. delete (ident a)) ?as [] (s, db) = (r, s', db')"
    using assms(2) by (simp add: purge_expired_def)
  from purge_loop_result [OF this assms(1) cur]
  obtain n where n: "inv db'"
      "\<And>k. by_key k db' = (if k \<in> ar_storage_key ` set (take n ?as) then None else by_key k db)"
      "\<And>ks. r = Inr ks \<Longrightarrow> n = length ?as \<and> ks = map ar_storage_key ?as"
      "\<And>l. \<forall>a\<in>set ?as. \<not> placed a l \<Longrightarrow> look s' l = look s l"
      "\<And>l. look s' l \<noteq> None \<Longrightarrow> look s l \<noteq> None \<and> (\<forall>a\<in>set (take n ?as). \<not> placed a l)"
      "covered s db \<Longrightarrow> covered s' db'"
    unfolding append_Nil by (elim exE conjE) (rule that; blast)
  show "inv db'" "covered s db \<Longrightarrow> covered s' db'"
    using n(1,6) .
  show "look s' l = look s l" if "\<forall>a\<in>set ?as. \<not> placed a l"
    by (rule n(4) [OF that])
  show "by_key k db' = None \<or> by_key k db' = by_key k db"
    by (cases "k \<in> ar_storage_key ` set (take n ?as)") (simp_all only: n(2) if_True if_False simp_thms)
  show "by_key k db' = Some a \<longleftrightarrow> by_key k db = Some a" if "\<not> due now a"
  proof -
    have "k \<notin> ar_storage_key ` set (take n ?as)" if "by_key k db = Some a"
      using that \<open>\<not> due now a\<close> repo.expired_due [OF assms(1)] by (auto dest!: in_set_takeD)
    then show ?thesis
      using n(2) by auto
  qed
  show "ks = map ar_storage_key ?as \<and> expired now db' = []" if "r = Inr ks"
  proof -
    have "b \<notin> set (expired now db')" for b
      using n(2,3) that repo.expired_due [OF n(1), of b now] repo.expired_due [OF assms(1), of b now]
      by (auto split: if_splits)
    then have "expired now db' = []"
      using list.set_intros(1) by (cases "expired now db'") auto
    then show ?thesis
      using n(3) [OF that] by simp
  qed
  show "look s' l = None" if b: "b \<in> set ?as" and gone: "by_key (ar_storage_key b) db' = None" and l: "placed b l"
  proof -
    have "by_key (ar_storage_key b) db = Some b"
      using cur b by (simp add: current_def)
    then have "ar_storage_key b \<in> ar_storage_key ` set (take n ?as)"
      using gone n(2) by (metis option.distinct(1))
    then obtain c where c: "c \<in> set (take n ?as)" "ar_storage_key c = ar_storage_key b"
      by auto
    then have "c = b"
      using b cur in_set_takeD [OF c(1)] inj_onD unfolding current_def by (metis option.inject)
    then show ?thesis
      using n(5) [of l] l c(1) by (cases "look s' l") (blast, simp)
  qed
qed

end


interpretation pg_local: purging "pg_inv digest" "pg_compat digest org" "artifact_id digest" "pg_record digest org"
  "pg_by_key org" "pg_set_retention org" "pg_expired coll org" "pg_delete org"
  "\<lambda>b. local_delete st" "\<lambda>b. local_loc st" "\<lambda>fs. fmlookup (files fs)" "local_ops sha guess fetch st"
  for digest org and coll :: "string \<Rightarrow> 'c::linorder" and st sha guess fetch
  by unfold_locales (simp add: delete_object_def local_ops_def)

interpretation sq_multi: purging "sq_inv digest" "sq_compat digest" "artifact_id digest" "sq_record digest"
  sq_by_key sq_set_retention sq_expired sq_delete
  "multi_delete_from (multi_of_locals sha guess fetch sts wb)" "multi_loc sts" "\<lambda>fs. fmlookup (files fs)"
  "multi_ops (multi_of_locals sha guess fetch sts wb)"
  for digest sha guess fetch sts wb
  by unfold_locales (simp add: delete_object_def multi_ops_def)

text \<open>Every file under the storage root has a row that points to it.\<close>

definition no_orphans :: "local_storage \<Rightarrow> string \<Rightarrow> file_system \<Rightarrow> artifact_row list \<Rightarrow> bool" where
  "no_orphans st org fs t = (\<forall>p\<in>fset (fmdom (files fs)). \<exists>k a. pg_by_key org k t = Some a \<and> local_loc st k = Some p)"

text \<open>
  C17. Purging is safe, whether it ends or stops at a storage error. The row of an artifact that has not expired stays,
  and no row changes but by going away; every file that is not the place of an expired artifact keeps its bytes; a row
  goes only with the bytes of its artifact. When it ends, it reports exactly the expired artifacts and nothing expired is
  left. It never leaves a stored object without a row, because bytes go first and rows second.
\<close>

theorem purge_expired_safe:
  assumes "pg_inv digest t"
    and "purge_expired (local_ops sha guess fetch st) (pg_expired coll org) (\<lambda>a. pg_delete org (artifact_id digest a)) now (fs, t) = (r, fs', t')"
  shows "(\<forall>k a. \<not> due now a \<longrightarrow> pg_by_key org k t' = Some a \<longleftrightarrow> pg_by_key org k t = Some a) \<and>
    (\<forall>k. pg_by_key org k t' = None \<or> pg_by_key org k t' = pg_by_key org k t) \<and>
    (\<forall>p. (\<forall>a\<in>set (pg_expired coll org now t). local_loc st (ar_storage_key a) \<noteq> Some p) \<longrightarrow>
       fmlookup (files fs') p = fmlookup (files fs) p) \<and>
    (\<forall>a\<in>set (pg_expired coll org now t). pg_by_key org (ar_storage_key a) t' = None \<longrightarrow>
       (\<forall>p. local_loc st (ar_storage_key a) = Some p \<longrightarrow> fmlookup (files fs') p = None)) \<and>
    (\<forall>ks. r = Inr ks \<longrightarrow> ks = map ar_storage_key (pg_expired coll org now t) \<and> pg_expired coll org now t' = []) \<and>
    (no_orphans st org fs t \<longrightarrow> no_orphans st org fs' t')"
proof -
  note purged = pg_local.purge_result [OF assms, unfolded pg_local.placed_def]
  have "no_orphans st org fs t \<longrightarrow> no_orphans st org fs' t'"
    using purged(7) unfolding pg_local.covered_def no_orphans_def by (simp add: fmdom'_alt_def [symmetric] fmlookup_dom'_iff)
  then show ?thesis
    using purged(2-6) by blast
qed

theorem purge_expired_safe_witness:
  "let st = local_media_storage [''v''] ''/videos'';
       fs = \<lparr>files = fmap_of_list [([''v'', ''a''], ''x''), ([''v'', ''b''], ''y'')], dirs = {||}\<rparr>;
       t = run_ops (pg_exec id ''o'') [Record (sample_artifact ''r'' ''a''), Record (sample_artifact ''r'' ''b''),
             Classify ''a'' RETENTION_INTERMEDIATE 0] [];
       out = purge_expired (local_ops id (\<lambda>_. None) (\<lambda>_. None) st) (pg_expired id ''o'') (\<lambda>a. pg_delete ''o'' (artifact_id id a)) (2 * day) (fs, t)
   in fst out = Inr [''a''] \<and> no_orphans st ''o'' (fst (snd out)) (snd (snd out)) \<and>
      fmlookup (files (fst (snd out))) [''v'', ''b''] = Some ''y''"
proof -
  define st where "st = local_media_storage [''v''] ''/videos''"
  define fs :: file_system where "fs = \<lparr>files = fmap_of_list [([''v'', ''a''], ''x''), ([''v'', ''b''], ''y'')], dirs = {||}\<rparr>"
  define t where "t = run_ops (pg_exec id ''o'') [Record (sample_artifact ''r'' ''a''), Record (sample_artifact ''r'' ''b''),
             Classify ''a'' RETENTION_INTERMEDIATE 0] []"
  define out where "out = purge_expired (local_ops id (\<lambda>_. None) (\<lambda>_. None) st) (pg_expired id ''o'') (\<lambda>a. pg_delete ''o'' (artifact_id id a)) (2 * day) (fs, t)"
  have t: "t = [\<lparr>ar_id = ''r:a'', ar_rec = set_class RETENTION_INTERMEDIATE (Some (2 * day)) (sample_artifact ''r'' ''a''), ar_org = ''o''\<rparr>,
      \<lparr>ar_id = ''r:b'', ar_rec = sample_artifact ''r'' ''b'', ar_org = ''o''\<rparr>]"
    by (simp add: t_def pg_record_def artifact_id_def fits_int64_def akey_def pg_set_retention_def pg_update_def
        sample_artifact_def retention_eval)
  have inv: "pg_inv id t"
    by (simp add: t pg_inv_def keyed_def akey_def okey_def artifact_id_def sample_artifact_def set_class_def)
  have places: "local_loc st ''a'' = Some [''v'', ''a'']" "local_loc st ''b'' = Some [''v'', ''b'']"
    by (simp_all add: local_loc_def key_file_eval st_def local_media_storage_def)
  have due: "map ar_storage_key (pg_expired id ''o'' (2 * day) t) = [''a'']"
    by (simp add: t pg_expired_def pg_select_def sample_artifact_def retention_eval)
  have "fst out = Inr [''a'']"
    by (simp add: out_def t fs_def st_def purge_expired_def pg_expired_def pg_select_def sample_artifact_def andthen_def
        on_storage_def delete_object_def local_ops_def local_delete_def key_file_eval
        unlink_file_def proper_prefixes_def local_media_storage_def ret_def retention_eval)
  moreover have "no_orphans st ''o'' fs t"
  proof -
    have "\<exists>a. pg_by_key ''o'' ''a'' t = Some a" "\<exists>b. pg_by_key ''o'' ''b'' t = Some b"
      by (simp_all add: t pg_by_key_def sample_artifact_def)
    then show ?thesis
      using places unfolding no_orphans_def fs_def by auto
  qed
  moreover have "\<forall>a\<in>set (pg_expired id ''o'' (2 * day) t). local_loc st (ar_storage_key a) \<noteq> Some [''v'', ''b'']"
  proof
    fix a assume "a \<in> set (pg_expired id ''o'' (2 * day) t)"
    then have "ar_storage_key a \<in> set [''a'']"
      unfolding due [symmetric] by simp
    then show "local_loc st (ar_storage_key a) \<noteq> Some [''v'', ''b'']"
      using places(1) by simp
  qed
  moreover have "fmlookup (files fs) [''v'', ''b''] = Some ''y''"
    by (simp add: fs_def)
  moreover have "purge_expired (local_ops id (\<lambda>_. None) (\<lambda>_. None) st) (pg_expired id ''o'')
      (\<lambda>a. pg_delete ''o'' (artifact_id id a)) (2 * day) (fs, t) = (fst out, fst (snd out), snd (snd out))"
    by (simp add: out_def)
  ultimately show ?thesis
    using purge_expired_safe [OF inv, of id "\<lambda>_. None" "\<lambda>_. None" st id "''o''" "2 * day" fs "fst out" "fst (snd out)" "snd (snd out)"]
    unfolding Let_def st_def [symmetric] fs_def [symmetric] t_def [symmetric] out_def [symmetric] by metis
qed


section \<open>Persisting twice\<close>

text \<open>
  A backend whose stored URIs are references, not downloads: what it stored it will not fetch again.
\<close>

locale media_backend =
  fixes st :: "'s storage_ops"
  assumes skips: "\<not> is_downloadable uri \<Longrightarrow> op_put_from_url st uri kb s = (Inr None, s)"
    and stores: "op_put_from_url st uri kb s = (Inr (Some so), s') \<Longrightarrow> \<not> is_downloadable (so_uri so)"
    and fetches: "is_downloadable uri \<Longrightarrow> op_put_from_url st uri kb s \<noteq> (Inr None, s')"
begin

definition settled :: "artifact \<Rightarrow> bool" where
  "settled a = (\<not> is_downloadable (art_uri a))"

definition base_settled :: "artifact \<Rightarrow> bool" where
  "base_settled a = (case fmlookup (art_meta a) ''base_clip_uri'' of Some (JStr u) \<Rightarrow> \<not> is_downloadable u | _ \<Rightarrow> True)"

lemma artifact_noop: "settled a \<Longrightarrow> persist_artifact st db rid iid kb kind a w = (Inr a, w)"
  by (simp add: settled_def persist_artifact_def andthen_def on_storage_def skips ret_def)

lemma base_noop: "base_settled a \<Longrightarrow> persist_base_clip st db rid iid kb a w = (Inr a, w)"
  by (auto simp: base_settled_def persist_base_clip_def andthen_def on_storage_def skips ret_def split: option.splits json.splits)

lemma clips_noop:
  "list_all (\<lambda>a. settled a \<and> base_settled a) cs \<Longrightarrow> persist_clips st db rid iid prefix n cs w = (Inr cs, w)"
  by (induction cs arbitrary: n) (simp_all add: ret_def andthen_def artifact_noop base_noop)

lemma artifact_settles:
  assumes "persist_artifact st db rid iid kb kind a w = (Inr b, w')"
  shows "settled b" "fmlookup (art_meta b) ''base_clip_uri'' = fmlookup (art_meta a) ''base_clip_uri''"
  using assms skips stores fetches
  by (auto simp: persist_artifact_def andthen_def on_storage_def ret_def settled_def dict_update_def pointer_def
      split: prod.splits sum.splits option.splits)

lemma base_settles:
  assumes "persist_base_clip st db rid iid kb a w = (Inr b, w')"
  shows "base_settled b" "art_uri b = art_uri a"
  using assms skips stores fetches
  by (auto simp: persist_base_clip_def andthen_def on_storage_def ret_def base_settled_def dict_update_def
      split: prod.splits sum.splits option.splits json.splits)

lemma clips_settle:
  "persist_clips st db rid iid prefix n cs w = (Inr ds, w') \<Longrightarrow> list_all (\<lambda>a. settled a \<and> base_settled a) ds"
proof (induction cs arbitrary: n w ds)
  case (Cons c cs)
  from Cons.prems obtain c1 c2 rest w1 w2 where
    run: "persist_artifact st db rid iid (prefix @ ''/clip-'' @ str_nat n) ''clip'' c w = (Inr c1, w1)"
      "persist_base_clip st db rid iid (prefix @ ''/base-clip-'' @ str_nat n) c1 w1 = (Inr c2, w2)"
      "persist_clips st db rid iid prefix (Suc n) cs w2 = (Inr rest, w')" and ds: "ds = c2 # rest"
    by (auto simp: andthen_def ret_def split: prod.splits sum.splits)
  show ?case
    using artifact_settles(1) [OF run(1)] base_settles [OF run(2)] Cons.IH [OF run(3)] by (simp add: ds settled_def)
qed (simp add: ret_def)

lemma optional_cases:
  "persist_optional f a w = (Inr b, w') \<Longrightarrow>
   (a = None \<and> b = None \<and> w' = w) \<or> (\<exists>x y. a = Some x \<and> b = Some y \<and> f x w = (Inr y, w'))"
  by (auto simp: persist_optional_def ret_def andthen_def split: option.splits prod.splits sum.splits)

lemma persist_item_twice:
  assumes "persist_item_media st db rid it w = (Inr it', w')"
  shows "persist_item_media st db rid it' w' = (Inr it', w')"
proof -
  obtain cs v a w1 w2 iid prefix where run:
      "persist_clips st db rid iid prefix 0 (clips it) w = (Inr cs, w1)"
      "persist_optional (persist_artifact st db rid iid (prefix @ ''/voiceover'') ''voiceover'') (voiceover it) w1 = (Inr v, w2)"
      "persist_optional (persist_artifact st db rid iid (prefix @ ''/assembled'') ''video'') (assembled it) w2 = (Inr a, w')"
    and it': "it' = it\<lparr>clips := cs, voiceover := v, assembled := a\<rparr>"
    using assms by (auto simp: persist_item_media_def Let_def andthen_def ret_def split: prod.splits sum.splits)
  have settles: "pred_option settled v" "pred_option settled a"
    using optional_cases [OF run(2)] optional_cases [OF run(3)] by (auto dest: artifact_settles(1))
  then have noop: "persist_optional (persist_artifact st db rid iid' kb kind) v w = (Inr v, w)"
    "persist_optional (persist_artifact st db rid iid' kb kind) a w = (Inr a, w)" for iid' kb kind w
    by (cases v; cases a; simp add: persist_optional_def ret_def andthen_def artifact_noop)+
  show ?thesis
    using clips_noop [OF clips_settle [OF run(1)], of db rid] noop it'
    by (simp add: persist_item_media_def Let_def andthen_def ret_def)
qed

end


lemma rooted_not_downloadable: "\<not> is_downloadable (CHR ''/'' # xs)"
  by (simp add: is_downloadable_def starts_with_def url_scheme_def url_clean_def ascii_alpha_def Let_def)

interpretation local_videos: media_backend "local_ops sha guess (\<lambda>u. Some (f u)) (local_media_storage root ''/videos'')"
  for sha guess f root
proof (unfold_locales, goal_cases)
  case (1 uri kb s)
  then show ?case
    by (simp add: local_ops_def local_put_from_url_def fetch_media_def)
next
  case (2 uri kb s so s')
  then have "so_uri so = ''/videos'' @ ''/'' @ so_key so"
    by (auto simp: local_ops_def local_put_from_url_def local_media_storage_def rstrip_char_def local_stored_def
        split: option.splits prod.splits sum.splits elim!: put_cases)
  then show ?case
    using rooted_not_downloadable by simp
next
  case (3 uri kb s s')
  then show ?case
    by (auto simp: local_ops_def local_put_from_url_def fetch_media_def split: prod.splits sum.splits)
qed

text \<open>
   Persisting an item is idempotent: once \<open>persist_item_media\<close> has stored the media of an item in the
  local videos storage (with every download succeeding), persisting the result again, as every later
  node of the graph does, downloads nothing, writes nothing, records nothing and returns the same item.
\<close>

theorem persist_item_idempotent:
  assumes "persist_item_media (local_ops sha guess (\<lambda>u. Some (f u)) (local_media_storage root ''/videos'')) db rid it w = (Inr it', w')"
  shows "persist_item_media (local_ops sha guess (\<lambda>u. Some (f u)) (local_media_storage root ''/videos'')) db rid it' w' = (Inr it', w')"
  by (rule local_videos.persist_item_twice [OF assms])

definition sample_item :: item where
  "sample_item = (new_item ''i1'' fmempty None None None None)
     \<lparr>clips := [\<lparr>art_kind = ''clip'', art_uri = ''https://x/y.mp4'', art_meta = fmempty\<rparr>]\<rparr>"

theorem persist_item_idempotent_witness:
  "let fm = (\<lambda>u. Some \<lparr>fetched_data = u, fetched_content_type = ''video/mp4'', fetched_ext = ''mp4''\<rparr>);
       st = local_ops id (\<lambda>_. None) fm (local_media_storage [''v''] ''/videos'');
       out = persist_item_media st (Some (sq_record id)) ''r'' sample_item (\<lparr>files = fmempty, dirs = {||}\<rparr>, []);
       it = projr (fst out)
   in map art_uri (clips it) = [''/videos/r/items/i1/clip-0.mp4''] \<and>
      persist_item_media st (Some (sq_record id)) ''r'' it (snd out) = (Inr it, snd out)"
proof -
  define f where "f = (\<lambda>u. \<lparr>fetched_data = u, fetched_content_type = ''video/mp4'', fetched_ext = ''mp4''\<rparr>)"
  define st where "st = local_ops id (\<lambda>_. None) (\<lambda>u. Some (f u)) (local_media_storage [''v''] ''/videos'')"
  define out where "out = persist_item_media st (Some (sq_record id)) ''r'' sample_item (\<lparr>files = fmempty, dirs = {||}\<rparr>, [])"
  have st: "st = local_ops id (\<lambda>_. None)
      (\<lambda>u. Some \<lparr>fetched_data = u, fetched_content_type = ''video/mp4'', fetched_ext = ''mp4''\<rparr>) (local_media_storage [''v''] ''/videos'')"
    by (simp add: st_def f_def)
  have down: "is_downloadable ''https://x/y.mp4''"
    by (simp add: is_downloadable_def starts_with_def url_scheme_def url_clean_def ascii_alpha_def scheme_char_def
        py_lower_def py_lower_char_def)
  have key: "key_file \<lparr>ls_root = [''v''], ls_web_prefix = ''/videos''\<rparr> ''r/items/i1/clip-0.mp4'' =
      Inr [''v'', ''r'', ''items'', ''i1'', ''clip-0.mp4'']"
    by (simp add: key_file_eval)
  have written: "\<exists>fs. write_file [''v'', ''r'', ''items'', ''i1'', ''clip-0.mp4''] data \<lparr>files = fmempty, dirs = {||}\<rparr> = (Inr (), fs)" for data
    by (simp add: write_file_def proper_prefixes_def upt_rec)
  have "\<exists>so fs. op_put_from_url st ''https://x/y.mp4'' ''r/items/i1/clip-0'' \<lparr>files = fmempty, dirs = {||}\<rparr> = (Inr (Some so), fs) \<and>
      so_uri so = ''/videos/r/items/i1/clip-0.mp4'' \<and> so_size_bytes so = 15"
    using written [of "''https://x/y.mp4''"]
    by (auto simp: st_def f_def local_ops_def local_put_from_url_def fetch_media_def down put_bytes_with_ext_def key
        local_stored_def local_media_storage_def rstrip_char_def Let_def)
  then obtain so fs where put: "op_put_from_url st ''https://x/y.mp4'' ''r/items/i1/clip-0'' \<lparr>files = fmempty, dirs = {||}\<rparr> = (Inr (Some so), fs)"
      and so: "so_uri so = ''/videos/r/items/i1/clip-0.mp4''" "so_size_bytes so = 15"
    by blast
  have "\<exists>it. fst out = Inr it \<and> map art_uri (clips it) = [''/videos/r/items/i1/clip-0.mp4'']"
    using put so
    by (simp add: out_def sample_item_def new_item_def persist_item_media_def andthen_def ret_def
        persist_artifact_def persist_base_clip_def persist_optional_def on_storage_def on_db_def record_stored_def
        sq_record_def from_stored_def fits_int64_def str_nat.simps dict_update_def pointer_def Let_def)
  then obtain it where it: "fst out = Inr it" "map art_uri (clips it) = [''/videos/r/items/i1/clip-0.mp4'']"
    by (elim exE conjE)
  then have "persist_item_media st (Some (sq_record id)) ''r'' sample_item (\<lparr>files = fmempty, dirs = {||}\<rparr>, []) = (Inr it, snd out)"
    by (simp add: out_def prod_eq_iff)
  from persist_item_idempotent [OF this [unfolded st_def], folded st_def] it show ?thesis
    unfolding Let_def st [symmetric] out_def [symmetric] by simp
qed


section \<open>Migration\<close>

lemma migrate_one_cases:
  assumes "migrate_one sha digest src dst set_backend a (s, db) = (r, s', db')"
  obtains (failed) e where "r = Inl e" "db' = db"
  | (moved) data where "r = Inr ()" "db' = set_backend (ar_storage_key a) (ts_backend dst) db"
      "ts_get src (ar_storage_key a) s = Inr data" "or_default (ar_sha256 a) (sha data) = sha data"
      "ts_head dst (ar_storage_key a) s' = Inr (int (length data), sha data)"
  using assms
  by (auto simp: migrate_one_def Let_def andthen_def on_storage_def split: sum.splits prod.splits if_splits)

definition moved :: "string \<Rightarrow> string set \<Rightarrow> string \<Rightarrow> artifact_record option \<Rightarrow> artifact_record option" where
  "moved b ks k x = (if k \<in> ks then map_option (ar_storage_backend_update (\<lambda>_. b)) x else x)"

lemma pg_backend_by_key:
  "pg_by_key org k' (pg_set_storage_backend org k b t) = moved b {k} k' (pg_by_key org k' t)"
  by (simp add: pg_set_storage_backend_def pg_update_props(2) moved_def)

lemma moved_moved [simp]: "moved b ks k (moved b js k x) = moved b (js \<union> ks) k x"
  by (cases x) (auto simp: moved_def)

lemma migrate_loop_result:
  fixes src dst :: "'s transfer_store"
  defines "keys \<equiv> \<lambda>as. map ar_storage_key (filter (\<lambda>a. ar_storage_backend a = ts_backend src) as)"
  assumes "migrate_loop sha digest src dst (pg_set_storage_backend org) as copied skipped (s, t) = (r, s', t')"
  shows "\<exists>M. M \<subseteq> set (keys as) \<and> (\<forall>k. pg_by_key org k t' = moved (ts_backend dst) M k (pg_by_key org k t)) \<and>
    (\<forall>c d. r = Inr (c, d) \<longrightarrow> M = set (keys as) \<and> c = copied @ keys as)"
  using assms(2)
proof (induction as arbitrary: copied skipped s t)
  case Nil
  then show ?case
    by (auto simp: ret_def moved_def keys_def)
next
  case (Cons a as)
  show ?case
  proof (cases "ar_storage_backend a = ts_backend src")
    case False
    then show ?thesis
      using Cons.IH [of copied "skipped @ [ar_storage_key a]" s t] Cons.prems by (simp add: keys_def)
  next
    case True
    then have keys: "keys (a # as) = ar_storage_key a # keys as"
      by (simp add: keys_def)
    have "andthen (migrate_one sha digest src dst (pg_set_storage_backend org) a)
        (\<lambda>_. migrate_loop sha digest src dst (pg_set_storage_backend org) as (copied @ [ar_storage_key a]) skipped) (s, t) = (r, s', t')"
      using Cons.prems True by simp
    then show ?thesis
    proof (cases rule: andthen_cases)
      case (raised e)
      then have "t' = t"
        by (auto elim: migrate_one_cases)
      then show ?thesis
        using raised by (intro exI [of _ "{}"]) (simp add: moved_def)
    next
      case (returned u w1)
      obtain s1 t1 where w1: "w1 = (s1, t1)"
        by fastforce
      have t1: "t1 = pg_set_storage_backend org (ar_storage_key a) (ts_backend dst) t"
        using returned(1) w1 by (auto elim: migrate_one_cases)
      from Cons.IH [OF returned(2) [unfolded w1]] obtain M where M: "M \<subseteq> set (keys as)"
        "\<And>k. pg_by_key org k t' = moved (ts_backend dst) M k (pg_by_key org k t1)"
        "\<And>c d. r = Inr (c, d) \<Longrightarrow> M = set (keys as) \<and> c = (copied @ [ar_storage_key a]) @ keys as"
        by blast
      then show ?thesis
        unfolding keys by (intro exI [of _ "insert (ar_storage_key a) M"]) (auto simp: t1 pg_backend_by_key)
    qed
  qed
qed

text \<open>
   Moving a run between object stores never loses track of an object: whether it ends or stops at an
  error, every artifact keeps its record except that some artifacts of the run that were in the
  source backend now point to the destination; when it ends, all of those and no others were copied
  and the keys it reports are exactly theirs.
\<close>

theorem migration_tracks_objects:
  assumes inv: "pg_inv digest t"
    and run: "migrate_run_objects sha digest src dst (pg_set_storage_backend org) (pg_by_run coll org) rid (s, t) = (r, s', t')"
  shows "(\<forall>k. pg_by_key org k t' = pg_by_key org k t \<or>
      (\<exists>a. pg_by_key org k t = Some a \<and> ar_run_id a = rid \<and> ar_storage_backend a = ts_backend src \<and>
           pg_by_key org k t' = Some (a\<lparr>ar_storage_backend := ts_backend dst\<rparr>))) \<and>
    (\<forall>copied skipped. r = Inr (copied, skipped) \<longrightarrow>
      (\<forall>k a. pg_by_key org k t = Some a \<and> ar_run_id a = rid \<and> ar_storage_backend a = ts_backend src \<longrightarrow>
         k \<in> set copied \<and> pg_by_key org k t' = Some (a\<lparr>ar_storage_backend := ts_backend dst\<rparr>)))"
proof -
  let ?as = "pg_by_run coll org rid t"
  let ?keys = "map ar_storage_key (filter (\<lambda>a. ar_storage_backend a = ts_backend src) ?as)"
  have as: "a \<in> set ?as \<longleftrightarrow> pg_by_key org (ar_storage_key a) t = Some a \<and> ar_run_id a = rid" for a
    using pg_by_key_Some [OF inv] by (auto simp: pg_by_run_def pg_select_set)
  obtain M where M: "M \<subseteq> set ?keys" "\<And>k. pg_by_key org k t' = moved (ts_backend dst) M k (pg_by_key org k t)"
      "\<And>c d. r = Inr (c, d) \<Longrightarrow> M = set ?keys \<and> c = ?keys"
    using migrate_loop_result [OF run [unfolded migrate_run_objects_def snd_conv]] unfolding append_Nil by blast
  have keys: "k \<in> set ?keys \<longleftrightarrow> (\<exists>a. pg_by_key org k t = Some a \<and> ar_run_id a = rid \<and> ar_storage_backend a = ts_backend src)" for k
  proof
    assume "k \<in> set ?keys"
    then show "\<exists>a. pg_by_key org k t = Some a \<and> ar_run_id a = rid \<and> ar_storage_backend a = ts_backend src"
      using as by auto
  next
    assume "\<exists>a. pg_by_key org k t = Some a \<and> ar_run_id a = rid \<and> ar_storage_backend a = ts_backend src"
    then obtain a where a: "pg_by_key org k t = Some a" "ar_run_id a = rid" "ar_storage_backend a = ts_backend src"
      by blast
    then have "ar_storage_key a = k"
      using pg.by_key_key by blast
    then show "k \<in> set ?keys"
      using a as [of a] by auto
  qed
  have "pg_by_key org k t' = pg_by_key org k t \<or> (\<exists>a. pg_by_key org k t = Some a \<and> ar_run_id a = rid \<and>
      ar_storage_backend a = ts_backend src \<and> pg_by_key org k t' = Some (a\<lparr>ar_storage_backend := ts_backend dst\<rparr>))" for k
  proof (cases "k \<in> M")
    case True
    then have "k \<in> set ?keys"
      using M(1) by blast
    then show ?thesis
      using keys M(2) [of k] True by (auto simp: moved_def)
  next
    case False
    then show ?thesis
      using M(2) by (simp add: moved_def)
  qed
  moreover have "k \<in> set c \<and> pg_by_key org k t' = Some (a\<lparr>ar_storage_backend := ts_backend dst\<rparr>)"
    if "r = Inr (c, d)" "pg_by_key org k t = Some a" "ar_run_id a = rid" "ar_storage_backend a = ts_backend src" for c d k a
  proof -
    have "k \<in> set ?keys"
      using keys that(2-4) by blast
    then show ?thesis
      using M(3) [OF that(1)] M(2) [of k] that(2) by (simp add: moved_def)
  qed
  ultimately show ?thesis
    by blast
qed


text \<open>A transfer store that holds the one byte \<open>x\<close> under every key.\<close>

definition sample_store :: "string \<Rightarrow> unit transfer_store" where
  "sample_store b = \<lparr>ts_backend = b, ts_get = (\<lambda>k s. Inr ''x''), ts_put = (\<lambda>k data ct meta s. (Inr (), s)),
     ts_head = (\<lambda>k s. Inr (1, ''x''))\<rparr>"

theorem migration_tracks_objects_witness:
  "let t = run_ops (pg_exec id ''o'') [Record (sample_artifact ''r'' ''a'')] [];
       out = migrate_run_objects id id (sample_store ''local'') (sample_store ''s3'') (pg_set_storage_backend ''o'')
         (pg_by_run id ''o'') ''r'' ((), t)
   in fst out = Inr ([''a''], []) \<and>
      pg_by_key ''o'' ''a'' (snd (snd out)) = Some ((sample_artifact ''r'' ''a'')\<lparr>ar_storage_backend := ''s3''\<rparr>)"
proof -
  define t where "t = run_ops (pg_exec id ''o'') [Record (sample_artifact ''r'' ''a'')] []"
  define out where "out = migrate_run_objects id id (sample_store ''local'') (sample_store ''s3'')
    (pg_set_storage_backend ''o'') (pg_by_run id ''o'') ''r'' ((), t)"
  have t: "t = [\<lparr>ar_id = ''r:a'', ar_rec = sample_artifact ''r'' ''a'', ar_org = ''o''\<rparr>]"
    by (simp add: t_def pg_record_def artifact_id_def fits_int64_def sample_artifact_def)
  have inv: "pg_inv id t"
    by (simp add: t pg_inv_def keyed_def artifact_id_def sample_artifact_def)
  have first: "fst out = Inr ([''a''], [])"
    by (simp add: out_def t migrate_run_objects_def migrate_one_def pg_by_run_def pg_select_def sample_store_def
        sample_artifact_def or_default_def andthen_def on_storage_def ret_def Let_def)
  have row: "pg_by_key ''o'' ''a'' t = Some (sample_artifact ''r'' ''a'')"
    and "ar_run_id (sample_artifact ''r'' ''a'') = ''r''"
      "ar_storage_backend (sample_artifact ''r'' ''a'') = ts_backend (sample_store ''local'')"
    by (simp_all add: t pg_by_key_def sample_artifact_def sample_store_def)
  moreover have run: "migrate_run_objects id id (sample_store ''local'') (sample_store ''s3'')
      (pg_set_storage_backend ''o'') (pg_by_run id ''o'') ''r'' ((), t) = (Inr ([''a''], []), fst (snd out), snd (snd out))"
    using first by (simp add: out_def prod_eq_iff)
  ultimately have "pg_by_key ''o'' ''a'' (snd (snd out)) = Some ((sample_artifact ''r'' ''a'')\<lparr>ar_storage_backend := ts_backend (sample_store ''s3'')\<rparr>)"
    using migration_tracks_objects [OF inv run] by blast
  then have "pg_by_key ''o'' ''a'' (snd (snd out)) = Some ((sample_artifact ''r'' ''a'')\<lparr>ar_storage_backend := ''s3''\<rparr>)"
    by (simp add: sample_store_def)
  then show ?thesis
    using first unfolding Let_def t_def [symmetric] out_def [symmetric] by blast
qed

end
