(* ===== verification/Item_Graph.thy ===== *)
theory Item_Graph
  imports Media_Store Paid_Effect
begin

text \<open>
  The per-item production graph (\<open>src/src/orchestrator/graph/routing.py\<close>, \<open>graph/builder.py\<close> and the
  item nodes of \<open>nodes/stages.py\<close>): voice-over, talking-head clip, product demo, quality check with
  bounded regeneration, assembly, upscale, drop, and the retention of the clips once the fate of the
  item is known. A node is a step on the storage and the artifact repository that returns the
  updated item.

  The tools (clip generation, quality check, synthesis, assembly, upscale) are fields of a record:
  they may answer anything that depends on the item they are given, which includes its number of
  attempts. \<open>t_assemble\<close> comprises the signing of URIs and the resolution of local paths. The number
  of node executions is bounded by the recursion limit of the graph; running out of it is \<open>None\<close>.
\<close>

section \<open>Tools and configuration\<close>

record video_exc = video_effect_error +
  vee_effect_key :: string
  vee_provider :: string

datatype tool_exc = VideoEffect video_exc | OtherError exn

datatype media = Rendered bytes string jdict | Produced artifact

record tools =
  t_clip :: "string \<Rightarrow> string \<Rightarrow> item \<Rightarrow> tool_exc + artifact"
  t_qc :: "item \<Rightarrow> exn + qc_result"
  t_voice :: "string \<Rightarrow> string \<Rightarrow> item \<Rightarrow> string + artifact"
  t_assemble :: "item \<Rightarrow> string + media"
  t_mock_assemble :: "item \<Rightarrow> artifact"
  t_upscale :: "string \<Rightarrow> string option"
  t_float :: "string \<Rightarrow> rat option"

record ('s, 'db) graph_config =
  thread_id :: "string option"
  recursion_limit :: "nat option"
  tier_names :: "string list"
  max_attempts :: int
  allow_mock_fallback :: bool
  product_demo_tier :: "string option"
  videos_storage :: "'s storage_ops"
  artifact_db :: "'db recorder"
  db_set_retention :: "(string \<Rightarrow> string \<Rightarrow> instant \<Rightarrow> 'db \<Rightarrow> (unit \<times> 'db) res) option"
  now_utc :: instant

definition item_run_id :: "('s, 'db) graph_config \<Rightarrow> string" where
  "item_run_id cfg = (case thread_id cfg of None \<Rightarrow> ''run'' | Some r \<Rightarrow> r)"

text \<open>\<open>_sub_config\<close>: the configuration of the subgraph has no checkpoint keys.\<close>

definition sub_config :: "('s, 'db) graph_config \<Rightarrow> ('s, 'db) graph_config" where
  "sub_config cfg = cfg\<lparr>thread_id := None,
     recursion_limit := Some (case recursion_limit cfg of None \<Rightarrow> 50 | Some n \<Rightarrow> n)\<rparr>"

section \<open>Routing\<close>

definition select_tier :: "int \<Rightarrow> string list \<Rightarrow> string res" where
  "select_tier n tns = (case tns of [] \<Rightarrow> Inl ValueError | t # _ \<Rightarrow> Inr t)"

definition route_after_script :: "item \<Rightarrow> string list \<Rightarrow> string res" where
  "route_after_script it tns = select_tier (attempts it) tns"

definition route_after_qc :: "item \<Rightarrow> int \<Rightarrow> string list \<Rightarrow> string res" where
  "route_after_qc it m tns =
    (case qc it of
       None \<Rightarrow> Inl ValueError
     | Some q \<Rightarrow>
         if qc_passed q then Inr ''assembly''
         else if attempts it < m then select_tier (attempts it) tns
         else Inr ''drop'')"

text \<open>Python's truth of an optional string.\<close>

definition nonempty :: "string option \<Rightarrow> bool" where
  "nonempty x = (x \<noteq> None \<and> x \<noteq> Some [])"

definition route_after_voiceover :: "item \<Rightarrow> string" where
  "route_after_voiceover it = (if voiceover it \<noteq> None \<and> \<not> nonempty (item_error it) then ''continue'' else ''end'')"

definition route_after_video :: "item \<Rightarrow> string" where
  "route_after_video it = (if nonempty (item_error it) then ''end'' else ''continue'')"

section \<open>Retention of the clips\<close>

definition retention_targets :: "item \<Rightarrow> (artifact \<times> string) list" where
  "retention_targets it =
    (if dropped it then map (\<lambda>c. (c, RETENTION_REJECTED)) (clips it)
     else if (case qc it of None \<Rightarrow> False | Some q \<Rightarrow> qc_passed q) \<and> clips it \<noteq> []
     then map (\<lambda>c. (c, RETENTION_INTERMEDIATE)) (butlast (clips it)) @ [(last (clips it), RETENTION_KEEP)]
     else [])"

fun apply_retention ::
  "(string \<Rightarrow> string \<Rightarrow> instant \<Rightarrow> 'db \<Rightarrow> (unit \<times> 'db) res) \<Rightarrow> instant \<Rightarrow> (artifact \<times> string) list \<Rightarrow> ('s, 'db, unit) step" where
  "apply_retention set_retention now [] = ret ()"
| "apply_retention set_retention now ((c, cls) # ts) =
    andthen
      (case fmlookup (art_meta c) ''storage_key'' of
         None \<Rightarrow> ret ()
       | Some (JStr []) \<Rightarrow> ret ()
       | Some (JStr k) \<Rightarrow> on_db (set_retention k cls now)
       | Some v \<Rightarrow> if py_truthy v then (\<lambda>w. (Inl DataError, w)) else ret ())
      (\<lambda>_. apply_retention set_retention now ts)"

declare apply_retention.simps(2) [simp del]

definition classify_item_retention :: "('s, 'db) graph_config \<Rightarrow> item \<Rightarrow> ('s, 'db, unit) step" where
  "classify_item_retention cfg it =
    (case db_set_retention cfg of
       None \<Rightarrow> ret ()
     | Some f \<Rightarrow> apply_retention f (now_utc cfg) (retention_targets it))"

section \<open>Nodes\<close>

text \<open>\<open>float(meta.get("cost_usd", 0.0))\<close>\<close>

definition meta_cost :: "tools \<Rightarrow> jdict \<Rightarrow> rat res" where
  "meta_cost ts m =
    (case fmlookup m ''cost_usd'' of
       None \<Rightarrow> Inr 0
     | Some (JNum q) \<Rightarrow> Inr q
     | Some (JBool b) \<Rightarrow> Inr (if b then 1 else 0)
     | Some (JStr s) \<Rightarrow> (case t_float ts s of None \<Rightarrow> Inl ValueError | Some q \<Rightarrow> Inr q)
     | Some _ \<Rightarrow> Inl TypeError)"

definition lift :: "'a res \<Rightarrow> ('s, 'db, 'a) step" where
  "lift r w = (r, w)"

definition video_failure_update :: "item \<Rightarrow> video_exc \<Rightarrow> string \<Rightarrow> item" where
  "video_failure_update it exc stage =
    (let msg = ''video provider operation failed ('' @ vee_code exc @ '')'' in
     it\<lparr>item_error := Some msg,
        failure := Some \<lparr>fd_code = vee_code exc, fd_type = vee_error_type exc, fd_message = msg, fd_stage = stage,
          fd_provider = vee_provider exc, fd_item_id = item_id it, fd_effect_key = vee_effect_key exc,
          fd_retryable = vee_retryable exc, fd_uncertain = vee_uncertain exc\<rparr>\<rparr>)"

text \<open>The common part of the two video nodes: generate, add the clip and its cost, persist.\<close>

definition add_clip ::
  "tools \<Rightarrow> ('s, 'db) graph_config \<Rightarrow> string \<Rightarrow> item \<Rightarrow> (tool_exc + artifact) \<Rightarrow> (item \<Rightarrow> item) \<Rightarrow> ('s, 'db, item) step" where
  "add_clip ts cfg stage it answer finish =
    (case answer of
       Inl (VideoEffect exc) \<Rightarrow> ret (video_failure_update it exc stage)
     | Inl (OtherError e) \<Rightarrow> lift (Inl e)
     | Inr clip \<Rightarrow>
         andthen (lift (meta_cost ts (art_meta clip))) (\<lambda>cost.
         andthen (persist_item_media (videos_storage cfg) (artifact_db cfg) (item_run_id cfg) (it\<lparr>clips := clips it @ [clip]\<rparr>))
           (\<lambda>p. ret (finish (it\<lparr>clips := clips p, cost_usd := py_round 4 (cost_usd it + cost)\<rparr>)))))"

definition gen_node :: "tools \<Rightarrow> ('s, 'db) graph_config \<Rightarrow> string \<Rightarrow> item \<Rightarrow> ('s, 'db, item) step" where
  "gen_node ts cfg tier it =
    add_clip ts cfg ''talking_head'' it (t_clip ts tier ''talking_head'' it) (item_tier_update (\<lambda>_. Some tier))"

definition demo_tier :: "('s, 'db) graph_config \<Rightarrow> string" where
  "demo_tier cfg =
    (if nonempty (product_demo_tier cfg) then the (product_demo_tier cfg)
     else case tier_names cfg of [] \<Rightarrow> ''ltx'' | t # _ \<Rightarrow> t)"

definition node_product_demo :: "tools \<Rightarrow> ('s, 'db) graph_config \<Rightarrow> item \<Rightarrow> ('s, 'db, item) step" where
  "node_product_demo ts cfg it =
    add_clip ts cfg ''product_demo'' it (t_clip ts (demo_tier cfg) ''product_demo'' it) (\<lambda>x. x)"

definition node_qc :: "tools \<Rightarrow> ('s, 'db) graph_config \<Rightarrow> item \<Rightarrow> ('s, 'db, item) step" where
  "node_qc ts cfg it =
    andthen (lift (t_qc ts it)) (\<lambda>q.
      if qc_passed q
      then andthen (classify_item_retention cfg (it\<lparr>qc := Some q\<rparr>)) (\<lambda>_. ret (it\<lparr>qc := Some q\<rparr>))
      else ret (it\<lparr>qc := Some q, attempts := attempts it + 1\<rparr>))"

text \<open>\<open>str.splitlines\<close> on code points below 256.\<close>

definition line_break :: "char \<Rightarrow> bool" where
  "line_break c = ((of_char c :: nat) \<in> {10, 11, 12, 13, 28, 29, 30, 133})"

fun splitlines :: "string \<Rightarrow> string \<Rightarrow> string list" where
  "splitlines acc [] = (if acc = [] then [] else [rev acc])"
| "splitlines acc [c] = (if line_break c then [rev acc] else [rev (c # acc)])"
| "splitlines acc (c # d # cs) =
    (if of_char c = (13::nat) \<and> of_char d = (10::nat) then rev acc # splitlines [] cs
     else if line_break c then rev acc # splitlines [] (d # cs)
     else splitlines (c # acc) (d # cs))"

definition spoken_line :: "string \<Rightarrow> string" where
  "spoken_line raw =
    (let label = takeWhile (\<lambda>c. c \<noteq> CHR '':'') raw in
     if label \<noteq> raw \<and> py_lower (strip label) \<in> {''hook'', ''body'', ''cta''}
     then strip (tl (dropWhile (\<lambda>c. c \<noteq> CHR '':'') raw))
     else strip raw)"

fun join :: "string \<Rightarrow> string list \<Rightarrow> string" where
  "join sep [] = []"
| "join sep [x] = x"
| "join sep (x # y # xs) = x @ sep @ join sep (y # xs)"

definition narration_text :: "string \<Rightarrow> string" where
  "narration_text s = join '' '' (filter (\<lambda>v. v \<noteq> []) (map spoken_line (splitlines [] s)))"

definition or_empty :: "string option \<Rightarrow> string" where
  "or_empty x = (case x of None \<Rightarrow> [] | Some s \<Rightarrow> s)"

definition voiceover_failed :: "item \<Rightarrow> string \<Rightarrow> item" where
  "voiceover_failed it msg = it\<lparr>voiceover := None, item_error := Some (''voiceover: '' @ msg)\<rparr>"

definition node_voiceover :: "tools \<Rightarrow> ('s, 'db) graph_config \<Rightarrow> item \<Rightarrow> ('s, 'db, item) step" where
  "node_voiceover ts cfg it =
    (let voice_ref = strip (or_empty (creator_voice_ref it));
         text = narration_text (or_empty (script it))
     in if voice_ref = [] then ret (voiceover_failed it ''approved creator voice is missing'')
        else if text = [] then ret (voiceover_failed it ''approved script is missing'')
        else case t_voice ts voice_ref text it of
          Inl msg \<Rightarrow> ret (voiceover_failed it msg)
        | Inr art \<Rightarrow>
            andthen (lift (meta_cost ts (art_meta art))) (\<lambda>c.
              let cost = py_round 6 (cost_usd it + c) in
              andthen (persist_item_media (videos_storage cfg) (artifact_db cfg) (item_run_id cfg)
                  (it\<lparr>voiceover := Some art, cost_usd := cost, item_error := None\<rparr>))
                (\<lambda>p. ret (it\<lparr>voiceover := voiceover p, cost_usd := cost_usd p, item_error := None\<rparr>))))"

text \<open>The produced media of the assembler; a rendered file is persisted first.\<close>

fun media_meta :: "media \<Rightarrow> jdict" where
  "media_meta (Rendered data ct meta) = meta"
| "media_meta (Produced art) = art_meta art"

definition canonical_art :: "(json \<Rightarrow> string) \<Rightarrow> ('s, 'db) graph_config \<Rightarrow> item \<Rightarrow> media \<Rightarrow> ('s, 'db, artifact) step" where
  "canonical_art pstr cfg it art =
    (case art of
       Rendered data ct meta \<Rightarrow>
         persist_artifact_bytes pstr (videos_storage cfg) (artifact_db cfg) data (item_run_id cfg) (item_id it) ''assembled''
           ''video'' ct meta
     | Produced a \<Rightarrow> ret a)"

definition mock_assembled :: "tools \<Rightarrow> item \<Rightarrow> artifact" where
  "mock_assembled ts it =
    (let a = t_mock_assemble ts it in
     a\<lparr>art_meta := dict_update (art_meta a) [(''provider'', JStr ''mock''), (''fallback_reason'', JStr ''assembly_gateway_rejected'')]\<rparr>)"

definition finish_assembly ::
  "(json \<Rightarrow> string) \<Rightarrow> tools \<Rightarrow> ('s, 'db) graph_config \<Rightarrow> item \<Rightarrow> media \<Rightarrow> ('s, 'db, item) step" where
  "finish_assembly pstr ts cfg it art =
    andthen (lift (meta_cost ts (media_meta art))) (\<lambda>c.
    andthen (canonical_art pstr cfg it art) (\<lambda>a.
    andthen (persist_item_media (videos_storage cfg) (artifact_db cfg) (item_run_id cfg)
        (it\<lparr>assembled := Some a, cost_usd := py_round 4 (cost_usd it + c)\<rparr>))
      (\<lambda>p. ret (it\<lparr>assembled := assembled p, cost_usd := cost_usd p, item_error := None\<rparr>))))"

definition node_assembly :: "(json \<Rightarrow> string) \<Rightarrow> tools \<Rightarrow> ('s, 'db) graph_config \<Rightarrow> item \<Rightarrow> ('s, 'db, item) step" where
  "node_assembly pstr ts cfg it =
    (case t_assemble ts it of
       Inl reason \<Rightarrow>
         if \<not> allow_mock_fallback cfg
         then ret (it\<lparr>assembled := None, item_error := Some (''assembly: '' @ reason)\<rparr>)
         else finish_assembly pstr ts cfg it (Produced (mock_assembled ts it))
     | Inr art \<Rightarrow> finish_assembly pstr ts cfg it art)"

text \<open>\<open>t_upscale\<close> gives no URI when the tool raises.\<close>

definition node_upscale :: "tools \<Rightarrow> ('s, 'db) graph_config \<Rightarrow> item \<Rightarrow> ('s, 'db, item) step" where
  "node_upscale ts cfg it =
    (case assembled it of
       None \<Rightarrow> ret it
     | Some a \<Rightarrow>
        (let u = t_upscale ts (art_uri a) in
         if \<not> nonempty u \<or> u = Some (art_uri a) then ret it
         else
           andthen (persist_item_media (videos_storage cfg) (artifact_db cfg) (item_run_id cfg)
               (it\<lparr>assembled := Some (a\<lparr>art_uri := the u,
                  art_meta := dict_update (art_meta a) [(''upscaled'', JBool True), (''upscaled_from'', JStr (art_uri a))]\<rparr>)\<rparr>))
             (\<lambda>p. ret (it\<lparr>assembled := assembled p\<rparr>))))"

definition node_drop :: "('s, 'db) graph_config \<Rightarrow> item \<Rightarrow> ('s, 'db, item) step" where
  "node_drop cfg it = andthen (classify_item_retention cfg (it\<lparr>dropped := True\<rparr>)) (\<lambda>_. ret (it\<lparr>dropped := True\<rparr>))"

section \<open>The graph\<close>

datatype node = Voiceover | Gen string | ProductDemo | QC | Assembly | Upscale | Drop

definition dest :: "string \<Rightarrow> node" where
  "dest s = (if s = ''assembly'' then Assembly else if s = ''drop'' then Drop else Gen s)"

text \<open>One node and the edge taken after it; \<open>None\<close> is the end of the graph.\<close>

definition node_step ::
  "(json \<Rightarrow> string) \<Rightarrow> tools \<Rightarrow> ('s, 'db) graph_config \<Rightarrow> node \<Rightarrow> item \<Rightarrow> ('s, 'db, item \<times> node option) step" where
  "node_step pstr ts cfg n it =
    (case n of
       Voiceover \<Rightarrow> andthen (node_voiceover ts cfg it) (\<lambda>x.
         andthen (lift (route_after_script x (tier_names cfg))) (\<lambda>t. ret (x, Some (Gen t))))
     | Gen t \<Rightarrow> andthen (gen_node ts cfg t it) (\<lambda>x.
         ret (x, if route_after_video x = ''continue'' then Some ProductDemo else None))
     | ProductDemo \<Rightarrow> andthen (node_product_demo ts cfg it) (\<lambda>x.
         ret (x, if route_after_video x = ''continue'' then Some QC else None))
     | QC \<Rightarrow> andthen (node_qc ts cfg it) (\<lambda>x.
         andthen (lift (route_after_qc x (max_attempts cfg) (tier_names cfg))) (\<lambda>d. ret (x, Some (dest d))))
     | Assembly \<Rightarrow> andthen (node_assembly pstr ts cfg it) (\<lambda>x. ret (x, Some Upscale))
     | Upscale \<Rightarrow> andthen (node_upscale ts cfg it) (\<lambda>x. ret (x, None))
     | Drop \<Rightarrow> andthen (node_drop cfg it) (\<lambda>x. ret (x, None)))"

fun run_nodes ::
  "(json \<Rightarrow> string) \<Rightarrow> tools \<Rightarrow> ('s, 'db) graph_config \<Rightarrow> nat \<Rightarrow> node \<Rightarrow> item \<Rightarrow> 's \<times> 'db \<Rightarrow>
   (item res \<times> 's \<times> 'db) option" where
  "run_nodes pstr ts cfg 0 n it w = None"
| "run_nodes pstr ts cfg (Suc limit) n it w =
    (case node_step pstr ts cfg n it w of
       (Inl e, w1) \<Rightarrow> Some (Inl e, w1)
     | (Inr (x, None), w1) \<Rightarrow> Some (Inr x, w1)
     | (Inr (x, Some n'), w1) \<Rightarrow> run_nodes pstr ts cfg limit n' x w1)"

text \<open>Tier names that LangGraph accepts as names of further nodes.\<close>

definition valid_tiers :: "string list \<Rightarrow> bool" where
  "valid_tiers tns = (distinct tns \<and>
     set tns \<inter> {''voiceover'', ''product_demo'', ''qc'', ''assembly'', ''upscale'', ''drop''} = {})"

definition process_item ::
  "(json \<Rightarrow> string) \<Rightarrow> tools \<Rightarrow> ('s, 'db) graph_config \<Rightarrow> item \<Rightarrow> 's \<times> 'db \<Rightarrow> (item res \<times> 's \<times> 'db) option" where
  "process_item pstr ts cfg it w =
    (let sub = sub_config cfg in run_nodes pstr ts sub (the (recursion_limit sub)) Voiceover it w)"


section \<open>What each node changes\<close>

lemma andthen_Inr:
  "andthen m f w = (Inr y, w') \<longleftrightarrow> (\<exists>x w1. m w = (Inr x, w1) \<and> f x w1 = (Inr y, w'))"
  by (auto simp: andthen_def split: prod.splits sum.splits)

lemma ret_Inr [simp]: "ret x w = (Inr y, w') \<longleftrightarrow> y = x \<and> w' = w"
  by (auto simp: ret_def)

lemma lift_Inr [simp]: "lift r w = (Inr y, w') \<longleftrightarrow> r = Inr y \<and> w' = w"
  by (auto simp: lift_def)

lemma persist_clips_length: "persist_clips st db rid iid prefix n cs w = (Inr ds, w') \<Longrightarrow> length ds = length cs"
  by (induction cs arbitrary: n w ds) (auto simp: andthen_Inr)

lemma persist_optional_None: "persist_optional f a w = (Inr b, w') \<Longrightarrow> b = None \<longleftrightarrow> a = None"
  by (auto simp: persist_optional_def andthen_Inr split: option.splits)

lemma persist_item_fields:
  assumes "persist_item_media st db rid it w = (Inr p, w')"
  shows "length (clips p) = length (clips it)" "assembled p = None \<longleftrightarrow> assembled it = None"
    "voiceover p = None \<longleftrightarrow> voiceover it = None" "cost_usd p = cost_usd it"
  using assms
  by (auto simp: persist_item_media_def Let_def andthen_Inr dest: persist_clips_length persist_optional_None)

lemma add_clip_result:
  assumes "add_clip ts cfg stage it answer finish w = (Inr x, w')"
  shows "(\<exists>exc. answer = Inl (VideoEffect exc) \<and> x = video_failure_update it exc stage \<and> w' = w) \<or>
    (\<exists>cs c. x = finish (it\<lparr>clips := cs, cost_usd := c\<rparr>) \<and> length cs = Suc (length (clips it)))"
  using assms
  by (auto simp: add_clip_def andthen_Inr split: sum.splits tool_exc.splits dest!: persist_item_fields(1))

lemma video_failure_fields [simp]:
  "clips (video_failure_update it exc stage) = clips it" "attempts (video_failure_update it exc stage) = attempts it"
  "qc (video_failure_update it exc stage) = qc it" "assembled (video_failure_update it exc stage) = assembled it"
  "dropped (video_failure_update it exc stage) = dropped it" "nonempty (item_error (video_failure_update it exc stage))"
  by (simp_all add: video_failure_update_def Let_def nonempty_def)

text \<open>The production so far, as the routing reads it.\<close>

definition untouched :: "item \<Rightarrow> item \<Rightarrow> bool" where
  "untouched it x = (attempts x = attempts it \<and> qc x = qc it \<and> dropped x = dropped it)"

lemma gen_result:
  assumes "gen_node ts cfg t it w = (Inr x, w')"
  shows "untouched it x" "assembled x = assembled it" "length (clips x) \<le> Suc (length (clips it))"
  using add_clip_result [OF assms [unfolded gen_node_def]] by (auto simp: untouched_def)

lemma demo_result:
  assumes "node_product_demo ts cfg it w = (Inr x, w')"
  shows "untouched it x" "assembled x = assembled it" "length (clips x) \<le> Suc (length (clips it))"
  using add_clip_result [OF assms [unfolded node_product_demo_def]] by (auto simp: untouched_def)

lemma voiceover_result:
  assumes "node_voiceover ts cfg it w = (Inr x, w')"
  shows "untouched it x" "assembled x = assembled it" "clips x = clips it"
  using assms
  by (auto simp: node_voiceover_def Let_def voiceover_failed_def untouched_def andthen_Inr split: if_splits sum.splits)

lemma qc_result_cases:
  assumes "node_qc ts cfg it w = (Inr x, w')"
  obtains (passed) q where "qc_passed q" "x = it\<lparr>qc := Some q\<rparr>"
  | (failed) q where "\<not> qc_passed q" "x = it\<lparr>qc := Some q, attempts := attempts it + 1\<rparr>"
  using assms by (auto simp: node_qc_def andthen_Inr split: if_splits)

lemma assembly_result:
  assumes "node_assembly pstr ts cfg it w = (Inr x, w')"
  shows "untouched it x" "clips x = clips it"
  using assms
  by (auto simp: node_assembly_def finish_assembly_def untouched_def andthen_Inr split: sum.splits if_splits)

lemma upscale_result:
  assumes "node_upscale ts cfg it w = (Inr x, w')"
  shows "untouched it x" "clips x = clips it" "assembled x = None \<longleftrightarrow> assembled it = None"
  using assms persist_item_fields(2)
  by (auto simp: node_upscale_def Let_def untouched_def andthen_Inr split: option.splits if_splits dest!: persist_item_fields(2))

lemma drop_result: "node_drop cfg it w = (Inr x, w') \<Longrightarrow> x = it\<lparr>dropped := True\<rparr>"
  by (auto simp: node_drop_def andthen_Inr)

section \<open>Invariant of the graph\<close>

text \<open>The attempts that an item may use, at least one.\<close>

definition budget :: "('s, 'db) graph_config \<Rightarrow> int" where
  "budget cfg = max 1 (max_attempts cfg)"

definition qc_ok :: "item \<Rightarrow> bool" where
  "qc_ok it = (case qc it of None \<Rightarrow> False | Some q \<Rightarrow> qc_passed q)"

definition qc_failed :: "item \<Rightarrow> bool" where
  "qc_failed it = (case qc it of None \<Rightarrow> False | Some q \<Rightarrow> \<not> qc_passed q)"

text \<open>Clips bought by an item whose attempts were counted from zero, with \<open>n\<close> more in the current attempt.\<close>

definition clips_within :: "nat \<Rightarrow> item \<Rightarrow> bool" where
  "clips_within n it = (0 \<le> attempts it \<and> int (length (clips it)) \<le> 2 * attempts it + int n)"

fun node_inv :: "('s, 'db) graph_config \<Rightarrow> node \<Rightarrow> item \<Rightarrow> bool" where
  "node_inv cfg Voiceover it = (attempts it < budget cfg \<and> assembled it = None \<and> \<not> dropped it \<and> clips_within 0 it)"
| "node_inv cfg (Gen t) it = (attempts it < budget cfg \<and> assembled it = None \<and> \<not> dropped it \<and> clips_within 0 it)"
| "node_inv cfg ProductDemo it = (attempts it < budget cfg \<and> assembled it = None \<and> \<not> dropped it \<and> clips_within 1 it)"
| "node_inv cfg QC it = (attempts it < budget cfg \<and> assembled it = None \<and> \<not> dropped it \<and> clips_within 2 it)"
| "node_inv cfg Assembly it = (attempts it < budget cfg \<and> \<not> dropped it \<and> clips_within 2 it \<and> qc_ok it)"
| "node_inv cfg Upscale it = (attempts it < budget cfg \<and> \<not> dropped it \<and> clips_within 2 it \<and> qc_ok it)"
| "node_inv cfg Drop it = (attempts it = budget cfg \<and> assembled it = None \<and> \<not> dropped it \<and> clips_within 0 it \<and> qc_failed it)"

definition outcome_ok :: "('s, 'db) graph_config \<Rightarrow> item \<Rightarrow> bool" where
  "outcome_ok cfg it =
    ((assembled it \<noteq> None \<longrightarrow> qc_ok it \<and> \<not> dropped it) \<and>
     (dropped it \<longrightarrow> qc_failed it \<and> attempts it = budget cfg \<and> assembled it = None) \<and>
     0 \<le> attempts it \<and> attempts it \<le> budget cfg \<and> int (length (clips it)) \<le> 2 * budget cfg)"

text \<open>An upper bound of the node executions that are left.\<close>

fun steps_left :: "('s, 'db) graph_config \<Rightarrow> node \<Rightarrow> item \<Rightarrow> nat" where
  "steps_left cfg Voiceover it = 3 * nat (budget cfg - attempts it) + 3"
| "steps_left cfg (Gen t) it = 3 * nat (budget cfg - attempts it) + 2"
| "steps_left cfg ProductDemo it = 3 * nat (budget cfg - attempts it) + 1"
| "steps_left cfg QC it = 3 * nat (budget cfg - attempts it)"
| "steps_left cfg Assembly it = 2"
| "steps_left cfg Upscale it = 1"
| "steps_left cfg Drop it = 1"

lemma select_tier_dest:
  assumes "valid_tiers tns" "select_tier n tns = Inr t"
  shows "dest t = Gen t"
  using assms by (auto simp: valid_tiers_def select_tier_def dest_def split: list.splits)

lemma node_step_qc:
  assumes "valid_tiers (tier_names cfg)" "node_inv cfg QC it" "node_step pstr ts cfg QC it w = (Inr (x, d), w')"
  shows "\<exists>n'. d = Some n' \<and> node_inv cfg n' x \<and> steps_left cfg n' x < steps_left cfg QC it"
proof -
  obtain t where x: "node_qc ts cfg it w = (Inr x, w')" and d: "d = Some (dest t)"
    and t: "route_after_qc x (max_attempts cfg) (tier_names cfg) = Inr t"
    using assms(3) by (auto simp: node_step_def andthen_Inr)
  have pos: "1 \<le> nat (budget cfg - attempts it)"
    using assms(2) by simp linarith
  from x show ?thesis
  proof (cases rule: qc_result_cases)
    case (passed q)
    then have "t = ''assembly''"
      using t by (simp add: route_after_qc_def)
    then show ?thesis
      using passed assms(2) d pos by (auto simp: dest_def qc_ok_def clips_within_def)
  next
    case (failed q)
    show ?thesis
    proof (cases "attempts x < max_attempts cfg")
      case True
      then have "dest t = Gen t"
        using t failed select_tier_dest [OF assms(1)] by (auto simp: route_after_qc_def)
      then show ?thesis
        using True failed assms(2) d by (auto simp: clips_within_def budget_def)
    next
      case False
      then have "t = ''drop''"
        using t failed by (simp add: route_after_qc_def)
      then show ?thesis
        using False failed assms(2) d pos by (auto simp: dest_def qc_failed_def clips_within_def budget_def)
    qed
  qed
qed


lemma node_step_video:
  assumes "n = Voiceover \<or> n = Gen t \<or> n = ProductDemo" "node_inv cfg n it"
    and "node_step pstr ts cfg n it w = (Inr (x, d), w')"
  shows "case d of Some n' \<Rightarrow> node_inv cfg n' x \<and> steps_left cfg n' x < steps_left cfg n it | None \<Rightarrow> outcome_ok cfg x"
  using assms(1)
proof (elim disjE)
  assume n: "n = Voiceover"
  then obtain t' where "node_voiceover ts cfg it w = (Inr x, w')" "d = Some (Gen t')"
    using assms(3) by (auto simp: node_step_def andthen_Inr)
  then show ?thesis
    using voiceover_result [of ts cfg it w x w'] assms(2) n by (auto simp: untouched_def clips_within_def)
next
  assume n: "n = Gen t"
  then have "gen_node ts cfg t it w = (Inr x, w')" "d = (if route_after_video x = ''continue'' then Some ProductDemo else None)"
    using assms(3) by (auto simp: node_step_def andthen_Inr)
  then show ?thesis
    using gen_result [of ts cfg t it w x w'] assms(2) n by (auto simp: untouched_def clips_within_def outcome_ok_def)
next
  assume n: "n = ProductDemo"
  then have "node_product_demo ts cfg it w = (Inr x, w')" "d = (if route_after_video x = ''continue'' then Some QC else None)"
    using assms(3) by (auto simp: node_step_def andthen_Inr)
  then show ?thesis
    using demo_result [of ts cfg it w x w'] assms(2) n by (auto simp: untouched_def clips_within_def outcome_ok_def)
qed

lemma node_step_end:
  assumes "n = Assembly \<or> n = Upscale \<or> n = Drop" "node_inv cfg n it"
    and "node_step pstr ts cfg n it w = (Inr (x, d), w')"
  shows "case d of Some n' \<Rightarrow> node_inv cfg n' x \<and> steps_left cfg n' x < steps_left cfg n it | None \<Rightarrow> outcome_ok cfg x"
  using assms(1)
proof (elim disjE)
  assume n: "n = Assembly"
  then have "node_assembly pstr ts cfg it w = (Inr x, w')" "d = Some Upscale"
    using assms(3) by (auto simp: node_step_def andthen_Inr)
  then show ?thesis
    using assembly_result [of pstr ts cfg it w x w'] assms(2) n by (auto simp: untouched_def clips_within_def qc_ok_def)
next
  assume n: "n = Upscale"
  then have "node_upscale ts cfg it w = (Inr x, w')" "d = None"
    using assms(3) by (auto simp: node_step_def andthen_Inr)
  then show ?thesis
    using upscale_result [of ts cfg it w x w'] assms(2) n by (auto simp: untouched_def clips_within_def qc_ok_def outcome_ok_def)
next
  assume n: "n = Drop"
  then have "node_drop cfg it w = (Inr x, w')" "d = None"
    using assms(3) by (auto simp: node_step_def andthen_Inr)
  then show ?thesis
    using drop_result [of cfg it w x w'] assms(2) n by (auto simp: clips_within_def outcome_ok_def qc_failed_def budget_def)
qed

lemma node_step_inv:
  assumes "valid_tiers (tier_names cfg)" "node_inv cfg n it" "node_step pstr ts cfg n it w = (Inr (x, d), w')"
  shows "case d of Some n' \<Rightarrow> node_inv cfg n' x \<and> steps_left cfg n' x < steps_left cfg n it | None \<Rightarrow> outcome_ok cfg x"
proof (cases n)
  case QC
  then show ?thesis
    using node_step_qc [OF assms(1) assms(2,3) [unfolded QC]] by fastforce
qed (use node_step_video [OF _ assms(2,3)] node_step_end [OF _ assms(2,3)] in blast)+

lemma node_step_cases:
  obtains (raised) e w1 where "node_step pstr ts cfg n it w = (Inl e, w1)"
  | (ended) x w1 where "node_step pstr ts cfg n it w = (Inr (x, None), w1)"
  | (goes) x n' w1 where "node_step pstr ts cfg n it w = (Inr (x, Some n'), w1)"
  by (metis old.sum.exhaust option.exhaust prod.exhaust)

lemma run_nodes_outcome:
  assumes "valid_tiers (tier_names cfg)" "node_inv cfg n it" "run_nodes pstr ts cfg limit n it w = Some (Inr y, w')"
  shows "outcome_ok cfg y"
  using assms(2,3)
proof (induction limit arbitrary: n it w)
  case (Suc limit)
  show ?case
  proof (cases rule: node_step_cases [of pstr ts cfg n it w])
    case (ended x w1)
    then show ?thesis
      using node_step_inv [OF assms(1) Suc.prems(1) ended] Suc.prems(2) by simp
  next
    case (goes x n' w1)
    then show ?thesis
      using node_step_inv [OF assms(1) Suc.prems(1) goes] Suc.prems(2) Suc.IH [of n' x w1] by simp
  qed (use Suc.prems in simp)
qed simp

lemma run_nodes_ends:
  assumes "valid_tiers (tier_names cfg)" "node_inv cfg n it" "steps_left cfg n it \<le> limit"
  shows "run_nodes pstr ts cfg limit n it w \<noteq> None"
  using assms(2,3)
proof (induction limit arbitrary: n it w)
  case 0
  then have "steps_left cfg n it = 0"
    by simp
  then have False
    using 0(1) by (cases n) simp_all
  then show ?case ..
next
  case (Suc limit)
  show ?case
  proof (cases rule: node_step_cases [of pstr ts cfg n it w])
    case (goes x n' w1)
    then have "node_inv cfg n' x" "steps_left cfg n' x \<le> limit"
      using node_step_inv [OF assms(1) Suc.prems(1) goes] Suc.prems(2) by simp_all
    then show ?thesis
      using Suc.IH goes by simp
  qed simp_all
qed

section \<open>Properties\<close>

definition fresh_item :: "item \<Rightarrow> bool" where
  "fresh_item it = (clips it = [] \<and> qc it = None \<and> attempts it = 0 \<and> assembled it = None \<and> \<not> dropped it)"

lemma sub_config_same:
  "budget (sub_config cfg) = budget cfg" "outcome_ok (sub_config cfg) = outcome_ok cfg"
  "tier_names (sub_config cfg) = tier_names cfg"
  by (auto simp: budget_def sub_config_def outcome_ok_def fun_eq_iff)

lemma fresh_start: "fresh_item it \<Longrightarrow> node_inv (sub_config cfg) Voiceover it"
  by (auto simp: fresh_item_def clips_within_def sub_config_same budget_def)

lemma process_item_outcome:
  assumes "valid_tiers (tier_names cfg)" "fresh_item it" "process_item pstr ts cfg it w = Some (Inr x, w')"
  shows "outcome_ok cfg x"
  using run_nodes_outcome [OF _ fresh_start [OF assms(2)]] assms(1,3)
  by (simp only: process_item_def Let_def sub_config_same)

text \<open>
  C18. The quality loop ends: with a recursion limit of at least \<open>3 * max 1 max_attempts + 3\<close> node executions
  (the default of 50 allows fifteen attempts), processing a fresh item never runs into the limit,
  whatever the tools answer.
\<close>

theorem process_item_terminates:
  assumes "valid_tiers (tier_names cfg)" "fresh_item it"
    and "3 * max 1 (max_attempts cfg) + 3 \<le> int (case recursion_limit cfg of None \<Rightarrow> 50 | Some n \<Rightarrow> n)"
  shows "process_item pstr ts cfg it w \<noteq> None"
proof -
  have "steps_left (sub_config cfg) Voiceover it \<le> the (recursion_limit (sub_config cfg))"
    using assms(2,3) by (simp add: fresh_item_def sub_config_same) (simp add: sub_config_def budget_def nat_le_iff)
  then show ?thesis
    unfolding process_item_def Let_def
    using run_nodes_ends [OF _ fresh_start [OF assms(2)]] assms(1) by (simp only: sub_config_same)
qed

text \<open>
  C16. Only approved items are published: when the graph returns an item, a final video implies that its
  last quality check passed and it was not dropped; and a dropped item failed its last check, used up
  exactly its attempts and has no final video.
\<close>

theorem only_approved_assembled:
  assumes "valid_tiers (tier_names cfg)" "fresh_item it" "process_item pstr ts cfg it w = Some (Inr x, w')"
  shows "(assembled x \<noteq> None \<longrightarrow> (\<exists>q. qc x = Some q \<and> qc_passed q) \<and> \<not> dropped x) \<and>
    (dropped x \<longrightarrow> (\<exists>q. qc x = Some q \<and> \<not> qc_passed q) \<and> attempts x = max 1 (max_attempts cfg) \<and> assembled x = None)"
  using process_item_outcome [OF assms]
  by (auto simp: outcome_ok_def qc_ok_def qc_failed_def budget_def split: option.splits)

text \<open>
  C19. The cost of an item is bounded: whatever the tools answer, an item never uses more than
  \<open>max 1 max_attempts\<close> attempts and never buys more than two clips per attempt.
\<close>

theorem clips_bounded:
  assumes "valid_tiers (tier_names cfg)" "fresh_item it" "process_item pstr ts cfg it w = Some (Inr x, w')"
  shows "0 \<le> attempts x \<and> attempts x \<le> max 1 (max_attempts cfg) \<and>
    int (length (clips x)) \<le> 2 * max 1 (max_attempts cfg)"
  using process_item_outcome [OF assms] by (simp add: outcome_ok_def budget_def)


section \<open>Samples\<close>

text \<open>Tools whose quality check passes from attempt \<open>k\<close> on; every artifact is a reference.\<close>

definition sample_tools :: "int \<Rightarrow> tools" where
  "sample_tools k =
    \<lparr>t_clip = (\<lambda>tier stage it. Inr \<lparr>art_kind = ''clip'', art_uri = ''mock://'' @ stage, art_meta = fmap_of_list [(''cost_usd'', JNum (1 / 4))]\<rparr>),
     t_qc = (\<lambda>it. Inr \<lparr>qc_passed = (k \<le> attempts it), qc_score = 1 / 2, qc_reasons = []\<rparr>),
     t_voice = (\<lambda>ref text it. Inr \<lparr>art_kind = ''voiceover'', art_uri = ''mock://voice'', art_meta = fmempty\<rparr>),
     t_assemble = (\<lambda>it. Inr (Produced \<lparr>art_kind = ''video'', art_uri = ''mock://final'', art_meta = fmempty\<rparr>)),
     t_mock_assemble = (\<lambda>it. \<lparr>art_kind = ''video'', art_uri = ''mock://m'', art_meta = fmempty\<rparr>),
     t_upscale = (\<lambda>u. None), t_float = (\<lambda>s. None)\<rparr>"

definition sample_storage :: "unit storage_ops" where
  "sample_storage =
    \<lparr>op_backend = ''local'', op_put_bytes = (\<lambda>d k c s. (Inl OSError, s)), op_put_from_url = (\<lambda>u k s. (Inr None, s)),
     op_signed_url = None, op_signed_url_for = None, op_delete = (\<lambda>k s. (Inr (), s)), op_delete_from = None,
     op_exists = (\<lambda>k s. Inr False), op_exists_in = None\<rparr>"

definition sample_config :: "(unit, unit) graph_config" where
  "sample_config =
    \<lparr>thread_id = Some ''run-1'', recursion_limit = None, tier_names = [''ltx''], max_attempts = 3, allow_mock_fallback = False,
     product_demo_tier = None, videos_storage = sample_storage, artifact_db = None, db_set_retention = None, now_utc = 0\<rparr>"

definition sample_start :: item where
  "sample_start = (new_item ''c1'' fmempty None (Some ''voice-0'') None None)\<lparr>script := Some ''HOOK: hello''\<rparr>"

lemma run_nodes_numeral:
  "run_nodes pstr ts cfg (numeral v) n it w =
    (case node_step pstr ts cfg n it w of
       (Inl e, w1) \<Rightarrow> Some (Inl e, w1)
     | (Inr (x, None), w1) \<Rightarrow> Some (Inr x, w1)
     | (Inr (x, Some n'), w1) \<Rightarrow> run_nodes pstr ts cfg (pred_numeral v) n' x w1)"
  by (simp add: numeral_eq_Suc)

lemmas graph_eval = sample_tools_def sample_storage_def sample_config_def sample_start_def new_item_def
  process_item_def sub_config_def run_nodes_numeral node_step_def andthen_def ret_def lift_def on_storage_def
  node_voiceover_def gen_node_def node_product_demo_def node_qc_def node_assembly_def node_upscale_def node_drop_def
  finish_assembly_def canonical_art_def add_clip_def meta_cost_def demo_tier_def nonempty_def
  persist_item_media_def persist_artifact_def persist_base_clip_def persist_optional_def
  classify_item_retention_def route_after_script_def select_tier_def route_after_qc_def route_after_video_def dest_def
  narration_text_def spoken_line_def or_empty_def strip_def py_space_def py_lower_def py_lower_char_def line_break_def

lemma sample_valid: "valid_tiers (tier_names sample_config)" "fresh_item sample_start"
  by (simp_all add: valid_tiers_def sample_config_def fresh_item_def sample_start_def new_item_def)

theorem process_item_terminates_witness:
  "process_item (\<lambda>_. []) (sample_tools 5) sample_config sample_start ((), ()) \<noteq> None"
  using process_item_terminates [OF sample_valid] by (simp add: sample_config_def)

lemma sample_approved:
  "\<exists>x. process_item (\<lambda>_. []) (sample_tools 1) sample_config sample_start ((), ()) = Some (Inr x, (), ()) \<and>
     assembled x \<noteq> None \<and> length (clips x) = 4"
  by (simp add: graph_eval Let_def)

lemma sample_dropped:
  "\<exists>x. process_item (\<lambda>_. []) (sample_tools 5) sample_config sample_start ((), ()) = Some (Inr x, (), ()) \<and>
     dropped x \<and> length (clips x) = 6"
  by (simp add: graph_eval Let_def)


theorem only_approved_assembled_witness:
  "\<exists>x. process_item (\<lambda>_. []) (sample_tools 1) sample_config sample_start ((), ()) = Some (Inr x, (), ()) \<and>
     assembled x \<noteq> None \<and> (\<exists>q. qc x = Some q \<and> qc_passed q)"
proof -
  obtain x where x: "process_item (\<lambda>_. []) (sample_tools 1) sample_config sample_start ((), ()) = Some (Inr x, (), ())"
      "assembled x \<noteq> None"
    using sample_approved by blast
  then show ?thesis
    using only_approved_assembled [OF sample_valid x(1)] by blast
qed

theorem clips_bounded_witness:
  "\<exists>x. process_item (\<lambda>_. []) (sample_tools 5) sample_config sample_start ((), ()) = Some (Inr x, (), ()) \<and>
     length (clips x) = 6 \<and> int (length (clips x)) \<le> 2 * max 1 (max_attempts sample_config)"
proof -
  obtain x where x: "process_item (\<lambda>_. []) (sample_tools 5) sample_config sample_start ((), ()) = Some (Inr x, (), ())"
      "length (clips x) = 6"
    using sample_dropped by blast
  then show ?thesis
    using clips_bounded [OF sample_valid x(1)] by blast
qed

section \<open>A failed voice-over\<close>

lemma gen_keeps_error:
  assumes "gen_node ts cfg t it w = (Inr x, w')" "nonempty (item_error it)"
  shows "nonempty (item_error x)"
  using add_clip_result [OF assms(1) [unfolded gen_node_def]] assms(2) by auto

text \<open>
   A failed voice-over does not stop video generation: although \<open>route_after_voiceover\<close> would end the item,
  the graph is wired with the tier router instead, so an item without an approved voice still goes to
  the paid talking-head node, whose result, clips included, is then final, with the error still set.
\<close>

theorem failed_voiceover_buys_clip:
  fixes it :: item
  defines "broken \<equiv> voiceover_failed it ''approved creator voice is missing''"
  assumes "strip (or_empty (creator_voice_ref it)) = []" "tier_names cfg = t # tns" "2 \<le> limit"
    and "gen_node ts cfg t broken w = (Inr x, w')"
  shows "route_after_voiceover broken = ''end'' \<and> run_nodes pstr ts cfg limit Voiceover it w = Some (Inr x, w') \<and>
    nonempty (item_error x)"
proof -
  have err: "nonempty (item_error broken)"
    by (simp add: broken_def voiceover_failed_def nonempty_def)
  have one: "node_step pstr ts cfg Voiceover it w = (Inr (broken, Some (Gen t)), w)"
    using assms(2,3)
    by (simp add: node_step_def node_voiceover_def andthen_def ret_def lift_def route_after_script_def select_tier_def broken_def)
  have two: "node_step pstr ts cfg (Gen t) broken w = (Inr (x, None), w')"
    using assms(5) gen_keeps_error [OF assms(5) err]
    by (simp add: node_step_def andthen_def ret_def route_after_video_def)
  obtain l where "limit = 2 + l"
    using le_Suc_ex [OF assms(4)] ..
  then have "limit = Suc (Suc l)"
    by simp
  then show ?thesis
    using one two err gen_keeps_error [OF assms(5) err]
    by (simp add: route_after_voiceover_def broken_def voiceover_failed_def)
qed

theorem failed_voiceover_buys_clip_witness:
  "let it = sample_start\<lparr>creator_voice_ref := None\<rparr> in
   \<exists>x. run_nodes (\<lambda>_. []) (sample_tools 0) sample_config 50 Voiceover it ((), ()) = Some (Inr x, (), ()) \<and>
     length (clips x) = 1 \<and> cost_usd x = 1 / 4 \<and> nonempty (item_error x)"
proof -
  define it where "it = sample_start\<lparr>creator_voice_ref := None\<rparr>"
  have "\<exists>x. gen_node (sample_tools 0) sample_config ''ltx'' (voiceover_failed it ''approved creator voice is missing'') ((), ()) = (Inr x, (), ()) \<and>
      length (clips x) = 1 \<and> cost_usd x = 1 / 4"
    by (simp add: it_def voiceover_failed_def graph_eval Let_def py_round_def)
  then obtain x where x: "gen_node (sample_tools 0) sample_config ''ltx'' (voiceover_failed it ''approved creator voice is missing'') ((), ()) = (Inr x, (), ())"
      "length (clips x) = 1" "cost_usd x = 1 / 4"
    by blast
  have "strip (or_empty (creator_voice_ref it)) = []" "tier_names sample_config = ''ltx'' # []" "2 \<le> (50::nat)"
    by (simp_all add: it_def or_empty_def strip_def sample_config_def)
  from failed_voiceover_buys_clip [OF this x(1), of "\<lambda>_. []"] x(2,3) show ?thesis
    unfolding Let_def it_def [symmetric] by blast
qed

section \<open>The run of an item\<close>

text \<open>
   The run does not reach the media of its items: since the configuration of the subgraph loses the
  thread id, processing an item has the same outcome, storage keys and artifact rows included,
  whatever run it belongs to.
\<close>

theorem run_id_ignored:
  "process_item pstr ts (cfg\<lparr>thread_id := r\<rparr>) it w = process_item pstr ts cfg it w \<and>
   item_run_id (sub_config cfg) = ''run''"
  by (simp add: process_item_def sub_config_def item_run_id_def)

section \<open>Retention after the quality check\<close>

definition clip_key :: "artifact \<Rightarrow> string option" where
  "clip_key c = (case fmlookup (art_meta c) ''storage_key'' of Some (JStr (x # xs)) \<Rightarrow> Some (x # xs) | _ \<Rightarrow> None)"

context artifact_repository
begin

lemma apply_retention_step:
  assumes "apply_retention set_retention now ((c, cls) # ts) (s, db) = (Inr (), s', db')"
  obtains db1 where "apply_retention set_retention now ts (s, db1) = (Inr (), s', db')"
    and "\<And>k. clip_key c = Some k \<Longrightarrow> set_retention k cls now db = Inr ((), db1)"
    and "\<And>k. clip_key c \<noteq> Some k \<Longrightarrow> by_key k db1 = by_key k db"
proof -
  obtain db1 where db1: "apply_retention set_retention now ts (s, db1) = (Inr (), s', db')"
      "(clip_key c = None \<and> db1 = db) \<or> (\<exists>k. clip_key c = Some k \<and> set_retention k cls now db = Inr ((), db1))"
    using assms
    by (auto simp: apply_retention.simps(2) andthen_Inr on_db_def clip_key_def ret_def
        split: option.splits json.splits list.splits sum.splits prod.splits if_splits)
  have "by_key k db1 = by_key k db" if "clip_key c \<noteq> Some k" for k
    using db1(2)
  proof (elim disjE exE conjE)
    fix k' assume k': "clip_key c = Some k'" "set_retention k' cls now db = Inr ((), db1)"
    obtain x where "expires_at_for cls now = Inr x"
      using k'(2) set_unknown [of k' cls now db] by (cases "expires_at_for cls now") auto
    then show ?thesis
      using by_key_set [OF k'(2)] that k'(1) by simp
  qed simp
  then show thesis
    using that db1 by auto
qed

lemma apply_retention_two:
  assumes run: "apply_retention set_retention now (ts @ [(c, cls), (d, cls')]) (s, db) = (Inr (), s', db')"
    and keys: "clip_key c = Some kc" "clip_key d = Some kd" "kc \<noteq> kd"
      "\<forall>(e, cls)\<in>set ts. clip_key e \<noteq> Some kc \<and> clip_key e \<noteq> Some kd"
    and rows: "by_key kc db = Some a" "by_key kd db = Some b"
    and exp: "expires_at_for cls now = Inr x" "expires_at_for cls' now = Inr y"
  shows "by_key kc db' = Some (set_class cls x a) \<and> by_key kd db' = Some (set_class cls' y b)"
proof -
  have "\<exists>db0. apply_retention set_retention now [(c, cls), (d, cls')] (s, db0) = (Inr (), s', db') \<and>
      by_key kc db0 = by_key kc db \<and> by_key kd db0 = by_key kd db"
    using run keys(4)
  proof (induction ts arbitrary: db)
    case (Cons p ts)
    obtain e cl where p: "p = (e, cl)"
      by fastforce
    obtain db1 where db1: "apply_retention set_retention now (ts @ [(c, cls), (d, cls')]) (s, db1) = (Inr (), s', db')"
        "\<And>k. clip_key e \<noteq> Some k \<Longrightarrow> by_key k db1 = by_key k db"
      using apply_retention_step [OF Cons.prems(1) [unfolded p append_Cons]] by blast
    then show ?case
      using Cons.IH [OF db1(1)] Cons.prems(2) p by auto
  qed auto
  then obtain db0 where db0: "apply_retention set_retention now [(c, cls), (d, cls')] (s, db0) = (Inr (), s', db')"
      "by_key kc db0 = Some a" "by_key kd db0 = Some b"
    using rows by auto
  obtain db1 where db1: "apply_retention set_retention now [(d, cls')] (s, db1) = (Inr (), s', db')"
      "set_retention kc cls now db0 = Inr ((), db1)"
    using apply_retention_step [OF db0(1)] by (metis keys(1))
  obtain db2 where db2: "apply_retention set_retention now [] (s, db2) = (Inr (), s', db')"
      "set_retention kd cls' now db1 = Inr ((), db2)"
    using apply_retention_step [OF db1(1)] by (metis keys(2))
  have "db' = db2"
    using db2(1) by simp
  then show ?thesis
    using by_key_set [OF db1(2) exp(1)] by_key_set [OF db2(2) exp(2)] db0(2,3) keys(3) by simp
qed

end


text \<open>
   Of the approved take only the product demo is retained: when the quality check passes, the clip of the
  product demo, which is the last one, is kept, but the talking head of the same approved attempt is
  classified as an intermediate attempt and expires two days later.
\<close>

theorem approved_talking_head_expires:
  assumes "t_qc ts it = Inr q" "qc_passed q" "\<not> dropped it" "clips it = pre @ [head, demo]"
    and "db_set_retention cfg = Some (pg_set_retention org)"
    and "clip_key head = Some kh" "clip_key demo = Some kd" "kh \<noteq> kd"
    and "\<forall>c\<in>set pre. clip_key c \<noteq> Some kh \<and> clip_key c \<noteq> Some kd"
    and "pg_by_key org kh t = Some a" "pg_by_key org kd t = Some b"
    and "node_qc ts cfg it (s, t) = (Inr x, s', t')"
  shows "pg_by_key org kh t' = Some (a\<lparr>ar_retention_class := ''intermediate'', ar_expires_at := Some (now_utc cfg + 2 * day)\<rparr>) \<and>
    pg_by_key org kd t' = Some (b\<lparr>ar_retention_class := ''keep'', ar_expires_at := None\<rparr>)"
proof -
  have targets: "retention_targets (it\<lparr>qc := Some q\<rparr>) =
      map (\<lambda>c. (c, RETENTION_INTERMEDIATE)) pre @ [(head, RETENTION_INTERMEDIATE), (demo, RETENTION_KEEP)]"
    using assms(2-4) by (simp add: retention_targets_def butlast_append)
  have "classify_item_retention cfg (it\<lparr>qc := Some q\<rparr>) (s, t) = (Inr (), s', t')"
    using assms(1,2,12) by (auto simp: node_qc_def andthen_Inr)
  then have run: "apply_retention (pg_set_retention org) (now_utc cfg)
      (map (\<lambda>c. (c, RETENTION_INTERMEDIATE)) pre @ [(head, RETENTION_INTERMEDIATE), (demo, RETENTION_KEEP)]) (s, t) = (Inr (), s', t')"
    using assms(5) targets by (simp add: classify_item_retention_def)
  have "expires_at_for RETENTION_INTERMEDIATE (now_utc cfg) = Inr (Some (now_utc cfg + 2 * day))"
    "expires_at_for RETENTION_KEEP (now_utc cfg) = Inr None"
    by (simp_all add: retention_eval)
  from pg.apply_retention_two [OF run assms(6-8) _ assms(10,11) this] assms(9)
  show ?thesis
    by (simp add: set_class_def RETENTION_INTERMEDIATE_def RETENTION_KEEP_def)
qed


text \<open>One attempt of an item, both clips stored: the quality check passes at time 0.\<close>

definition sample_pg_config :: "(unit, artifact_row list) graph_config" where
  "sample_pg_config =
    \<lparr>thread_id = None, recursion_limit = None, tier_names = [''ltx''], max_attempts = 3, allow_mock_fallback = False,
     product_demo_tier = None, videos_storage = sample_storage, artifact_db = None,
     db_set_retention = Some (pg_set_retention ''o''), now_utc = 0\<rparr>"

definition stored_clip :: "string \<Rightarrow> artifact" where
  "stored_clip k = \<lparr>art_kind = ''clip'', art_uri = ''/videos/'' @ k, art_meta = fmap_of_list [(''storage_key'', JStr k)]\<rparr>"

theorem approved_talking_head_expires_witness:
  "let it = sample_start\<lparr>clips := [stored_clip ''head'', stored_clip ''demo'']\<rparr>;
       t = run_ops (pg_exec id ''o'') [Record (sample_artifact ''run'' ''head''), Record (sample_artifact ''run'' ''demo'')] [];
       t' = snd (snd (node_qc (sample_tools 0) sample_pg_config it ((), t)))
   in map_option ar_expires_at (pg_by_key ''o'' ''head'' t') = Some (Some (2 * day)) \<and>
      map_option ar_expires_at (pg_by_key ''o'' ''demo'' t') = Some None"
proof -
  define it where "it = sample_start\<lparr>clips := [stored_clip ''head'', stored_clip ''demo'']\<rparr>"
  define t where "t = run_ops (pg_exec id ''o'') [Record (sample_artifact ''run'' ''head''), Record (sample_artifact ''run'' ''demo'')] []"
  define out where "out = node_qc (sample_tools 0) sample_pg_config it ((), t)"
  define q where "q = \<lparr>qc_passed = True, qc_score = 1 / 2, qc_reasons = []\<rparr>"
  have rows: "pg_by_key ''o'' ''head'' t = Some (sample_artifact ''run'' ''head'')"
    "pg_by_key ''o'' ''demo'' t = Some (sample_artifact ''run'' ''demo'')"
    by (simp_all add: t_def pg_record_def artifact_id_def fits_int64_def akey_def pg_by_key_def sample_artifact_def)
  have keys: "clip_key (stored_clip ''head'') = Some ''head''" "clip_key (stored_clip ''demo'') = Some ''demo''" "''head'' \<noteq> ''demo''"
    by (simp_all add: clip_key_def stored_clip_def)
  have it: "clips it = [] @ [stored_clip ''head'', stored_clip ''demo'']" "\<not> dropped it" "attempts it = 0"
    by (simp_all add: it_def sample_start_def new_item_def)
  have q: "t_qc (sample_tools 0) it = Inr q" "qc_passed q"
    using it(3) by (simp_all add: sample_tools_def q_def)
  have cfg: "db_set_retention sample_pg_config = Some (pg_set_retention ''o'')" "now_utc sample_pg_config = 0"
    by (simp_all add: sample_pg_config_def)
  have "\<exists>x. fst out = Inr x"
    using q it keys cfg
    by (simp add: out_def node_qc_def andthen_def lift_def classify_item_retention_def retention_targets_def q_def
        apply_retention.simps on_db_def stored_clip_def pg_set_retention_def retention_eval ret_def)
  then obtain x where "node_qc (sample_tools 0) sample_pg_config it ((), t) = (Inr x, fst (snd out), snd (snd out))"
    by (auto simp: out_def prod_eq_iff)
  from approved_talking_head_expires [OF q it(2,1) cfg(1) keys _ rows this]
  show ?thesis
    unfolding Let_def it_def [symmetric] t_def [symmetric] out_def [symmetric] by (simp add: cfg(2))
qed

end
