(* ===== verification/Tenancy.thy ===== *)
theory Tenancy
  imports Prelude
begin

text \<open>
  Tenants, roles and the tables that say who belongs to which organization.

  \<^item> \<open>db/roles.py\<close>, the roles; \<open>auth.py\<close>, the permissions of a role and the principal of a request;
    \<open>db/tenancy.py\<close>, identities and the contexts derived from them;
  \<^item> the tables \<open>organizations\<close>, \<open>users\<close>, \<open>organization_members\<close> and \<open>organization_invitations\<close> of
    \<open>db/models.py\<close>, with the row level security policies and the function
    \<open>claim_organization_invitation\<close> of the migrations 0012 and 0013;
  \<^item> \<open>db/database.py\<close>: materialising, authorizing and resolving a tenant;
  \<^item> \<open>db/admin.py\<close>: the administrative operations, which run as the migrator role and bypass the
    policies.

  The runtime role cannot bypass row level security (\<open>Database.open\<close> refuses to start otherwise), and
  every statement runs with \<open>app.organization_id\<close> and \<open>app.user_id\<close> set from the tenant. So a
  \<open>SELECT\<close> returns the rows that pass the \<open>SELECT\<close> policy; \<open>SELECT \<dots> FOR UPDATE\<close> those that pass the
  \<open>UPDATE\<close> policy as well; \<open>UPDATE\<close> and \<open>DELETE\<close> only reach the rows their policy shows and a row that
  violates a \<open>WITH CHECK\<close> raises \<open>InsufficientPrivilege\<close>, before any unique or foreign key is looked at.
  An \<open>INSERT \<dots> ON CONFLICT\<close> is checked even when it ends up doing nothing.

  The identifier \<open>uuid5(NAMESPACE_URL, name)\<close> is the argument \<open>u5\<close>; the facts that need distinct
  names to have distinct identifiers say so for the names at hand.
\<close>

section \<open>Roles, permissions and principals\<close>

definition MEMBERSHIP_ROLES :: "string list" where
  "MEMBERSHIP_ROLES = [''owner'', ''admin'', ''member'', ''viewer'']"

definition validate_role :: "string \<Rightarrow> string res" where
  "validate_role role = (let normalized = py_lower (strip role) in
     if normalized \<notin> set MEMBERSHIP_ROLES then Inl ValueError else Inr normalized)"

datatype permission = READ | RUNS_CREATE | RUNS_REVIEW | RUNS_RETRY | RUNS_VOICE_REROLL | PROMPTS_WRITE
  | MEMBERS_READ | MEMBERS_WRITE

definition permission_of :: "string \<Rightarrow> permission res" where
  "permission_of s =
    (if s = ''read'' then Inr READ
     else if s = ''runs:create'' then Inr RUNS_CREATE
     else if s = ''runs:review'' then Inr RUNS_REVIEW
     else if s = ''runs:retry'' then Inr RUNS_RETRY
     else if s = ''runs:voice_reroll'' then Inr RUNS_VOICE_REROLL
     else if s = ''prompts:write'' then Inr PROMPTS_WRITE
     else if s = ''members:read'' then Inr MEMBERS_READ
     else if s = ''members:write'' then Inr MEMBERS_WRITE
     else Inl ValueError)"

definition ROLE_PERMISSIONS :: "string \<rightharpoonup> permission set" where
  "ROLE_PERMISSIONS = Map.empty(
     ''viewer'' \<mapsto> {READ},
     ''member'' \<mapsto> {READ, RUNS_CREATE, RUNS_REVIEW, RUNS_RETRY, RUNS_VOICE_REROLL, PROMPTS_WRITE},
     ''admin'' \<mapsto> {READ, RUNS_CREATE, RUNS_REVIEW, RUNS_RETRY, RUNS_VOICE_REROLL, PROMPTS_WRITE,
        MEMBERS_READ, MEMBERS_WRITE},
     ''owner'' \<mapsto> {READ, RUNS_CREATE, RUNS_REVIEW, RUNS_RETRY, RUNS_VOICE_REROLL, PROMPTS_WRITE,
        MEMBERS_READ, MEMBERS_WRITE})"

definition SAFE_CLAIMS :: "string list" where
  "SAFE_CLAIMS = [''email'', ''name'', ''display_name'', ''preferred_username'']"

type_synonym uuid = string

record tenant_context =
  tc_org :: uuid
  tc_user :: uuid
  tc_slug :: string
  tc_subject :: string
  tc_role :: string

definition with_role :: "tenant_context \<Rightarrow> string \<Rightarrow> tenant_context" where
  "with_role t role = t\<lparr>tc_role := role\<rparr>"

record request_principal =
  rp_tenant :: tenant_context
  rp_user_id :: uuid
  rp_user_subject :: string
  rp_organization_id :: uuid
  rp_organization_slug :: string
  rp_organization_name :: string
  rp_role :: string
  rp_permissions :: "permission set"
  rp_claims :: "(string \<times> string) list"

text \<open>\<open>py_str\<close> is Python's \<open>str\<close> on claim values; the claims are a dictionary in insertion order.\<close>

definition from_tenant :: "(json \<Rightarrow> string) \<Rightarrow> tenant_context \<Rightarrow> string \<Rightarrow> (string \<times> json) list \<Rightarrow> request_principal" where
  "from_tenant py_str tenant organization_name claims =
    (let safe_claims = map (\<lambda>(k, v). (k, py_str v))
           (filter (\<lambda>(k, v). py_lower k \<in> set SAFE_CLAIMS \<and> v \<noteq> JNull) claims);
         role = (if tc_role tenant = [] then ''viewer'' else tc_role tenant);
         permissions = (case ROLE_PERMISSIONS role of None \<Rightarrow> {READ} | Some ps \<Rightarrow> ps)
     in \<lparr>rp_tenant = tenant, rp_user_id = tc_user tenant, rp_user_subject = tc_subject tenant,
         rp_organization_id = tc_org tenant, rp_organization_slug = tc_slug tenant,
         rp_organization_name = organization_name, rp_role = role, rp_permissions = permissions,
         rp_claims = safe_claims\<rparr>)"

definition has_permission :: "request_principal \<Rightarrow> string \<Rightarrow> bool res" where
  "has_permission p permission =
    (case permission_of permission of Inl e \<Rightarrow> Inl e | Inr perm \<Rightarrow> Inr (perm \<in> rp_permissions p))"

definition can_manage_role :: "request_principal \<Rightarrow> string \<Rightarrow> bool" where
  "can_manage_role p target_role =
    (if rp_role p = ''owner'' then True
     else if rp_role p = ''admin'' then target_role \<in> {''member'', ''viewer''}
     else False)"

text \<open>\<open>actor_principal is not None and not actor_principal.can_manage_role(role)\<close>\<close>

definition forbids :: "request_principal option \<Rightarrow> string \<Rightarrow> bool" where
  "forbids actor role = (case actor of None \<Rightarrow> False | Some p \<Rightarrow> \<not> can_manage_role p role)"

section \<open>Identities\<close>

definition ID_NAMESPACE :: string where
  "ID_NAMESPACE = ''https://ugc-orchestrator.local/tenancy''"

definition id_name :: "string \<Rightarrow> string \<Rightarrow> string" where
  "id_name kind value = ID_NAMESPACE @ ''/'' @ kind @ ''/'' @ value"

definition stable_id :: "(string \<Rightarrow> uuid) \<Rightarrow> string \<Rightarrow> string \<Rightarrow> uuid" where
  "stable_id u5 kind value = u5 (id_name kind value)"

record tenant_identity =
  ti_slug :: string
  ti_name :: string
  ti_subject :: string

definition tenant_ctx :: "(string \<Rightarrow> uuid) \<Rightarrow> tenant_identity \<Rightarrow> string \<Rightarrow> tenant_context" where
  "tenant_ctx u5 i role = \<lparr>tc_org = stable_id u5 ''organization'' (ti_slug i),
     tc_user = stable_id u5 ''user'' (ti_subject i), tc_slug = ti_slug i, tc_subject = ti_subject i,
     tc_role = role\<rparr>"

text \<open>\<open>request\<close> is the identity bound to the request, \<open>env\<close> the environment of the process.\<close>

definition identity_from_env ::
    "tenant_identity option \<Rightarrow> (string \<Rightarrow> string option) \<Rightarrow> tenant_identity res" where
  "identity_from_env request env =
    (case request of
       Some i \<Rightarrow> Inr i
     | None \<Rightarrow>
       let missing = filter (\<lambda>name. env name \<in> {None, Some []})
             [''ORCH_ORGANIZATION_SLUG'', ''ORCH_ORGANIZATION_NAME'', ''ORCH_USER_SUBJECT'']
       in if missing \<noteq> [] then Inl ValueError
          else Inr \<lparr>ti_slug = the (env ''ORCH_ORGANIZATION_SLUG''),
                    ti_name = the (env ''ORCH_ORGANIZATION_NAME''),
                    ti_subject = the (env ''ORCH_USER_SUBJECT'')\<rparr>)"

section \<open>Tables\<close>

record organization_row =
  og_id :: uuid
  og_slug :: string
  og_name :: string

record user_row =
  us_id :: uuid
  us_subject :: string
  us_email :: "string option"
  us_display :: "string option"

record member_row =
  mb_org :: uuid
  mb_user :: uuid
  mb_role :: string
  mb_created :: int

record invitation_row =
  iv_org :: uuid
  iv_email :: string
  iv_role :: string
  iv_by :: "uuid option"
  iv_created :: int

record tenancy_db =
  organizations :: "organization_row list"
  users :: "user_row list"
  members :: "member_row list"
  invitations :: "invitation_row list"

definition empty_tenancy :: tenancy_db where
  "empty_tenancy = \<lparr>organizations = [], users = [], members = [], invitations = []\<rparr>"

definition mbkey :: "member_row \<Rightarrow> uuid \<times> uuid" where "mbkey m = (mb_org m, mb_user m)"
definition ivkey :: "invitation_row \<Rightarrow> uuid \<times> string" where "ivkey v = (iv_org v, iv_email v)"

definition membership :: "uuid \<Rightarrow> uuid \<Rightarrow> tenancy_db \<Rightarrow> member_row option" where
  "membership org uid d = tget mbkey (org, uid) (members d)"

definition role_in :: "uuid \<Rightarrow> uuid \<Rightarrow> tenancy_db \<Rightarrow> string option" where
  "role_in org uid d = map_option mb_role (membership org uid d)"

text \<open>The single-row statements with the constraints of the tables.\<close>

definition subject_taken :: "string \<Rightarrow> uuid \<Rightarrow> user_row list \<Rightarrow> bool" where
  "subject_taken subject uid us = list_ex (\<lambda>u. us_subject u = subject \<and> us_id u \<noteq> uid) us"

definition insert_user :: "user_row \<Rightarrow> tenancy_db \<Rightarrow> (unit \<times> tenancy_db) res" where
  "insert_user u d =
    (if tget us_id (us_id u) (users d) \<noteq> None \<or> subject_taken (us_subject u) (us_id u) (users d)
     then Inl UniqueViolation else Inr ((), d\<lparr>users := users d @ [u]\<rparr>))"

definition insert_member :: "member_row \<Rightarrow> tenancy_db \<Rightarrow> (unit \<times> tenancy_db) res" where
  "insert_member m d =
    (if membership (mb_org m) (mb_user m) d \<noteq> None then Inl UniqueViolation
     else if tget og_id (mb_org m) (organizations d) = None \<or> tget us_id (mb_user m) (users d) = None
     then Inl ForeignKeyViolation
     else Inr ((), d\<lparr>members := members d @ [m]\<rparr>))"

definition set_member_role :: "uuid \<Rightarrow> uuid \<Rightarrow> string \<Rightarrow> tenancy_db \<Rightarrow> tenancy_db" where
  "set_member_role org uid role d = d\<lparr>members := tupd mbkey (org, uid) (mb_role_update (\<lambda>_. role)) (members d)\<rparr>"

definition delete_member :: "uuid \<Rightarrow> uuid \<Rightarrow> tenancy_db \<Rightarrow> tenancy_db" where
  "delete_member org uid d = d\<lparr>members := filter (\<lambda>m. mbkey m \<noteq> (org, uid)) (members d)\<rparr>"

definition delete_invitation :: "uuid \<Rightarrow> string \<Rightarrow> tenancy_db \<Rightarrow> tenancy_db" where
  "delete_invitation org email d = d\<lparr>invitations := filter (\<lambda>v. ivkey v \<noteq> (org, email)) (invitations d)\<rparr>"

definition upsert_member :: "member_row \<Rightarrow> tenancy_db \<Rightarrow> (unit \<times> tenancy_db) res" where
  "upsert_member m d =
    (if membership (mb_org m) (mb_user m) d \<noteq> None
     then Inr ((), set_member_role (mb_org m) (mb_user m) (mb_role m) d)
     else insert_member m d)"

section \<open>Row level security\<close>

definition current_actor_role :: "tenant_context \<Rightarrow> tenancy_db \<Rightarrow> string option" where
  "current_actor_role t d = role_in (tc_org t) (tc_user t) d"

definition organization_has_members :: "tenant_context \<Rightarrow> tenancy_db \<Rightarrow> bool" where
  "organization_has_members t d = list_ex (\<lambda>m. mb_org m = tc_org t) (members d)"

text \<open>
  \<open>current_actor_role() = 'owner' OR (current_actor_role() = 'admin' AND role IN ('member', 'viewer'))\<close>
  is the condition of the \<open>UPDATE\<close> and \<open>DELETE\<close> policies of \<open>organization_members\<close>, and a part of the
  \<open>INSERT\<close> policies.
\<close>

definition actor_manages :: "tenant_context \<Rightarrow> string \<Rightarrow> tenancy_db \<Rightarrow> bool" where
  "actor_manages t role d =
    (current_actor_role t d = Some ''owner'' \<or>
     current_actor_role t d = Some ''admin'' \<and> role \<in> {''member'', ''viewer''})"

definition actor_is_manager :: "tenant_context \<Rightarrow> tenancy_db \<Rightarrow> bool" where
  "actor_is_manager t d = (current_actor_role t d \<in> {Some ''owner'', Some ''admin''})"

definition members_insert_check :: "tenant_context \<Rightarrow> member_row \<Rightarrow> tenancy_db \<Rightarrow> bool" where
  "members_insert_check t m d =
    (mb_org m = tc_org t \<and>
      (actor_manages t (mb_role m) d \<or>
       current_actor_role t d = None \<and> \<not> organization_has_members t d \<and> mb_role m = ''owner'' \<and>
         mb_user m = tc_user t))"

definition users_select :: "tenant_context \<Rightarrow> uuid \<Rightarrow> tenancy_db \<Rightarrow> bool" where
  "users_select t uid d = (uid = tc_user t \<or> membership (tc_org t) uid d \<noteq> None)"

definition users_write :: "tenant_context \<Rightarrow> uuid \<Rightarrow> tenancy_db \<Rightarrow> bool" where
  "users_write t uid d = (uid = tc_user t \<or> actor_is_manager t d)"

definition invitations_insert_check :: "tenant_context \<Rightarrow> invitation_row \<Rightarrow> tenancy_db \<Rightarrow> bool" where
  "invitations_insert_check t v d =
    (iv_org v = tc_org t \<and>
      (actor_manages t (iv_role v) d \<or>
       current_actor_role t d = None \<and> \<not> organization_has_members t d \<and> iv_role v = ''owner''))"

section \<open>Claiming an invitation\<close>

text \<open>PostgreSQL's \<open>trim\<close> removes spaces only.\<close>

definition pg_trim :: "string \<Rightarrow> string" where
  "pg_trim s = rev (dropWhile (\<lambda>c. c = CHR '' '') (rev (dropWhile (\<lambda>c. c = CHR '' '') s)))"

definition claim_user :: "uuid \<Rightarrow> string \<Rightarrow> string \<Rightarrow> string option \<Rightarrow> tenancy_db \<Rightarrow> (unit \<times> tenancy_db) res" where
  "claim_user uid subject email display d =
    (case tget us_id uid (users d) of
       None \<Rightarrow> insert_user \<lparr>us_id = uid, us_subject = subject, us_email = Some email, us_display = display\<rparr> d
     | Some _ \<Rightarrow> Inr ((), d\<lparr>users := tupd us_id uid
           (\<lambda>u. u\<lparr>us_email := Some email, us_display := (if display = None then us_display u else display)\<rparr>)
           (users d)\<rparr>))"

definition claim_organization_invitation ::
    "tenant_context \<Rightarrow> uuid \<Rightarrow> uuid \<Rightarrow> string \<Rightarrow> string \<Rightarrow> string option \<Rightarrow> int \<Rightarrow> tenancy_db \<Rightarrow>
     (string option \<times> tenancy_db) res" where
  "claim_organization_invitation session org uid subject email display now d =
    (if org \<noteq> tc_org session then Inl RaiseException
     else if uid \<noteq> tc_user session then Inl RaiseException
     else let normalized = py_lower (pg_trim email) in
       if normalized = [] then Inr (None, d)
       else case tget ivkey (org, normalized) (invitations d) of
         None \<Rightarrow> Inr (None, d)
       | Some v \<Rightarrow>
         (case claim_user uid subject normalized display d of
            Inl e \<Rightarrow> Inl e
          | Inr (_, d1) \<Rightarrow>
            (case upsert_member \<lparr>mb_org = org, mb_user = uid, mb_role = iv_role v, mb_created = now\<rparr> d1 of
               Inl e \<Rightarrow> Inl e
             | Inr (_, d2) \<Rightarrow> Inr (Some (iv_role v), delete_invitation org normalized d2))))"

section \<open>Resolving tenants\<close>

definition upsert_organization :: "uuid \<Rightarrow> string \<Rightarrow> string \<Rightarrow> tenancy_db \<Rightarrow> (unit \<times> tenancy_db) res" where
  "upsert_organization oid slug name d =
    (if list_ex (\<lambda>g. og_slug g = slug \<and> og_id g \<noteq> oid) (organizations d) then Inl UniqueViolation
     else case tget og_id oid (organizations d) of
       None \<Rightarrow> Inr ((), d\<lparr>organizations := organizations d @ [\<lparr>og_id = oid, og_slug = slug, og_name = name\<rparr>]\<rparr>)
     | Some _ \<Rightarrow> Inr ((), d\<lparr>organizations := tupd og_id oid (\<lambda>g. g\<lparr>og_slug := slug, og_name := name\<rparr>)
         (organizations d)\<rparr>))"

definition ensure_user :: "uuid \<Rightarrow> string \<Rightarrow> tenancy_db \<Rightarrow> (unit \<times> tenancy_db) res" where
  "ensure_user uid subject d =
    (if tget us_id uid (users d) \<noteq> None then Inr ((), d)
     else insert_user \<lparr>us_id = uid, us_subject = subject, us_email = None, us_display = None\<rparr> d)"

definition ensure_tenant ::
    "(string \<Rightarrow> uuid) \<Rightarrow> tenant_identity \<Rightarrow> int \<Rightarrow> tenancy_db \<Rightarrow> (tenant_context \<times> tenancy_db) res" where
  "ensure_tenant u5 i now d =
    (let t = tenant_ctx u5 i ''owner'' in
     case upsert_organization (tc_org t) (ti_slug i) (ti_name i) d of
       Inl e \<Rightarrow> Inl e
     | Inr (_, d1) \<Rightarrow>
       (case ensure_user (tc_user t) (ti_subject i) d1 of
          Inl e \<Rightarrow> Inl e
        | Inr (_, d2) \<Rightarrow>
          let m = \<lparr>mb_org = tc_org t, mb_user = tc_user t, mb_role = ''owner'', mb_created = now\<rparr> in
          if \<not> members_insert_check t m d2 then Inl InsufficientPrivilege
          else if membership (tc_org t) (tc_user t) d2 \<noteq> None then Inr (t, d2)
          else (case insert_member m d2 of Inl e \<Rightarrow> Inl e | Inr (_, d3) \<Rightarrow> Inr (t, d3))))"

text \<open>The membership joined with its organization and user.\<close>

definition authorized_role :: "tenant_context \<Rightarrow> tenancy_db \<Rightarrow> string option" where
  "authorized_role t d =
    (case (membership (tc_org t) (tc_user t) d, tget og_id (tc_org t) (organizations d),
           tget us_id (tc_user t) (users d)) of
       (Some m, Some g, Some u) \<Rightarrow>
         if og_slug g = tc_slug t \<and> us_subject u = tc_subject t then Some (mb_role m) else None
     | _ \<Rightarrow> None)"

definition authorize_tenant ::
    "(string \<Rightarrow> uuid) \<Rightarrow> tenant_identity \<Rightarrow> string option \<Rightarrow> int \<Rightarrow> tenancy_db \<Rightarrow>
     (tenant_context \<times> tenancy_db) res" where
  "authorize_tenant u5 i verified_email now d =
    (let t = tenant_ctx u5 i ''owner'' in
     case authorized_role t d of
       Some role \<Rightarrow> Inr (with_role t role, d)
     | None \<Rightarrow>
       (case verified_email of
          None \<Rightarrow> Inl TenantAuthorizationError
        | Some email \<Rightarrow>
          if strip email = [] then Inl TenantAuthorizationError
          else (case claim_organization_invitation t (tc_org t) (tc_user t) (ti_subject i) (strip email)
                       None now d of
             Inl e \<Rightarrow> Inl e
           | Inr (None, _) \<Rightarrow> Inl TenantAuthorizationError
           | Inr (Some role, d') \<Rightarrow> Inr (with_role t role, d'))))"

text \<open>
  \<open>resolve_tenant\<close>: \<open>access\<close> says whether \<open>ORCH_AUTH_MODE\<close> is \<open>cloudflare_access\<close>; the cache of the
  resolved tenants belongs to the \<open>Database\<close> object, so it survives a transaction that fails.
\<close>

type_synonym tenant_cache = "(tenant_identity \<times> tenant_context) list"

definition resolve_tenant ::
    "(string \<Rightarrow> uuid) \<Rightarrow> bool \<Rightarrow> tenant_identity \<Rightarrow> int \<Rightarrow> tenant_cache \<times> tenancy_db \<Rightarrow>
     (tenant_context \<times> tenant_cache \<times> tenancy_db) res" where
  "resolve_tenant u5 access i now s = (case s of (cache, d) \<Rightarrow>
     if access
     then (case authorize_tenant u5 i None now d of Inl e \<Rightarrow> Inl e | Inr (t, d') \<Rightarrow> Inr (t, cache, d'))
     else case map_of cache i of
       Some t \<Rightarrow> Inr (t, cache, d)
     | None \<Rightarrow> (case ensure_tenant u5 i now d of
           Inl e \<Rightarrow> Inl e
         | Inr (t, d') \<Rightarrow> Inr (t, (i, t) # cache, d')))"

section \<open>Administration\<close>

definition normalize_email :: "string \<Rightarrow> string res" where
  "normalize_email email =
    (let candidate = py_lower (strip email) in
     if candidate = [] \<or> CHR ''@'' \<notin> set candidate then Inl ValueError
     else let local_part = takeWhile (\<lambda>c. c \<noteq> CHR ''@'') candidate;
              domain = tl (dropWhile (\<lambda>c. c \<noteq> CHR ''@'') candidate)
       in if local_part = [] \<or> domain = [] then Inl ValueError else Inr candidate)"

definition create_organization :: "(string \<Rightarrow> uuid) \<Rightarrow> string \<Rightarrow> string \<Rightarrow> tenancy_db \<Rightarrow> tenancy_db" where
  "create_organization u5 slug name d =
    commit (upsert_organization (stable_id u5 ''organization'' slug) slug name d) d"

definition grant_user :: "uuid \<Rightarrow> string \<Rightarrow> tenancy_db \<Rightarrow> (unit \<times> tenancy_db) res" where
  "grant_user uid subject d =
    (if tget us_id uid (users d) = None
     then insert_user \<lparr>us_id = uid, us_subject = subject, us_email = None, us_display = None\<rparr> d
     else if subject_taken subject uid (users d) then Inl UniqueViolation
     else Inr ((), d\<lparr>users := tupd us_id uid (us_subject_update (\<lambda>_. subject)) (users d)\<rparr>))"

definition grant_membership ::
    "(string \<Rightarrow> uuid) \<Rightarrow> string \<Rightarrow> string \<Rightarrow> string \<Rightarrow> int \<Rightarrow> tenancy_db \<Rightarrow> (unit \<times> tenancy_db) res" where
  "grant_membership u5 slug subject role now d =
    (case validate_role role of
       Inl e \<Rightarrow> Inl e
     | Inr clean_role \<Rightarrow>
       let t = tenant_ctx u5 \<lparr>ti_slug = slug, ti_name = slug, ti_subject = subject\<rparr> ''owner'' in
       if \<not> list_ex (\<lambda>g. og_id g = tc_org t \<and> og_slug g = slug) (organizations d) then Inl ValueError
       else (case grant_user (tc_user t) subject d of
           Inl e \<Rightarrow> Inl e
         | Inr (_, d1) \<Rightarrow>
           upsert_member \<lparr>mb_org = tc_org t, mb_user = tc_user t, mb_role = clean_role, mb_created = now\<rparr> d1))"

definition revoke_membership :: "(string \<Rightarrow> uuid) \<Rightarrow> string \<Rightarrow> string \<Rightarrow> tenancy_db \<Rightarrow> bool \<times> tenancy_db" where
  "revoke_membership u5 slug subject d =
    (let t = tenant_ctx u5 \<lparr>ti_slug = slug, ti_name = slug, ti_subject = subject\<rparr> ''owner'' in
     (membership (tc_org t) (tc_user t) d \<noteq> None, delete_member (tc_org t) (tc_user t) d))"

datatype bootstrap_status = Invitation_pending | Invitation_created | Already_established

definition owner_invitations :: "uuid \<Rightarrow> tenancy_db \<Rightarrow> invitation_row list" where
  "owner_invitations org d = filter (\<lambda>v. iv_org v = org \<and> iv_role v = ''owner'') (invitations d)"

definition upsert_owner_invitation :: "uuid \<Rightarrow> string \<Rightarrow> int \<Rightarrow> tenancy_db \<Rightarrow> (unit \<times> tenancy_db) res" where
  "upsert_owner_invitation org email now d =
    (if tget ivkey (org, email) (invitations d) \<noteq> None
     then Inr ((), d\<lparr>invitations := tupd ivkey (org, email) (iv_role_update (\<lambda>_. ''owner'')) (invitations d)\<rparr>)
     else if tget og_id org (organizations d) = None then Inl ForeignKeyViolation
     else Inr ((), d\<lparr>invitations := invitations d @
        [\<lparr>iv_org = org, iv_email = email, iv_role = ''owner'', iv_by = None, iv_created = now\<rparr>]\<rparr>))"

definition bootstrap_transaction ::
    "uuid \<Rightarrow> string \<Rightarrow> int \<Rightarrow> tenancy_db \<Rightarrow> (bootstrap_status \<times> tenancy_db) res" where
  "bootstrap_transaction org normalized now d =
    (let member_rows = filter (\<lambda>m. mb_org m = org) (members d);
         pending = list_ex (\<lambda>v. iv_email v = normalized) (owner_invitations org d)
     in if member_rows = []
        then if pending then Inr (Invitation_pending, d)
             else if owner_invitations org d \<noteq> [] then Inl RuntimeError
             else (case upsert_owner_invitation org normalized now d of
                 Inl e \<Rightarrow> Inl e
               | Inr (_, d') \<Rightarrow> Inr (Invitation_created, d'))
        else if list_ex (\<lambda>m. mb_role m = ''owner'' \<and>
                  (case tget us_id (mb_user m) (users d) of
                     None \<Rightarrow> False
                   | Some u \<Rightarrow> (case us_email u of
                        None \<Rightarrow> False
                      | Some email \<Rightarrow> email \<noteq> [] \<and> py_lower (strip email) = normalized))) member_rows
        then Inr (Already_established, d)
        else if pending then Inr (Invitation_pending, d)
        else Inl RuntimeError)"

text \<open>
  \<open>owner_bootstrap\<close> runs two transactions: creating the organization is committed (or swallowed)
  even when the second one raises. The state is returned beside the result.
\<close>

definition owner_bootstrap ::
    "(string \<Rightarrow> uuid) \<Rightarrow> string \<Rightarrow> string \<Rightarrow> string \<Rightarrow> int \<Rightarrow> tenancy_db \<Rightarrow> bootstrap_status res \<times> tenancy_db" where
  "owner_bootstrap u5 slug name owner_email now d =
    (case normalize_email owner_email of
       Inl e \<Rightarrow> (Inl e, d)
     | Inr normalized \<Rightarrow>
       let d1 = create_organization u5 slug name d;
           r = bootstrap_transaction (stable_id u5 ''organization'' slug) normalized now d1
       in (case r of Inl e \<Rightarrow> (Inl e, d1) | Inr (s, d2) \<Rightarrow> (Inr s, d2)))"

end
