(* ===== verification/Member_Store.thy ===== *)
theory Member_Store
  imports Tenancy "HOL-Library.AList"
begin

text \<open>
  The repositories of members and invitations: \<open>db/members.py\<close> and \<open>db/invitations.py\<close>.

  Each has a PostgreSQL implementation, on the tables and policies of \<open>Tenancy\<close>, and one in memory,
  used without a database, where a dictionary in insertion order is an association list that
  \<open>AList.update\<close> and \<open>AList.delete\<close> change. The methods that change members hold the lock of the
  organization row (or of the repository), so their transactions run one after another. A
  \<open>RequestPrincipal\<close> argument is optional, as in the code; the instant \<open>now\<close> is an argument.
\<close>

section \<open>Records\<close>

record member_record =
  mr_id :: string
  mr_user_id :: uuid
  mr_subject :: string
  mr_email :: "string option"
  mr_display :: "string option"
  mr_role :: string
  mr_created :: int

definition member_of_rows :: "user_row \<Rightarrow> member_row \<Rightarrow> member_record" where
  "member_of_rows u m = \<lparr>mr_id = us_id u, mr_user_id = us_id u, mr_subject = us_subject u,
     mr_email = us_email u, mr_display = us_display u, mr_role = mb_role m, mr_created = mb_created m\<rparr>"

text \<open>Truth value of an optional string.\<close>

definition given :: "string option \<Rightarrow> bool" where
  "given s = (s \<noteq> None \<and> s \<noteq> Some [])"

text \<open>
  \<open>str.capitalize\<close> on the letters whose title case is a code point below 256; the other characters
  keep their first position.
\<close>

definition py_upper_char :: "char \<Rightarrow> char" where
  "py_upper_char c = (let n = (of_char c :: nat) in
     if (97 \<le> n \<and> n \<le> 122) \<or> (224 \<le> n \<and> n \<le> 254 \<and> n \<noteq> 247) then char_of (n - 32) else c)"

fun capitalize :: "string \<Rightarrow> string" where
  "capitalize [] = []"
| "capitalize (c # cs) = py_upper_char c # py_lower cs"

section \<open>Members in PostgreSQL\<close>

definition pg_list_members :: "tenant_context \<Rightarrow> tenancy_db \<Rightarrow> member_record list" where
  "pg_list_members t d = sort_key mr_created
     (List.map_filter (\<lambda>m. map_option (\<lambda>u. member_of_rows u m) (tget us_id (mb_user m) (users d)))
       (filter (\<lambda>m. mb_org m = tc_org t) (members d)))"

definition pg_get_member :: "(string \<Rightarrow> uuid) \<Rightarrow> tenant_context \<Rightarrow> string \<Rightarrow> tenancy_db \<Rightarrow> member_record option" where
  "pg_get_member u5 t subject d =
    (let user_id = stable_id u5 ''user'' subject in
     case (membership (tc_org t) user_id d, tget us_id user_id (users d)) of
       (Some m, Some u) \<Rightarrow> Some (member_of_rows u m)
     | _ \<Rightarrow> None)"

definition sync_user :: "uuid \<Rightarrow> string \<Rightarrow> string option \<Rightarrow> string option \<Rightarrow> tenancy_db \<Rightarrow> (unit \<times> tenancy_db) res" where
  "sync_user user_id subject email display d =
    (case tget us_id user_id (users d) of
       None \<Rightarrow> insert_user \<lparr>us_id = user_id, us_subject = subject, us_email = email, us_display = display\<rparr> d
     | Some _ \<Rightarrow> Inr ((), d\<lparr>users := tupd us_id user_id
           (\<lambda>u. u\<lparr>us_email := (if email = None then us_email u else email),
                   us_display := (if display = None then us_display u else display)\<rparr>) (users d)\<rparr>))"

definition pg_sync_user_profile ::
    "tenant_context \<Rightarrow> uuid \<Rightarrow> string \<Rightarrow> string option \<Rightarrow> string option \<Rightarrow> tenancy_db \<Rightarrow> (unit \<times> tenancy_db) res" where
  "pg_sync_user_profile t user_id subject email display d =
    (if \<not> given email \<and> \<not> given display then Inr ((), d)
     else if users_select t user_id d \<and>
        (case tget us_id user_id (users d) of
           None \<Rightarrow> False | Some u \<Rightarrow> us_email u = email \<and> us_display u = display)
     then Inr ((), d)
     else if \<not> (users_write t user_id d \<and> users_select t user_id d) then Inl InsufficientPrivilege
     else sync_user user_id subject email display d)"

text \<open>
  \<open>SELECT \<dots> FOR UPDATE\<close> of a membership: the row must be visible to the \<open>UPDATE\<close> policy too.
\<close>

definition locked_membership :: "tenant_context \<Rightarrow> uuid \<Rightarrow> tenancy_db \<Rightarrow> member_row option" where
  "locked_membership t user_id d =
    (case membership (tc_org t) user_id d of
       None \<Rightarrow> None
     | Some m \<Rightarrow> if actor_manages t (mb_role m) d then Some m else None)"

text \<open>
  The insertion of the user is caught by \<open>except Exception: pass\<close>, but a failed statement aborts the
  transaction: the next statement raises \<open>InFailedSqlTransaction\<close>.
\<close>

definition pg_grant_member ::
    "(string \<Rightarrow> uuid) \<Rightarrow> tenant_context \<Rightarrow> string \<Rightarrow> string \<Rightarrow> string option \<Rightarrow> string option \<Rightarrow>
     request_principal option \<Rightarrow> int \<Rightarrow> tenancy_db \<Rightarrow> (member_record \<times> tenancy_db) res" where
  "pg_grant_member u5 t subject role email display actor now d =
    (if role \<notin> set MEMBERSHIP_ROLES then Inl ValueError
     else if forbids actor role then Inl PermissionError
     else let user_id = stable_id u5 ''user'' subject in
       if locked_membership t user_id d \<noteq> None then Inl ExistingMemberError
       else if \<not> users_write t user_id d then Inl InFailedSqlTransaction
       else case insert_user \<lparr>us_id = user_id, us_subject = subject, us_email = email, us_display = display\<rparr> d of
         Inl _ \<Rightarrow> Inl InFailedSqlTransaction
       | Inr (_, d1) \<Rightarrow>
         let m = \<lparr>mb_org = tc_org t, mb_user = user_id, mb_role = role, mb_created = now\<rparr> in
         if \<not> members_insert_check t m d1 then Inl InsufficientPrivilege
         else (case insert_member m d1 of
             Inl e \<Rightarrow> Inl e
           | Inr (_, d2) \<Rightarrow> Inr (\<lparr>mr_id = user_id, mr_user_id = user_id, mr_subject = subject, mr_email = email,
               mr_display = display, mr_role = role, mr_created = now\<rparr>, d2)))"

definition owner_count :: "uuid \<Rightarrow> tenancy_db \<Rightarrow> nat" where
  "owner_count org d = length (filter (\<lambda>m. mb_org m = org \<and> mb_role m = ''owner'') (members d))"

definition pg_update_member_role ::
    "(string \<Rightarrow> uuid) \<Rightarrow> tenant_context \<Rightarrow> string \<Rightarrow> string \<Rightarrow> request_principal option \<Rightarrow> tenancy_db \<Rightarrow>
     (member_record \<times> tenancy_db) res" where
  "pg_update_member_role u5 t subject new_role actor d =
    (if new_role \<notin> set MEMBERSHIP_ROLES then Inl ValueError
     else let user_id = stable_id u5 ''user'' subject in
       case (if users_write t user_id d then locked_membership t user_id d else None,
             tget us_id user_id (users d)) of
         (Some m, Some u) \<Rightarrow>
           if forbids actor (mb_role m) then Inl PermissionError
           else if forbids actor new_role then Inl PermissionError
           else if mb_role m = ''owner'' \<and> new_role \<noteq> ''owner'' \<and> owner_count (tc_org t) d \<le> 1
           then Inl LastOwnerError
           else if \<not> actor_manages t new_role d then Inl InsufficientPrivilege
           else Inr ((member_of_rows u m)\<lparr>mr_role := new_role\<rparr>, set_member_role (tc_org t) user_id new_role d)
       | _ \<Rightarrow> Inl KeyError)"

definition pg_revoke_member ::
    "(string \<Rightarrow> uuid) \<Rightarrow> tenant_context \<Rightarrow> string \<Rightarrow> request_principal option \<Rightarrow> tenancy_db \<Rightarrow>
     (bool \<times> tenancy_db) res" where
  "pg_revoke_member u5 t subject actor d =
    (let user_id = stable_id u5 ''user'' subject in
     case locked_membership t user_id d of
       None \<Rightarrow> Inl KeyError
     | Some m \<Rightarrow>
       if forbids actor (mb_role m) then Inl PermissionError
       else if mb_role m = ''owner'' \<and> owner_count (tc_org t) d \<le> 1 then Inl LastOwnerError
       else Inr (True, delete_member (tc_org t) user_id d))"

section \<open>Members in memory\<close>

type_synonym member_dict = "(string \<times> member_record) list"

definition own_record :: "tenant_context \<Rightarrow> int \<Rightarrow> member_record" where
  "own_record t now = \<lparr>mr_id = tc_user t, mr_user_id = tc_user t, mr_subject = tc_subject t,
     mr_email = Some (tc_subject t @ ''@local.test''), mr_display = Some (capitalize (tc_subject t)),
     mr_role = (if tc_role t = [] then ''owner'' else tc_role t), mr_created = now\<rparr>"

definition im_repository :: "tenant_context \<Rightarrow> int \<Rightarrow> member_dict" where
  "im_repository t now = [(tc_subject t, own_record t now)]"

definition im_list_members :: "member_dict \<Rightarrow> member_record list" where
  "im_list_members ms = sort_key mr_created (map snd ms)"

definition im_get_member :: "string \<Rightarrow> member_dict \<Rightarrow> member_record option" where
  "im_get_member subject ms = map_of ms subject"

definition im_sync_user_profile :: "string \<Rightarrow> string option \<Rightarrow> string option \<Rightarrow> member_dict \<Rightarrow> member_dict" where
  "im_sync_user_profile subject email display ms =
    (case map_of ms subject of
       None \<Rightarrow> ms
     | Some m \<Rightarrow> AList.update subject (m\<lparr>mr_email := (if given email then email else mr_email m),
         mr_display := (if given display then display else mr_display m)\<rparr>) ms)"

definition im_grant_member ::
    "(string \<Rightarrow> uuid) \<Rightarrow> string \<Rightarrow> string \<Rightarrow> string option \<Rightarrow> string option \<Rightarrow> request_principal option \<Rightarrow>
     int \<Rightarrow> member_dict \<Rightarrow> (member_record \<times> member_dict) res" where
  "im_grant_member u5 subject role email display actor now ms =
    (if role \<notin> set MEMBERSHIP_ROLES then Inl ValueError
     else if forbids actor role then Inl PermissionError
     else if map_of ms subject \<noteq> None then Inl ExistingMemberError
     else let user_id = stable_id u5 ''user'' subject;
              rec = \<lparr>mr_id = user_id, mr_user_id = user_id, mr_subject = subject, mr_email = email,
                mr_display = display, mr_role = role, mr_created = now\<rparr>
       in Inr (rec, AList.update subject rec ms))"

definition im_owner_count :: "member_dict \<Rightarrow> nat" where
  "im_owner_count ms = length (filter (\<lambda>m. mr_role m = ''owner'') (map snd ms))"

definition im_update_member_role ::
    "string \<Rightarrow> string \<Rightarrow> request_principal option \<Rightarrow> member_dict \<Rightarrow> (member_record \<times> member_dict) res" where
  "im_update_member_role subject new_role actor ms =
    (if new_role \<notin> set MEMBERSHIP_ROLES then Inl ValueError
     else case map_of ms subject of
       None \<Rightarrow> Inl KeyError
     | Some current \<Rightarrow>
       if forbids actor (mr_role current) then Inl PermissionError
       else if forbids actor new_role then Inl PermissionError
       else if mr_role current = ''owner'' \<and> new_role \<noteq> ''owner'' \<and> im_owner_count ms \<le> 1
       then Inl LastOwnerError
       else let updated = current\<lparr>mr_role := new_role\<rparr> in Inr (updated, AList.update subject updated ms))"

definition im_revoke_member ::
    "string \<Rightarrow> request_principal option \<Rightarrow> member_dict \<Rightarrow> (bool \<times> member_dict) res" where
  "im_revoke_member subject actor ms =
    (case map_of ms subject of
       None \<Rightarrow> Inl KeyError
     | Some current \<Rightarrow>
       if forbids actor (mr_role current) then Inl PermissionError
       else if mr_role current = ''owner'' \<and> im_owner_count ms \<le> 1 then Inl LastOwnerError
       else Inr (True, AList.delete subject ms))"

text \<open>The repositories of the process by organization slug; opening one adds the caller to it.\<close>

definition get_in_memory_member_repository ::
    "tenant_context \<Rightarrow> int \<Rightarrow> (string \<times> member_dict) list \<Rightarrow> member_dict \<times> (string \<times> member_dict) list" where
  "get_in_memory_member_repository t now repos =
    (let repo = (case map_of repos (tc_slug t) of None \<Rightarrow> im_repository t now | Some r \<Rightarrow> r);
         repo' = (if map_of repo (tc_subject t) = None
                  then AList.update (tc_subject t) (own_record t now) repo else repo)
     in (repo', AList.update (tc_slug t) repo' repos))"

section \<open>Invitations in PostgreSQL\<close>

record invitation_record =
  ir_org :: uuid
  ir_email :: string
  ir_role :: string
  ir_by :: "uuid option"
  ir_created :: int

definition invitation_of_row :: "invitation_row \<Rightarrow> invitation_record" where
  "invitation_of_row v = \<lparr>ir_org = iv_org v, ir_email = iv_email v, ir_role = iv_role v, ir_by = iv_by v,
     ir_created = iv_created v\<rparr>"

definition visible_invitation :: "tenant_context \<Rightarrow> string \<Rightarrow> tenancy_db \<Rightarrow> invitation_row option" where
  "visible_invitation t email d =
    (if actor_is_manager t d then tget ivkey (tc_org t, email) (invitations d) else None)"

definition pg_list_invitations :: "tenant_context \<Rightarrow> tenancy_db \<Rightarrow> invitation_record list" where
  "pg_list_invitations t d =
    (if actor_is_manager t d
     then sort_key (\<lambda>v. - ir_created v)
       (map invitation_of_row (filter (\<lambda>v. iv_org v = tc_org t) (invitations d)))
     else [])"

definition email_of_member :: "uuid \<Rightarrow> string \<Rightarrow> tenancy_db \<Rightarrow> bool" where
  "email_of_member org normalized d = list_ex (\<lambda>m. mb_org m = org \<and>
     (case tget us_id (mb_user m) (users d) of
        None \<Rightarrow> False
      | Some u \<Rightarrow> (case us_email u of None \<Rightarrow> False | Some email \<Rightarrow> py_lower (pg_trim email) = normalized)))
     (members d)"

text \<open>
  \<open>INSERT \<dots> RETURNING\<close> reads the new row back, so the \<open>SELECT\<close> policy applies to it as well. The
  unique violation of the insert is turned into a conflict.
\<close>

definition pg_create_invitation ::
    "tenant_context \<Rightarrow> string \<Rightarrow> string \<Rightarrow> request_principal option \<Rightarrow> int \<Rightarrow> tenancy_db \<Rightarrow>
     (invitation_record \<times> tenancy_db) res" where
  "pg_create_invitation t email role actor now d =
    (case normalize_email email of
       Inl e \<Rightarrow> Inl e
     | Inr normalized \<Rightarrow>
       (case validate_role role of
          Inl e \<Rightarrow> Inl e
        | Inr clean_role \<Rightarrow>
          if forbids actor clean_role then Inl PermissionError
          else let invited_by = map_option rp_user_id actor;
                   v = \<lparr>iv_org = tc_org t, iv_email = normalized, iv_role = clean_role, iv_by = invited_by,
                     iv_created = now\<rparr>
            in if email_of_member (tc_org t) normalized d then Inl InvitationConflictError
               else if visible_invitation t normalized d \<noteq> None then Inl InvitationConflictError
               else if \<not> (invitations_insert_check t v d \<and> actor_is_manager t d) then Inl InsufficientPrivilege
               else if tget ivkey (tc_org t, normalized) (invitations d) \<noteq> None then Inl InvitationConflictError
               else if tget og_id (tc_org t) (organizations d) = None \<or>
                  (case invited_by of None \<Rightarrow> False | Some uid \<Rightarrow> tget us_id uid (users d) = None)
               then Inl ForeignKeyViolation
               else Inr (invitation_of_row v, d\<lparr>invitations := invitations d @ [v]\<rparr>)))"

definition pg_cancel_invitation ::
    "tenant_context \<Rightarrow> string \<Rightarrow> request_principal option \<Rightarrow> tenancy_db \<Rightarrow> (bool \<times> tenancy_db) res" where
  "pg_cancel_invitation t email actor d =
    (case normalize_email email of
       Inl e \<Rightarrow> Inl e
     | Inr normalized \<Rightarrow>
       if actor \<noteq> None \<and> visible_invitation t normalized d = None then Inr (False, d)
       else if (case visible_invitation t normalized d of None \<Rightarrow> False | Some v \<Rightarrow> forbids actor (iv_role v))
       then Inl PermissionError
       else (case visible_invitation t normalized d of
           None \<Rightarrow> Inr (False, d)
         | Some v \<Rightarrow> if actor_manages t (iv_role v) d
             then Inr (True, delete_invitation (tc_org t) normalized d)
             else Inr (False, d)))"

definition pg_claim_invitation ::
    "tenant_context \<Rightarrow> uuid \<Rightarrow> string \<Rightarrow> string \<Rightarrow> string option \<Rightarrow> int \<Rightarrow> tenancy_db \<Rightarrow>
     (string option \<times> tenancy_db) res" where
  "pg_claim_invitation t user_id user_subject email display now d =
    (case normalize_email email of
       Inl e \<Rightarrow> Inl e
     | Inr normalized \<Rightarrow>
       claim_organization_invitation t (tc_org t) user_id user_subject normalized display now d)"

section \<open>Invitations in memory\<close>

type_synonym invitation_dict = "(string \<times> invitation_record) list"

definition im_list_invitations :: "invitation_dict \<Rightarrow> invitation_record list" where
  "im_list_invitations vs = sort_key (\<lambda>v. - ir_created v) (map snd vs)"

text \<open>\<open>ms\<close> are the members of the organization, as the member repository holds them.\<close>

definition im_create_invitation ::
    "tenant_context \<Rightarrow> string \<Rightarrow> string \<Rightarrow> request_principal option \<Rightarrow> int \<Rightarrow> member_dict \<Rightarrow> invitation_dict \<Rightarrow>
     (invitation_record \<times> invitation_dict) res" where
  "im_create_invitation t email role actor now ms vs =
    (case normalize_email email of
       Inl e \<Rightarrow> Inl e
     | Inr normalized \<Rightarrow>
       (case validate_role role of
          Inl e \<Rightarrow> Inl e
        | Inr clean_role \<Rightarrow>
          if forbids actor clean_role then Inl PermissionError
          else if list_ex (\<lambda>m. case mr_email m of None \<Rightarrow> False
                  | Some e \<Rightarrow> e \<noteq> [] \<and> py_lower (strip e) = normalized) (map snd ms)
          then Inl InvitationConflictError
          else if map_of vs normalized \<noteq> None then Inl InvitationConflictError
          else let iv = \<lparr>ir_org = tc_org t, ir_email = normalized, ir_role = clean_role,
                  ir_by = map_option rp_user_id actor, ir_created = now\<rparr>
            in Inr (iv, AList.update normalized iv vs)))"

definition im_cancel_invitation ::
    "string \<Rightarrow> request_principal option \<Rightarrow> invitation_dict \<Rightarrow> (bool \<times> invitation_dict) res" where
  "im_cancel_invitation email actor vs =
    (case normalize_email email of
       Inl e \<Rightarrow> Inl e
     | Inr normalized \<Rightarrow>
       (case map_of vs normalized of
          None \<Rightarrow> Inr (False, vs)
        | Some iv \<Rightarrow> if forbids actor (ir_role iv) then Inl PermissionError
            else Inr (True, AList.delete normalized vs)))"

definition im_claim_invitation ::
    "uuid \<Rightarrow> string \<Rightarrow> string \<Rightarrow> string option \<Rightarrow> int \<Rightarrow> member_dict \<times> invitation_dict \<Rightarrow>
     (string option \<times> member_dict \<times> invitation_dict) res" where
  "im_claim_invitation user_id user_subject email display now s = (case s of (ms, vs) \<Rightarrow>
     case normalize_email email of
       Inl e \<Rightarrow> Inl e
     | Inr normalized \<Rightarrow>
       (case map_of vs normalized of
          None \<Rightarrow> Inr (None, ms, vs)
        | Some iv \<Rightarrow>
          let m = \<lparr>mr_id = user_id, mr_user_id = user_id, mr_subject = user_subject, mr_email = Some normalized,
                mr_display = (if given display then display else Some (capitalize user_subject)),
                mr_role = ir_role iv, mr_created = now\<rparr>
          in Inr (Some (ir_role iv), AList.update user_subject m ms, AList.delete normalized vs)))"

end
