(* ===== verification/Member_Properties.thy ===== *)
theory Member_Properties
  imports Member_Store
begin

text \<open>
  What holds of members and invitations: the invariant of the tables under every operation, that an
  organization keeps an owner, who may change a membership, what an invitation leads to, and the
  contract that both member repositories implement.
\<close>

section \<open>Sequences of operations\<close>

text \<open>
  The operations of the service, by the identity that performs them, and those of the command line.
  \<open>/api/v2/me\<close> synchronises the profile of the caller.
\<close>

datatype tenancy_op =
    Ensure tenant_identity int
  | Authorize tenant_identity "string option" int
  | Sync tenant_identity "string option" "string option"
  | Grant tenant_identity string string "string option" "string option" "request_principal option" int
  | Update_role tenant_identity string string "request_principal option"
  | Revoke tenant_identity string "request_principal option"
  | Invite tenant_identity string string "request_principal option" int
  | Cancel_invite tenant_identity string "request_principal option"
  | Claim tenant_identity string "string option" int
  | Cli_organization string string
  | Cli_grant string string string int
  | Cli_revoke string string
  | Cli_bootstrap string string string int

definition tenant_of :: "(string \<Rightarrow> uuid) \<Rightarrow> tenant_identity \<Rightarrow> tenant_context" where
  "tenant_of u5 i = tenant_ctx u5 i ''owner''"

fun exec_tenancy :: "(string \<Rightarrow> uuid) \<Rightarrow> tenancy_op \<Rightarrow> tenancy_db \<Rightarrow> tenancy_db" where
  "exec_tenancy u5 (Ensure i now) d = commit (ensure_tenant u5 i now d) d"
| "exec_tenancy u5 (Authorize i e now) d = commit (authorize_tenant u5 i e now d) d"
| "exec_tenancy u5 (Sync i e n) d =
    commit (pg_sync_user_profile (tenant_of u5 i) (tc_user (tenant_of u5 i)) (ti_subject i) e n d) d"
| "exec_tenancy u5 (Grant i s r e n a now) d = commit (pg_grant_member u5 (tenant_of u5 i) s r e n a now d) d"
| "exec_tenancy u5 (Update_role i s r a) d = commit (pg_update_member_role u5 (tenant_of u5 i) s r a d) d"
| "exec_tenancy u5 (Revoke i s a) d = commit (pg_revoke_member u5 (tenant_of u5 i) s a d) d"
| "exec_tenancy u5 (Invite i e r a now) d = commit (pg_create_invitation (tenant_of u5 i) e r a now d) d"
| "exec_tenancy u5 (Cancel_invite i e a) d = commit (pg_cancel_invitation (tenant_of u5 i) e a d) d"
| "exec_tenancy u5 (Claim i e n now) d =
    commit (pg_claim_invitation (tenant_of u5 i) (tc_user (tenant_of u5 i)) (ti_subject i) e n now d) d"
| "exec_tenancy u5 (Cli_organization g n) d = create_organization u5 g n d"
| "exec_tenancy u5 (Cli_grant g s r now) d = commit (grant_membership u5 g s r now d) d"
| "exec_tenancy u5 (Cli_revoke g s) d = snd (revoke_membership u5 g s d)"
| "exec_tenancy u5 (Cli_bootstrap g n e now) d = snd (owner_bootstrap u5 g n e now d)"

text \<open>The names an operation derives identifiers from.\<close>

definition identity_names :: "tenant_identity \<Rightarrow> string set" where
  "identity_names i = {id_name ''organization'' (ti_slug i), id_name ''user'' (ti_subject i)}"

fun op_names :: "tenancy_op \<Rightarrow> string set" where
  "op_names (Ensure i now) = identity_names i"
| "op_names (Authorize i e now) = identity_names i"
| "op_names (Sync i e n) = identity_names i"
| "op_names (Grant i s r e n a now) = insert (id_name ''user'' s) (identity_names i)"
| "op_names (Update_role i s r a) = insert (id_name ''user'' s) (identity_names i)"
| "op_names (Revoke i s a) = insert (id_name ''user'' s) (identity_names i)"
| "op_names (Invite i e r a now) = identity_names i"
| "op_names (Cancel_invite i e a) = identity_names i"
| "op_names (Claim i e n now) = identity_names i"
| "op_names (Cli_organization g n) = {id_name ''organization'' g}"
| "op_names (Cli_grant g s r now) = {id_name ''organization'' g, id_name ''user'' s}"
| "op_names (Cli_revoke g s) = {id_name ''organization'' g, id_name ''user'' s}"
| "op_names (Cli_bootstrap g n e now) = {id_name ''organization'' g}"

section \<open>The invariant of the tables\<close>

text \<open>
  Primary keys are unique, foreign keys have their target, roles are among the four of the check
  constraint, and the identifiers of organizations and users are those of their slug and subject.
\<close>

definition tenancy_wf :: "(string \<Rightarrow> uuid) \<Rightarrow> string set \<Rightarrow> tenancy_db \<Rightarrow> bool" where
  "tenancy_wf u5 N d =
    (keyed og_id (organizations d) \<and> keyed us_id (users d) \<and> keyed mbkey (members d) \<and>
     keyed ivkey (invitations d) \<and>
     (\<forall>g \<in> set (organizations d). og_id g = stable_id u5 ''organization'' (og_slug g) \<and>
        id_name ''organization'' (og_slug g) \<in> N) \<and>
     (\<forall>u \<in> set (users d). us_id u = stable_id u5 ''user'' (us_subject u) \<and> id_name ''user'' (us_subject u) \<in> N) \<and>
     (\<forall>m \<in> set (members d). mb_role m \<in> set MEMBERSHIP_ROLES \<and>
        tget og_id (mb_org m) (organizations d) \<noteq> None \<and> tget us_id (mb_user m) (users d) \<noteq> None) \<and>
     (\<forall>v \<in> set (invitations d). iv_role v \<in> set MEMBERSHIP_ROLES \<and>
        tget og_id (iv_org v) (organizations d) \<noteq> None))"

lemma mbkey_role [simp]: "mbkey (mb_role_update f m) = mbkey m" "mb_org (mb_role_update f m) = mb_org m"
  "mb_user (mb_role_update f m) = mb_user m"
  by (simp_all add: mbkey_def)

lemma ivkey_role [simp]: "ivkey (iv_role_update f v) = ivkey v" "iv_org (iv_role_update f v) = iv_org v"
  by (simp_all add: ivkey_def)

lemma insert_user_Inr:
  "insert_user u d = Inr (x, d') \<longleftrightarrow>
    tget us_id (us_id u) (users d) = None \<and> \<not> subject_taken (us_subject u) (us_id u) (users d) \<and>
    d' = d\<lparr>users := users d @ [u]\<rparr>"
  by (auto simp: insert_user_def)

lemma insert_member_Inr:
  "insert_member m d = Inr (x, d') \<longleftrightarrow>
    membership (mb_org m) (mb_user m) d = None \<and> tget og_id (mb_org m) (organizations d) \<noteq> None \<and>
    tget us_id (mb_user m) (users d) \<noteq> None \<and> d' = d\<lparr>members := members d @ [m]\<rparr>"
  by (auto simp: insert_member_def)

lemma wf_insert_user:
  assumes "tenancy_wf u5 N d" "insert_user u d = Inr (x, d')"
    "us_id u = stable_id u5 ''user'' (us_subject u)" "id_name ''user'' (us_subject u) \<in> N"
  shows "tenancy_wf u5 N d'"
  using assms by (auto simp: tenancy_wf_def insert_user_Inr keyed_snoc split: option.splits)

lemma wf_users_tupd:
  assumes "tenancy_wf u5 N d" "\<And>u. us_id (f u) = us_id u" "\<And>u. us_subject (f u) = us_subject u"
  shows "tenancy_wf u5 N (d\<lparr>users := tupd us_id k f (users d)\<rparr>)"
  using assms by (auto simp: tenancy_wf_def table_simps set_tupd)

lemma wf_users_subject:
  assumes "tenancy_wf u5 N d" "id_name ''user'' s \<in> N"
  shows "tenancy_wf u5 N (d\<lparr>users := tupd us_id (stable_id u5 ''user'' s) (us_subject_update (\<lambda>_. s)) (users d)\<rparr>)"
  using assms by (auto simp: tenancy_wf_def table_simps set_tupd)

lemma wf_insert_member:
  assumes "tenancy_wf u5 N d" "insert_member m d = Inr (x, d')" "mb_role m \<in> set MEMBERSHIP_ROLES"
  shows "tenancy_wf u5 N d'"
  using assms by (auto simp: tenancy_wf_def insert_member_Inr keyed_snoc membership_def mbkey_def)

lemma wf_set_member_role:
  assumes "tenancy_wf u5 N d" "r \<in> set MEMBERSHIP_ROLES"
  shows "tenancy_wf u5 N (set_member_role org uid r d)"
  using assms by (auto simp: tenancy_wf_def set_member_role_def table_simps set_tupd)

lemma wf_delete_member: "tenancy_wf u5 N d \<Longrightarrow> tenancy_wf u5 N (delete_member org uid d)"
  by (simp add: tenancy_wf_def delete_member_def)

lemma wf_delete_invitation: "tenancy_wf u5 N d \<Longrightarrow> tenancy_wf u5 N (delete_invitation org e d)"
  by (simp add: tenancy_wf_def delete_invitation_def)

lemma wf_insert_invitation:
  assumes "tenancy_wf u5 N d" "tget ivkey (ivkey v) (invitations d) = None"
    "iv_role v \<in> set MEMBERSHIP_ROLES" "tget og_id (iv_org v) (organizations d) \<noteq> None"
  shows "tenancy_wf u5 N (d\<lparr>invitations := invitations d @ [v]\<rparr>)"
  using assms by (auto simp: tenancy_wf_def keyed_snoc)

lemma wf_upsert_member:
  assumes "tenancy_wf u5 N d" "upsert_member m d = Inr (x, d')" "mb_role m \<in> set MEMBERSHIP_ROLES"
  shows "tenancy_wf u5 N d'"
  using assms by (auto simp: upsert_member_def intro: wf_set_member_role wf_insert_member split: if_splits)

lemma wf_upsert_organization:
  assumes "tenancy_wf u5 N d" "upsert_organization (stable_id u5 ''organization'' g) g n d = Inr (x, d')"
    "id_name ''organization'' g \<in> N"
  shows "tenancy_wf u5 N d'"
proof (cases "tget og_id (stable_id u5 ''organization'' g) (organizations d)")
  case None
  then show ?thesis
    using assms by (auto simp: upsert_organization_def tenancy_wf_def keyed_snoc split: if_splits option.splits)
next
  case (Some r)
  then show ?thesis
    using assms by (auto simp: upsert_organization_def tenancy_wf_def table_simps set_tupd split: if_splits)
qed

lemma wf_claim_user:
  assumes "tenancy_wf u5 N d" "claim_user (stable_id u5 ''user'' s) s e n d = Inr (x, d')" "id_name ''user'' s \<in> N"
  shows "tenancy_wf u5 N d'"
  using assms by (auto simp: claim_user_def intro: wf_users_tupd wf_insert_user split: option.splits)

lemma invitation_role: "tenancy_wf u5 N d \<Longrightarrow> tget ivkey k (invitations d) = Some v \<Longrightarrow> iv_role v \<in> set MEMBERSHIP_ROLES"
  by (auto simp: tenancy_wf_def dest: tget_SomeD)

lemma validate_role_Inr: "validate_role r = Inr c \<Longrightarrow> c \<in> set MEMBERSHIP_ROLES"
  by (auto simp: validate_role_def Let_def split: if_splits)

lemma claimE:
  assumes "claim_organization_invitation t org uid s e n now d = Inr (x, d')"
  obtains (none) "x = None" "d' = d"
    | (claimed) v d1 d2 where "org = tc_org t" "uid = tc_user t"
        "tget ivkey (org, py_lower (pg_trim e)) (invitations d) = Some v" "x = Some (iv_role v)"
        "claim_user uid s (py_lower (pg_trim e)) n d = Inr ((), d1)"
        "upsert_member \<lparr>mb_org = org, mb_user = uid, mb_role = iv_role v, mb_created = now\<rparr> d1 = Inr ((), d2)"
        "d' = delete_invitation org (py_lower (pg_trim e)) d2"
  using assms
  by (auto simp: claim_organization_invitation_def Let_def split: if_splits sum.splits prod.splits option.splits)

lemma wf_claim:
  assumes wf: "tenancy_wf u5 N d" and N: "id_name ''user'' s \<in> N"
    and r: "claim_organization_invitation t org (stable_id u5 ''user'' s) s e n now d = Inr (x, d')"
  shows "tenancy_wf u5 N d'"
  using r
proof (cases rule: claimE)
  case (claimed v d1 d2)
  have "tenancy_wf u5 N d1"
    by (rule wf_claim_user [OF wf claimed(5) N])
  then have "tenancy_wf u5 N d2"
    by (rule wf_upsert_member [OF _ claimed(6)]) (simp add: invitation_role [OF wf claimed(3)])
  then show ?thesis
    unfolding claimed(7) by (rule wf_delete_invitation)
qed (simp add: wf)

lemma wf_ensure_user:
  assumes "tenancy_wf u5 N d" "ensure_user (stable_id u5 ''user'' s) s d = Inr (x, d')" "id_name ''user'' s \<in> N"
  shows "tenancy_wf u5 N d'"
  using assms by (auto simp: ensure_user_def intro: wf_insert_user split: if_splits)

lemma wf_grant_user:
  assumes "tenancy_wf u5 N d" "grant_user (stable_id u5 ''user'' s) s d = Inr (x, d')" "id_name ''user'' s \<in> N"
  shows "tenancy_wf u5 N d'"
  using assms by (auto simp: grant_user_def intro: wf_insert_user wf_users_subject split: if_splits)

lemma wf_sync_user:
  assumes "tenancy_wf u5 N d" "sync_user (stable_id u5 ''user'' s) s e n d = Inr (x, d')" "id_name ''user'' s \<in> N"
  shows "tenancy_wf u5 N d'"
  using assms by (auto simp: sync_user_def intro: wf_users_tupd wf_insert_user split: option.splits)

lemma tenant_ctx_simps [simp]:
  "tc_org (tenant_ctx u5 i r) = stable_id u5 ''organization'' (ti_slug i)"
  "tc_user (tenant_ctx u5 i r) = stable_id u5 ''user'' (ti_subject i)"
  "tc_slug (tenant_ctx u5 i r) = ti_slug i"
  "tc_subject (tenant_ctx u5 i r) = ti_subject i"
  by (simp_all add: tenant_ctx_def)

lemma tenant_of_simps [simp]:
  "tc_org (tenant_of u5 i) = stable_id u5 ''organization'' (ti_slug i)"
  "tc_user (tenant_of u5 i) = stable_id u5 ''user'' (ti_subject i)"
  "tc_slug (tenant_of u5 i) = ti_slug i"
  "tc_subject (tenant_of u5 i) = ti_subject i"
  by (simp_all add: tenant_of_def)

lemma ensure_tenantE:
  assumes "ensure_tenant u5 i now d = Inr (t, d')"
  obtains d1 d2 where "t = tenant_of u5 i"
    "upsert_organization (stable_id u5 ''organization'' (ti_slug i)) (ti_slug i) (ti_name i) d = Inr ((), d1)"
    "ensure_user (stable_id u5 ''user'' (ti_subject i)) (ti_subject i) d1 = Inr ((), d2)"
    "members_insert_check t \<lparr>mb_org = tc_org t, mb_user = tc_user t, mb_role = ''owner'', mb_created = now\<rparr> d2"
    "membership (tc_org t) (tc_user t) d2 \<noteq> None \<and> d' = d2 \<or>
     membership (tc_org t) (tc_user t) d2 = None \<and>
     insert_member \<lparr>mb_org = tc_org t, mb_user = tc_user t, mb_role = ''owner'', mb_created = now\<rparr> d2 = Inr ((), d')"
  using assms
  by (auto simp: ensure_tenant_def Let_def tenant_of_def split: if_splits sum.splits prod.splits)

lemma pg_grantE:
  assumes "pg_grant_member u5 t s r e n a now d = Inr (x, d')"
  obtains u m d1 where "r \<in> set MEMBERSHIP_ROLES" "\<not> forbids a r"
    "locked_membership t (stable_id u5 ''user'' s) d = None" "users_write t (stable_id u5 ''user'' s) d"
    "u = \<lparr>us_id = stable_id u5 ''user'' s, us_subject = s, us_email = e, us_display = n\<rparr>"
    "m = \<lparr>mb_org = tc_org t, mb_user = stable_id u5 ''user'' s, mb_role = r, mb_created = now\<rparr>"
    "insert_user u d = Inr ((), d1)" "members_insert_check t m d1" "insert_member m d1 = Inr ((), d')"
    "x = \<lparr>mr_id = stable_id u5 ''user'' s, mr_user_id = stable_id u5 ''user'' s, mr_subject = s, mr_email = e,
       mr_display = n, mr_role = r, mr_created = now\<rparr>"
  using assms by (auto simp: pg_grant_member_def Let_def split: if_splits sum.splits prod.splits)

lemma pg_updateE:
  assumes "pg_update_member_role u5 t s r a d = Inr (x, d')"
  obtains m u where "r \<in> set MEMBERSHIP_ROLES" "users_write t (stable_id u5 ''user'' s) d"
    "membership (tc_org t) (stable_id u5 ''user'' s) d = Some m" "actor_manages t (mb_role m) d"
    "tget us_id (stable_id u5 ''user'' s) (users d) = Some u"
    "\<not> forbids a (mb_role m)" "\<not> forbids a r"
    "mb_role m = ''owner'' \<Longrightarrow> r \<noteq> ''owner'' \<Longrightarrow> 1 < owner_count (tc_org t) d" "actor_manages t r d"
    "x = (member_of_rows u m)\<lparr>mr_role := r\<rparr>" "d' = set_member_role (tc_org t) (stable_id u5 ''user'' s) r d"
  using assms
  by (fastforce simp: pg_update_member_role_def locked_membership_def Let_def split: if_splits option.splits)

lemma pg_revokeE:
  assumes "pg_revoke_member u5 t s a d = Inr (x, d')"
  obtains m where "membership (tc_org t) (stable_id u5 ''user'' s) d = Some m" "actor_manages t (mb_role m) d"
    "\<not> forbids a (mb_role m)" "mb_role m = ''owner'' \<Longrightarrow> 1 < owner_count (tc_org t) d"
    "x = True" "d' = delete_member (tc_org t) (stable_id u5 ''user'' s) d"
  using assms
  by (fastforce simp: pg_revoke_member_def locked_membership_def Let_def split: if_splits option.splits)

lemma pg_create_invitationE:
  assumes "pg_create_invitation t e r a now d = Inr (x, d')"
  obtains em ro v where "normalize_email e = Inr em" "validate_role r = Inr ro"
    "v = \<lparr>iv_org = tc_org t, iv_email = em, iv_role = ro, iv_by = map_option rp_user_id a, iv_created = now\<rparr>"
    "\<not> forbids a ro" "\<not> email_of_member (tc_org t) em d" "invitations_insert_check t v d" "actor_is_manager t d"
    "tget ivkey (tc_org t, em) (invitations d) = None" "tget og_id (tc_org t) (organizations d) \<noteq> None"
    "x = invitation_of_row v" "d' = d\<lparr>invitations := invitations d @ [v]\<rparr>"
  using assms
  by (auto simp: pg_create_invitation_def Let_def split: if_splits sum.splits)

lemma pg_cancelE:
  assumes "pg_cancel_invitation t e a d = Inr (x, d')"
  obtains "d' = d" | em where "d' = delete_invitation (tc_org t) em d"
  using assms
  by (auto simp: pg_cancel_invitation_def Let_def split: if_splits sum.splits option.splits)

lemma authorizeE:
  assumes "authorize_tenant u5 i e now d = Inr (t, d')"
  obtains (member) r where "authorized_role (tenant_of u5 i) d = Some r" "t = with_role (tenant_of u5 i) r" "d' = d"
    | (invited) em r where "authorized_role (tenant_of u5 i) d = None" "e = Some em" "strip em \<noteq> []"
        "claim_organization_invitation (tenant_of u5 i) (tc_org (tenant_of u5 i)) (tc_user (tenant_of u5 i))
           (ti_subject i) (strip em) None now d = Inr (Some r, d')" "t = with_role (tenant_of u5 i) r"
  using assms
  by (auto simp: authorize_tenant_def Let_def tenant_of_def split: if_splits sum.splits option.splits prod.splits)

text \<open>Each operation of a sequence keeps the invariant.\<close>

lemma wf_ensure:
  assumes "tenancy_wf u5 N d" "identity_names i \<subseteq> N" "ensure_tenant u5 i now d = Inr (t, d')"
  shows "tenancy_wf u5 N d'"
  using assms(3)
proof (rule ensure_tenantE)
  fix d1 d2
  let ?m = "\<lparr>mb_org = tc_org t, mb_user = tc_user t, mb_role = ''owner'', mb_created = now\<rparr>"
  assume 1: "upsert_organization (stable_id u5 ''organization'' (ti_slug i)) (ti_slug i) (ti_name i) d = Inr ((), d1)"
    and 2: "ensure_user (stable_id u5 ''user'' (ti_subject i)) (ti_subject i) d1 = Inr ((), d2)"
    and 3: "membership (tc_org t) (tc_user t) d2 \<noteq> None \<and> d' = d2 \<or>
      membership (tc_org t) (tc_user t) d2 = None \<and> insert_member ?m d2 = Inr ((), d')"
  have names: "id_name ''organization'' (ti_slug i) \<in> N" "id_name ''user'' (ti_subject i) \<in> N"
    using assms(2) by (auto simp: identity_names_def)
  have wf2: "tenancy_wf u5 N d2"
    by (rule wf_ensure_user [OF wf_upsert_organization [OF assms(1) 1 names(1)] 2 names(2)])
  show ?thesis
    using 3
  proof (elim disjE conjE)
    assume "insert_member ?m d2 = Inr ((), d')"
    then show ?thesis
      by (rule wf_insert_member [OF wf2]) (simp add: MEMBERSHIP_ROLES_def)
  qed (simp add: wf2)
qed

lemma wf_authorize:
  assumes "tenancy_wf u5 N d" "identity_names i \<subseteq> N" "authorize_tenant u5 i e now d = Inr (t, d')"
  shows "tenancy_wf u5 N d'"
  using assms(3)
proof (cases rule: authorizeE)
  case (invited em r)
  have "id_name ''user'' (ti_subject i) \<in> N"
    using assms(2) by (simp add: identity_names_def)
  then show ?thesis
    using wf_claim [OF assms(1)] invited(4) unfolding tenant_of_simps by blast
qed (simp add: assms(1))

lemma wf_sync:
  assumes "tenancy_wf u5 N d" "id_name ''user'' s \<in> N"
    "pg_sync_user_profile t (stable_id u5 ''user'' s) s e n d = Inr (x, d')"
  shows "tenancy_wf u5 N d'"
  using assms by (auto simp: pg_sync_user_profile_def intro: wf_sync_user split: if_splits)

lemma wf_grant:
  assumes "tenancy_wf u5 N d" "id_name ''user'' s \<in> N" "pg_grant_member u5 t s r e n a now d = Inr (x, d')"
  shows "tenancy_wf u5 N d'"
  using assms(3)
proof (rule pg_grantE)
  fix u m d1
  assume r: "r \<in> set MEMBERSHIP_ROLES"
    and u: "u = \<lparr>us_id = stable_id u5 ''user'' s, us_subject = s, us_email = e, us_display = n\<rparr>"
    and m: "m = \<lparr>mb_org = tc_org t, mb_user = stable_id u5 ''user'' s, mb_role = r, mb_created = now\<rparr>"
    and 1: "insert_user u d = Inr ((), d1)" and 2: "insert_member m d1 = Inr ((), d')"
  have "tenancy_wf u5 N d1"
    by (rule wf_insert_user [OF assms(1) 1]) (simp_all add: u assms(2))
  then show ?thesis
    by (rule wf_insert_member [OF _ 2]) (simp add: m r)
qed

lemma wf_invite:
  assumes "tenancy_wf u5 N d" "pg_create_invitation t e r a now d = Inr (x, d')"
  shows "tenancy_wf u5 N d'"
  using assms(2)
proof (rule pg_create_invitationE)
  fix em ro v
  assume "validate_role r = Inr ro"
    and v: "v = \<lparr>iv_org = tc_org t, iv_email = em, iv_role = ro, iv_by = map_option rp_user_id a, iv_created = now\<rparr>"
    and "tget ivkey (tc_org t, em) (invitations d) = None" "tget og_id (tc_org t) (organizations d) \<noteq> None"
    and d': "d' = d\<lparr>invitations := invitations d @ [v]\<rparr>"
  then show ?thesis
    unfolding d' by (intro wf_insert_invitation assms(1)) (auto simp: v ivkey_def dest: validate_role_Inr)
qed

lemma wf_cli_grant:
  assumes "tenancy_wf u5 N d" "id_name ''user'' s \<in> N" "grant_membership u5 g s r now d = Inr (x, d')"
  shows "tenancy_wf u5 N d'"
proof -
  obtain c d1 where c: "validate_role r = Inr c" and 1: "grant_user (stable_id u5 ''user'' s) s d = Inr ((), d1)"
    and 2: "upsert_member \<lparr>mb_org = stable_id u5 ''organization'' g, mb_user = stable_id u5 ''user'' s, mb_role = c,
      mb_created = now\<rparr> d1 = Inr (x, d')"
    using assms(3) by (auto simp: grant_membership_def Let_def split: if_splits sum.splits)
  show ?thesis
    by (rule wf_upsert_member [OF wf_grant_user [OF assms(1) 1 assms(2)] 2]) (simp add: validate_role_Inr [OF c])
qed

lemma wf_create_organization:
  "tenancy_wf u5 N d \<Longrightarrow> id_name ''organization'' g \<in> N \<Longrightarrow> tenancy_wf u5 N (create_organization u5 g n d)"
  unfolding create_organization_def by (rule commit_keeps) (auto intro: wf_upsert_organization)

lemma wf_owner_invitation:
  assumes "tenancy_wf u5 N d" "upsert_owner_invitation org e now d = Inr (x, d')"
  shows "tenancy_wf u5 N d'"
proof (cases "tget ivkey (org, e) (invitations d) = None")
  case True
  then show ?thesis
    using assms by (auto simp: upsert_owner_invitation_def ivkey_def MEMBERSHIP_ROLES_def intro: wf_insert_invitation split: if_splits)
next
  case False
  then have "d' = d\<lparr>invitations := tupd ivkey (org, e) (iv_role_update (\<lambda>_. ''owner'')) (invitations d)\<rparr>"
    using assms(2) by (simp add: upsert_owner_invitation_def)
  then show ?thesis
    using assms(1) by (auto simp: tenancy_wf_def table_simps set_tupd MEMBERSHIP_ROLES_def)
qed

lemma wf_bootstrap:
  assumes "tenancy_wf u5 N d" "id_name ''organization'' g \<in> N"
  shows "tenancy_wf u5 N (snd (owner_bootstrap u5 g n e now d))"
proof -
  have wf1: "tenancy_wf u5 N (create_organization u5 g n d)"
    using assms by (rule wf_create_organization)
  have "tenancy_wf u5 N d2" if "bootstrap_transaction org em now (create_organization u5 g n d) = Inr (s, d2)" for org em s d2
    using that wf1 by (auto simp: bootstrap_transaction_def Let_def intro: wf_owner_invitation split: if_splits sum.splits)
  then show ?thesis
    using assms(1) wf1 by (auto simp: owner_bootstrap_def Let_def split: sum.splits)
qed

lemma wf_exec:
  assumes "tenancy_wf u5 N d" "op_names p \<subseteq> N"
  shows "tenancy_wf u5 N (exec_tenancy u5 p d)"
  using assms
proof (cases p)
  case (Ensure i now)
  then show ?thesis
    using assms by (auto intro: commit_keeps wf_ensure)
next
  case (Authorize i e now)
  then show ?thesis
    using assms by (auto intro: commit_keeps wf_authorize)
next
  case (Sync i e n)
  then show ?thesis
    using assms by (auto simp: identity_names_def intro!: commit_keeps [where P = "tenancy_wf u5 N"] intro: wf_sync)
next
  case (Grant i s r e n a now)
  then show ?thesis
    using assms by (auto intro!: commit_keeps [where P = "tenancy_wf u5 N"] intro: wf_grant)
next
  case (Update_role i s r a)
  then show ?thesis
    using assms(1) by (auto intro!: commit_keeps [where P = "tenancy_wf u5 N"] wf_set_member_role elim: pg_updateE)
next
  case (Revoke i s a)
  then show ?thesis
    using assms(1) by (auto intro!: commit_keeps [where P = "tenancy_wf u5 N"] wf_delete_member elim: pg_revokeE)
next
  case (Invite i e r a now)
  then show ?thesis
    using assms(1) by (auto intro!: commit_keeps [where P = "tenancy_wf u5 N"] intro: wf_invite)
next
  case (Cancel_invite i e a)
  then show ?thesis
    using assms(1) by (auto intro!: commit_keeps [where P = "tenancy_wf u5 N"] wf_delete_invitation elim: pg_cancelE)
next
  case (Claim i e n now)
  then show ?thesis
    using assms by (auto simp: identity_names_def pg_claim_invitation_def intro!: commit_keeps [where P = "tenancy_wf u5 N"]
        intro: wf_claim split: sum.splits)
next
  case (Cli_grant g s r now)
  then show ?thesis
    using assms by (auto intro!: commit_keeps [where P = "tenancy_wf u5 N"] intro: wf_cli_grant)
qed (auto simp: revoke_membership_def Let_def intro: wf_create_organization wf_delete_member wf_bootstrap)

section \<open>Roles after an operation\<close>

lemma members_unchanged:
  "insert_user u d = Inr (x, d') \<Longrightarrow> members d' = members d \<and> invitations d' = invitations d"
  "claim_user uid s e n d = Inr (x, d') \<Longrightarrow> members d' = members d \<and> invitations d' = invitations d"
  "ensure_user uid s d = Inr (x, d') \<Longrightarrow> members d' = members d \<and> invitations d' = invitations d"
  "sync_user uid s em n d = Inr (x, d') \<Longrightarrow> members d' = members d \<and> invitations d' = invitations d"
  "upsert_organization g sl nm d = Inr (x, d') \<Longrightarrow> members d' = members d \<and> invitations d' = invitations d"
  by (auto simp: insert_user_def claim_user_def ensure_user_def sync_user_def upsert_organization_def
      split: if_splits option.splits)

lemma roles_of_members:
  assumes "members d' = members d"
  shows "membership o' u d' = membership o' u d" "role_in o' u d' = role_in o' u d"
    "current_actor_role t d' = current_actor_role t d" "actor_manages t r d' = actor_manages t r d"
    "actor_is_manager t d' = actor_is_manager t d" "organization_has_members t d' = organization_has_members t d"
    "members_insert_check t m d' = members_insert_check t m d" "owner_count o' d' = owner_count o' d"
  using assms
  by (simp_all add: membership_def role_in_def current_actor_role_def actor_manages_def actor_is_manager_def
      organization_has_members_def members_insert_check_def owner_count_def)

lemma tget_filter_key: "tget key k (filter (\<lambda>r. key r \<noteq> k0) rows) = (if k = k0 then None else tget key k rows)"
  by (induction rows) auto

lemma role_in_insert_member:
  "insert_member m d = Inr (x, d') \<Longrightarrow>
    role_in o' u d' = (if (o', u) = (mb_org m, mb_user m) then Some (mb_role m) else role_in o' u d)"
  by (auto simp: insert_member_Inr role_in_def membership_def mbkey_def split: option.splits)

lemma role_in_set_member_role:
  "role_in o' u (set_member_role org uid r d) =
    (if (o', u) = (org, uid) \<and> role_in org uid d \<noteq> None then Some r else role_in o' u d)"
  by (auto simp: set_member_role_def role_in_def membership_def table_simps)

lemma role_in_delete_member:
  "role_in o' u (delete_member org uid d) = (if (o', u) = (org, uid) then None else role_in o' u d)"
  by (simp add: delete_member_def role_in_def membership_def tget_filter_key)

lemma role_in_upsert_member:
  assumes "upsert_member m d = Inr (x, d')"
  shows "role_in o' u d' = (if (o', u) = (mb_org m, mb_user m) then Some (mb_role m) else role_in o' u d)"
proof (cases "membership (mb_org m) (mb_user m) d = None")
  case True
  then show ?thesis
    using assms role_in_insert_member by (simp add: upsert_member_def)
next
  case False
  then have "role_in (mb_org m) (mb_user m) d \<noteq> None" "d' = set_member_role (mb_org m) (mb_user m) (mb_role m) d"
    using assms by (simp_all add: role_in_def upsert_member_def)
  then show ?thesis
    by (simp add: role_in_set_member_role)
qed

lemma delete_invitation_same [simp]:
  "members (delete_invitation org e d) = members d" "users (delete_invitation org e d) = users d"
  "organizations (delete_invitation org e d) = organizations d"
  by (simp_all add: delete_invitation_def)

lemma role_in_delete_invitation [simp]: "role_in o' u (delete_invitation org e d) = role_in o' u d"
  by (rule roles_of_members(2)) simp

lemma upsert_member_invitations: "upsert_member m d = Inr (x, d') \<Longrightarrow> invitations d' = invitations d"
  by (auto simp: upsert_member_def set_member_role_def insert_member_Inr split: if_splits)

lemma roles_after_claim:
  assumes "claim_organization_invitation t org uid s e n now d = Inr (x, d')"
  obtains (none) "x = None" "d' = d"
    | (claimed) v where "org = tc_org t" "uid = tc_user t" "v \<in> set (invitations d)" "iv_org v = org"
        "iv_email v = py_lower (pg_trim e)" "x = Some (iv_role v)"
        "\<And>o' u. role_in o' u d' = (if (o', u) = (org, uid) then Some (iv_role v) else role_in o' u d)"
        "invitations d' = filter (\<lambda>w. ivkey w \<noteq> ivkey v) (invitations d)"
  using assms
proof (cases rule: claimE)
  case (claimed v d1 d2)
  have v: "v \<in> set (invitations d)" "ivkey v = (org, py_lower (pg_trim e))"
    using tget_SomeD [OF claimed(3)] by auto
  have same: "members d1 = members d" "invitations d1 = invitations d"
    using members_unchanged(2) [OF claimed(5)] by auto
  have "role_in o' u d' = (if (o', u) = (org, uid) then Some (iv_role v) else role_in o' u d)" for o' u
    using role_in_upsert_member [OF claimed(6), of o' u] roles_of_members(2) [OF same(1), of o' u]
    by (simp add: claimed(7))
  moreover have "invitations d' = filter (\<lambda>w. ivkey w \<noteq> ivkey v) (invitations d)"
    using upsert_member_invitations [OF claimed(6)] same(2) v(2) by (simp add: claimed(7) delete_invitation_def)
  moreover have "iv_org v = org" "iv_email v = py_lower (pg_trim e)"
    using v(2) by (simp_all add: ivkey_def)
  ultimately show ?thesis
    using claimed(1,2,4) v(1) that(2) by simp
qed (use that(1) in simp)

text \<open>Distinct names have distinct identifiers: then the tables agree with the names they were looked up by.\<close>

lemma id_name_inj [simp]: "id_name k a = id_name k b \<longleftrightarrow> a = b"
  by (simp add: id_name_def)

lemma unauthorized_no_membership:
  assumes wf: "tenancy_wf u5 N d" and inj: "inj_on u5 N" and N: "identity_names i \<subseteq> N"
    and none: "authorized_role (tenant_of u5 i) d = None"
  shows "role_in (tc_org (tenant_of u5 i)) (tc_user (tenant_of u5 i)) d = None"
proof (rule ccontr)
  let ?t = "tenant_of u5 i"
  assume "role_in (tc_org ?t) (tc_user ?t) d \<noteq> None"
  then obtain m where m: "membership (tc_org ?t) (tc_user ?t) d = Some m"
    by (auto simp: role_in_def)
  then have "m \<in> set (members d)" "mb_org m = tc_org ?t" "mb_user m = tc_user ?t"
    using tget_SomeD unfolding membership_def mbkey_def by fastforce+
  then obtain g u where g: "tget og_id (tc_org ?t) (organizations d) = Some g"
    and u: "tget us_id (tc_user ?t) (users d) = Some u"
    using wf unfolding tenancy_wf_def by (metis option.exhaust)
  have g': "u5 (id_name ''organization'' (og_slug g)) = u5 (id_name ''organization'' (ti_slug i))"
    "id_name ''organization'' (og_slug g) \<in> N"
    using wf tget_SomeD [OF g] by (auto simp: tenancy_wf_def stable_id_def)
  have u': "u5 (id_name ''user'' (us_subject u)) = u5 (id_name ''user'' (ti_subject i))"
    "id_name ''user'' (us_subject u) \<in> N"
    using wf tget_SomeD [OF u] by (auto simp: tenancy_wf_def stable_id_def)
  have "id_name ''organization'' (ti_slug i) \<in> N" "id_name ''user'' (ti_subject i) \<in> N"
    using N by (auto simp: identity_names_def)
  then have "og_slug g = ti_slug i" "us_subject u = ti_subject i"
    using inj_onD [OF inj g'(1) g'(2)] inj_onD [OF inj u'(1) u'(2)] by simp_all
  then show False
    using none m g u by (simp add: authorized_role_def)
qed

section \<open>An organization keeps an owner\<close>

lemma member_roleI: "keyed mbkey (members d) \<Longrightarrow> m \<in> set (members d) \<Longrightarrow> role_in (mb_org m) (mb_user m) d = Some (mb_role m)"
  using tget_Some_iff [of mbkey "members d" "(mb_org m, mb_user m)" m]
  by (simp add: role_in_def membership_def mbkey_def [of m])

lemma member_roleE:
  assumes "role_in org uid d = Some r"
  obtains m where "m \<in> set (members d)" "mb_org m = org" "mb_user m = uid" "mb_role m = r"
  using assms tget_SomeD [of mbkey "(org, uid)" "members d"]
  by (auto simp: role_in_def membership_def mbkey_def)

definition owned :: "uuid \<Rightarrow> tenancy_db \<Rightarrow> bool" where
  "owned org d = (\<exists>uid. role_in org uid d = Some ''owner'')"

lemma ownedI: "role_in org uid d = Some ''owner'' \<Longrightarrow> owned org d"
  unfolding owned_def by (rule exI)

lemma owner_count_pos:
  assumes "keyed mbkey (members d)"
  shows "0 < owner_count org d \<longleftrightarrow> owned org d"
proof
  assume "0 < owner_count org d"
  then obtain m where "m \<in> set (members d)" "mb_org m = org" "mb_role m = ''owner''"
    by (auto simp: owner_count_def filter_empty_conv)
  then show "owned org d"
    using member_roleI [OF assms, of m] by (intro ownedI [of org "mb_user m"]) simp
next
  assume "owned org d"
  then obtain m where "m \<in> set (members d)" "mb_org m = org" "mb_role m = ''owner''"
    unfolding owned_def by (elim exE member_roleE) blast
  then show "0 < owner_count org d"
    by (auto simp: owner_count_def filter_empty_conv)
qed

text \<open>Two owners: one of them is not the user at hand.\<close>

lemma other_owner:
  assumes k: "keyed mbkey (members d)" and two: "1 < owner_count org d"
  obtains uid' where "uid' \<noteq> uid" "role_in org uid' d = Some ''owner''"
proof -
  define P :: "member_row \<Rightarrow> bool" where "P m = (mb_org m = org \<and> mb_role m = ''owner'')" for m
  obtain a b xs where abs: "filter P (members d) = a # b # xs"
    using two by (cases "filter P (members d)" rule: remdups_adj.cases) (auto simp: owner_count_def P_def [abs_def])
  have "keyed mbkey (filter P (members d))"
    using k by simp
  then have "mbkey a \<noteq> mbkey b"
    by (simp add: abs keyed_def)
  moreover have ab: "a \<in> set (members d)" "b \<in> set (members d)" "P a" "P b"
    using arg_cong [OF abs, of set] by auto
  ultimately have "mb_user a \<noteq> mb_user b"
    by (simp add: P_def mbkey_def)
  then have "mb_user a \<noteq> uid \<or> mb_user b \<noteq> uid"
    by auto
  then show ?thesis
    using that [of "mb_user a"] that [of "mb_user b"] member_roleI [OF k ab(1)] member_roleI [OF k ab(2)] ab(3,4)
    by (auto simp: P_def)
qed

section \<open>Who may change a membership\<close>

text \<open>
  The actor may manage an absent membership when it is an owner or an admin, and a present one when
  the policies let it manage its role.
\<close>

definition manages :: "tenant_context \<Rightarrow> string option \<Rightarrow> tenancy_db \<Rightarrow> bool" where
  "manages t r d = (case r of None \<Rightarrow> actor_is_manager t d | Some role \<Rightarrow> actor_manages t role d)"

text \<open>
  The ways the role of a user of the organization may become \<open>new\<close>: by an actor that manages the old
  and the new role, by the first user of an empty organization, or by consuming an invitation.
\<close>

definition permitted :: "tenant_context \<Rightarrow> uuid \<Rightarrow> string option \<Rightarrow> tenancy_db \<Rightarrow> tenancy_db \<Rightarrow> bool" where
  "permitted t uid new d d' =
    (manages t (role_in (tc_org t) uid d) d \<and> manages t new d \<or>
     uid = tc_user t \<and> role_in (tc_org t) uid d = None \<and> new = Some ''owner'' \<and> \<not> organization_has_members t d \<or>
     uid = tc_user t \<and> role_in (tc_org t) uid d = None \<and>
       (\<exists>v \<in> set (invitations d). iv_org v = tc_org t \<and> new = Some (iv_role v) \<and> v \<notin> set (invitations d')))"

definition controlled :: "tenant_context \<Rightarrow> tenancy_db \<Rightarrow> tenancy_db \<Rightarrow> bool" where
  "controlled t d d' =
    ((\<forall>o' u. role_in o' u d' = role_in o' u d) \<or>
     (\<exists>uid new. (\<forall>o' u. role_in o' u d' = (if (o', u) = (tc_org t, uid) then new else role_in o' u d)) \<and>
        permitted t uid new d d' \<and>
        (role_in (tc_org t) uid d = Some ''owner'' \<longrightarrow> new \<noteq> Some ''owner'' \<longrightarrow> 1 < owner_count (tc_org t) d)))"

lemma controlled_same:
  assumes "members d' = members d"
  shows "controlled t d d'"
  unfolding controlled_def by (rule disjI1) (simp add: roles_of_members(2) [OF assms])

lemma controlledI:
  assumes "\<And>o' u. role_in o' u d' = (if (o', u) = (tc_org t, uid) then new else role_in o' u d)"
    "permitted t uid new d d'"
    "role_in (tc_org t) uid d = Some ''owner'' \<Longrightarrow> new \<noteq> Some ''owner'' \<Longrightarrow> 1 < owner_count (tc_org t) d"
  shows "controlled t d d'"
  unfolding controlled_def
  by (rule disjI2, rule exI [of _ uid], rule exI [of _ new]) (use assms in simp)

lemma managesI: "actor_manages t r d \<Longrightarrow> manages t (Some r) d" "actor_manages t r d \<Longrightarrow> manages t None d"
  by (auto simp: manages_def actor_manages_def actor_is_manager_def)

text \<open>An insert that passes the policy, into an absent membership.\<close>

lemma controlled_insert:
  assumes same: "members d1 = members d" and check: "members_insert_check t m d1"
    and ins: "insert_member m d1 = Inr (x, d')"
  shows "controlled t d d'"
proof (rule controlledI)
  have m: "mb_org m = tc_org t" and c: "members_insert_check t m d"
    using check roles_of_members(7) [OF same] by (simp_all add: members_insert_check_def)
  show "role_in o' u d' = (if (o', u) = (tc_org t, mb_user m) then Some (mb_role m) else role_in o' u d)" for o' u
    using role_in_insert_member [OF ins, of o' u] roles_of_members(2) [OF same, of o' u] by (simp add: m)
  have none: "role_in (tc_org t) (mb_user m) d = None"
    using ins roles_of_members(1) [OF same] by (simp add: insert_member_Inr m role_in_def)
  show "permitted t (mb_user m) (Some (mb_role m)) d d'"
    using c none managesI [of t "mb_role m" d] by (auto simp: permitted_def members_insert_check_def)
  show "1 < owner_count (tc_org t) d" if "role_in (tc_org t) (mb_user m) d = Some ''owner''"
    using that none by simp
qed

lemma controlled_ensure:
  assumes "ensure_tenant u5 i now d = Inr (t, d')"
  shows "controlled (tenant_of u5 i) d d'"
  using assms
proof (rule ensure_tenantE)
  fix d1 d2
  let ?m = "\<lparr>mb_org = tc_org t, mb_user = tc_user t, mb_role = ''owner'', mb_created = now\<rparr>"
  assume t: "t = tenant_of u5 i"
    and 1: "upsert_organization (stable_id u5 ''organization'' (ti_slug i)) (ti_slug i) (ti_name i) d = Inr ((), d1)"
    and 2: "ensure_user (stable_id u5 ''user'' (ti_subject i)) (ti_subject i) d1 = Inr ((), d2)"
    and 3: "members_insert_check t ?m d2"
    and 4: "membership (tc_org t) (tc_user t) d2 \<noteq> None \<and> d' = d2 \<or>
      membership (tc_org t) (tc_user t) d2 = None \<and> insert_member ?m d2 = Inr ((), d')"
  have same: "members d2 = members d"
    using members_unchanged(5) [OF 1] members_unchanged(3) [OF 2] by simp
  show ?thesis
    using 4
  proof (elim disjE conjE)
    assume "insert_member ?m d2 = Inr ((), d')"
    then show ?thesis
      unfolding t [symmetric] by (rule controlled_insert [OF same 3])
  qed (simp add: controlled_same same)
qed

lemma controlled_grant:
  assumes "pg_grant_member u5 t s r e n a now d = Inr (x, d')"
  shows "controlled t d d'"
  using assms
proof (rule pg_grantE)
  fix u m d1
  assume "insert_user u d = Inr ((), d1)"
  then have "members d1 = members d"
    using members_unchanged(1) by simp
  then show "members_insert_check t m d1 \<Longrightarrow> insert_member m d1 = Inr ((), d') \<Longrightarrow> ?thesis"
    by (rule controlled_insert)
qed

lemma controlled_update:
  assumes "pg_update_member_role u5 t s r a d = Inr (x, d')"
  shows "controlled t d d'"
  using assms
proof (rule pg_updateE)
  fix m u
  let ?u = "stable_id u5 ''user'' s"
  assume m: "membership (tc_org t) ?u d = Some m" "actor_manages t (mb_role m) d" "actor_manages t r d"
    and last: "mb_role m = ''owner'' \<Longrightarrow> r \<noteq> ''owner'' \<Longrightarrow> 1 < owner_count (tc_org t) d"
    and d': "d' = set_member_role (tc_org t) ?u r d"
  have role: "role_in (tc_org t) ?u d = Some (mb_role m)"
    using m(1) by (simp add: role_in_def)
  show ?thesis
  proof (rule controlledI)
    show "role_in o' u d' = (if (o', u) = (tc_org t, ?u) then Some r else role_in o' u d)" for o' u
      by (simp add: d' role_in_set_member_role role)
    show "permitted t ?u (Some r) d d'"
      using m(2,3) by (simp add: permitted_def role managesI)
    show "1 < owner_count (tc_org t) d" if "role_in (tc_org t) ?u d = Some ''owner''" "Some r \<noteq> Some ''owner''"
      using that last role by simp
  qed
qed

lemma controlled_revoke:
  assumes "pg_revoke_member u5 t s a d = Inr (x, d')"
  shows "controlled t d d'"
  using assms
proof (rule pg_revokeE)
  fix m
  let ?u = "stable_id u5 ''user'' s"
  assume m: "membership (tc_org t) ?u d = Some m" "actor_manages t (mb_role m) d"
    and last: "mb_role m = ''owner'' \<Longrightarrow> 1 < owner_count (tc_org t) d"
    and d': "d' = delete_member (tc_org t) ?u d"
  have role: "role_in (tc_org t) ?u d = Some (mb_role m)"
    using m(1) by (simp add: role_in_def)
  show ?thesis
  proof (rule controlledI)
    show "role_in o' u d' = (if (o', u) = (tc_org t, ?u) then None else role_in o' u d)" for o' u
      by (simp add: d' role_in_delete_member)
    show "permitted t ?u None d d'"
      using m(2) by (simp add: permitted_def role managesI)
    show "1 < owner_count (tc_org t) d" if "role_in (tc_org t) ?u d = Some ''owner''"
      using that last role by simp
  qed
qed

lemma controlled_sync:
  assumes "pg_sync_user_profile t uid s e n d = Inr (x, d')"
  shows "controlled t d d'"
  using assms members_unchanged(4) by (auto simp: pg_sync_user_profile_def intro: controlled_same split: if_splits)

lemma controlled_invite:
  assumes "pg_create_invitation t e r a now d = Inr (x, d')"
  shows "controlled t d d'"
  using assms by (rule pg_create_invitationE) (simp add: controlled_same)

lemma controlled_cancel:
  assumes "pg_cancel_invitation t e a d = Inr (x, d')"
  shows "controlled t d d'"
  using assms by (rule pg_cancelE) (simp_all add: controlled_same)

lemma controlled_authorize:
  assumes "tenancy_wf u5 N d" "inj_on u5 N" "identity_names i \<subseteq> N"
    and r: "authorize_tenant u5 i e now d = Inr (t, d')"
  shows "controlled (tenant_of u5 i) d d'"
  using r
proof (cases rule: authorizeE)
  case (member r)
  then show ?thesis
    by (simp add: controlled_same)
next
  case (invited em r)
  let ?t = "tenant_of u5 i"
  have none: "role_in (tc_org ?t) (tc_user ?t) d = None"
    by (rule unauthorized_no_membership [OF assms(1-3) invited(1)])
  show ?thesis
    using invited(4)
  proof (cases rule: roles_after_claim)
    case (claimed v)
    have "v \<notin> set (invitations d')"
      by (simp add: claimed(8))
    then have "permitted ?t (tc_user ?t) (Some (iv_role v)) d d'"
      unfolding permitted_def using none claimed(3,4) by blast
    then show ?thesis
      using claimed(7) none by (intro controlledI) auto
  qed simp
qed

lemma controlled_change:
  assumes "controlled t d d'" "role_in org uid d' \<noteq> role_in org uid d"
  shows "org = tc_org t \<and> permitted t uid (role_in org uid d') d d'"
  using assms(1) [unfolded controlled_def]
proof (elim disjE exE conjE)
  fix uid' new
  assume all: "\<forall>o' u. role_in o' u d' = (if (o', u) = (tc_org t, uid') then new else role_in o' u d)"
    and new: "permitted t uid' new d d'"
  have "org = tc_org t \<and> uid = uid'"
    using all [rule_format, of org uid] assms(2) by (simp split: if_splits)
  then show ?thesis
    using all [rule_format, of org uid] new by simp
qed (use assms(2) in simp)

fun op_identity :: "tenancy_op \<Rightarrow> tenant_identity option" where
  "op_identity (Ensure i now) = Some i"
| "op_identity (Authorize i e now) = Some i"
| "op_identity (Sync i e n) = Some i"
| "op_identity (Grant i s r e n a now) = Some i"
| "op_identity (Update_role i s r a) = Some i"
| "op_identity (Revoke i s a) = Some i"
| "op_identity (Invite i e r a now) = Some i"
| "op_identity (Cancel_invite i e a) = Some i"
| "op_identity _ = None"

lemma controlled_exec:
  assumes "tenancy_wf u5 N d" "inj_on u5 N" "op_names p \<subseteq> N" "op_identity p = Some i"
  shows "controlled (tenant_of u5 i) d (exec_tenancy u5 p d)"
proof -
  have id: "controlled t d d" for t
    by (simp add: controlled_same)
  show ?thesis
  proof (cases p)
    case (Ensure j now)
    then show ?thesis
      using assms(4) by (auto intro: commit_keeps [where P = "controlled (tenant_of u5 i) d"] controlled_ensure id)
  next
    case (Authorize j e now)
    then show ?thesis
      using assms by (auto intro: commit_keeps [where P = "controlled (tenant_of u5 i) d"] controlled_authorize id)
  next
    case (Sync j e n)
    then show ?thesis
      using assms(4) by (auto intro: commit_keeps [where P = "controlled (tenant_of u5 i) d"] controlled_sync id)
  next
    case (Grant j s r e n a now)
    then show ?thesis
      using assms(4) by (auto intro: commit_keeps [where P = "controlled (tenant_of u5 i) d"] controlled_grant id)
  next
    case (Update_role j s r a)
    then show ?thesis
      using assms(4) by (auto intro: commit_keeps [where P = "controlled (tenant_of u5 i) d"] controlled_update id)
  next
    case (Revoke j s a)
    then show ?thesis
      using assms(4) by (auto intro: commit_keeps [where P = "controlled (tenant_of u5 i) d"] controlled_revoke id)
  next
    case (Invite j e r a now)
    then show ?thesis
      using assms(4) by (auto intro: commit_keeps [where P = "controlled (tenant_of u5 i) d"] controlled_invite id)
  next
    case (Cancel_invite j e a)
    then show ?thesis
      using assms(4) by (auto intro: commit_keeps [where P = "controlled (tenant_of u5 i) d"] controlled_cancel id)
  qed (use assms(4) in auto)
qed

text \<open>A store whose operations keep an invariant when they meet a condition.\<close>

locale guarded_store =
  fixes exec :: "'op \<Rightarrow> 's \<Rightarrow> 's"
    and inv :: "'s \<Rightarrow> bool"
    and admissible :: "'op \<Rightarrow> bool"
  assumes inv_exec: "inv s \<Longrightarrow> admissible p \<Longrightarrow> inv (exec p s)"
begin

lemma inv_run: "inv s \<Longrightarrow> list_all admissible ps \<Longrightarrow> inv (run_ops exec ps s)"
  by (induction ps arbitrary: s) (auto simp: inv_exec)

end

interpretation tenancy: guarded_store "exec_tenancy u5" "tenancy_wf u5 N" "\<lambda>p. op_names p \<subseteq> N" for u5 N
  by unfold_locales (rule wf_exec)

lemma controlled_owned:
  assumes k: "keyed mbkey (members d)" and c: "controlled t d d'" and "owned org d"
  shows "owned org d'"
proof -
  obtain o1 where o1: "role_in org o1 d = Some ''owner''"
    using assms(3) unfolding owned_def by (elim exE)
  show ?thesis
    using c [unfolded controlled_def]
  proof (elim disjE exE conjE)
    assume "\<forall>o' u. role_in o' u d' = role_in o' u d"
    then show ?thesis
      using o1 by (intro ownedI [of org o1]) simp
  next
    fix uid new
    assume all: "\<forall>o' u. role_in o' u d' = (if (o', u) = (tc_org t, uid) then new else role_in o' u d)"
      and last: "role_in (tc_org t) uid d = Some ''owner'' \<longrightarrow> new \<noteq> Some ''owner'' \<longrightarrow> 1 < owner_count (tc_org t) d"
    show ?thesis
    proof (cases "(org, o1) = (tc_org t, uid) \<and> new \<noteq> Some ''owner''")
      case True
      then obtain o2 where "o2 \<noteq> uid" "role_in org o2 d = Some ''owner''"
        using other_owner [OF k, of org uid] last o1 by auto
      then show ?thesis
        using all by (intro ownedI [of org o2]) simp
    next
      case False
      then show ?thesis
        using all o1 by (intro ownedI [of org o1]) auto
    qed
  qed
qed

interpretation owner_kept: guarded_store "exec_tenancy u5" "\<lambda>d. tenancy_wf u5 N d \<and> inj_on u5 N \<and> owned org d"
    "\<lambda>p. op_names p \<subseteq> N \<and> op_identity p \<noteq> None" for u5 N org
proof (unfold_locales, goal_cases)
  case (1 d p)
  then have wf: "tenancy_wf u5 N d" and inj: "inj_on u5 N" and own: "owned org d" and N: "op_names p \<subseteq> N"
    by simp_all
  obtain i where i: "op_identity p = Some i"
    using 1(2) by auto
  have k: "keyed mbkey (members d)"
    using wf by (simp add: tenancy_wf_def)
  have "owned org (exec_tenancy u5 p d)"
    by (rule controlled_owned [OF k controlled_exec [OF wf inj N i] own])
  then show ?case
    using wf_exec [OF wf N] inj by simp
qed

section \<open>Properties\<close>

text \<open>
  C14. An organization with an owner keeps one. Take tables that satisfy the invariant and any
  sequence of operations of the service, by any users of any organizations, with any principals:
  bootstrap, authorization (with or without consuming an invitation), profile updates, grants, role
  changes, revocations, creating and cancelling invitations. If some user owned the organization
  before, some user owns it afterwards, and the invariant still holds. The names that the identifiers
  are derived from have distinct identifiers.
\<close>

theorem last_owner_kept:
  assumes "tenancy_wf u5 N d" "inj_on u5 N" "owned org d"
    and "list_all (\<lambda>p. op_names p \<subseteq> N \<and> op_identity p \<noteq> None) ps"
  shows "owned org (run_ops (exec_tenancy u5) ps d) \<and> tenancy_wf u5 N (run_ops (exec_tenancy u5) ps d)"
  using owner_kept.inv_run [of u5 N d org ps] assms by simp

text \<open>
  C15. Row level security decides who changes a membership, whatever principal the request carries. If
  an operation of the service changes the role of a user in some organization, then it is the
  organization of the caller, and: the caller is an owner, or an admin that only touches members and
  viewers; or the caller becomes the owner of an organization that had no members; or the caller, not
  a member before, gets exactly the role of an invitation of the organization, which is consumed.
\<close>

theorem membership_changes_authorized:
  assumes "tenancy_wf u5 N d" "inj_on u5 N" "op_names p \<subseteq> N" "op_identity p = Some i"
    and "d' = exec_tenancy u5 p d" "t = tenant_of u5 i"
    and "role_in org uid d' \<noteq> role_in org uid d"
  shows "org = tc_org t \<and> permitted t uid (role_in org uid d') d d'"
  by (rule controlled_change [OF _ assms(7)]) (simp add: controlled_exec [OF assms(1-4)] assms(5,6))

end
