(* ===== verification/Member_Contract.thy ===== *)
theory Member_Contract
  imports Member_Properties
begin

text \<open>
  The contract of the member repositories, as operations on the map from users to roles, and what it
  takes to become a member: invitations, the bootstrap of the first owner, and granting again.
\<close>

section \<open>The contract\<close>

definition spec_owners :: "('k \<rightharpoonup> string) \<Rightarrow> nat" where
  "spec_owners m = card {k. m k = Some ''owner''}"

definition spec_grant :: "request_principal \<Rightarrow> 'k \<Rightarrow> string \<Rightarrow> ('k \<rightharpoonup> string) \<Rightarrow> ('k \<rightharpoonup> string) res" where
  "spec_grant p k role m =
    (if role \<notin> set MEMBERSHIP_ROLES then Inl ValueError
     else if \<not> can_manage_role p role then Inl PermissionError
     else if m k \<noteq> None then Inl ExistingMemberError
     else Inr (m(k \<mapsto> role)))"

definition spec_update :: "request_principal \<Rightarrow> 'k \<Rightarrow> string \<Rightarrow> ('k \<rightharpoonup> string) \<Rightarrow> ('k \<rightharpoonup> string) res" where
  "spec_update p k role m =
    (if role \<notin> set MEMBERSHIP_ROLES then Inl ValueError
     else case m k of
       None \<Rightarrow> Inl KeyError
     | Some current \<Rightarrow>
       if \<not> can_manage_role p current \<or> \<not> can_manage_role p role then Inl PermissionError
       else if current = ''owner'' \<and> role \<noteq> ''owner'' \<and> spec_owners m \<le> 1 then Inl LastOwnerError
       else Inr (m(k \<mapsto> role)))"

definition spec_revoke :: "request_principal \<Rightarrow> 'k \<Rightarrow> ('k \<rightharpoonup> string) \<Rightarrow> ('k \<rightharpoonup> string) res" where
  "spec_revoke p k m =
    (case m k of
       None \<Rightarrow> Inl KeyError
     | Some current \<Rightarrow>
       if \<not> can_manage_role p current then Inl PermissionError
       else if current = ''owner'' \<and> spec_owners m \<le> 1 then Inl LastOwnerError
       else Inr (m(k := None)))"

text \<open>
  A result implements one of the contract: it succeeds exactly when the contract does and then has
  the same roles; \<open>err\<close> relates the exceptions.
\<close>

definition implements ::
    "('s \<Rightarrow> 'k \<rightharpoonup> string) \<Rightarrow> (exn \<Rightarrow> exn \<Rightarrow> bool) \<Rightarrow> ('a \<times> 's) res \<Rightarrow> ('k \<rightharpoonup> string) res \<Rightarrow> bool" where
  "implements roles err r q =
    (case q of
       Inl e \<Rightarrow> (case r of Inl e' \<Rightarrow> err e e' | Inr _ \<Rightarrow> False)
     | Inr m \<Rightarrow> (case r of Inl _ \<Rightarrow> False | Inr (_, s') \<Rightarrow> roles s' = m))"

lemma implements_simps [simp]:
  "implements roles err (Inl e') (Inl e) = err e e'"
  "implements roles err (Inr (x, s')) (Inr m) = (roles s' = m)"
  "implements roles err (Inl e') (Inr m) = False"
  "implements roles err (Inr y) (Inl e) = False"
  by (simp_all add: implements_def)

locale member_directory =
  fixes inv :: "'s \<Rightarrow> bool"
    and acting :: "'s \<Rightarrow> bool"
    and key :: "string \<Rightarrow> 'k"
    and roles :: "'s \<Rightarrow> 'k \<rightharpoonup> string"
    and err :: "exn \<Rightarrow> exn \<Rightarrow> bool"
    and actor :: request_principal
    and grantable :: "string \<Rightarrow> 's \<Rightarrow> bool"
    and grant :: "string \<Rightarrow> string \<Rightarrow> 's \<Rightarrow> (member_record \<times> 's) res"
    and update :: "string \<Rightarrow> string \<Rightarrow> 's \<Rightarrow> (member_record \<times> 's) res"
    and revoke :: "string \<Rightarrow> 's \<Rightarrow> (bool \<times> 's) res"
  assumes inv_grant: "inv s \<Longrightarrow> grant sub r s = Inr (x, s') \<Longrightarrow> inv s'"
    and inv_update: "inv s \<Longrightarrow> update sub r s = Inr (x, s') \<Longrightarrow> inv s'"
    and inv_revoke: "inv s \<Longrightarrow> revoke sub s = Inr (y, s') \<Longrightarrow> inv s'"
    and finite_roles: "inv s \<Longrightarrow> finite (dom (roles s))"
    and grant_spec: "inv s \<Longrightarrow> acting s \<Longrightarrow> grantable sub s \<Longrightarrow>
      implements roles err (grant sub r s) (spec_grant actor (key sub) r (roles s))"
    and update_spec: "inv s \<Longrightarrow> acting s \<Longrightarrow>
      implements roles err (update sub r s) (spec_update actor (key sub) r (roles s))"
    and revoke_spec: "inv s \<Longrightarrow> acting s \<Longrightarrow>
      implements roles err (revoke sub s) (spec_revoke actor (key sub) (roles s))"
begin

lemma update_Inr:
  assumes "inv s" "acting s" "update sub r s = Inr (x, s')"
  shows "spec_update actor (key sub) r (roles s) = Inr (roles s')"
  using update_spec [OF assms(1,2), of sub r] assms(3)
  by (cases "spec_update actor (key sub) r (roles s)") auto

lemma revoke_Inr:
  assumes "inv s" "acting s" "revoke sub s = Inr (x, s')"
  shows "spec_revoke actor (key sub) (roles s) = Inr (roles s')"
  using revoke_spec [OF assms(1,2), of sub] assms(3)
  by (cases "spec_revoke actor (key sub) (roles s)") auto

lemma finite_owners: "inv s \<Longrightarrow> finite {k. roles s k = Some ''owner''}"
  by (rule finite_subset [OF _ finite_roles]) auto

text \<open>A change that leaves two owners, or does not touch one, leaves an owner.\<close>

lemma owner_remains:
  assumes "inv s" "0 < spec_owners (roles s)" "roles s k = Some ''owner'' \<Longrightarrow> r \<noteq> Some ''owner'' \<Longrightarrow> 1 < spec_owners (roles s)"
  shows "\<exists>k'. ((roles s)(k := r)) k' = Some ''owner''"
proof -
  let ?O = "{k. roles s k = Some ''owner''}"
  show ?thesis
  proof (cases "roles s k = Some ''owner'' \<and> r \<noteq> Some ''owner''")
    case True
    then have "\<not> ?O \<subseteq> {k}"
      using assms(3) card_mono [of "{k}" ?O] by (auto simp: spec_owners_def)
    then show ?thesis
      by auto
  next
    case False
    have "?O \<noteq> {}"
      using assms(2) by (auto simp: spec_owners_def simp del: Collect_empty_eq)
    then show ?thesis
      using False by auto
  qed
qed

lemma update_keeps_owner:
  assumes "inv s" "acting s" "update sub r s = Inr (x, s')" "0 < spec_owners (roles s)"
  shows "\<exists>k. roles s' k = Some ''owner''"
proof -
  have "roles s' = (roles s)(key sub \<mapsto> r)"
    and "roles s (key sub) = Some ''owner'' \<Longrightarrow> r \<noteq> ''owner'' \<Longrightarrow> 1 < spec_owners (roles s)"
    using update_Inr [OF assms(1-3)] by (auto simp: spec_update_def split: if_splits option.splits)
  then show ?thesis
    using owner_remains [OF assms(1,4), of "key sub" "Some r"] by simp
qed

lemma revoke_keeps_owner:
  assumes "inv s" "acting s" "revoke sub s = Inr (x, s')" "0 < spec_owners (roles s)"
  shows "\<exists>k. roles s' k = Some ''owner''"
proof -
  have "roles s' = (roles s)(key sub := None)"
    and "roles s (key sub) = Some ''owner'' \<Longrightarrow> 1 < spec_owners (roles s)"
    using revoke_Inr [OF assms(1-3)] by (auto simp: spec_revoke_def split: if_splits option.splits)
  then show ?thesis
    using owner_remains [OF assms(1,4), of "key sub" None] by simp
qed

end

section \<open>The repository in memory\<close>

definition im_inv :: "member_dict \<Rightarrow> bool" where
  "im_inv ms = distinct (map fst ms)"

definition im_roles :: "member_dict \<Rightarrow> string \<rightharpoonup> string" where
  "im_roles ms = (\<lambda>s. map_option mr_role (map_of ms s))"

lemma im_owner_count_spec:
  assumes "im_inv ms"
  shows "im_owner_count ms = spec_owners (im_roles ms)"
proof -
  let ?xs = "filter (\<lambda>kv. mr_role (snd kv) = ''owner'') ms"
  have d: "distinct (map fst ms)"
    using assms by (simp add: im_inv_def)
  have "{s. im_roles ms s = Some ''owner''} = set (map fst ?xs)"
    using map_of_eq_Some_iff [OF d] by (force simp: im_roles_def image_iff)
  moreover have "distinct (map fst ?xs)"
    using d by (rule distinct_map_filter)
  moreover have "im_owner_count ms = length (map fst ?xs)"
    by (simp add: im_owner_count_def filter_map o_def)
  ultimately show ?thesis
    by (simp add: spec_owners_def distinct_card del: length_map set_map)
qed

lemma im_roles_update [simp]: "im_roles (AList.update s m ms) = (im_roles ms)(s \<mapsto> mr_role m)"
  by (auto simp: im_roles_def update_conv)

lemma im_roles_delete [simp]: "im_roles (AList.delete s ms) = (im_roles ms)(s := None)"
  by (auto simp: im_roles_def delete_conv)

lemma forbids_Some [simp]: "forbids (Some p) r = (\<not> can_manage_role p r)"
  by (simp add: forbids_def)

interpretation memory: member_directory im_inv "\<lambda>_. True" "\<lambda>s. s" im_roles "(=)" p "\<lambda>_ _. True"
    "\<lambda>s r. im_grant_member u5 s r e n (Some p) now" "\<lambda>s r. im_update_member_role s r (Some p)"
    "\<lambda>s. im_revoke_member s (Some p)" for p u5 e n now
proof (unfold_locales, goal_cases)
  case (1 ms sub r x ms')
  then show ?case
    by (auto simp: im_inv_def im_grant_member_def Let_def distinct_update split: if_splits)
next
  case (2 ms sub r x ms')
  then show ?case
    by (auto simp: im_inv_def im_update_member_role_def Let_def distinct_update split: if_splits option.splits)
next
  case (3 ms sub y ms')
  then show ?case
    by (auto simp: im_inv_def im_revoke_member_def distinct_delete split: if_splits option.splits)
next
  case (4 ms)
  then show ?case
    by (simp add: im_roles_def dom_map_option finite_dom_map_of)
next
  case (5 ms sub r)
  then show ?case
    by (simp add: im_grant_member_def spec_grant_def Let_def im_roles_def [of ms])
next
  case (6 ms sub r)
  then show ?case
    by (cases "map_of ms sub")
      (simp_all add: im_update_member_role_def spec_update_def Let_def im_roles_def [of ms] im_owner_count_spec)
next
  case (7 ms sub)
  then show ?case
    by (cases "map_of ms sub")
      (simp_all add: im_revoke_member_def spec_revoke_def im_roles_def [of ms] im_owner_count_spec)
qed

section \<open>The repository in PostgreSQL\<close>

text \<open>
  The actor of the request is the user of the session and its principal has the role that the
  database has for it. A subject can be granted a membership when it has one already (and is told so)
  or when no user with its identifier exists.
\<close>

definition pg_roles :: "tenant_context \<Rightarrow> tenancy_db \<Rightarrow> uuid \<rightharpoonup> string" where
  "pg_roles t d = (\<lambda>uid. role_in (tc_org t) uid d)"

definition pg_acting :: "tenant_context \<Rightarrow> request_principal \<Rightarrow> tenancy_db \<Rightarrow> bool" where
  "pg_acting t p d = (current_actor_role t d = Some (rp_role p))"

definition pg_grantable :: "(string \<Rightarrow> uuid) \<Rightarrow> tenant_context \<Rightarrow> string \<Rightarrow> tenancy_db \<Rightarrow> bool" where
  "pg_grantable u5 t s d =
    (pg_roles t d (stable_id u5 ''user'' s) \<noteq> None \<or> tget us_id (stable_id u5 ''user'' s) (users d) = None)"

text \<open>
  An admin is told \<open>KeyError\<close> for an owner or an admin, since the lock does not see its row; and a
  grant to one fails in the aborted transaction.
\<close>

definition pg_err :: "request_principal \<Rightarrow> exn \<Rightarrow> exn \<Rightarrow> bool" where
  "pg_err p e e' = (e' = e \<or> rp_role p \<noteq> ''owner'' \<and>
     (e = PermissionError \<and> e' = KeyError \<or> e = ExistingMemberError \<and> e' = InFailedSqlTransaction))"

lemma pg_err_refl [simp]: "pg_err p e e"
  by (simp add: pg_err_def)

lemma owner_count_spec:
  assumes "keyed mbkey (members d)"
  shows "owner_count (tc_org t) d = spec_owners (pg_roles t d)"
proof -
  let ?P = "\<lambda>m. mb_org m = tc_org t \<and> mb_role m = ''owner''"
  let ?xs = "filter ?P (members d)"
  have "{u. pg_roles t d u = Some ''owner''} = set (map mb_user ?xs)"
  proof (rule set_eqI, rule iffI)
    fix u
    assume "u \<in> {u. pg_roles t d u = Some ''owner''}"
    then have "role_in (tc_org t) u d = Some ''owner''"
      by (simp add: pg_roles_def)
    then show "u \<in> set (map mb_user ?xs)"
      by (rule member_roleE) auto
  next
    fix u
    assume "u \<in> set (map mb_user ?xs)"
    then obtain m where "m \<in> set (members d)" "?P m" "mb_user m = u"
      by auto
    then show "u \<in> {u. pg_roles t d u = Some ''owner''}"
      using member_roleI [OF assms, of m] by (simp add: pg_roles_def)
  qed
  moreover have "distinct (map mb_user ?xs)"
  proof -
    have "keyed mbkey ?xs"
      using assms by simp
    then have "inj_on mbkey (set ?xs)" "distinct ?xs"
      by (auto simp: keyed_def distinct_map)
    then show ?thesis
      by (auto simp: distinct_map inj_on_def mbkey_def)
  qed
  ultimately show ?thesis
    by (simp add: owner_count_def spec_owners_def distinct_card del: length_map set_map flip: length_map [of mb_user])
qed

lemma acting_manages: "pg_acting t p d \<Longrightarrow> actor_manages t r d = can_manage_role p r"
  by (auto simp: pg_acting_def actor_manages_def can_manage_role_def)

lemma acting_writes: "pg_acting t p d \<Longrightarrow> can_manage_role p r \<Longrightarrow> users_write t uid d"
  by (auto simp: pg_acting_def users_write_def actor_is_manager_def can_manage_role_def split: if_splits)

lemma unmanaged_not_owner: "\<not> can_manage_role p r \<Longrightarrow> rp_role p \<noteq> ''owner''"
  by (auto simp: can_manage_role_def)

lemma member_exists:
  assumes "tenancy_wf u5 N d" "membership org uid d = Some m"
  obtains u where "tget us_id uid (users d) = Some u" "tget og_id org (organizations d) \<noteq> None"
proof -
  have "m \<in> set (members d)" "mb_org m = org" "mb_user m = uid"
    using tget_SomeD [OF assms(2) [unfolded membership_def]] by (auto simp: mbkey_def)
  then show ?thesis
    using assms(1) that by (fastforce simp: tenancy_wf_def)
qed

lemma fresh_subject:
  assumes "tenancy_wf u5 N d" "tget us_id (stable_id u5 ''user'' s) (users d) = None"
  shows "\<not> subject_taken s (stable_id u5 ''user'' s) (users d)"
  using assms by (auto simp: tenancy_wf_def subject_taken_def list_ex_iff)

lemma pg_grant_implements:
  assumes wf: "tenancy_wf u5 N d" and act: "pg_acting t p d" and ok: "pg_grantable u5 t s d"
  shows "implements (pg_roles t) (pg_err p) (pg_grant_member u5 t s r e n (Some p) now d)
    (spec_grant p (stable_id u5 ''user'' s) r (pg_roles t d))"
proof (cases "r \<in> set MEMBERSHIP_ROLES \<and> can_manage_role p r")
  case False
  then show ?thesis
    by (auto simp: pg_grant_member_def spec_grant_def)
next
  case True
  let ?uid = "stable_id u5 ''user'' s"
  show ?thesis
  proof (cases "membership (tc_org t) ?uid d")
    case (Some m)
    obtain u where u: "tget us_id ?uid (users d) = Some u"
      using member_exists [OF wf Some] .
    have spec: "spec_grant p ?uid r (pg_roles t d) = Inl ExistingMemberError"
      using True Some by (simp add: spec_grant_def pg_roles_def role_in_def)
    show ?thesis
    proof (cases "can_manage_role p (mb_role m)")
      case True
      then show ?thesis
        using Some acting_manages [OF act] \<open>r \<in> _ \<and> _\<close> spec
        by (simp add: pg_grant_member_def locked_membership_def Let_def)
    next
      case False
      then have "pg_grant_member u5 t s r e n (Some p) now d = Inl InFailedSqlTransaction"
        using Some acting_manages [OF act] \<open>r \<in> _ \<and> _\<close> u
        by (simp add: pg_grant_member_def locked_membership_def Let_def insert_user_def)
      then show ?thesis
        using spec unmanaged_not_owner [OF False] by (simp add: pg_err_def)
    qed
  next
    case None
    have u: "tget us_id ?uid (users d) = None"
      using ok None by (simp add: pg_grantable_def pg_roles_def role_in_def)
    have spec: "spec_grant p ?uid r (pg_roles t d) = Inr ((pg_roles t d)(?uid \<mapsto> r))"
      using True None by (simp add: spec_grant_def pg_roles_def role_in_def)
    define d1 where "d1 = d\<lparr>users := users d @ [\<lparr>us_id = ?uid, us_subject = s, us_email = e, us_display = n\<rparr>]\<rparr>"
    let ?m = "\<lparr>mb_org = tc_org t, mb_user = ?uid, mb_role = r, mb_created = now\<rparr>"
    have same: "members d1 = members d" and org: "organizations d1 = organizations d"
      by (simp_all add: d1_def)
    have "membership (tc_org t) (tc_user t) d \<noteq> None"
      using act by (auto simp: pg_acting_def current_actor_role_def role_in_def)
    then have "tget og_id (tc_org t) (organizations d) \<noteq> None"
      using member_exists [OF wf] by blast
    then have ins: "insert_member ?m d1 = Inr ((), d1\<lparr>members := members d1 @ [?m]\<rparr>)"
      using None roles_of_members(1) [OF same, of "tc_org t" ?uid] u
      by (simp add: insert_member_def org) (simp add: d1_def)
    have check: "members_insert_check t ?m d1"
      using roles_of_members(4) [OF same, of t r] acting_manages [OF act, of r] True
      by (simp add: members_insert_check_def)
    have "pg_grant_member u5 t s r e n (Some p) now d =
      Inr (\<lparr>mr_id = ?uid, mr_user_id = ?uid, mr_subject = s, mr_email = e, mr_display = n, mr_role = r, mr_created = now\<rparr>,
        d1\<lparr>members := members d1 @ [?m]\<rparr>)"
      using True None acting_writes [OF act, of r ?uid] u fresh_subject [OF wf u] check ins
      by (simp add: pg_grant_member_def locked_membership_def Let_def insert_user_def flip: d1_def)
    moreover have "pg_roles t (d1\<lparr>members := members d1 @ [?m]\<rparr>) = (pg_roles t d)(?uid \<mapsto> r)"
      using role_in_insert_member [OF ins, of "tc_org t"] roles_of_members(2) [OF same, of "tc_org t"]
      by (auto simp: pg_roles_def)
    ultimately show ?thesis
      by (simp add: spec)
  qed
qed

lemma pg_roles_set: "pg_roles t d uid = Some r0 \<Longrightarrow> pg_roles t (set_member_role (tc_org t) uid r d) = (pg_roles t d)(uid \<mapsto> r)"
  by (auto simp: pg_roles_def role_in_set_member_role)

lemma pg_roles_delete: "pg_roles t (delete_member (tc_org t) uid d) = (pg_roles t d)(uid := None)"
  by (auto simp: pg_roles_def role_in_delete_member)

lemma pg_update_implements:
  assumes wf: "tenancy_wf u5 N d" and act: "pg_acting t p d"
  shows "implements (pg_roles t) (pg_err p) (pg_update_member_role u5 t s r (Some p) d)
    (spec_update p (stable_id u5 ''user'' s) r (pg_roles t d))"
proof (cases "membership (tc_org t) (stable_id u5 ''user'' s) d")
  case None
  then show ?thesis
    by (simp add: pg_update_member_role_def spec_update_def locked_membership_def Let_def pg_roles_def role_in_def)
next
  case (Some m)
  let ?uid = "stable_id u5 ''user'' s"
  obtain u where u: "tget us_id ?uid (users d) = Some u"
    using member_exists [OF wf Some] .
  have role: "pg_roles t d ?uid = Some (mb_role m)"
    by (simp add: pg_roles_def role_in_def Some)
  have count: "owner_count (tc_org t) d = spec_owners (pg_roles t d)"
    using wf by (intro owner_count_spec) (simp add: tenancy_wf_def)
  show ?thesis
  proof (cases "can_manage_role p (mb_role m)")
    case False
    then show ?thesis
      using Some unmanaged_not_owner [OF False]
      by (simp add: pg_update_member_role_def spec_update_def locked_membership_def Let_def role
          acting_manages [OF act] pg_err_def)
  next
    case True
    then show ?thesis
      using Some u acting_writes [OF act True]
      by (simp add: pg_update_member_role_def spec_update_def locked_membership_def Let_def role count
          acting_manages [OF act] pg_roles_set)
  qed
qed

lemma pg_revoke_implements:
  assumes wf: "tenancy_wf u5 N d" and act: "pg_acting t p d"
  shows "implements (pg_roles t) (pg_err p) (pg_revoke_member u5 t s (Some p) d)
    (spec_revoke p (stable_id u5 ''user'' s) (pg_roles t d))"
proof (cases "membership (tc_org t) (stable_id u5 ''user'' s) d")
  case None
  then show ?thesis
    by (simp add: pg_revoke_member_def spec_revoke_def locked_membership_def Let_def pg_roles_def role_in_def)
next
  case (Some m)
  have role: "pg_roles t d (stable_id u5 ''user'' s) = Some (mb_role m)"
    by (simp add: pg_roles_def role_in_def Some)
  have count: "owner_count (tc_org t) d = spec_owners (pg_roles t d)"
    using wf by (intro owner_count_spec) (simp add: tenancy_wf_def)
  show ?thesis
    using Some unmanaged_not_owner [of p "mb_role m"]
    by (simp add: pg_revoke_member_def spec_revoke_def locked_membership_def Let_def role count
        acting_manages [OF act] pg_roles_delete pg_err_def)
qed

interpretation postgres: member_directory "tenancy_wf u5 UNIV" "pg_acting t p" "stable_id u5 ''user''" "pg_roles t"
    "pg_err p" p "pg_grantable u5 t" "\<lambda>s r. pg_grant_member u5 t s r e n (Some p) now"
    "\<lambda>s r. pg_update_member_role u5 t s r (Some p)" "\<lambda>s. pg_revoke_member u5 t s (Some p)" for u5 t p e n now
proof (unfold_locales, goal_cases)
  case (1 d s r x d')
  then show ?case
    by (intro wf_grant [OF 1(1) _ 1(2)]) simp
next
  case (2 d s r x d')
  from 2(2) show ?case
    by (rule pg_updateE) (simp add: wf_set_member_role 2(1))
next
  case (3 d s y d')
  from 3(2) show ?case
    by (rule pg_revokeE) (simp add: wf_delete_member 3(1))
next
  case (4 d)
  have "dom (pg_roles t d) \<subseteq> mb_user ` set (members d)"
    unfolding pg_roles_def by (auto elim!: member_roleE)
  then show ?case
    by (rule finite_subset) simp
next
  case (5 d s r)
  then show ?case
    by (rule pg_grant_implements)
next
  case (6 d s r)
  then show ?case
    by (rule pg_update_implements)
next
  case (7 d s)
  then show ?case
    by (rule pg_revoke_implements)
qed

section \<open>Properties\<close>

lemma grant_existing_user:
  assumes "\<not> pg_grantable u5 t s d"
  shows "case spec_grant p (stable_id u5 ''user'' s) r (pg_roles t d) of
      Inl err \<Rightarrow> pg_grant_member u5 t s r e n (Some p) now d = Inl err
    | Inr _ \<Rightarrow> pg_grant_member u5 t s r e n (Some p) now d = Inl InFailedSqlTransaction"
proof -
  have "pg_roles t d (stable_id u5 ''user'' s) = None" "tget us_id (stable_id u5 ''user'' s) (users d) \<noteq> None"
    using assms by (simp_all add: pg_grantable_def)
  then show ?thesis
    by (auto simp: spec_grant_def pg_grant_member_def Let_def insert_user_def locked_membership_def pg_roles_def role_in_def split: option.splits)
qed

text \<open>
  C22. What the two member repositories promise, for an actor whose principal carries the role the database has for it.
  Changing and revoking a membership in PostgreSQL succeed exactly when the contract lets them and change the roles as it
  says; granting does so for users that are members already or unknown to the database, and for a user that is
  known without being a member it raises the contract's exception, or \<open>InFailedSqlTransaction\<close> where the contract would
  grant. In memory all three operations are exactly the contract, with its exceptions. In PostgreSQL the exceptions are
  those of the contract too, except that an actor that is not an owner may get \<open>KeyError\<close> instead of
  \<open>PermissionError\<close> and \<open>InFailedSqlTransaction\<close> instead of \<open>ExistingMemberError\<close> (\<open>pg_err\<close>).
\<close>

theorem member_repositories_refine:
  assumes "tenancy_wf u5 UNIV d" "current_actor_role t d = Some (rp_role p)" "distinct (map fst ms)"
  shows "(if pg_grantable u5 t s d then
      implements (pg_roles t) (pg_err p) (pg_grant_member u5 t s r e n (Some p) now d)
        (spec_grant p (stable_id u5 ''user'' s) r (pg_roles t d))
      else case spec_grant p (stable_id u5 ''user'' s) r (pg_roles t d) of
          Inl err \<Rightarrow> pg_grant_member u5 t s r e n (Some p) now d = Inl err
        | Inr _ \<Rightarrow> pg_grant_member u5 t s r e n (Some p) now d = Inl InFailedSqlTransaction) \<and>
    implements (pg_roles t) (pg_err p) (pg_update_member_role u5 t s r (Some p) d)
        (spec_update p (stable_id u5 ''user'' s) r (pg_roles t d)) \<and>
    implements (pg_roles t) (pg_err p) (pg_revoke_member u5 t s (Some p) d)
        (spec_revoke p (stable_id u5 ''user'' s) (pg_roles t d)) \<and>
    implements im_roles (=) (im_grant_member u5 s r e n (Some p) now ms) (spec_grant p s r (im_roles ms)) \<and>
    implements im_roles (=) (im_update_member_role s r (Some p) ms) (spec_update p s r (im_roles ms)) \<and>
    implements im_roles (=) (im_revoke_member s (Some p) ms) (spec_revoke p s (im_roles ms))"
proof (intro conjI)
  have act: "pg_acting t p d" and ms: "im_inv ms"
    using assms by (simp_all add: pg_acting_def im_inv_def)
  show "if pg_grantable u5 t s d then
      implements (pg_roles t) (pg_err p) (pg_grant_member u5 t s r e n (Some p) now d)
        (spec_grant p (stable_id u5 ''user'' s) r (pg_roles t d))
      else case spec_grant p (stable_id u5 ''user'' s) r (pg_roles t d) of
          Inl err \<Rightarrow> pg_grant_member u5 t s r e n (Some p) now d = Inl err
        | Inr _ \<Rightarrow> pg_grant_member u5 t s r e n (Some p) now d = Inl InFailedSqlTransaction"
    using postgres.grant_spec [OF assms(1) act] grant_existing_user by (cases "pg_grantable u5 t s d") simp_all
  show "implements (pg_roles t) (pg_err p) (pg_update_member_role u5 t s r (Some p) d)
        (spec_update p (stable_id u5 ''user'' s) r (pg_roles t d))"
    by (rule postgres.update_spec [OF assms(1) act])
  show "implements (pg_roles t) (pg_err p) (pg_revoke_member u5 t s (Some p) d)
        (spec_revoke p (stable_id u5 ''user'' s) (pg_roles t d))"
    by (rule postgres.revoke_spec [OF assms(1) act])
  show "implements im_roles (=) (im_grant_member u5 s r e n (Some p) now ms) (spec_grant p s r (im_roles ms))"
    by (rule memory.grant_spec [OF ms TrueI TrueI])
  show "implements im_roles (=) (im_update_member_role s r (Some p) ms) (spec_update p s r (im_roles ms))"
    by (rule memory.update_spec [OF ms TrueI])
  show "implements im_roles (=) (im_revoke_member s (Some p) ms) (spec_revoke p s (im_roles ms))"
    by (rule memory.revoke_spec [OF ms TrueI])
qed

end
