(* ===== verification/Member_Lifecycle.thy ===== *)
theory Member_Lifecycle
  imports Member_Contract
begin

text \<open>
  How a user comes to a membership and to its permissions: the well-typedness of the tables and of the
  principals derived from them, invitations from their creation to the first login, the bootstrap of
  the first owner, and what happens when a revoked user is granted a membership again.
\<close>

section \<open>Normalized e-mail addresses\<close>

lemma lower_char_code:
  "(of_char (py_lower_char c) :: nat) =
    (let n = (of_char c :: nat) in
     if (65 \<le> n \<and> n \<le> 90) \<or> (192 \<le> n \<and> n \<le> 222 \<and> n \<noteq> 215) then n + 32 else n)"
  by (auto simp: py_lower_char_def Let_def of_char_mod_256)

lemma py_space_lower [simp]: "py_space (py_lower_char c) = py_space c"
  by (auto simp: py_space_def lower_char_code Let_def)

lemma py_lower_char_idem [simp]: "py_lower_char (py_lower_char c) = py_lower_char c"
proof -
  have "(of_char (py_lower_char (py_lower_char c)) :: nat) = of_char (py_lower_char c)"
    by (auto simp: lower_char_code Let_def)
  then show ?thesis
    by simp
qed

lemma py_lower_idem [simp]: "py_lower (py_lower s) = py_lower s"
  by (simp add: py_lower_def o_def)

lemma strip_lower: "strip (py_lower s) = py_lower (strip s)"
  by (simp add: strip_def py_lower_def dropWhile_map rev_map o_def)

lemma pg_trim_strip [simp]: "pg_trim (strip s) = strip s"
proof -
  have front: "dropWhile (\<lambda>c. c = CHR '' '') xs = xs" if "dropWhile py_space xs = xs" for xs
    using that unfolding dropWhile_eq_self_iff by (cases xs) (auto simp: py_space_def)
  have "dropWhile py_space (strip s) = strip s"
    using strip_strip [of s] unfolding strip_def
    by (metis dropWhile_idem dropWhile_rev_idem hd_dropWhile dropWhile_eq_self_iff rev_rev_ident)
  moreover have "dropWhile py_space (rev (strip s)) = rev (strip s)"
    by (simp add: strip_def)
  ultimately show ?thesis
    by (simp add: pg_trim_def front)
qed

lemma normalize_email_Inr: "normalize_email e = Inr em \<Longrightarrow> em = py_lower (strip e) \<and> em \<noteq> []"
  by (auto simp: normalize_email_def Let_def split: if_splits)

lemma normalize_normal: "normalize_email e = Inr em \<Longrightarrow> py_lower (strip em) = em"
  by (drule normalize_email_Inr) (simp add: strip_lower)

section \<open>Consuming an invitation\<close>

text \<open>Someone who is not a member gets in with an invitation.\<close>

lemma claim_succeeds:
  assumes wf: "tenancy_wf u5 N d" and org: "tc_org t = org" "tc_user t = stable_id u5 ''user'' s"
    and v: "tget ivkey (org, em) (invitations d) = Some v" and em: "py_lower (pg_trim e) = em" "em \<noteq> []"
    and none: "role_in org (tc_user t) d = None"
  obtains d' where "claim_organization_invitation t org (tc_user t) s e n now d = Inr (Some (iv_role v), d')"
    "\<exists>u. tget us_id (tc_user t) (users d') = Some u \<and> us_email u = Some em"
proof -
  let ?uid = "tc_user t"
  obtain d1 where d1: "claim_user ?uid s em n d = Inr ((), d1)"
    and u1: "\<exists>u. tget us_id ?uid (users d1) = Some u \<and> us_email u = Some em"
    and o1: "organizations d1 = organizations d"
  proof (cases "tget us_id ?uid (users d)")
    case None
    have "\<not> subject_taken s ?uid (users d)"
      using fresh_subject [OF wf, of s] None by (simp add: org)
    then show ?thesis
      using None by (intro that [of "d\<lparr>users := users d @ [\<lparr>us_id = ?uid, us_subject = s, us_email = Some em,
        us_display = n\<rparr>]\<rparr>"]) (simp_all add: claim_user_def insert_user_def)
  next
    case (Some u)
    then show ?thesis
      by (intro that [of "d\<lparr>users := tupd us_id ?uid (\<lambda>u. u\<lparr>us_email := Some em,
        us_display := (if n = None then us_display u else n)\<rparr>) (users d)\<rparr>"])
        (simp_all add: claim_user_def table_simps)
  qed
  have same: "members d1 = members d"
    using members_unchanged(2) [OF d1] by simp
  have "iv_org v = org" "v \<in> set (invitations d)"
    using tget_SomeD [OF v] by (auto simp: ivkey_def)
  then have "tget og_id org (organizations d1) \<noteq> None"
    using wf by (auto simp: tenancy_wf_def o1)
  then obtain d2 where d2: "upsert_member \<lparr>mb_org = org, mb_user = ?uid, mb_role = iv_role v, mb_created = now\<rparr> d1 = Inr ((), d2)"
    "users d2 = users d1"
    using none u1 roles_of_members(1) [OF same] by (auto simp: upsert_member_def insert_member_def role_in_def)
  show ?thesis
  proof (rule that)
    show "claim_organization_invitation t org ?uid s e n now d = Inr (Some (iv_role v), delete_invitation org em d2)"
      by (simp add: claim_organization_invitation_def Let_def org(1) em v d1 d2(1))
    show "\<exists>u. tget us_id ?uid (users (delete_invitation org em d2)) = Some u \<and> us_email u = Some em"
      using u1 by (simp add: d2(2))
  qed
qed

lemma authorized_iff:
  assumes "tenancy_wf u5 N d" "inj_on u5 N" "identity_names i \<subseteq> N"
  shows "authorized_role (tenant_of u5 i) d = role_in (tc_org (tenant_of u5 i)) (tc_user (tenant_of u5 i)) d"
proof (cases "authorized_role (tenant_of u5 i) d")
  case None
  then show ?thesis
    using unauthorized_no_membership [OF assms] by simp
next
  case (Some r)
  then show ?thesis
    by (auto simp: authorized_role_def role_in_def split: option.splits if_splits)
qed

text \<open>The first login of an invited user.\<close>

lemma authorize_invited:
  assumes wf: "tenancy_wf u5 N d" and inj: "inj_on u5 N" and N: "identity_names i \<subseteq> N"
    and t: "t = tenant_of u5 i" and v: "tget ivkey (tc_org t, em) (invitations d) = Some v"
    and e: "py_lower (strip e) = em" "em \<noteq> []" and none: "role_in (tc_org t) (tc_user t) d = None"
  obtains d' where "authorize_tenant u5 i (Some e) now d = Inr (with_role t (iv_role v), d')"
    "tenancy_wf u5 N d'" "role_in (tc_org t) (tc_user t) d' = Some (iv_role v)"
    "tget ivkey (tc_org t, em) (invitations d') = None"
    "\<exists>u. tget us_id (tc_user t) (users d') = Some u \<and> us_email u = Some em"
    "\<And>uid. uid \<noteq> tc_user t \<Longrightarrow> role_in (tc_org t) uid d' = role_in (tc_org t) uid d"
proof -
  have ts: "tc_user t = stable_id u5 ''user'' (ti_subject i)"
    by (simp add: t)
  have e': "py_lower (pg_trim (strip e)) = em"
    by (simp add: e)
  obtain d' where d': "claim_organization_invitation t (tc_org t) (tc_user t) (ti_subject i) (strip e) None now d =
      Inr (Some (iv_role v), d')" and u: "\<exists>u. tget us_id (tc_user t) (users d') = Some u \<and> us_email u = Some em"
    by (rule claim_succeeds [OF wf refl ts v e' e(2) none])
  have a: "authorized_role t d = None"
    using authorized_iff [OF wf inj N] none by (simp add: t)
  have ne: "strip e \<noteq> []"
    using e by (auto simp: py_lower_def)
  have auth: "authorize_tenant u5 i (Some e) now d = Inr (with_role t (iv_role v), d')"
    using a d' ne by (simp add: authorize_tenant_def Let_def t tenant_of_def)
  show ?thesis
    using d'
  proof (cases rule: roles_after_claim)
    case (claimed w)
    have "ivkey w = (tc_org t, em)"
      using claimed(4,5) by (simp add: ivkey_def e(1))
    then have "tget ivkey (tc_org t, em) (invitations d') = None"
      by (simp add: claimed(8) tget_filter_key)
    then show ?thesis
      using that [OF auth wf_authorize [OF wf N auth] _ _ u] claimed(6,7) by simp
  qed simp
qed

lemma claim_organizations:
  "claim_organization_invitation t org uid s e n now d = Inr (x, d') \<Longrightarrow> organizations d' = organizations d"
proof (erule claimE)
  fix v d1 d2
  assume "claim_user uid s (py_lower (pg_trim e)) n d = Inr ((), d1)"
  then have "organizations d1 = organizations d"
    by (auto simp: claim_user_def insert_user_def split: option.splits if_splits)
  moreover assume "upsert_member \<lparr>mb_org = org, mb_user = uid, mb_role = iv_role v, mb_created = now\<rparr> d1 = Inr ((), d2)"
  then have "organizations d2 = organizations d1"
    by (auto simp: upsert_member_def set_member_role_def insert_member_def split: if_splits)
  moreover assume "d' = delete_invitation org (py_lower (pg_trim e)) d2"
  ultimately show ?thesis
    by simp
qed simp

lemma authorize_organizations: "authorize_tenant u5 i e now d = Inr (t, d') \<Longrightarrow> organizations d' = organizations d"
  by (erule authorizeE) (auto dest: claim_organizations)

section \<open>Bootstrapping the first owner\<close>

lemma slug_unique:
  "tenancy_wf u5 N d \<Longrightarrow> \<not> list_ex (\<lambda>g. og_slug g = s \<and> og_id g \<noteq> stable_id u5 ''organization'' s) (organizations d)"
  by (auto simp: tenancy_wf_def list_ex_iff)

lemma create_organization_cases:
  assumes "tenancy_wf u5 N d"
  shows "create_organization u5 g n d =
    (case tget og_id (stable_id u5 ''organization'' g) (organizations d) of
       None \<Rightarrow> d\<lparr>organizations := organizations d @ [\<lparr>og_id = stable_id u5 ''organization'' g, og_slug = g, og_name = n\<rparr>]\<rparr>
     | Some _ \<Rightarrow> d\<lparr>organizations := tupd og_id (stable_id u5 ''organization'' g) (\<lambda>r. r\<lparr>og_slug := g, og_name := n\<rparr>)
         (organizations d)\<rparr>)"
  by (simp add: create_organization_def upsert_organization_def slug_unique [OF assms] split: option.splits)

definition named :: "(string \<Rightarrow> uuid) \<Rightarrow> string \<Rightarrow> string \<Rightarrow> tenancy_db \<Rightarrow> bool" where
  "named u5 g n d = (\<exists>r. tget og_id (stable_id u5 ''organization'' g) (organizations d) = Some r \<and> og_slug r = g \<and> og_name r = n)"

lemma tupd_id:
  assumes "tget key k rows = Some r" "keyed key rows" "f r = r"
  shows "tupd key k f rows = rows"
proof -
  have "(if key x = k then f x else x) = x" if "x \<in> set rows" for x
    using that tget_unique [OF assms(2,1)] assms(3) by auto
  then show ?thesis
    by (simp add: tupd_def map_idI)
qed

lemma create_named:
  assumes "tenancy_wf u5 N d"
  shows "named u5 g n (create_organization u5 g n d)"
    and "members (create_organization u5 g n d) = members d" "invitations (create_organization u5 g n d) = invitations d"
    and "users (create_organization u5 g n d) = users d"
  using create_organization_cases [OF assms, of g n]
  by (auto simp: named_def table_simps split: option.splits)

lemma create_again:
  assumes "tenancy_wf u5 N d" "named u5 g n d"
  shows "create_organization u5 g n d = d"
proof -
  obtain r where r: "tget og_id (stable_id u5 ''organization'' g) (organizations d) = Some r" "og_slug r = g" "og_name r = n"
    using assms(2) by (auto simp: named_def)
  have "tupd og_id (stable_id u5 ''organization'' g) (\<lambda>r. r\<lparr>og_slug := g, og_name := n\<rparr>) (organizations d) = organizations d"
    using r assms(1) by (intro tupd_id [OF r(1)]) (auto simp: tenancy_wf_def)
  then show ?thesis
    by (simp add: create_organization_cases [OF assms(1)] r)
qed

lemma named_same: "organizations d' = organizations d \<Longrightarrow> named u5 g n d' = named u5 g n d"
  by (simp add: named_def)

text \<open>A bootstrap that creates an invitation finds no members and leaves an invitation as owner.\<close>

lemma bootstrap_createdE:
  assumes wf: "tenancy_wf u5 N d" and "normalize_email e = Inr em"
    and "owner_bootstrap u5 g n e now d = (Inr Invitation_created, d1)"
  obtains v where "named u5 g n d1" "\<And>m. m \<in> set (members d1) \<Longrightarrow> mb_org m \<noteq> stable_id u5 ''organization'' g"
    "tget ivkey (stable_id u5 ''organization'' g, em) (invitations d1) = Some v" "iv_role v = ''owner''"
proof -
  let ?org = "stable_id u5 ''organization'' g" and ?d0 = "create_organization u5 g n d"
  have b: "bootstrap_transaction ?org em now ?d0 = Inr (Invitation_created, d1)"
    using assms(2,3) by (simp add: owner_bootstrap_def Let_def split: sum.splits prod.splits)
  then have empty: "filter (\<lambda>m. mb_org m = ?org) (members ?d0) = []"
    and up: "upsert_owner_invitation ?org em now ?d0 = Inr ((), d1)"
    by (auto simp: bootstrap_transaction_def Let_def split: if_splits sum.splits)
  have same: "organizations d1 = organizations ?d0" "members d1 = members ?d0"
    using up by (auto simp: upsert_owner_invitation_def split: if_splits)
  have "\<exists>v. tget ivkey (?org, em) (invitations d1) = Some v \<and> iv_role v = ''owner''"
    using up by (auto simp: upsert_owner_invitation_def ivkey_def table_simps split: if_splits option.splits)
  then show ?thesis
    using that named_same [OF same(1)] create_named(1) [OF wf] empty same(2)
    by (auto simp: filter_empty_conv)
qed

lemma pending_again:
  assumes "tenancy_wf u5 N d1" "normalize_email e = Inr em" "named u5 g n d1"
    and "\<And>m. m \<in> set (members d1) \<Longrightarrow> mb_org m \<noteq> stable_id u5 ''organization'' g"
    and "tget ivkey (stable_id u5 ''organization'' g, em) (invitations d1) = Some v" "iv_role v = ''owner''"
  shows "owner_bootstrap u5 g n e now d1 = (Inr Invitation_pending, d1)"
proof -
  have "filter (\<lambda>m. mb_org m = stable_id u5 ''organization'' g) (members d1) = []"
    using assms(4) by (simp add: filter_empty_conv)
  moreover have "list_ex (\<lambda>v. iv_email v = em) (owner_invitations (stable_id u5 ''organization'' g) d1)"
    using tget_SomeD [OF assms(5)] assms(6) by (auto simp: owner_invitations_def list_ex_iff ivkey_def)
  ultimately show ?thesis
    using create_again [OF assms(1,3)] assms(2) by (simp add: owner_bootstrap_def bootstrap_transaction_def Let_def)
qed

lemma established:
  assumes "tenancy_wf u5 N d" "normalize_email e = Inr em" "named u5 g n d"
    and "role_in (stable_id u5 ''organization'' g) uid d = Some ''owner''"
    and "tget us_id uid (users d) = Some u" "us_email u = Some em"
  shows "owner_bootstrap u5 g n e now d = (Inr Already_established, d)"
proof -
  let ?org = "stable_id u5 ''organization'' g"
  obtain m where m: "m \<in> set (members d)" "mb_org m = ?org" "mb_user m = uid" "mb_role m = ''owner''"
    using assms(4) by (rule member_roleE)
  let ?rows = "filter (\<lambda>m. mb_org m = ?org) (members d)"
  have "m \<in> set ?rows"
    using m by simp
  moreover have "em \<noteq> []" "py_lower (strip em) = em"
    using normalize_email_Inr [OF assms(2)] normalize_normal [OF assms(2)] by auto
  ultimately show ?thesis
    using create_again [OF assms(1,3)] assms(2,5,6) m(3,4)
    by (auto simp: owner_bootstrap_def bootstrap_transaction_def Let_def list_ex_iff filter_empty_conv
        intro: bexI [of _ m])
qed

section \<open>Properties\<close>

text \<open>
  C23. The tables and principals are well typed. After any sequence of operations, of the service and
  of the command line, on empty tables: primary keys are unique, foreign keys have their target,
  every membership and invitation has one of the four roles, and identifiers are those of the slugs
  and subjects. So the role an authorization returns is one of the four, and the principal made of it
  has exactly the permissions of that role in the matrix.
\<close>

theorem tenancy_well_typed:
  assumes "d = run_ops (exec_tenancy u5) ps empty_tenancy"
  shows "tenancy_wf u5 (\<Union>p \<in> set ps. op_names p) d \<and>
    (authorize_tenant u5 i e now d = Inr (t, d') \<longrightarrow>
      tc_role t \<in> set MEMBERSHIP_ROLES \<and>
      ROLE_PERMISSIONS (tc_role t) = Some (rp_permissions (from_tenant py_str t name claims)))"
proof (intro conjI impI)
  let ?N = "\<Union>p \<in> set ps. op_names p"
  have "tenancy_wf u5 ?N empty_tenancy"
    by (simp add: tenancy_wf_def empty_tenancy_def)
  then show wf: "tenancy_wf u5 ?N d"
    unfolding assms by (rule tenancy.inv_run) (auto simp: list_all_iff)
  assume r: "authorize_tenant u5 i e now d = Inr (t, d')"
  show role: "tc_role t \<in> set MEMBERSHIP_ROLES"
    using r
  proof (cases rule: authorizeE)
    case (member r)
    then obtain m where "membership (tc_org (tenant_of u5 i)) (tc_user (tenant_of u5 i)) d = Some m" "r = mb_role m"
      by (auto simp: authorized_role_def split: option.splits if_splits)
    then have "r \<in> set MEMBERSHIP_ROLES"
      using wf tget_SomeD unfolding tenancy_wf_def membership_def by fast
    then show ?thesis
      by (simp add: member(2) with_role_def)
  next
    case (invited em r)
    show ?thesis
      using invited(4)
    proof (cases rule: roles_after_claim)
      case (claimed v)
      then have "iv_role v \<in> set MEMBERSHIP_ROLES"
        using wf by (simp add: tenancy_wf_def)
      then show ?thesis
        using claimed(6) by (simp add: invited(5) with_role_def)
    qed simp
  qed
  then show "ROLE_PERMISSIONS (tc_role t) = Some (rp_permissions (from_tenant py_str t name claims))"
    by (auto simp: MEMBERSHIP_ROLES_def from_tenant_def Let_def ROLE_PERMISSIONS_def)
qed

text \<open>
  C24. An invitation lets exactly one new user in, with its role. Someone creates an invitation; a user
  of the organization who is not a member yet logs in with a verified e-mail that is the invited one
  up to case and surrounding blanks. Then the login succeeds with the invited role, which the user has
  from then on: later logins return it, whatever e-mail they carry, and change nothing. The invitation
  is gone: another user without a membership is refused with the same e-mail.
\<close>

theorem invitation_lifecycle:
  assumes "tenancy_wf u5 N d" "inj_on u5 N" "identity_names i \<subseteq> N" "identity_names j \<subseteq> N"
    and "pg_create_invitation t0 e0 r a now0 d = Inr (v, d1)"
    and "t = tenant_of u5 i" "tc_org t0 = tc_org t" "py_lower (strip e) = ir_email v"
    and "role_in (tc_org t) (tc_user t) d = None"
    and "ti_slug j = ti_slug i" "ti_subject j \<noteq> ti_subject i" "role_in (tc_org t) (tc_user (tenant_of u5 j)) d = None"
  shows "\<exists>d2. authorize_tenant u5 i (Some e) now1 d1 = Inr (with_role t (ir_role v), d2) \<and>
    role_in (tc_org t) (tc_user t) d2 = Some (ir_role v) \<and>
    authorize_tenant u5 i e' now2 d2 = Inr (with_role t (ir_role v), d2) \<and>
    authorize_tenant u5 j (Some e) now2 d2 = Inl TenantAuthorizationError"
  using assms(5)
proof (rule pg_create_invitationE)
  fix em ro w
  assume em: "normalize_email e0 = Inr em"
    and w: "w = \<lparr>iv_org = tc_org t0, iv_email = em, iv_role = ro, iv_by = map_option rp_user_id a, iv_created = now0\<rparr>"
    and free: "tget ivkey (tc_org t0, em) (invitations d) = None"
    and v: "v = invitation_of_row w" and d1: "d1 = d\<lparr>invitations := invitations d @ [w]\<rparr>"
  have wf1: "tenancy_wf u5 N d1"
    by (rule wf_invite [OF assms(1,5)])
  have iv: "tget ivkey (tc_org t, em) (invitations d1) = Some w"
    using free by (simp add: d1 w ivkey_def assms(7))
  have e: "py_lower (strip e) = em" and "ir_role v = iv_role w"
    using assms(8) by (simp_all add: v w invitation_of_row_def)
  have ne: "em \<noteq> []"
    by (rule conjunct2 [OF normalize_email_Inr [OF em]])
  have same: "members d1 = members d"
    by (simp add: d1)
  have none: "role_in (tc_org t) (tc_user t) d1 = None"
    using assms(9) roles_of_members(2) [OF same] by simp
  obtain d2 where d2: "authorize_tenant u5 i (Some e) now1 d1 = Inr (with_role t (iv_role w), d2)"
    "tenancy_wf u5 N d2" "role_in (tc_org t) (tc_user t) d2 = Some (iv_role w)"
    "tget ivkey (tc_org t, em) (invitations d2) = None"
    "\<And>uid. uid \<noteq> tc_user t \<Longrightarrow> role_in (tc_org t) uid d2 = role_in (tc_org t) uid d1"
    using authorize_invited [OF wf1 assms(2,3,6) iv e ne none] by blast
  have again: "authorize_tenant u5 i e' now2 d2 = Inr (with_role t (iv_role w), d2)"
    using authorized_iff [OF d2(2) assms(2,3)] d2(3)
    by (simp add: authorize_tenant_def assms(6) tenant_of_def)
  have org: "tc_org (tenant_of u5 j) = tc_org t"
    by (simp add: assms(6,10))
  have other: "tc_user (tenant_of u5 j) \<noteq> tc_user t"
    using inj_onD [OF assms(2), of "id_name ''user'' (ti_subject j)" "id_name ''user'' (ti_subject i)"]
      assms(3,4,11) by (auto simp: assms(6) stable_id_def identity_names_def)
  have "role_in (tc_org t) (tc_user (tenant_of u5 j)) d2 = None"
    using d2(5) [OF other] roles_of_members(2) [OF same] assms(12) by simp
  then have "authorized_role (tenant_of u5 j) d2 = None"
    by (simp only: authorized_iff [OF d2(2) assms(2,4)] org)
  moreover have "claim_organization_invitation (tenant_of u5 j) (tc_org (tenant_of u5 j)) (tc_user (tenant_of u5 j))
      (ti_subject j) (strip e) None now2 d2 = Inr (None, d2)"
    using d2(4) by (simp add: claim_organization_invitation_def Let_def e ne org del: tenant_of_simps)
  ultimately have "authorize_tenant u5 j (Some e) now2 d2 = Inl TenantAuthorizationError"
    by (simp add: authorize_tenant_def Let_def tenant_of_def)
  then show ?thesis
    using d2(1,3) again \<open>ir_role v = iv_role w\<close> by auto
qed

text \<open>
   The bootstrap of an organization is idempotent and leads to its owner. When it creates the
  invitation of the first owner, running it again reports it as pending and changes nothing; the first
  login with that e-mail becomes the owner; and from then on the bootstrap reports the owner as
  established and changes nothing.
\<close>

theorem bootstrap_lifecycle:
  assumes "tenancy_wf u5 N d" "inj_on u5 N" "identity_names i \<subseteq> N"
    and "owner_bootstrap u5 (ti_slug i) n e now0 d = (Inr Invitation_created, d1)"
  shows "owner_bootstrap u5 (ti_slug i) n e now1 d1 = (Inr Invitation_pending, d1) \<and>
    (\<exists>d2. authorize_tenant u5 i (Some e) now2 d1 = Inr (with_role (tenant_of u5 i) ''owner'', d2) \<and>
      owner_bootstrap u5 (ti_slug i) n e now3 d2 = (Inr Already_established, d2))"
proof -
  let ?t = "tenant_of u5 i"
  obtain em where em: "normalize_email e = Inr em"
    using assms(4) by (cases "normalize_email e") (auto simp: owner_bootstrap_def)
  have wf1: "tenancy_wf u5 N d1"
    using wf_bootstrap [OF assms(1), of "ti_slug i" n e now0] assms(3,4) by (simp add: identity_names_def)
  obtain v where named: "named u5 (ti_slug i) n d1"
    and none: "\<And>m. m \<in> set (members d1) \<Longrightarrow> mb_org m \<noteq> stable_id u5 ''organization'' (ti_slug i)"
    and v: "tget ivkey (stable_id u5 ''organization'' (ti_slug i), em) (invitations d1) = Some v" "iv_role v = ''owner''"
    using bootstrap_createdE [OF assms(1) em assms(4)] by blast
  have no: "role_in (tc_org ?t) (tc_user ?t) d1 = None"
    using none by (cases "role_in (tc_org ?t) (tc_user ?t) d1") (auto elim: member_roleE)
  have iv: "tget ivkey (tc_org ?t, em) (invitations d1) = Some v"
    using v(1) by simp
  have e: "py_lower (strip e) = em" "em \<noteq> []"
    using normalize_email_Inr [OF em] by auto
  obtain d2 u where d2: "authorize_tenant u5 i (Some e) now2 d1 = Inr (with_role ?t (iv_role v), d2)"
    "tenancy_wf u5 N d2" "role_in (tc_org ?t) (tc_user ?t) d2 = Some (iv_role v)"
    "tget us_id (tc_user ?t) (users d2) = Some u" "us_email u = Some em"
    using authorize_invited [OF wf1 assms(2,3) refl iv e no] by blast
  have "named u5 (ti_slug i) n d2"
    using authorize_organizations [OF d2(1)] named named_same by blast
  then have "owner_bootstrap u5 (ti_slug i) n e now3 d2 = (Inr Already_established, d2)"
    using d2(3-5) v(2) by (intro established [OF d2(2) em, of _ _ "tc_user ?t" u]) auto
  then show ?thesis
    using pending_again [OF wf1 em named none v] d2(1) v(2) by auto
qed

text \<open>
   Who was granted a membership and lost it cannot be granted one again through the member
  repository of PostgreSQL: every later attempt of the organization to grant a role that the actor may
  give raises \<open>InFailedSqlTransaction\<close>, since the insertion of the user that exists already aborts the
  transaction although its exception is caught. In memory the same grant succeeds.
\<close>

theorem regrant_impossible:
  assumes "pg_grant_member u5 t s r e n a now d = Inr (m, d1)" "pg_revoke_member u5 t s a' d1 = Inr (True, d2)"
    and "im_grant_member u5 s r e n a now ms = Inr (m', ms1)" "im_revoke_member s a' ms1 = Inr (True, ms2)"
    and "r2 \<in> set MEMBERSHIP_ROLES" "\<not> forbids a2 r2"
  shows "pg_grant_member u5 t s r2 e2 n2 a2 now2 d2 = Inl InFailedSqlTransaction \<and>
    (\<exists>m2 ms3. im_grant_member u5 s r2 e2 n2 a2 now2 ms2 = Inr (m2, ms3) \<and> mr_role m2 = r2)"
proof (intro conjI)
  let ?uid = "stable_id u5 ''user'' s"
  have "tget us_id ?uid (users d1) \<noteq> None"
    using assms(1) by (rule pg_grantE) (auto simp: insert_user_Inr insert_member_Inr split: option.splits)
  moreover have d2: "d2 = delete_member (tc_org t) ?uid d1"
    using assms(2) by (rule pg_revokeE)
  ultimately have "tget us_id ?uid (users d2) \<noteq> None"
    by (simp add: delete_member_def)
  moreover have "membership (tc_org t) ?uid d2 = None"
    by (simp add: d2 delete_member_def membership_def tget_filter_key)
  ultimately show "pg_grant_member u5 t s r2 e2 n2 a2 now2 d2 = Inl InFailedSqlTransaction"
    using assms(5,6) by (simp add: pg_grant_member_def Let_def locked_membership_def insert_user_def)
  have "ms2 = AList.delete s ms1"
    using assms(4) by (auto simp: im_revoke_member_def split: option.splits if_splits)
  then have "map_of ms2 s = None"
    by (simp add: delete_conv)
  then show "\<exists>m2 ms3. im_grant_member u5 s r2 e2 n2 a2 now2 ms2 = Inr (m2, ms3) \<and> mr_role m2 = r2"
    using assms(5,6) by (simp add: im_grant_member_def Let_def)
qed

section \<open>The hypotheses hold of concrete tables\<close>

text \<open>An organization with an owner and an admin, and the identifiers are the names themselves.\<close>

definition acme :: tenancy_db where
  "acme = run_ops (exec_tenancy (\<lambda>s. s))
     [Cli_organization ''acme'' ''Acme'', Cli_grant ''acme'' ''ana'' ''owner'' 1, Cli_grant ''acme'' ''bea'' ''admin'' 2]
     empty_tenancy"

definition ana :: tenant_identity where
  "ana = \<lparr>ti_slug = ''acme'', ti_name = ''Acme'', ti_subject = ''ana''\<rparr>"

definition cid :: tenant_identity where
  "cid = \<lparr>ti_slug = ''acme'', ti_name = ''Acme'', ti_subject = ''cid''\<rparr>"

definition dan :: tenant_identity where
  "dan = \<lparr>ti_slug = ''acme'', ti_name = ''Acme'', ti_subject = ''dan''\<rparr>"

lemma plain_ids [simp]: "stable_id (\<lambda>s. s) k a = stable_id (\<lambda>s. s) k b \<longleftrightarrow> a = b"
  by (simp add: stable_id_def)

lemma acme_rows:
  "acme = \<lparr>organizations = [\<lparr>og_id = stable_id (\<lambda>s. s) ''organization'' ''acme'', og_slug = ''acme'', og_name = ''Acme''\<rparr>],
     users = [\<lparr>us_id = stable_id (\<lambda>s. s) ''user'' ''ana'', us_subject = ''ana'', us_email = None, us_display = None\<rparr>,
       \<lparr>us_id = stable_id (\<lambda>s. s) ''user'' ''bea'', us_subject = ''bea'', us_email = None, us_display = None\<rparr>],
     members = [\<lparr>mb_org = stable_id (\<lambda>s. s) ''organization'' ''acme'', mb_user = stable_id (\<lambda>s. s) ''user'' ''ana'',
         mb_role = ''owner'', mb_created = 1\<rparr>,
       \<lparr>mb_org = stable_id (\<lambda>s. s) ''organization'' ''acme'', mb_user = stable_id (\<lambda>s. s) ''user'' ''bea'',
         mb_role = ''admin'', mb_created = 2\<rparr>],
     invitations = []\<rparr>"
proof -
  have "validate_role ''owner'' = Inr ''owner''" "validate_role ''admin'' = Inr ''admin''"
    by code_simp+
  then show ?thesis
    by (simp add: acme_def empty_tenancy_def create_organization_def upsert_organization_def grant_membership_def
        grant_user_def insert_user_def subject_taken_def upsert_member_def insert_member_def membership_def mbkey_def
        Let_def)
qed

lemma acme_wf: "tenancy_wf (\<lambda>s. s) UNIV acme"
  unfolding acme_def by (rule tenancy.inv_run) (simp_all add: tenancy_wf_def empty_tenancy_def)

lemma acme_roles:
  "role_in (stable_id (\<lambda>s. s) ''organization'' ''acme'') (stable_id (\<lambda>s. s) ''user'' ''ana'') acme = Some ''owner''"
  "role_in (stable_id (\<lambda>s. s) ''organization'' ''acme'') (stable_id (\<lambda>s. s) ''user'' ''bea'') acme = Some ''admin''"
  "role_in (stable_id (\<lambda>s. s) ''organization'' ''acme'') (stable_id (\<lambda>s. s) ''user'' ''cid'') acme = None"
  "role_in (stable_id (\<lambda>s. s) ''organization'' ''acme'') (stable_id (\<lambda>s. s) ''user'' ''dan'') acme = None"
  by (simp_all add: acme_rows role_in_def membership_def mbkey_def)

lemma acme_owned: "owned (stable_id (\<lambda>s. s) ''organization'' ''acme'') acme"
  by (rule ownedI) (rule acme_roles)

theorem last_owner_kept_witness:
  "owned (stable_id (\<lambda>s. s) ''organization'' ''acme'')
     (run_ops (exec_tenancy (\<lambda>s. s)) [Revoke ana ''ana'' None, Grant ana ''cid'' ''owner'' None None None 3,
        Update_role ana ''ana'' ''viewer'' None] acme)"
  using last_owner_kept [of "\<lambda>s. s" UNIV acme "stable_id (\<lambda>s. s) ''organization'' ''acme''"
      "[Revoke ana ''ana'' None, Grant ana ''cid'' ''owner'' None None None 3, Update_role ana ''ana'' ''viewer'' None]"]
  by (simp add: acme_wf acme_owned)

theorem membership_changes_authorized_witness:
  "\<exists>d'. role_in (stable_id (\<lambda>s. s) ''organization'' ''acme'') (stable_id (\<lambda>s. s) ''user'' ''cid'') d' = Some ''viewer'' \<and>
     permitted (tenant_of (\<lambda>s. s) ana) (stable_id (\<lambda>s. s) ''user'' ''cid'') (Some ''viewer'') acme d'"
proof -
  define d' where "d' = exec_tenancy (\<lambda>s. s) (Grant ana ''cid'' ''viewer'' None None None 3) acme"
  have new: "role_in (stable_id (\<lambda>s. s) ''organization'' ''acme'') (stable_id (\<lambda>s. s) ''user'' ''cid'') d' = Some ''viewer''"
    by (simp add: d'_def ana_def acme_rows pg_grant_member_def MEMBERSHIP_ROLES_def forbids_def locked_membership_def
        users_write_def actor_is_manager_def current_actor_role_def role_in_def membership_def mbkey_def insert_user_def
        subject_taken_def members_insert_check_def actor_manages_def insert_member_def Let_def)
  then show ?thesis
    using membership_changes_authorized [OF acme_wf, of "Grant ana ''cid'' ''viewer'' None None None 3" ana d'
        "tenant_of (\<lambda>s. s) ana" "stable_id (\<lambda>s. s) ''organization'' ''acme''" "stable_id (\<lambda>s. s) ''user'' ''cid''"]
    by (auto simp: d'_def acme_roles)
qed

text \<open>The principal of a user with a role.\<close>

definition principal :: "tenant_identity \<Rightarrow> string \<Rightarrow> request_principal" where
  "principal i role = from_tenant (\<lambda>_. []) (with_role (tenant_of (\<lambda>s. s) i) role) (ti_name i) []"

theorem member_repositories_refine_witness:
  "implements (pg_roles (tenant_of (\<lambda>s. s) ana)) (pg_err (principal ana ''owner''))
      (pg_revoke_member (\<lambda>s. s) (tenant_of (\<lambda>s. s) ana) ''ana'' (Some (principal ana ''owner'')) acme)
      (spec_revoke (principal ana ''owner'') (stable_id (\<lambda>s. s) ''user'' ''ana'') (pg_roles (tenant_of (\<lambda>s. s) ana) acme))"
  using member_repositories_refine [OF acme_wf, of "tenant_of (\<lambda>s. s) ana" "principal ana ''owner''" "[]"]
  by (simp add: current_actor_role_def ana_def acme_roles principal_def from_tenant_def with_role_def Let_def)

theorem tenancy_well_typed_witness:
  "tenancy_wf (\<lambda>s. s) {id_name ''organization'' ''acme''}
     (run_ops (exec_tenancy (\<lambda>s. s)) [Cli_organization ''acme'' ''Acme''] empty_tenancy)"
  using tenancy_well_typed [OF refl, of "\<lambda>s. s" "[Cli_organization ''acme'' ''Acme'']"] by simp

theorem invitation_lifecycle_witness:
  "\<exists>v d1 d2. pg_create_invitation (tenant_of (\<lambda>s. s) ana) '' Cid@Acme.org'' ''Viewer'' None 3 acme = Inr (v, d1) \<and>
     authorize_tenant (\<lambda>s. s) cid (Some ''cid@acme.org'') 4 d1 = Inr (with_role (tenant_of (\<lambda>s. s) cid) ''viewer'', d2)"
proof -
  have n: "normalize_email '' Cid@Acme.org'' = Inr ''cid@acme.org''" "validate_role ''Viewer'' = Inr ''viewer''"
    "py_lower (strip ''cid@acme.org'') = ''cid@acme.org''"
    by code_simp+
  let ?v = "\<lparr>ir_org = stable_id (\<lambda>s. s) ''organization'' ''acme'', ir_email = ''cid@acme.org'', ir_role = ''viewer'',
    ir_by = None, ir_created = 3\<rparr>"
  obtain d1 where d1: "pg_create_invitation (tenant_of (\<lambda>s. s) ana) '' Cid@Acme.org'' ''Viewer'' None 3 acme = Inr (?v, d1)"
    by (simp add: pg_create_invitation_def n forbids_def email_of_member_def visible_invitation_def
        invitations_insert_check_def actor_is_manager_def actor_manages_def current_actor_role_def ana_def
        invitation_of_row_def role_in_def membership_def mbkey_def acme_rows Let_def)
  show ?thesis
    using invitation_lifecycle [OF acme_wf _ _ _ d1 refl, of cid dan "''cid@acme.org''" 4 None 5] d1
    by (auto simp: ana_def cid_def dan_def n acme_roles)
qed

theorem bootstrap_lifecycle_witness:
  "\<exists>d1. owner_bootstrap (\<lambda>s. s) ''acme'' ''Acme'' ''a@b'' 1 empty_tenancy = (Inr Invitation_created, d1) \<and>
     owner_bootstrap (\<lambda>s. s) ''acme'' ''Acme'' ''a@b'' 2 d1 = (Inr Invitation_pending, d1)"
proof -
  have wf: "tenancy_wf (\<lambda>s. s) UNIV empty_tenancy"
    by (simp add: tenancy_wf_def empty_tenancy_def)
  have n: "normalize_email ''a@b'' = Inr ''a@b''"
    by code_simp
  obtain d1 where d1: "owner_bootstrap (\<lambda>s. s) (ti_slug cid) ''Acme'' ''a@b'' 1 empty_tenancy = (Inr Invitation_created, d1)"
    by (simp add: owner_bootstrap_def n create_organization_def upsert_organization_def empty_tenancy_def
        bootstrap_transaction_def owner_invitations_def upsert_owner_invitation_def Let_def)
  then show ?thesis
    using bootstrap_lifecycle [OF wf _ _ d1, of 2] by (simp add: cid_def)
qed

theorem regrant_impossible_witness:
  "\<exists>d2. pg_grant_member (\<lambda>s. s) (tenant_of (\<lambda>s. s) ana) ''cid'' ''viewer'' None None None 5 d2 = Inl InFailedSqlTransaction"
proof -
  let ?t = "tenant_of (\<lambda>s. s) ana"
  note steps = ana_def pg_grant_member_def MEMBERSHIP_ROLES_def forbids_def locked_membership_def
    users_write_def actor_is_manager_def current_actor_role_def role_in_def membership_def mbkey_def insert_user_def
    subject_taken_def members_insert_check_def actor_manages_def insert_member_def Let_def
  obtain m d1 where d1: "pg_grant_member (\<lambda>s. s) ?t ''cid'' ''viewer'' None None None 3 acme = Inr (m, d1)"
    and rows: "members d1 = members acme @ [\<lparr>mb_org = tc_org ?t, mb_user = stable_id (\<lambda>s. s) ''user'' ''cid'',
        mb_role = ''viewer'', mb_created = 3\<rparr>]"
    by (simp add: steps acme_rows)
  obtain d2 where d2: "pg_revoke_member (\<lambda>s. s) ?t ''cid'' None d1 = Inr (True, d2)"
    using rows by (simp add: steps pg_revoke_member_def acme_rows)
  obtain m' ms1 where ms1: "im_grant_member (\<lambda>s. s) ''cid'' ''viewer'' None None None 3 [] = Inr (m', ms1)"
    "map_of ms1 ''cid'' = Some m'" "mr_role m' = ''viewer''"
    by (simp add: im_grant_member_def MEMBERSHIP_ROLES_def forbids_def Let_def)
  obtain ms2 where ms2: "im_revoke_member ''cid'' None ms1 = Inr (True, ms2)"
    using ms1 by (simp add: im_revoke_member_def forbids_def)
  show ?thesis
    using regrant_impossible [OF d1 d2 ms1(1) ms2, of "''viewer''" None None None 5]
    by (auto simp: MEMBERSHIP_ROLES_def forbids_def)
qed

end
