(* ===== verification/Worker.thy ===== *)
theory Worker
  imports Job_Properties
begin

text \<open>
  The worker that executes jobs (\<open>worker.py\<close>), the relay that publishes the outbox (\<open>wake_queue.py\<close>) and
  the runner that combines them (\<open>runner_service.py\<close>, \<open>sqs_runner.py\<close>), on top of the job repository.

  An iteration of the worker claims a job, executes it while a heartbeat renews the lease, and then
  completes or fails it. The execution is an argument \<open>body\<close>: it takes the claimed job and the tables
  and returns its outcome and the tables it leaves behind, which include whatever else happened in
  the meantime: heartbeats, progress events, and the transactions of other processes. An exception of
  the heartbeat (a lost lease) ends the execution like one of its own.
\<close>

section \<open>Failures of an execution\<close>

text \<open>The classes of exceptions the worker tells apart, with the text and the class name.\<close>

datatype exc_kind =
    Contract_error
  | Post_send_error
  | Replicate_error "int option"
  | Http_status_error int
  | Lease_lost
  | Other_error

record job_exc =
  ex_kind :: exc_kind
  ex_text :: string
  ex_type :: string

definition status_retryable :: "int option \<Rightarrow> bool" where
  "status_retryable status =
    (case status of
       None \<Rightarrow> True
     | Some s \<Rightarrow> if s = 429 \<or> s \<ge> 500 then True else if 400 \<le> s \<and> s < 500 then False else True)"

definition job_failure_is_retryable :: "job_exc \<Rightarrow> bool" where
  "job_failure_is_retryable exc =
    (case ex_kind exc of
       Contract_error \<Rightarrow> False
     | Post_send_error \<Rightarrow> False
     | Replicate_error status \<Rightarrow> status_retryable status
     | Http_status_error status \<Rightarrow> status_retryable (Some status)
     | _ \<Rightarrow> True)"

definition job_error_fields :: "job_exc \<Rightarrow> string \<times> string" where
  "job_error_fields exc =
    (if strip (ex_text exc) = [] then ex_type exc else strip (ex_text exc), ex_type exc)"

text \<open>An exception of a transaction, as the worker sees it; \<open>etext\<close> is its message.\<close>

definition db_exc :: "(exn \<Rightarrow> string \<times> string) \<Rightarrow> exn \<Rightarrow> job_exc" where
  "db_exc etext e = \<lparr>ex_kind = (if e = LeaseLostError then Lease_lost else Other_error),
     ex_text = fst (etext e), ex_type = snd (etext e)\<rparr>"

section \<open>An iteration of the worker\<close>

type_synonym outcome = "job_exc + unit"

definition settle :: "org \<Rightarrow> string \<Rightarrow> string \<Rightarrow> outcome \<Rightarrow> int \<Rightarrow> db \<Rightarrow> bool res \<times> db" where
  "settle org jid w out ts d =
    (case out of
       Inr _ \<Rightarrow> (case complete org jid w ts d of Inl e \<Rightarrow> (Inl e, d) | Inr (_, d') \<Rightarrow> (Inr True, d'))
     | Inl exc \<Rightarrow>
       if ex_kind exc = Lease_lost then (Inl LeaseLostError, d)
       else (case job_error_fields exc of (err, et) \<Rightarrow>
         (case fail org jid w err (Some et) (job_failure_is_retryable exc) ts d of
            Inl e \<Rightarrow> (Inl e, d)
          | Inr (_, d') \<Rightarrow> (Inr True, d'))))"

definition run_worker_once ::
    "org \<Rightarrow> string list \<Rightarrow> string \<Rightarrow> int \<Rightarrow> (job_row \<Rightarrow> db \<Rightarrow> outcome \<times> db) \<Rightarrow> int \<Rightarrow> db \<Rightarrow> bool res \<times> db" where
  "run_worker_once org locked w ts body ts' d =
    (case claim org locked w 1 ts d of
       Inl e \<Rightarrow> (Inl e, d)
     | Inr (js, d1) \<Rightarrow>
       (case js of
          [] \<Rightarrow> (Inr False, d1)
        | j # _ \<Rightarrow> (case body j d1 of (out, d2) \<Rightarrow> settle org (job_key j) w out ts' d2)))"

text \<open>
  A heartbeat renews the lease at the instants \<open>t\<close>; before each one other operations run. The loop
  ends with an exception when a renewal raises.
\<close>

fun renew_lease ::
    "(string \<Rightarrow> string) \<Rightarrow> (json \<Rightarrow> string) \<Rightarrow> org \<Rightarrow> string \<Rightarrow> string \<Rightarrow> (job_op list \<times> int) list \<Rightarrow> db \<Rightarrow> unit res \<times> db" where
  "renew_lease uid ps org jid w [] d = (Inr (), d)"
| "renew_lease uid ps org jid w ((ops, t) # beats) d =
    (let d1 = run_ops (exec_job uid ps) ops d in
     case renew org jid w t d1 of
       Inl e \<Rightarrow> (Inl e, d1)
     | Inr (_, d2) \<Rightarrow> renew_lease uid ps org jid w beats d2)"

section \<open>What an execution leaves in the read model\<close>

text \<open>
  \<open>po_interrupt\<close> is the gate the graph stopped at; \<open>gate_payload\<close> is its public form and \<open>gate_type\<close>
  its type.
\<close>

record pipeline_output =
  po_state :: jdict
  po_summary :: jdict
  po_items :: "jdict list"
  po_interrupt :: "jdict option"

definition gate_type_of :: "(json \<Rightarrow> string) \<Rightarrow> jdict \<Rightarrow> string" where
  "gate_type_of pstr i =
    (case fmlookup i ''type'' of
       None \<Rightarrow> ''unknown''
     | Some v \<Rightarrow> if \<not> py_truthy v then ''unknown'' else (case v of JStr s \<Rightarrow> s | _ \<Rightarrow> pstr v))"

definition finish_pipeline ::
    "(string \<Rightarrow> string) \<Rightarrow> (json \<Rightarrow> string) \<Rightarrow> (exn \<Rightarrow> string \<times> string) \<Rightarrow> (jdict \<Rightarrow> jdict) \<Rightarrow> org \<Rightarrow> string \<Rightarrow>
     pipeline_output \<Rightarrow> int \<Rightarrow> db \<Rightarrow> outcome \<times> db" where
  "finish_pipeline uid pstr etext public_payload org rid po ts d =
    (case po_interrupt po of
       Some i \<Rightarrow>
         (case save pstr org rid ''running'' (po_state po) (po_summary po) (po_items po) None None d of
            Inl e \<Rightarrow> (Inl (db_exc etext e), d)
          | Inr (_, d1) \<Rightarrow>
            (case open_gate uid org rid (gate_type_of pstr i) (public_payload i) ts d1 of
               Inl e \<Rightarrow> (Inl (db_exc etext e), d1)
             | Inr (_, d2) \<Rightarrow> (Inr (), d2)))
     | None \<Rightarrow>
         (case save pstr org rid ''done'' (po_state po) (po_summary po) (po_items po) None None d of
            Inl e \<Rightarrow> (Inl (db_exc etext e), d)
          | Inr (_, d1) \<Rightarrow>
            (case append_event org rid ''run_end''
                (obj [(''run_id'', JStr rid), (''summary'', JObj (po_summary po))]) ts d1 of
               Inl e \<Rightarrow> (Inl (db_exc etext e), d1)
             | Inr (_, d2) \<Rightarrow> (Inr (), d2))))"

section \<open>The outbox relay\<close>

text \<open>
  \<open>queue\<close> is the wake-up queue: \<open>None\<close> when publishing succeeds, else the message of the exception. The
  entries that were published are returned beside the result, since the queue is not part of the
  tables. A failed publication re-raises (\<open>RuntimeError\<close> here), unless recording it raises itself.
\<close>

definition publish_outbox_once ::
    "org \<Rightarrow> nat list \<Rightarrow> string \<Rightarrow> int \<Rightarrow> (outbox_row \<Rightarrow> string option) \<Rightarrow> int \<Rightarrow> db \<Rightarrow>
     bool res \<times> db \<times> outbox_row list" where
  "publish_outbox_once org locked w ts queue ts' d =
    (case claim_outbox org locked w 1 ts d of
       Inl e \<Rightarrow> (Inl e, d, [])
     | Inr (entries, d1) \<Rightarrow>
       (case entries of
          [] \<Rightarrow> (Inr False, d1, [])
        | entry # _ \<Rightarrow>
          (case queue entry of
             Some err \<Rightarrow>
               (case fail_outbox org (out_key entry) w err ts' d1 of
                  Inl e \<Rightarrow> (Inl e, d1, [])
                | Inr (_, d2) \<Rightarrow> (Inl RuntimeError, d2, []))
           | None \<Rightarrow>
               (case mark_outbox_published org (out_key entry) w ts' d1 of
                  Inl e \<Rightarrow> (Inl e, d1, [entry])
                | Inr (_, d2) \<Rightarrow> (Inr True, d2, [entry])))))"

datatype wake_queue = DatabaseWakeQueue | CloudflareWakeQueue string string | SqsWakeQueue string

definition env_or :: "string \<Rightarrow> string \<Rightarrow> (string \<Rightarrow> string option) \<Rightarrow> string" where
  "env_or name dflt env = (case env name of None \<Rightarrow> dflt | Some v \<Rightarrow> v)"

definition build_wake_queue :: "(string \<Rightarrow> string option) \<Rightarrow> wake_queue res" where
  "build_wake_queue env =
    (let backend = py_lower (strip (env_or ''ORCH_QUEUE_BACKEND'' ''database'' env)) in
     if backend = ''database'' then Inr DatabaseWakeQueue
     else if backend = ''cloudflare'' then
       (let push_url = env_or ''CF_QUEUE_PUSH_URL'' [] env; api_token = env_or ''CF_API_TOKEN'' [] env in
        if push_url = [] \<or> api_token = [] then Inl ValueError else Inr (CloudflareWakeQueue push_url api_token))
     else if backend = ''sqs'' then
       (let queue_url = env_or ''SQS_QUEUE_URL'' [] env in
        if queue_url = [] then Inl ValueError else Inr (SqsWakeQueue queue_url))
     else Inl ValueError)"

section \<open>The runner\<close>

record runner_tick =
  tick_outbox :: bool
  tick_signal :: bool
  tick_job :: bool

text \<open>
  One cycle of the SQS runner. \<open>publish\<close> and \<open>process\<close> are the two steps on the state \<open>'s\<close>, \<open>receipt\<close> is
  the message received. The messages acknowledged are returned beside the result; an exception of a
  step leaves the rest undone.
\<close>

definition run_sqs_cycle ::
    "('s \<Rightarrow> bool res \<times> 's) \<Rightarrow> ('s \<Rightarrow> bool res \<times> 's) \<Rightarrow> string option \<Rightarrow> 's \<Rightarrow> runner_tick res \<times> 's \<times> string list" where
  "run_sqs_cycle publish process receipt s =
    (case publish s of
       (Inl e, s1) \<Rightarrow> (Inl e, s1, [])
     | (Inr published, s1) \<Rightarrow>
       (case process s1 of
          (Inl e, s2) \<Rightarrow> (Inl e, s2, [])
        | (Inr processed, s2) \<Rightarrow>
          (Inr \<lparr>tick_outbox = published, tick_signal = (receipt \<noteq> None), tick_job = processed\<rparr>, s2,
           (case receipt of None \<Rightarrow> [] | Some r \<Rightarrow> [r]))))"

section \<open>Settling a job\<close>

lemma claim_leases:
  assumes inv: "db_inv uid d" and c: "claim org locked w limit ts d = Inr (js, d1)" and j: "j \<in> set js"
  shows "db_inv uid d1" "tget jkey (org, job_key j) (jobs d1) = Some j" "job_org j = org"
    "job_status j = Running" "job_worker j = Some w" "job_lease j = Some (lease_until ts)"
proof -
  show "db_inv uid d1"
    using claim_step [OF inv c] by (rule db_step_inv)
  then have keyed: "keyed jkey (jobs d1)"
    by (simp add: db_inv_defs)
  let ?ids = "claim_candidates org locked limit ts d"
  let ?hit = "\<lambda>j. job_org j = org \<and> job_key j \<in> set ?ids"
  have js: "js = map (take_lease w ts) (filter ?hit (jobs d))"
    and d1: "jobs d1 = map (\<lambda>j. if ?hit j then take_lease w ts j else j) (jobs d)"
    using c by (auto simp: claim_def Let_def)
  obtain j0 where j0: "j0 \<in> set (jobs d)" "?hit j0" "j = take_lease w ts j0"
    using j by (auto simp: js)
  then show org: "job_org j = org" and "job_status j = Running" "job_worker j = Some w"
    "job_lease j = Some (lease_until ts)"
    by (simp_all add: take_lease_def)
  have "j \<in> set (jobs d1)"
    using j0 by (auto simp: d1 image_iff)
  then show "tget jkey (org, job_key j) (jobs d1) = Some j"
    using tget_Some_iff [OF keyed, of "(org, job_key j)" j] org by (simp add: jkey_def)
qed

lemma settle_done:
  assumes "leased_job org jid w ts d = Some j"
  shows "\<exists>d'. settle org jid w (Inr ()) ts d = (Inr True, d') \<and>
    complete org jid w ts d = Inr ((), d')"
  using assms by (simp add: settle_def complete_def)

lemma settle_failed:
  assumes "leased_job org jid w ts d = Some j" "ex_kind exc \<noteq> Lease_lost"
  shows "\<exists>j' d'. settle org jid w (Inl exc) ts d = (Inr True, d') \<and>
    fail org jid w (fst (job_error_fields exc)) (Some (snd (job_error_fields exc)))
      (job_failure_is_retryable exc) ts d = Inr (j', d')"
  using assms by (simp add: settle_def fail_def Let_def split: prod.splits)

lemma complete_row:
  assumes "leased_job org jid w ts d = Some j" "complete org jid w ts d = Inr (x, d')"
  shows "tget jkey (org, jid) (jobs d') = Some (j\<lparr>job_status := JobSucceeded, job_lease := None\<rparr>)"
  using assms leased_jobD [OF assms(1)] by (auto simp: complete_def tget_tupd)

section \<open>Heartbeats\<close>

text \<open>
  The rounds of a heartbeat keep up with a lease that ends at \<open>e\<close> when, before each renewal, no other
  operation may take the job, and each renewal comes before the lease has ended.
\<close>

fun keeps_up :: "org \<Rightarrow> string \<Rightarrow> string \<Rightarrow> int \<Rightarrow> (job_op list \<times> int) list \<Rightarrow> bool" where
  "keeps_up org jid w e [] = True"
| "keeps_up org jid w e ((ops, t) # beats) =
    (list_all (\<lambda>p. \<not> disturbs org jid w e p) ops \<and> t < e \<and> keeps_up org jid w (lease_until t) beats)"

fun lease_end :: "int \<Rightarrow> (job_op list \<times> int) list \<Rightarrow> int" where
  "lease_end e [] = e"
| "lease_end e ((ops, t) # beats) = lease_end (lease_until t) beats"

lemma undisturbed_run:
  assumes "db_inv uid d" "tget jkey (org, jid) (jobs d) = Some j" "job_status j = Running"
    "job_worker j = Some w" "job_lease j = Some e" "list_all (\<lambda>p. \<not> disturbs org jid w e p) ops"
  shows "tget jkey (org, jid) (jobs (run_ops (exec_job uid ps) ops d)) = Some j"
  using lease_exclusive_row assms by blast

lemma heartbeat_holds:
  assumes "db_inv uid d" "tget jkey (org, jid) (jobs d) = Some j" "job_status j = Running"
    "job_worker j = Some w" "job_lease j = Some e" "keeps_up org jid w e beats"
  shows "\<exists>d'. renew_lease uid ps org jid w beats d = (Inr (), d') \<and> db_inv uid d' \<and>
    tget jkey (org, jid) (jobs d') = Some (j\<lparr>job_lease := Some (lease_end e beats)\<rparr>)"
  using assms
proof (induction beats arbitrary: d j e)
  case Nil
  then show ?case
    by (simp add: \<open>job_lease j = Some e\<close> [symmetric])
next
  case (Cons b beats)
  obtain ops t where b: "b = (ops, t)"
    by (cases b)
  let ?d1 = "run_ops (exec_job uid ps) ops d"
  have inv1: "db_inv uid ?d1"
    by (rule job_store.inv_run [OF Cons.prems(1)])
  have row1: "tget jkey (org, jid) (jobs ?d1) = Some j"
    using undisturbed_run [OF Cons.prems(1-5), of ops] Cons.prems(6) by (simp add: b)
  have "leased_job org jid w t ?d1 = Some j"
    using row1 Cons.prems(3-6) by (simp add: leased_job_def holds_lease_def b)
  then obtain x d2 where r: "renew org jid w t ?d1 = Inr (x, d2)"
    and row2: "tget jkey (org, jid) (jobs d2) = Some (j\<lparr>job_lease := Some (lease_until t)\<rparr>)"
    using row1 by (simp add: renew_def Let_def tget_tupd)
  have inv2: "db_inv uid d2"
    using renew_step [OF inv1 r] by (rule db_step_inv)
  show ?case
    using Cons.IH [OF inv2 row2, of "lease_until t"] Cons.prems(3,4,6) r by (simp add: b Let_def)
qed

section \<open>Properties\<close>

text \<open>The failures that repeating the execution cannot mend, or might make pay twice.\<close>

definition permanent :: "exc_kind \<Rightarrow> bool" where
  "permanent k = (k \<in> {Contract_error, Post_send_error} \<or>
     (\<exists>s. 400 \<le> s \<and> s < 500 \<and> s \<noteq> 429 \<and> k \<in> {Replicate_error (Some s), Http_status_error s}))"

lemma permanent_iff: "permanent (ex_kind exc) \<longleftrightarrow> \<not> job_failure_is_retryable exc"
  by (cases "ex_kind exc") (auto simp: permanent_def job_failure_is_retryable_def status_retryable_def split: option.splits)

lemma settle_lost:
  assumes "leased_job org jid w ts d = None \<or> (\<exists>exc. out = Inl exc \<and> ex_kind exc = Lease_lost)"
  shows "settle org jid w out ts d = (Inl LeaseLostError, d)"
  using assms by (cases out) (auto simp: settle_def complete_def fail_def Let_def split: prod.splits)

text \<open>
  C8. What an iteration of the worker makes of the job it claims, whatever its execution and others do to the tables.
  When the lease is no longer the worker's at the end, or the execution found it lost, the iteration raises
  \<open>LeaseLostError\<close> and changes nothing. Otherwise it reports \<open>True\<close>, and: an execution that returned leaves the job
  succeeded, and one that raised a permanent error, an error after the request was sent, or a client error leaves it
  failed and its run in the phase \<open>error\<close>; both for good, so the job, and what it pays for, is never executed again,
  under any later operations. Only other errors, with attempts left, schedule it again, after 5 to 300 seconds.
\<close>

theorem worker_settles_job:
  assumes "db_inv uid d" "claim org locked w 1 ts d = Inr (j # js, d1)" "body j d1 = (out, d2)" "db_inv uid d2"
  shows "if leased_job org (job_key j) w ts' d2 = None \<or> (\<exists>exc. out = Inl exc \<and> ex_kind exc = Lease_lost)
    then run_worker_once org locked w ts body ts' d = (Inl LeaseLostError, d2)
    else \<exists>d3 j2 j3. run_worker_once org locked w ts body ts' d = (Inr True, d3) \<and>
      leased_job org (job_key j) w ts' d2 = Some j2 \<and> tget jkey (org, job_key j) (jobs d3) = Some j3 \<and>
      (case out of
         Inr _ \<Rightarrow> job_status j3 = JobSucceeded
       | Inl exc \<Rightarrow>
           if \<not> permanent (ex_kind exc) \<and> job_attempt j2 < job_max_attempts j2
           then job_status j3 = Retry \<and> ts' + seconds 5 \<le> job_available_at j3 \<and> job_available_at j3 \<le> ts' + seconds 300
           else job_status j3 = JobFailed \<and>
             (\<exists>r. tget rkey (org, job_run j2) (runs d3) = Some r \<and> run_phase r = PhError)) \<and>
      (job_status j3 \<noteq> Retry \<longrightarrow> tget jkey (org, job_key j) (jobs (run_ops (exec_job uid ps) ops d3)) = Some j3)"
proof -
  let ?jid = "job_key j"
  have once: "run_worker_once org locked w ts body ts' d = settle org ?jid w out ts' d2"
    using assms(2,3) by (simp add: run_worker_once_def)
  show ?thesis
  proof (cases "leased_job org ?jid w ts' d2 = None \<or> (\<exists>exc. out = Inl exc \<and> ex_kind exc = Lease_lost)")
    case True
    then show ?thesis
      using once settle_lost by simp
  next
    case False
    then obtain j2 where held: "leased_job org ?jid w ts' d2 = Some j2" and exc: "\<And>exc. out = Inl exc \<Longrightarrow> ex_kind exc \<noteq> Lease_lost"
      by auto
    have "\<exists>d3 j3. run_worker_once org locked w ts body ts' d = (Inr True, d3) \<and> tget jkey (org, ?jid) (jobs d3) = Some j3 \<and>
      (case out of
         Inr _ \<Rightarrow> job_status j3 = JobSucceeded
       | Inl exc \<Rightarrow>
           if \<not> permanent (ex_kind exc) \<and> job_attempt j2 < job_max_attempts j2
           then job_status j3 = Retry \<and> ts' + seconds 5 \<le> job_available_at j3 \<and> job_available_at j3 \<le> ts' + seconds 300
           else job_status j3 = JobFailed \<and>
             (\<exists>r. tget rkey (org, job_run j2) (runs d3) = Some r \<and> run_phase r = PhError)) \<and>
      (job_status j3 \<noteq> Retry \<longrightarrow> tget jkey (org, ?jid) (jobs (run_ops (exec_job uid ps) ops d3)) = Some j3)"
    proof (cases out)
      case (Inr u)
      obtain d3 where s: "settle org ?jid w (Inr ()) ts' d2 = (Inr True, d3)" and c: "complete org ?jid w ts' d2 = Inr ((), d3)"
        using settle_done [OF held] by blast
      have row: "tget jkey (org, ?jid) (jobs d3) = Some (j2\<lparr>job_status := JobSucceeded, job_lease := None\<rparr>)"
        by (rule complete_row [OF held c])
      have "db_inv uid d3"
        using complete_step [OF assms(4) c] by (rule db_step_inv)
      then show ?thesis
        using s once row terminal_row_final [of uid d3 org ?jid _ ps ops] by (simp add: Inr terminal_job_def)
    next
      case (Inl exc)
      obtain j3 d3 where s: "settle org ?jid w (Inl exc) ts' d2 = (Inr True, d3)"
        and f: "fail org ?jid w (fst (job_error_fields exc)) (Some (snd (job_error_fields exc)))
          (job_failure_is_retryable exc) ts' d2 = Inr (j3, d3)"
        using settle_failed [OF held exc] Inl by blast
      have inv3: "db_inv uid d3"
        using fail_step [OF assms(4) f] by (rule db_step_inv)
      show ?thesis
        using fail_retries_or_ends_run [OF assms(4) held, of "fst (job_error_fields exc)"
            "Some (snd (job_error_fields exc))" "job_failure_is_retryable exc"] f s once terminal_row_final [OF inv3, of org ?jid j3 ps ops]
        by (auto simp: Inl terminal_job_def permanent_iff split: if_splits)
    qed
    then show ?thesis
      using False held by auto
  qed
qed

theorem worker_settles_job_witness:
  "\<exists>d3 j3. run_worker_once ''o'' [] ''w1'' 0 (\<lambda>j d. (Inl \<lparr>ex_kind = Http_status_error 503, ex_text = '' '', ex_type = ''E''\<rparr>, d)) 9
      (run_ops (exec_job (\<lambda>s. s) (\<lambda>_. [])) [EnqueueRun ''o'' ''r'' ''offer'' ''tiktok'' 1 fmempty 5 0] empty_db) = (Inr True, d3) \<and>
    tget jkey (''o'', demo_job) (jobs d3) = Some j3 \<and> job_status j3 = Retry"
proof -
  define d where "d = run_ops (exec_job (\<lambda>s. s) (\<lambda>_. [])) [EnqueueRun ''o'' ''r'' ''offer'' ''tiktok'' 1 fmempty 5 0] empty_db"
  let ?exc = "\<lparr>ex_kind = Http_status_error 503, ex_text = '' '', ex_type = ''E''\<rparr>"
  have inv: "db_inv (\<lambda>s. s) d"
    unfolding d_def by (rule job_store.inv_run) simp
  obtain j d1 j2 where c: "claim ''o'' [] ''w1'' 1 0 d = Inr ([j], d1)" "job_key j = demo_job"
    and l: "leased_job ''o'' demo_job ''w1'' 9 d1 = Some j2" "job_attempt j2 < job_max_attempts j2"
    by (simp add: d_def job_eval)
  have inv1: "db_inv (\<lambda>s. s) d1"
    using claim_step [OF inv c(1)] by (rule db_step_inv)
  show ?thesis
    using worker_settles_job [OF inv c(1), of "\<lambda>_ d. (Inl ?exc, d)" "Inl ?exc" d1 9 "\<lambda>_. []" "[]"] inv1 c l
    unfolding d_def [symmetric] by (fastforce simp: permanent_def)
qed

text \<open>
  C9. A heartbeat keeps the lease. As long as every renewal comes before the lease has ended, and
  whatever other operations run in between (claims of other workers included), no renewal raises, the
  job stays the worker's, and no claim before the end of the lease hands it out: of two workers, one
  executes the job.
\<close>

theorem heartbeat_keeps_lease:
  assumes "db_inv uid d" "tget jkey (org, jid) (jobs d) = Some j" "job_status j = Running"
    "job_worker j = Some w" "job_lease j = Some e" "keeps_up org jid w e beats"
  shows "\<exists>d'. renew_lease uid ps org jid w beats d = (Inr (), d') \<and>
    (ts < lease_end e beats \<longrightarrow>
       leased_job org jid w ts d' = Some (j\<lparr>job_lease := Some (lease_end e beats)\<rparr>) \<and>
       (\<exists>js d''. claim org locked w' limit ts d' = Inr (js, d'') \<and> (org, jid) \<notin> jkey ` set js))"
proof -
  obtain d' where d': "renew_lease uid ps org jid w beats d = (Inr (), d')" and inv: "db_inv uid d'"
    and row: "tget jkey (org, jid) (jobs d') = Some (j\<lparr>job_lease := Some (lease_end e beats)\<rparr>)"
    using heartbeat_holds [OF assms] by blast
  have k: "keyed jkey (jobs d')"
    using inv by (simp add: db_inv_defs)
  have "\<exists>js d''. claim org locked w' limit ts d' = Inr (js, d'') \<and> (org, jid) \<notin> jkey ` set js"
    if "ts < lease_end e beats"
    using that claim_others(2) [OF k row, of org locked w' limit ts] assms(3)
    by (fastforce simp: claim_def Let_def claimable_def)
  then show ?thesis
    using d' row assms(3,4) by (simp add: leased_job_def holds_lease_def)
qed

theorem heartbeat_keeps_lease_witness:
  "\<exists>d'. renew_lease (\<lambda>s. s) (\<lambda>_. []) ''o'' demo_job ''w1'' [([Claim ''o'' [] ''w2'' 1 9], 10), ([], 11)]
      (run_ops (exec_job (\<lambda>s. s) (\<lambda>_. [])) demo_ops empty_db) = (Inr (), d') \<and>
    (\<exists>js d''. claim ''o'' [] ''w2'' 1 12 d' = Inr (js, d'') \<and> (''o'', demo_job) \<notin> jkey ` set js)"
proof -
  define d where "d = run_ops (exec_job (\<lambda>s. s) (\<lambda>_. [])) demo_ops empty_db"
  have inv: "db_inv (\<lambda>s. s) d"
    unfolding d_def by (rule job_store.inv_run) simp
  obtain j where "tget jkey (''o'', demo_job) (jobs d) = Some j" "job_status j = Running"
      "job_worker j = Some ''w1''" "job_lease j = Some (lease_until 0)"
    by (simp add: d_def job_eval)
  note j = this
  let ?beats = "[([Claim ''o'' [] ''w2'' 1 9], 10), ([], 11)] :: (job_op list \<times> int) list"
  have k: "keeps_up ''o'' demo_job ''w1'' (lease_until 0) ?beats" and e: "12 < lease_end (lease_until 0) ?beats"
    by (simp_all add: lease_until_def LEASE_SECONDS_def seconds_def)
  obtain d' where "renew_lease (\<lambda>s. s) (\<lambda>_. []) ''o'' demo_job ''w1'' ?beats d = (Inr (), d')"
    "\<exists>js d''. claim ''o'' [] ''w2'' 1 12 d' = Inr (js, d'') \<and> (''o'', demo_job) \<notin> jkey ` set js"
    using heartbeat_keeps_lease [OF inv j k, of "\<lambda>_. []" 12 "[]" "''w2''" 1] e
    by (elim exE conjE impE) (simp, intro that exI conjI)
  then show ?thesis
    unfolding d_def [symmetric] by (intro exI [where x = d'] conjI)
qed

lemma fold_max_ge: "(\<exists>x\<in>insert n (set xs). m \<le> x) \<Longrightarrow> m \<le> fold max xs (n :: int)"
proof (induction xs arbitrary: n)
  case (Cons x xs)
  then show ?case
    using Cons.IH [of "max x n"] by (auto simp: le_max_iff_disj)
qed simp

lemma next_gate_version_greater:
  assumes "g \<in> set (run_gates d)"
  shows "gate_version g < next_gate_version (gate_org g) (gate_run g) (gate_type g) d"
proof -
  have "gate_version g \<le> fold max (map gate_version (filter (\<lambda>h. gate_org h = gate_org g \<and>
      gate_run h = gate_run g \<and> gate_type h = gate_type g) (run_gates d))) 0"
    using assms by (intro fold_max_ge bexI [of _ "gate_version g"]) auto
  then show ?thesis
    by (simp add: next_gate_version_def)
qed

lemma save_gates:
  assumes "save ps org rid phase state summary items err et d = Inr (x, d')"
  shows "run_gates d' = run_gates d"
proof -
  have "run_gates (fold (upsert_item org rid) kvs d0) = run_gates d0" for kvs and d0 :: db
    by (induction kvs arbitrary: d0) (simp_all add: upsert_item_def split: prod.splits option.splits)
  then show ?thesis
    using assms by (auto simp: save_def Let_def upsert_run_def upd_run_def insert_run_def delete_items_def
        split: option.splits if_splits)
qed

text \<open>
   Opening the gate and completing the job are two transactions. A worker that dies between them
  leaves a job that is claimed and executed again, and an execution that stops at a gate never looks
  for one that is pending: it opens a second gate of the same type, with a higher version, for the
  same stop of the run. Both are pending, and each can be resolved into a resume job of its own.
\<close>

theorem reexecution_duplicates_gate:
  assumes g: "tget gkey (org, gid) (run_gates d) = Some g" "gate_run g = rid" "gate_status g = GatePending"
    and i: "po_interrupt po = Some i" "gate_type_of ps i = gate_type g"
    and res: "finish_pipeline uid ps etext public org rid po ts d = (Inr (), d')"
  shows "\<exists>g'. g' \<in> set (run_gates d') \<and> gate_org g' = org \<and> gate_run g' = rid \<and> gate_status g' = GatePending \<and>
    gate_type g' = gate_type g \<and> gate_version g < gate_version g' \<and> gate_key g' \<noteq> gid \<and>
    tget gkey (org, gid) (run_gates d') = Some g"
proof -
  obtain d1 g' where s: "save ps org rid ''running'' (po_state po) (po_summary po) (po_items po) None None d = Inr ((), d1)"
    and o: "open_gate uid org rid (gate_type g) (public i) ts d1 = Inr (g', d')"
    using res by (auto simp: finish_pipeline_def i split: sum.splits)
  have g1: "tget gkey (org, gid) (run_gates d1) = Some g" "g \<in> set (run_gates d1)" "gate_org g = org"
    using tget_SomeD [OF g(1)] g(1) by (auto simp: save_gates [OF s] gkey_def)
  have new: "run_gates d' = run_gates d1 @ [g']" "tget gkey (gkey g') (run_gates d1) = None"
    and g': "gate_org g' = org" "gate_run g' = rid" "gate_status g' = GatePending" "gate_type g' = gate_type g"
      "gate_version g' = next_gate_version org rid (gate_type g) d1"
    using o by (auto simp: open_gate_def Let_def gkey_def add_event_def upd_run_def split: if_splits)
  have "gate_version g < gate_version g'"
    using next_gate_version_greater [OF g1(2)] by (simp add: g'(5) g1(3) g(2))
  moreover have "gkey g' \<noteq> (org, gid)"
    using new(2) g1(1) by auto
  ultimately show ?thesis
    using new g' g1(1) by (intro exI [of _ g']) (simp add: gkey_def tget_append)
qed

theorem reexecution_duplicates_gate_witness:
  "\<exists>d' g g'. finish_pipeline (\<lambda>s. s) (\<lambda>_. []) (\<lambda>_. ([], [])) (\<lambda>p. p) ''o'' ''r''
       \<lparr>po_state = fmempty, po_summary = fmempty, po_items = [], po_interrupt = Some (obj [(''type'', JStr ''g'')])\<rparr> 9
       (run_ops (exec_job (\<lambda>s. s) (\<lambda>_. [])) (demo_ops @ [OpenGate ''o'' ''r'' ''g'' fmempty 3]) empty_db) = (Inr (), d') \<and>
     g \<in> set (run_gates d') \<and> g' \<in> set (run_gates d') \<and> gate_status g = GatePending \<and>
     gate_status g' = GatePending \<and> gate_key g \<noteq> gate_key g'"
proof -
  define d where "d = run_ops (exec_job (\<lambda>s. s) (\<lambda>_. [])) (demo_ops @ [OpenGate ''o'' ''r'' ''g'' fmempty 3]) empty_db"
  let ?gid = "''orchestrator:o:r:gate:g:1''"
  let ?po = "\<lparr>po_state = fmempty, po_summary = fmempty, po_items = [],
      po_interrupt = Some (obj [(''type'', JStr ''g'')])\<rparr>"
  obtain g where g: "tget gkey (''o'', ?gid) (run_gates d) = Some g" "gate_run g = ''r''" "gate_status g = GatePending"
      "gate_type g = ''g''" "gate_key g = ?gid"
    by (simp add: d_def job_eval str_int_def str_nat.simps)
  have i: "po_interrupt ?po = Some (obj [(''type'', JStr ''g'')])" "gate_type_of (\<lambda>_. []) (obj [(''type'', JStr ''g'')]) = gate_type g"
    by (simp_all add: gate_type_of_def obj_def fmlookup_of_list g(4) py_truthy.simps)
  obtain d' where f: "finish_pipeline (\<lambda>s. s) (\<lambda>_. []) (\<lambda>_. ([], [])) (\<lambda>p. p) ''o'' ''r'' ?po 9 d = (Inr (), d')"
    by (simp add: d_def finish_pipeline_def save_def run_phase_of_def upsert_run_def delete_items_def job_eval
        gate_type_of_def obj_def fmlookup_of_list str_int_def str_nat.simps)
  obtain g' where new: "g' \<in> set (run_gates d')" "gate_status g' = GatePending" "gate_key g' \<noteq> ?gid"
      and old: "tget gkey (''o'', ?gid) (run_gates d') = Some g"
    using reexecution_duplicates_gate [OF g(1-3) i f] by (elim exE conjE)
  have "g \<in> set (run_gates d')"
    using tget_SomeD [OF old] by (rule conjunct1)
  moreover have "gate_key g \<noteq> gate_key g'"
    unfolding g(5) by (rule not_sym [OF new(3)])
  ultimately show ?thesis
    unfolding d_def [symmetric] using f g(3) new(1,2) by (intro exI [of _ d'] exI [of _ g] exI [of _ g'] conjI)
qed

end
