(* ===== verification/Creators.thy ===== *)
theory Creators
  imports Item_State Media_Storage Durable_Db
begin

text \<open>
  Access to JSON dictionaries as the program writes it (\<open>d.get(k)\<close>, \<open>str(x or "")\<close>, \<open>list(x or [])\<close>,
  first truthy value of several keys) and the public form of a creator (\<open>creators.py\<close>).

  \<open>ps\<close> is \<open>str\<close> on values that are not strings. A field that the program writes as a list is a list
  or missing: \<open>list_of\<close> of anything else is empty.
\<close>

section \<open>Access to dictionaries\<close>

definition jget :: "jdict \<Rightarrow> string \<Rightarrow> json" where
  "jget d k = (case fmlookup d k of None \<Rightarrow> JNull | Some v \<Rightarrow> v)"

definition jreq :: "jdict \<Rightarrow> string \<Rightarrow> json res" where
  "jreq d k = (case fmlookup d k of None \<Rightarrow> Inl KeyError | Some v \<Rightarrow> Inr v)"

fun first_truthy :: "string list \<Rightarrow> jdict \<Rightarrow> json" where
  "first_truthy [] d = JNull"
| "first_truthy [k] d = jget d k"
| "first_truthy (k # ks) d = (if py_truthy (jget d k) then jget d k else first_truthy ks d)"

definition str_of :: "(json \<Rightarrow> string) \<Rightarrow> json \<Rightarrow> string" where
  "str_of ps v = (case v of JStr s \<Rightarrow> s | _ \<Rightarrow> ps v)"

definition text_of :: "(json \<Rightarrow> string) \<Rightarrow> json \<Rightarrow> string" where
  "text_of ps v = (if py_truthy v then str_of ps v else [])"

definition list_of :: "json \<Rightarrow> json list" where
  "list_of v = (case v of JList xs \<Rightarrow> xs | _ \<Rightarrow> [])"

definition dicts_in :: "json list \<Rightarrow> jdict list" where
  "dicts_in vs = concat (map (\<lambda>v. case v of JObj d \<Rightarrow> [d] | _ \<Rightarrow> []) vs)"

text \<open>\<open>int(x or 0)\<close> and \<open>float(x or 0)\<close> of a number.\<close>

definition int_of :: "json \<Rightarrow> int" where
  "int_of v = (case v of JNum q \<Rightarrow> if q < 0 then - \<lfloor>- q\<rfloor> else \<lfloor>q\<rfloor> | JBool True \<Rightarrow> 1 | _ \<Rightarrow> 0)"

definition num_of :: "json \<Rightarrow> rat" where
  "num_of v = (case v of JNum q \<Rightarrow> q | JBool True \<Rightarrow> 1 | _ \<Rightarrow> 0)"

definition ident :: "(json \<Rightarrow> string) \<Rightarrow> jdict \<Rightarrow> string" where
  "ident ps d = text_of ps (jget d ''id'')"

fun traverse :: "('a \<Rightarrow> 'b res) \<Rightarrow> 'a list \<Rightarrow> 'b list res" where
  "traverse f [] = Inr []"
| "traverse f (x # xs) =
    (case f x of Inl e \<Rightarrow> Inl e | Inr y \<Rightarrow>
      (case traverse f xs of Inl e \<Rightarrow> Inl e | Inr ys \<Rightarrow> Inr (y # ys)))"

lemma jget_fmupd [simp]: "jget (fmupd k v d) k' = (if k = k' then v else jget d k')"
  by (simp add: jget_def)

lemma jget_fmdrop [simp]: "jget (fmdrop k d) k' = (if k = k' then JNull else jget d k')"
  by (simp add: jget_def)

lemma jget_add: "jget (d ++\<^sub>f e) k = (if k |\<in>| fmdom e then jget e k else jget d k)"
  by (simp add: jget_def)

lemma jget_filter: "jget (fmfilter P d) k = (if P k then jget d k else JNull)"
  by (simp add: jget_def)

lemma jget_in_dom: "jget d k \<noteq> JNull \<Longrightarrow> k |\<in>| fmdom d"
  by (auto simp: jget_def split: option.splits intro: fmdomI)

lemma text_of_truthy: "text_of ps v \<noteq> [] \<Longrightarrow> py_truthy v \<and> str_of ps v = text_of ps v"
  by (simp add: text_of_def split: if_splits)

lemma traverse_Inr_iff: "traverse f xs = Inr ys \<longleftrightarrow> list_all2 (\<lambda>x y. f x = Inr y) xs ys"
proof (induction xs arbitrary: ys)
  case (Cons x xs)
  then show ?case
    by (cases ys; cases "f x"; cases "traverse f xs") auto
qed auto

lemma traverse_ok: "(\<And>x. x \<in> set xs \<Longrightarrow> \<exists>y. f x = Inr y) \<Longrightarrow> \<exists>ys. traverse f xs = Inr ys"
  by (induction xs) (fastforce split: sum.splits)+

lemma traverse_raises: "x \<in> set xs \<Longrightarrow> f x = Inl e \<Longrightarrow> \<exists>e'. traverse f xs = Inl e'"
  by (induction xs) (auto split: sum.splits)

lemma find_SomeD: "find P xs = Some x \<Longrightarrow> x \<in> set xs \<and> P x"
  by (induction xs) (auto split: if_splits)

lemma dicts_in_objs [simp]: "dicts_in (map JObj ds) = ds"
  by (induction ds) (simp_all add: dicts_in_def)

lemma set_dicts_in [simp]: "d \<in> set (dicts_in vs) \<longleftrightarrow> JObj d \<in> set vs"
  by (induction vs) (auto simp: dicts_in_def split: json.splits)

section \<open>Addresses of audio\<close>

text \<open>
  The path that \<open>urlparse\<close> of the standard library finds in an address; the scheme is that of the
  media storage.
\<close>

definition params_schemes :: "string list" where
  "params_schemes = [[], ''ftp'', ''hdl'', ''prospero'', ''http'', ''https'', ''shttp'', ''rtsp'', ''rtsps'',
     ''rtspu'', ''sip'', ''sips'', ''mms'', ''sftp'', ''tel'']"

text \<open>The part of the path before the parameters of its last segment.\<close>

definition drop_params :: "string \<Rightarrow> string" where
  "drop_params p =
    (let seg = rev (takeWhile (\<lambda>c. c \<noteq> CHR ''/'') (rev p)); dir = take (length p - length seg) p
     in dir @ takeWhile (\<lambda>c. c \<noteq> CHR '';'') seg)"

definition url_path :: "string \<Rightarrow> string" where
  "url_path u =
    (let clean = url_clean u; scheme = url_scheme u;
         rest = (if scheme = [] then clean else drop (length scheme + 1) clean);
         after = (if take 2 rest = ''//'' then dropWhile (\<lambda>c. c \<notin> {CHR ''/'', CHR ''?'', CHR ''#''}) (drop 2 rest) else rest);
         path = takeWhile (\<lambda>c. c \<noteq> CHR ''?'') (takeWhile (\<lambda>c. c \<noteq> CHR ''#'') after)
     in if scheme \<in> set params_schemes then drop_params path else path)"

definition ends_with :: "string \<Rightarrow> string \<Rightarrow> bool" where
  "ends_with p s = (length p \<le> length s \<and> drop (length s - length p) s = p)"

definition audio_extensions :: "string list" where
  "audio_extensions = [''.mp3'', ''.wav'', ''.m4a'', ''.ogg'']"

definition is_playable_voice_uri :: "json \<Rightarrow> bool" where
  "is_playable_voice_uri v =
    (case v of
       JStr uri \<Rightarrow>
         if uri = [] then False
         else if starts_with ''data:audio/'' (py_lower uri) then True
         else
           let scheme = url_scheme uri; audio = list_ex (\<lambda>e. ends_with e (py_lower (url_path uri))) audio_extensions
           in if scheme \<in> {''http'', ''https'', ''r2''} then audio
              else if scheme \<noteq> [] then False
              else if starts_with ''/'' uri \<or> starts_with ''./'' uri \<or> starts_with ''../'' uri then audio
              else False
     | _ \<Rightarrow> False)"

section \<open>Public form of a creator\<close>

definition normalize_creator_fields :: "jdict \<Rightarrow> jdict" where
  "normalize_creator_fields c =
    (let image_uri = first_truthy [''image_uri'', ''image'', ''upscaled_base''] c;
         voice_ref = first_truthy [''voice_model_ref'', ''voice_ref'', ''voice'', ''voice_id''] c;
         preview = first_truthy [''voice_preview_uri'', ''voice_preview'', ''preview_uri''] c;
         voice_preview_uri = (if preview = JNull \<and> is_playable_voice_uri voice_ref then voice_ref else preview)
     in obj [(''image_uri'', image_uri), (''voice_ref'', voice_ref), (''voice_preview_uri'', voice_preview_uri),
             (''image'', image_uri), (''voice'', voice_ref), (''angles'', JList (list_of (jget c ''angles''))),
             (''voice_reroll_count'', jget c ''voice_reroll_count'')])"

definition public_candidate :: "(json \<Rightarrow> string) \<Rightarrow> jdict \<Rightarrow> jdict list" where
  "public_candidate ps candidate =
    (let uri = (case jget candidate ''preview'' of JObj p \<Rightarrow> jget p ''uri'' | _ \<Rightarrow> JNull) in
     case uri of
       JStr u \<Rightarrow>
         if u = [] then []
         else [obj [(''candidate_id'', jget candidate ''candidate_id''),
            (''preview'', JObj (obj [(''kind'', JStr ''voice_preview''), (''uri'', JStr u), (''media_type'', JStr ''audio''),
               (''renderable'', JBool (is_playable_voice_uri (JStr u)))])),
            (''duration_seconds'', JNum (num_of (jget candidate ''duration_seconds''))),
            (''media_type'', JStr (if py_truthy (jget candidate ''media_type'') then str_of ps (jget candidate ''media_type'')
               else ''audio/mpeg''))]]
     | _ \<Rightarrow> [])"

definition public_candidates :: "(json \<Rightarrow> string) \<Rightarrow> jdict \<Rightarrow> jdict list" where
  "public_candidates ps c = concat (map (public_candidate ps) (dicts_in (list_of (jget c ''voice_candidates''))))"

definition casting_fields :: "string list" where
  "casting_fields = [''archetype'', ''visual_brief'', ''voice_brief'', ''performance_style'', ''exclusions'']"

definition normalize_creator_payload :: "(json \<Rightarrow> string) \<Rightarrow> jdict \<Rightarrow> jdict" where
  "normalize_creator_payload ps c =
    (let fields = normalize_creator_fields c;
         base = obj [(''id'', first_truthy [''id'', ''creator_id''] c), (''image_uri'', jget fields ''image_uri''),
            (''voice_ref'', jget fields ''voice_ref''), (''voice_preview_uri'', jget fields ''voice_preview_uri''),
            (''image'', jget fields ''image''), (''voice'', jget fields ''voice''), (''angles'', jget fields ''angles'')];
         cast = base ++\<^sub>f fmfilter (\<lambda>k. k \<in> set casting_fields) c;
         cands = public_candidates ps c;
         with_cands = (if cands = [] then cast else fmupd ''voice_candidates'' (JList (map JObj cands)) cast)
     in if cands \<noteq> [] \<or> ''selected_voice_candidate_id'' |\<in>| fmdom c
        then fmupd ''selected_voice_candidate_id'' (jget c ''selected_voice_candidate_id'') with_cands
        else with_cands)"

end
