(* ===== verification/Review.thy ===== *)
theory Review
  imports Creators
begin

text \<open>
  The human review of the creative plan (\<open>nodes/stages.py\<close>): what a reviewer may change of concepts
  and creators, the voice candidates designed for each creator and their rerolls, the review node
  itself, and the finalization of the selected voices.

  A node takes the state of the batch to the state with its update applied, or to the exception it
  raises. What the language agents and the voice provider return are arguments.
\<close>

section \<open>State of the batch\<close>

text \<open>\<open>BatchState\<close>; a list or dictionary that is missing is empty.\<close>

record batch =
  run_id :: string
  campaign :: jdict
  concepts :: "jdict list"
  creator_profiles :: "jdict list"
  creator_assignments :: "jdict list"
  roster :: "jdict list"
  review_approved :: bool
  revision_request :: jdict
  results :: "item list"
  total_cost_usd :: rat
  feedback :: "jdict option"

section \<open>Edits of the reviewer\<close>

definition review_concept_fields :: "string list" where
  "review_concept_fields = [''id'', ''offer'', ''hook'', ''angle'', ''audience_problem'', ''product_mechanism'',
     ''evidence_basis'', ''format'', ''hook_style'', ''script'', ''script_draft'']"

definition editable_concept_fields :: "string list" where
  "editable_concept_fields = filter (\<lambda>k. k \<notin> {''id'', ''offer'', ''script_draft''}) review_concept_fields"

definition review_creator_fields :: "string list" where
  "review_creator_fields = [''id'', ''archetype'', ''visual_brief'', ''voice_brief'', ''performance_style'',
     ''exclusions'', ''image_uri'', ''voice_ref'', ''voice_preview_uri'', ''selected_voice_candidate_id'', ''image'',
     ''voice'', ''angles'', ''run_id'', ''offer'', ''status'']"

definition editable_creator_fields :: "string list" where
  "editable_creator_fields = [''archetype'', ''visual_brief'', ''voice_brief'', ''performance_style'',
     ''exclusions'', ''selected_voice_candidate_id'']"

definition same_ids :: "string list \<Rightarrow> string list \<Rightarrow> bool" where
  "same_ids existing updated = (list_all (\<lambda>i. i \<noteq> []) existing \<and> distinct updated \<and> set updated = set existing)"

definition unknown_field :: "string list \<Rightarrow> jdict \<Rightarrow> bool" where
  "unknown_field names u = (\<exists>k \<in> fset (fmdom u). k \<notin> set names)"

text \<open>The update for an identifier: \<open>by_id[k]\<close>, where later updates win.\<close>

definition by_id :: "(json \<Rightarrow> string) \<Rightarrow> jdict list \<Rightarrow> string \<Rightarrow> jdict res" where
  "by_id ps us k = (case find (\<lambda>u. str_of ps (jget u ''id'') = k) (rev us) of None \<Rightarrow> Inl KeyError | Some u \<Rightarrow> Inr u)"

definition edited :: "string list \<Rightarrow> jdict \<Rightarrow> jdict \<Rightarrow> jdict" where
  "edited names d u = d ++\<^sub>f fmfilter (\<lambda>k. k \<in> set names) u"

definition apply_review_concept_updates :: "(json \<Rightarrow> string) \<Rightarrow> jdict list \<Rightarrow> jdict list \<Rightarrow> jdict list res" where
  "apply_review_concept_updates ps cs us =
    (if \<not> same_ids (map (ident ps) cs) (map (ident ps) us) then Inl ValueError
     else if list_ex (unknown_field review_concept_fields) us then Inl ValueError
     else traverse (\<lambda>c. case by_id ps us (str_of ps (jget c ''id'')) of
         Inl e \<Rightarrow> Inl e | Inr u \<Rightarrow> Inr (edited editable_concept_fields c u)) cs)"

text \<open>The candidates that a new voice brief supersedes go to the history of the creator.\<close>

definition superseded :: "jdict \<Rightarrow> json list" where
  "superseded c =
    (let previous = list_of (jget c ''voice_candidates''); history = list_of (jget c ''voice_design_history'')
     in if previous = [] then history
        else history @ [case jget c ''voice_design_batch'' of JObj b \<Rightarrow> JObj b | _ \<Rightarrow> JList previous])"

definition candidate_ids :: "(json \<Rightarrow> string) \<Rightarrow> jdict \<Rightarrow> string list" where
  "candidate_ids ps c = map (\<lambda>d. text_of ps (jget d ''candidate_id'')) (dicts_in (list_of (jget c ''voice_candidates'')))"

definition brief_changed :: "jdict \<Rightarrow> jdict \<Rightarrow> bool" where
  "brief_changed c u =
    (case fmlookup u ''voice_brief'' of None \<Rightarrow> False | Some b \<Rightarrow> \<not> py_eq b (jget c ''voice_brief''))"

definition review_creator :: "(json \<Rightarrow> string) \<Rightarrow> jdict \<Rightarrow> jdict \<Rightarrow> jdict res" where
  "review_creator ps c u =
    (let merged = edited editable_creator_fields c u; selected = text_of ps (jget u ''selected_voice_candidate_id'') in
     if brief_changed c u
     then Inr (fmupd ''selected_voice_candidate_id'' JNull (fmdrop ''voice_design_batch''
            (fmupd ''voice_candidates'' (JList []) (fmupd ''voice_design_history'' (JList (superseded c)) merged))))
     else if selected \<noteq> [] \<and> selected \<notin> set (candidate_ids ps c) then Inl ValueError
     else Inr merged)"

definition apply_review_creator_updates :: "(json \<Rightarrow> string) \<Rightarrow> jdict list \<Rightarrow> jdict list \<Rightarrow> jdict list res" where
  "apply_review_creator_updates ps cs us =
    (if length cs \<noteq> 2 \<or> \<not> same_ids (map (ident ps) cs) (map (ident ps) us) then Inl ValueError
     else if list_ex (unknown_field review_creator_fields) us then Inl ValueError
     else traverse (\<lambda>c. case by_id ps us (str_of ps (jget c ''id'')) of
         Inl e \<Rightarrow> Inl e | Inr u \<Rightarrow> review_creator ps c u) cs)"

definition selection_ok :: "(json \<Rightarrow> string) \<Rightarrow> jdict \<Rightarrow> bool" where
  "selection_ok ps c =
    (let selected = text_of ps (jget c ''selected_voice_candidate_id'')
     in selected \<noteq> [] \<and> selected \<in> set (candidate_ids ps c))"

definition validate_voice_selections :: "(json \<Rightarrow> string) \<Rightarrow> jdict list \<Rightarrow> unit res" where
  "validate_voice_selections ps cs = (if list_all (selection_ok ps) cs then Inr () else Inl ValueError)"

section \<open>Voice candidates\<close>

record voice_settings =
  review_plan :: bool
  max_rerolls :: int
  select_first :: bool

text \<open>
  What the tools return for a creator: the voice specification, and the batch of candidates designed for
  it, with the persisted candidates; \<open>batch_rest\<close> is the batch without them.
\<close>

record voice_tools =
  derive_spec :: "jdict \<Rightarrow> jdict res"
  design_voice :: "jdict \<Rightarrow> string \<Rightarrow> int \<Rightarrow> jdict res"
  persist_candidates :: "string \<Rightarrow> string \<Rightarrow> jdict list \<Rightarrow> jdict list res"

definition revision_target :: "batch \<Rightarrow> json" where
  "revision_target s = jget (revision_request s) ''target''"

definition requested_ids :: "(json \<Rightarrow> string) \<Rightarrow> batch \<Rightarrow> string list" where
  "requested_ids ps s = map (str_of ps) (list_of (jget (revision_request s) ''ids''))"

definition candidate_dict :: "json \<Rightarrow> jdict" where
  "candidate_dict v = (case v of JObj d \<Rightarrow> d | _ \<Rightarrow> fmempty)"

text \<open>A reroll moves the candidates to the history and drops the voice that was chosen.\<close>

definition reroll_creator :: "int \<Rightarrow> jdict \<Rightarrow> jdict" where
  "reroll_creator n c =
    fmdrop ''voice'' (fmdrop ''voice_id'' (fmdrop ''voice_ref''
      (fmupd ''voice_reroll_count'' (JNum (of_int n)) (fmupd ''voice_design_history'' (JList (superseded c)) c))))"

definition with_selection :: "voice_settings \<Rightarrow> jdict list \<Rightarrow> jdict \<Rightarrow> jdict res" where
  "with_selection vs cands c =
    (if review_plan vs then Inr (fmupd ''selected_voice_candidate_id'' JNull c)
     else case cands of
       [] \<Rightarrow> Inr c
     | d # _ \<Rightarrow> if \<not> select_first vs then Inr c
         else (case jreq d ''candidate_id'' of Inl e \<Rightarrow> Inl e
           | Inr v \<Rightarrow> Inr (fmupd ''selected_voice_candidate_id'' v c)))"

definition with_preview :: "jdict list \<Rightarrow> jdict \<Rightarrow> jdict res" where
  "with_preview cands c =
    (case cands of
       [] \<Rightarrow> Inr c
     | d # _ \<Rightarrow> (case jreq d ''preview'' of
         Inl e \<Rightarrow> Inl e
       | Inr (JObj p) \<Rightarrow> (case jreq p ''uri'' of Inl e \<Rightarrow> Inl e | Inr v \<Rightarrow> Inr (fmupd ''voice_preview_uri'' v c))
       | Inr _ \<Rightarrow> Inl TypeError))"

definition designed :: "jdict \<Rightarrow> jdict list \<Rightarrow> jdict \<Rightarrow> jdict \<Rightarrow> jdict" where
  "designed spec cands bat c =
    fmupd ''voice_design_batch'' (JObj bat) (fmupd ''voice_candidates'' (JList (map JObj cands))
      (fmupd ''voice_spec'' (JObj spec) c))"

definition voice_round :: "(json \<Rightarrow> string) \<Rightarrow> voice_settings \<Rightarrow> voice_tools \<Rightarrow> bool \<Rightarrow> jdict \<Rightarrow> (jdict \<times> rat) res" where
  "voice_round ps vs tools reroll c =
    (let cid = (if py_truthy (jget c ''id'') then str_of ps (jget c ''id'') else ''creator'');
         count = int_of (jget c ''voice_reroll_count'');
         n = (if reroll then count + 1 else count)
     in if reroll \<and> count \<ge> max_rerolls vs then Inl ValueError
        else case derive_spec tools c of Inl e \<Rightarrow> Inl e | Inr spec \<Rightarrow>
          (case design_voice tools spec cid n of Inl e \<Rightarrow> Inl e | Inr bat \<Rightarrow>
            (case persist_candidates tools cid
                (if py_truthy (jget bat ''description_hash'') then str_of ps (jget bat ''description_hash'') else ''unknown'')
                (map candidate_dict (list_of (jget bat ''candidates''))) of Inl e \<Rightarrow> Inl e | Inr cands \<Rightarrow>
              (let bat' = fmupd ''reroll_count'' (JNum (of_int n)) (fmupd ''candidates'' (JList (map JObj cands)) bat);
                   c1 = designed spec cands bat' (if reroll then reroll_creator n c else c)
               in case with_selection vs cands c1 of Inl e \<Rightarrow> Inl e | Inr c2 \<Rightarrow>
                 (case with_preview cands c2 of Inl e \<Rightarrow> Inl e | Inr c3 \<Rightarrow> Inr (c3, num_of (jget bat' ''cost_usd'')))))))"

text \<open>A reroll is for the requested creators only.\<close>

definition voice_pass :: "(json \<Rightarrow> string) \<Rightarrow> voice_settings \<Rightarrow> voice_tools \<Rightarrow> bool \<Rightarrow> string list \<Rightarrow> jdict \<Rightarrow> (jdict \<times> rat) res" where
  "voice_pass ps vs tools reroll ids c =
    (let cid = (if py_truthy (jget c ''id'') then str_of ps (jget c ''id'') else ''creator'')
     in if reroll \<and> cid \<notin> set ids then Inr (c, 0) else voice_round ps vs tools reroll c)"

definition node_voice_candidates :: "(json \<Rightarrow> string) \<Rightarrow> voice_settings \<Rightarrow> voice_tools \<Rightarrow> batch \<Rightarrow> batch res" where
  "node_voice_candidates ps vs tools s =
    (let reroll = (revision_target s = JStr ''voices''); ids = requested_ids ps s in
     if reroll \<and> (ids = [] \<or> \<not> set ids \<subseteq> set (map (ident ps) (roster s))) then Inl ValueError
     else case traverse (voice_pass ps vs tools reroll ids) (roster s) of
         Inl e \<Rightarrow> Inl e
       | Inr rs \<Rightarrow> Inr (s\<lparr>roster := map fst rs,
           total_cost_usd := add_cost (Some (total_cost_usd s)) (Some (sum_list (map snd rs)))\<rparr>))"

section \<open>The review gate\<close>

text \<open>The gate the node stops at, when the run is reviewed; \<open>None\<close> when it passes through.\<close>

definition review_interrupt :: "voice_settings \<Rightarrow> batch \<Rightarrow> jdict option" where
  "review_interrupt vs s =
    (if \<not> review_plan vs then None
     else Some (obj [(''type'', JStr ''review_creative_plan''), (''concepts'', JList (map JObj (concepts s))),
                     (''creators'', JList (map JObj (roster s)))]))"

definition review_targets :: "json list" where
  "review_targets = [JStr ''concepts'', JStr ''scripts'', JStr ''creators'', JStr ''voices'']"

definition dict_list :: "json list \<Rightarrow> jdict list res" where
  "dict_list vs = traverse (\<lambda>v. case v of JObj d \<Rightarrow> Inr d | _ \<Rightarrow> Inl AttributeError) vs"

text \<open>\<open>f(old, updates)\<close> when the decision has a list of updates under \<open>k\<close>, else \<open>old\<close>.\<close>

definition apply_decision ::
  "(jdict list \<Rightarrow> jdict list \<Rightarrow> jdict list res) \<Rightarrow> jdict \<Rightarrow> string \<Rightarrow> jdict list \<Rightarrow> jdict list res" where
  "apply_decision f decision k old =
    (case jget decision k of
       JList vs \<Rightarrow> (case dict_list vs of Inl e \<Rightarrow> Inl e | Inr us \<Rightarrow> f old us)
     | _ \<Rightarrow> Inr old)"

definition hashable :: "json \<Rightarrow> bool" where
  "hashable v = (case v of JList _ \<Rightarrow> False | JObj _ \<Rightarrow> False | _ \<Rightarrow> True)"

definition node_review :: "(json \<Rightarrow> string) \<Rightarrow> voice_settings \<Rightarrow> jdict \<Rightarrow> batch \<Rightarrow> batch res" where
  "node_review ps vs decision s =
    (if \<not> review_plan vs then Inr (s\<lparr>review_approved := True, revision_request := fmempty\<rparr>)
     else
       let action = (case fmlookup decision ''action'' of None \<Rightarrow> JStr ''approve'' | Some v \<Rightarrow> v)
       in if action = JStr ''regenerate'' then
            (let target = jget decision ''target'' in
             if \<not> hashable target then Inl TypeError
             else if target \<notin> set review_targets then Inl ValueError
             else
               let request = obj [(''target'', target), (''ids'', JList (list_of (jget decision ''ids''))),
                     (''feedback'', JStr (text_of ps (jget decision ''feedback'')))];
                   s1 = s\<lparr>review_approved := False, revision_request := request\<rparr>
               in if target \<in> {JStr ''creators'', JStr ''voices''} then
                    (case apply_decision (apply_review_creator_updates ps) decision ''creators'' (roster s) of
                       Inl e \<Rightarrow> Inl e | Inr cs \<Rightarrow> Inr (s1\<lparr>roster := cs\<rparr>))
                  else
                    (case apply_decision (apply_review_concept_updates ps) decision ''concepts'' (concepts s) of
                       Inl e \<Rightarrow> Inl e | Inr cs \<Rightarrow> Inr (s1\<lparr>concepts := cs\<rparr>)))
          else if action \<noteq> JStr ''approve'' then Inl ValueError
          else
            (case apply_decision (apply_review_creator_updates ps) decision ''creators'' (roster s) of
               Inl e \<Rightarrow> Inl e
             | Inr creators \<Rightarrow>
                 (case validate_voice_selections ps creators of
                    Inl e \<Rightarrow> Inl e
                  | Inr _ \<Rightarrow>
                      (case apply_decision (apply_review_concept_updates ps) decision ''concepts'' (concepts s) of
                         Inl e \<Rightarrow> Inl e
                       | Inr cs \<Rightarrow> Inr (s\<lparr>concepts := cs, roster := creators, review_approved := True,
                           revision_request := fmempty\<rparr>)))))"

section \<open>Finalization of the voices\<close>

definition selected_candidate :: "(json \<Rightarrow> string) \<Rightarrow> jdict \<Rightarrow> jdict option" where
  "selected_candidate ps c =
    find (\<lambda>d. text_of ps (jget d ''candidate_id'') = text_of ps (jget c ''selected_voice_candidate_id''))
      (dicts_in (list_of (jget c ''voice_candidates'')))"

definition or_text :: "(json \<Rightarrow> string) \<Rightarrow> json list \<Rightarrow> string \<Rightarrow> string" where
  "or_text ps vs dflt = (case find py_truthy vs of None \<Rightarrow> dflt | Some v \<Rightarrow> str_of ps v)"

definition preview_uri_of :: "jdict \<Rightarrow> json" where
  "preview_uri_of d = (case jget d ''preview'' of JObj p \<Rightarrow> jget p ''uri'' | _ \<Rightarrow> JNull)"

text \<open>The finalized voice recorded in the creator.\<close>

definition finalized_creator :: "(json \<Rightarrow> string) \<Rightarrow> jdict \<Rightarrow> jdict \<Rightarrow> jdict \<Rightarrow> jdict \<Rightarrow> jdict res" where
  "finalized_creator ps selected bat fin c =
    (let voice_ref = strip (str_of ps (jget fin ''voice_ref''))
     in if voice_ref = [] then Inl ValueError
        else if \<not> py_truthy (preview_uri_of selected) then Inl ValueError
        else Inr (c ++\<^sub>f obj [(''voice_ref'', JStr voice_ref), (''voice_id'', JStr voice_ref), (''voice'', JStr voice_ref),
            (''voice_preview_uri'', JStr (str_of ps (preview_uri_of selected))),
            (''voice_provider'', JStr (or_text ps [jget fin ''provider'', jget bat ''provider''] ''elevenlabs'')),
            (''voice_design_model'', JStr (or_text ps [jget fin ''design_model'', jget bat ''design_model''] [])),
            (''voice_tts_model'', JStr (text_of ps (jget fin ''tts_model''))),
            (''voice_design_hash'', JStr (text_of ps (jget bat ''description_hash''))),
            (''voice_status'', JStr ''selected'')]))"

text \<open>
  \<open>fin\<close> is the tool that creates a voice for good from a candidate, its batch and the creator; the
  calls made to it, whether they succeed or not, are returned beside the result.
\<close>

type_synonym finalizer = "string \<Rightarrow> jdict \<Rightarrow> string \<Rightarrow> jdict res"
type_synonym voice_call = "string \<times> string"

definition finalize_creator :: "(json \<Rightarrow> string) \<Rightarrow> finalizer \<Rightarrow> jdict \<Rightarrow> jdict res \<times> voice_call list" where
  "finalize_creator ps fin c =
    (if py_truthy (jget c ''voice_ref'') then
       (Inr (if ''voice_id'' |\<in>| fmdom c then c else fmupd ''voice_id'' (jget c ''voice_ref'') c), [])
     else
       let cid = ident ps c; candidate = text_of ps (jget c ''selected_voice_candidate_id'') in
       case selected_candidate ps c of
         None \<Rightarrow> (Inl ValueError, [])
       | Some d \<Rightarrow>
           (case jget c ''voice_design_batch'' of
              JObj bat \<Rightarrow>
                (case fin candidate bat cid of
                   Inl e \<Rightarrow> (Inl e, [(candidate, cid)])
                 | Inr f \<Rightarrow> (finalized_creator ps d bat f c, [(candidate, cid)]))
            | _ \<Rightarrow> (Inl ValueError, [])))"

fun finalize_all :: "(json \<Rightarrow> string) \<Rightarrow> finalizer \<Rightarrow> jdict list \<Rightarrow> jdict list res \<times> voice_call list" where
  "finalize_all ps fin [] = (Inr [], [])"
| "finalize_all ps fin (c # cs) =
    (case finalize_creator ps fin c of
       (Inl e, calls) \<Rightarrow> (Inl e, calls)
     | (Inr c', calls) \<Rightarrow>
         (case finalize_all ps fin cs of
            (Inl e, calls') \<Rightarrow> (Inl e, calls @ calls')
          | (Inr cs', calls') \<Rightarrow> (Inr (c' # cs'), calls @ calls')))"

definition required_creators :: "(json \<Rightarrow> string) \<Rightarrow> batch \<Rightarrow> string list" where
  "required_creators ps s =
    (case map (\<lambda>a. text_of ps (jget a ''creator_id'')) (creator_assignments s) of
       [] \<Rightarrow> map (ident ps) (roster s)
     | ids \<Rightarrow> ids)"

definition has_voice :: "(json \<Rightarrow> string) \<Rightarrow> jdict list \<Rightarrow> string \<Rightarrow> bool" where
  "has_voice ps cs cid =
    (case find (\<lambda>c. ident ps c = cid) (rev cs) of None \<Rightarrow> False | Some c \<Rightarrow> py_truthy (jget c ''voice_ref''))"

definition node_finalize_voices :: "(json \<Rightarrow> string) \<Rightarrow> finalizer \<Rightarrow> batch \<Rightarrow> batch res \<times> voice_call list" where
  "node_finalize_voices ps fin s =
    (case finalize_all ps fin (roster s) of
       (Inl e, calls) \<Rightarrow> (Inl e, calls)
     | (Inr cs, calls) \<Rightarrow>
         (if list_all (has_voice ps cs) (required_creators ps s) then Inr (s\<lparr>roster := cs\<rparr>) else Inl ValueError, calls))"

section \<open>A creator chosen beforehand\<close>

definition seed_copies :: "string list \<Rightarrow> json \<Rightarrow> jdict \<Rightarrow> jdict" where
  "seed_copies ks v c = (if v = JNull then c else fold (\<lambda>k. fmupd k v) ks c)"

definition normalize_seed_creator :: "(json \<Rightarrow> string) \<Rightarrow> jdict \<Rightarrow> jdict option" where
  "normalize_seed_creator ps c =
    (let cid = first_truthy [''id'', ''creator_id''] c;
         image = first_truthy [''image_uri'', ''image'', ''upscaled_base'', ''image_source_uri''] c;
         voice = first_truthy [''voice_id'', ''voice_ref'', ''voice''] c;
         preview = first_truthy [''voice_preview_uri'', ''voice_preview'', ''preview_uri''] c;
         source = (if py_truthy (jget c ''image_source_uri'') then jget c ''image_source_uri'' else image)
     in if \<not> py_truthy cid then None
        else Some (fmupd ''angles'' (JList (list_of (jget c ''angles'')))
          (seed_copies [''voice_preview_uri''] preview
            (seed_copies [''voice_id'', ''voice_ref'', ''voice''] voice
              ((if image = JNull then id else fmupd ''image_source_uri'' source)
                (seed_copies [''upscaled_base'', ''image_uri'', ''image''] image
                  (fmupd ''id'' (JStr (str_of ps cid)) c)))))))"

text \<open>The roster of a run with a seed creator: it alone, assigned to every concept.\<close>

definition seeded_roster :: "(json \<Rightarrow> string) \<Rightarrow> jdict \<Rightarrow> batch \<Rightarrow> batch" where
  "seeded_roster ps seed s = s\<lparr>roster := [seed],
     creator_assignments := map (\<lambda>c. obj [(''concept_id'', JStr (text_of ps (jget c ''id''))),
         (''creator_id'', JStr (str_of ps (jget seed ''id'')))])
       (filter (\<lambda>c. py_truthy (jget c ''id'')) (concepts s))\<rparr>"

text \<open>
  The roster built from the profiles: one attempt per creator, in parallel. The creators that could be
  built make the roster; the node raises, with the first failure, only when none could.
\<close>

definition built_roster :: "(nat \<Rightarrow> jdict res) \<Rightarrow> nat \<Rightarrow> batch \<Rightarrow> batch res" where
  "built_roster build n s =
    (let rs = map build [0..<n]; cs = concat (map (\<lambda>r. case r of Inl _ \<Rightarrow> [] | Inr c \<Rightarrow> [c]) rs)
     in case (cs, filter isl rs) of
          ([], Inl e # _) \<Rightarrow> Inl e
        | _ \<Rightarrow> Inr (s\<lparr>roster := cs\<rparr>))"

definition node_roster :: "(json \<Rightarrow> string) \<Rightarrow> jdict option \<Rightarrow> nat \<Rightarrow> (jdict \<Rightarrow> jdict) \<Rightarrow> (nat \<Rightarrow> jdict res) \<Rightarrow> batch \<Rightarrow> batch res" where
  "node_roster ps seed creators reference build s =
    (let n = (if creator_profiles s = [] then creators else length (creator_profiles s))
     in case Option.bind seed (normalize_seed_creator ps) of
          Some c \<Rightarrow> Inr (seeded_roster ps (reference c) s)
        | None \<Rightarrow> built_roster build n s)"

end
