(* ===== verification/Batch_Graph.thy ===== *)
theory Batch_Graph
  imports Review
begin

text \<open>
  The outer graph (\<open>graph/builder.py\<close>): its nodes in the order the program wires them, the routing after
  the review, the fan-out that makes one item per concept, and the feedback that closes the batch.

  \<open>batch_step\<close> runs one node and gives the next one; it is deterministic in what the agents return and
  the reviewer decides, which are arguments of every step. \<open>reached\<close> relates a start of the graph to
  every state that some agents and decisions lead to.
\<close>

section \<open>Fan-out\<close>

definition assigned_creator :: "(json \<Rightarrow> string) \<Rightarrow> batch \<Rightarrow> jdict \<Rightarrow> string" where
  "assigned_creator ps s c =
    (case find (\<lambda>a. str_of ps (jget a ''concept_id'') = str_of ps (jget c ''id'')) (rev (creator_assignments s)) of
       None \<Rightarrow> ''None'' | Some a \<Rightarrow> str_of ps (jget a ''creator_id''))"

definition fan_out_roster :: "batch \<Rightarrow> jdict list" where
  "fan_out_roster s = (if roster s = [] then [fmempty] else roster s)"

definition creator_for :: "(json \<Rightarrow> string) \<Rightarrow> batch \<Rightarrow> nat \<Rightarrow> jdict \<Rightarrow> jdict" where
  "creator_for ps s i c =
    (let rs = fan_out_roster s in
     case find (\<lambda>r. jget r ''id'' \<noteq> JNull \<and> str_of ps (jget r ''id'') = assigned_creator ps s c) (rev rs) of
       None \<Rightarrow> rs ! (i mod length rs) | Some r \<Rightarrow> r)"

text \<open>The fields of an item are strings or missing: anything else fails its validation.\<close>

definition opt_str :: "json \<Rightarrow> string option res" where
  "opt_str v = (case v of JNull \<Rightarrow> Inr None | JStr s \<Rightarrow> Inr (Some s) | _ \<Rightarrow> Inl ValueError)"

definition fan_out_item :: "(json \<Rightarrow> string) \<Rightarrow> (nat \<Rightarrow> string) \<Rightarrow> batch \<Rightarrow> nat \<times> jdict \<Rightarrow> item res" where
  "fan_out_item ps uuid s ic =
    (let (i, c) = ic; r = creator_for ps s i c; data = fmdrop ''script'' c in
     case opt_str (jget r ''id'') of Inl e \<Rightarrow> Inl e | Inr ref \<Rightarrow>
       (case opt_str (first_truthy [''voice_model_ref'', ''voice_ref'', ''voice_id''] r) of Inl e \<Rightarrow> Inl e | Inr voice \<Rightarrow>
         (case opt_str (first_truthy [''image_source_uri'', ''upscaled_base''] r) of Inl e \<Rightarrow> Inl e | Inr img \<Rightarrow>
           (case opt_str (jget r ''image_local_path'') of Inl e \<Rightarrow> Inl e | Inr path \<Rightarrow>
             (case opt_str (jget c ''script'') of Inl e \<Rightarrow> Inl e | Inr sc \<Rightarrow>
               (let it = (new_item (uuid i) data ref voice img path)\<lparr>script := sc\<rparr>
                in Inr (if py_truthy (jget data ''id'') then it\<lparr>item_id := str_of ps (jget data ''id'')\<rparr> else it)))))))"

definition fan_out :: "(json \<Rightarrow> string) \<Rightarrow> (nat \<Rightarrow> string) \<Rightarrow> batch \<Rightarrow> item list res" where
  "fan_out ps uuid s = traverse (fan_out_item ps uuid s) (zip [0..<length (concepts s)] (concepts s))"

section \<open>Feedback\<close>

definition style_of :: "(json \<Rightarrow> string) \<Rightarrow> item \<Rightarrow> string" where
  "style_of ps it = (case fmlookup (concept it) ''hook_style'' of None \<Rightarrow> ''unknown'' | Some v \<Rightarrow> str_of ps v)"

text \<open>Code point order of strings, which is Python's.\<close>

fun str_le :: "string \<Rightarrow> string \<Rightarrow> bool" where
  "str_le [] b = True"
| "str_le (x # a) [] = False"
| "str_le (x # a) (y # b) =
    ((of_char x :: nat) < of_char y \<or> (x = y \<and> str_le a b))"

definition style_before :: "(string \<Rightarrow> nat) \<Rightarrow> string \<Rightarrow> string \<Rightarrow> bool" where
  "style_before n a b = (n b < n a \<or> (n a = n b \<and> str_le a b))"

fun insert_by :: "('a \<Rightarrow> 'a \<Rightarrow> bool) \<Rightarrow> 'a \<Rightarrow> 'a list \<Rightarrow> 'a list" where
  "insert_by le x [] = [x]"
| "insert_by le x (y # ys) = (if le x y then x # y # ys else y # insert_by le x ys)"

definition sort_by :: "('a \<Rightarrow> 'a \<Rightarrow> bool) \<Rightarrow> 'a list \<Rightarrow> 'a list" where
  "sort_by le xs = foldr (insert_by le) xs []"

definition top_styles :: "(json \<Rightarrow> string) \<Rightarrow> item list \<Rightarrow> string list" where
  "top_styles ps its =
    (let styles = map (style_of ps) its in sort_by (style_before (count_list styles)) (remdups styles))"

definition node_feedback :: "(json \<Rightarrow> string) \<Rightarrow> batch \<Rightarrow> batch" where
  "node_feedback ps s =
    (let rs = results s; approved = filter (\<lambda>r. assembled r \<noteq> None \<and> \<not> dropped r) rs
     in s\<lparr>feedback := Some (obj [(''produced'', JNum (of_nat (length rs))), (''approved'', JNum (of_nat (length approved))),
           (''dropped'', JNum (of_nat (length (filter dropped rs)))),
           (''total_attempts'', JNum (of_int (sum_list (map attempts rs)))),
           (''total_cost_usd'', JNum (py_round 4 (sum_list (map cost_usd rs)))),
           (''winning_styles'', JList (map JStr (top_styles ps approved)))])\<rparr>)"

section \<open>The graph\<close>

datatype bnode =
    Concepts | Scripts | CreatorProfiles | Roster | VoiceCandidates | ReviewGate | FinalizeVoices | Production | Feedback

record run_settings = voice_settings +
  seed_creator :: "jdict option"
  default_creators :: nat

record agents =
  generate_concepts :: "batch \<Rightarrow> (jdict \<times> jdict list) res"
  write_script :: "batch \<Rightarrow> jdict \<Rightarrow> (string \<times> jdict) res"
  design_roster :: "batch \<Rightarrow> (jdict list \<times> jdict list) res"
  seed_reference :: "jdict \<Rightarrow> jdict"
  build_creator :: "nat \<Rightarrow> jdict res"
  the_voice_tools :: voice_tools
  finalize_voice :: finalizer
  fresh_id :: "nat \<Rightarrow> string"
  produce_item :: "item \<Rightarrow> item res"

definition node_concepts :: "agents \<Rightarrow> batch \<Rightarrow> batch res" where
  "node_concepts ag s = (case generate_concepts ag s of Inl e \<Rightarrow> Inl e | Inr (camp, cs) \<Rightarrow> Inr (s\<lparr>campaign := camp, concepts := cs\<rparr>))"

definition node_scripts :: "agents \<Rightarrow> batch \<Rightarrow> batch res" where
  "node_scripts ag s =
    (case traverse (\<lambda>c. case write_script ag s c of Inl e \<Rightarrow> Inl e
         | Inr (text, draft) \<Rightarrow> Inr (fmupd ''script_draft'' (JObj draft) (fmupd ''script'' (JStr text) c))) (concepts s) of
       Inl e \<Rightarrow> Inl e
     | Inr cs \<Rightarrow> Inr (s\<lparr>concepts := cs\<rparr>))"

definition node_creator_profiles :: "agents \<Rightarrow> batch \<Rightarrow> batch res" where
  "node_creator_profiles ag s =
    (case design_roster ag s of Inl e \<Rightarrow> Inl e
     | Inr (profiles, assignments) \<Rightarrow> Inr (s\<lparr>creator_profiles := profiles, creator_assignments := assignments\<rparr>))"

definition route_after_review :: "batch \<Rightarrow> bnode" where
  "route_after_review s =
    (if review_approved s then FinalizeVoices
     else let target = revision_target s in
       if target = JStr ''concepts'' then Concepts
       else if target = JStr ''scripts'' then Scripts
       else if target = JStr ''creators'' then CreatorProfiles
       else if target = JStr ''voices'' then VoiceCandidates
       else ReviewGate)"

text \<open>The items run in parallel; their results are accumulated in the order of the items.\<close>

definition run_production :: "(json \<Rightarrow> string) \<Rightarrow> agents \<Rightarrow> batch \<Rightarrow> (bnode option \<times> batch) res" where
  "run_production ps ag s =
    (case fan_out ps (fresh_id ag) s of Inl e \<Rightarrow> Inl e | Inr [] \<Rightarrow> Inr (None, s)
     | Inr its \<Rightarrow> (case traverse (produce_item ag) its of Inl e \<Rightarrow> Inl e
         | Inr rs \<Rightarrow> Inr (Some Feedback, s\<lparr>results := add_items (Some (results s)) (Some rs),
             total_cost_usd := fold (\<lambda>r t. add_cost (Some t) (Some (cost_usd r))) rs (total_cost_usd s)\<rparr>)))"

definition then_go :: "bnode \<Rightarrow> batch res \<Rightarrow> (bnode option \<times> batch) res" where
  "then_go n r = (case r of Inl e \<Rightarrow> Inl e | Inr s \<Rightarrow> Inr (Some n, s))"

fun batch_step :: "(json \<Rightarrow> string) \<Rightarrow> run_settings \<Rightarrow> agents \<Rightarrow> jdict \<Rightarrow> bnode \<Rightarrow> batch \<Rightarrow>
    (bnode option \<times> batch) res \<times> voice_call list" where
  "batch_step ps rs ag dec Concepts s = (then_go Scripts (node_concepts ag s), [])"
| "batch_step ps rs ag dec Scripts s = (then_go CreatorProfiles (node_scripts ag s), [])"
| "batch_step ps rs ag dec CreatorProfiles s = (then_go Roster (node_creator_profiles ag s), [])"
| "batch_step ps rs ag dec Roster s =
    (then_go VoiceCandidates (node_roster ps (seed_creator rs) (default_creators rs) (seed_reference ag) (build_creator ag) s), [])"
| "batch_step ps rs ag dec VoiceCandidates s =
    (then_go ReviewGate (node_voice_candidates ps (voice_settings.truncate rs) (the_voice_tools ag) s), [])"
| "batch_step ps rs ag dec ReviewGate s =
    (case node_review ps (voice_settings.truncate rs) dec s of
       Inl e \<Rightarrow> (Inl e, [])
     | Inr s' \<Rightarrow> (Inr (Some (route_after_review s'), s'), []))"
| "batch_step ps rs ag dec FinalizeVoices s =
    (case node_finalize_voices ps (finalize_voice ag) s of (r, calls) \<Rightarrow> (then_go Production r, calls))"
| "batch_step ps rs ag dec Production s = (run_production ps ag s, [])"
| "batch_step ps rs ag dec Feedback s = (Inr (None, node_feedback ps s), [])"

inductive reached :: "(json \<Rightarrow> string) \<Rightarrow> run_settings \<Rightarrow> batch \<Rightarrow> bnode \<Rightarrow> batch \<Rightarrow> bool"
  for ps rs s0 where
  start: "reached ps rs s0 Concepts s0"
| step: "reached ps rs s0 n s \<Longrightarrow> batch_step ps rs ag dec n s = (Inr (Some n', s'), calls) \<Longrightarrow> reached ps rs s0 n' s'"

end
