(* ===== verification/Batch_Properties.thy ===== *)
theory Batch_Properties
  imports Batch_Graph "HOL-Library.Sublist"
begin

text \<open>
  What the outer graph guarantees: the review changes what a reviewer may change and nothing else, the
  candidates of a creator are those of its current batch, voices are created only for selected
  candidates, production starts only after the approval, and the feedback does not depend on the order
  in which the items end.
\<close>

section \<open>Edits\<close>

lemma lookup_edited [simp]:
  "fmlookup (edited names d u) k = (if k \<in> set names \<and> fmlookup u k \<noteq> None then fmlookup u k else fmlookup d k)"
  by (auto simp: edited_def fmdom'_notI fmlookup_dom_iff)

definition creator_state_fields :: "string list" where
  "creator_state_fields = [''voice_candidates'', ''voice_design_history'', ''voice_design_batch'']"

lemma review_creator_keeps:
  assumes "review_creator ps c u = Inr c'" "k \<notin> set editable_creator_fields" "k \<notin> set creator_state_fields"
  shows "fmlookup c' k = fmlookup c k"
  using assms by (auto simp: review_creator_def Let_def creator_state_fields_def editable_creator_fields_def split: if_splits)

lemma review_creator_unchanged_voices:
  assumes "review_creator ps c u = Inr c'" "\<not> brief_changed c u" "k \<notin> set editable_creator_fields"
  shows "fmlookup c' k = fmlookup c k"
  using assms by (auto simp: review_creator_def Let_def split: if_splits)

lemma review_creator_new_brief:
  assumes "review_creator ps c u = Inr c'" "brief_changed c u"
  shows "jget c' ''voice_candidates'' = JList []" "jget c' ''voice_design_batch'' = JNull"
    "jget c' ''selected_voice_candidate_id'' = JNull" "jget c' ''voice_design_history'' = JList (superseded c)"
  using assms by (auto simp: review_creator_def Let_def)

lemma by_idD: "by_id ps us k = Inr u \<Longrightarrow> u \<in> set us \<and> str_of ps (jget u ''id'') = k"
  by (auto simp: by_id_def dest: find_SomeD split: option.splits)

lemma apply_creator_updatesD:
  assumes "apply_review_creator_updates ps cs us = Inr cs'"
  shows "length cs = 2" "same_ids (map (ident ps) cs) (map (ident ps) us)"
    "list_all2 (\<lambda>c c'. \<exists>u \<in> set us. by_id ps us (str_of ps (jget c ''id'')) = Inr u \<and> review_creator ps c u = Inr c') cs cs'"
proof -
  show "length cs = 2" "same_ids (map (ident ps) cs) (map (ident ps) us)"
    using assms by (auto simp: apply_review_creator_updates_def split: if_splits)
  have "traverse (\<lambda>c. case by_id ps us (str_of ps (jget c ''id'')) of
         Inl e \<Rightarrow> Inl e | Inr u \<Rightarrow> review_creator ps c u) cs = Inr cs'"
    using assms by (auto simp: apply_review_creator_updates_def split: if_splits)
  then show "list_all2 (\<lambda>c c'. \<exists>u \<in> set us. by_id ps us (str_of ps (jget c ''id'')) = Inr u \<and> review_creator ps c u = Inr c') cs cs'"
    unfolding traverse_Inr_iff
    by (rule list.rel_mono_strong) (auto dest: by_idD split: sum.splits)
qed

lemma apply_concept_updatesD:
  assumes "apply_review_concept_updates ps cs us = Inr cs'"
  shows "list_all2 (\<lambda>c c'. \<exists>u. c' = edited editable_concept_fields c u) cs cs'"
proof -
  have "traverse (\<lambda>c. case by_id ps us (str_of ps (jget c ''id'')) of
         Inl e \<Rightarrow> Inl e | Inr u \<Rightarrow> Inr (edited editable_concept_fields c u)) cs = Inr cs'"
    using assms by (auto simp: apply_review_concept_updates_def split: if_splits)
  then show ?thesis
    unfolding traverse_Inr_iff by (rule list.rel_mono_strong) (auto split: sum.splits)
qed

lemma find_key: "x \<in> set xs \<Longrightarrow> f x = k \<Longrightarrow> \<exists>y. find (\<lambda>x. f x = k) xs = Some y"
  by (induction xs) auto

lemma ident_str: "ident ps d \<noteq> [] \<Longrightarrow> str_of ps (jget d ''id'') = ident ps d"
  using text_of_truthy unfolding ident_def by (rule conjunct2)

lemma by_id_total:
  assumes "same_ids (map (ident ps) cs) (map (ident ps) us)" "c \<in> set cs"
  shows "\<exists>u \<in> set us. by_id ps us (str_of ps (jget c ''id'')) = Inr u"
proof -
  have c: "ident ps c \<noteq> []" "ident ps c \<in> set (map (ident ps) us)"
    using assms by (auto simp: same_ids_def list_all_iff)
  then obtain u where u: "u \<in> set us" "ident ps u = ident ps c"
    by auto
  have eq: "str_of ps (jget u ''id'') = str_of ps (jget c ''id'')"
    unfolding ident_str [OF c(1)] u(2) [symmetric] by (rule ident_str) (unfold u(2), rule c(1))
  obtain v where v: "find (\<lambda>u. str_of ps (jget u ''id'') = str_of ps (jget c ''id'')) (rev us) = Some v"
    using find_key [of u "rev us" "\<lambda>u. str_of ps (jget u ''id'')", OF _ eq] u(1) by (auto simp only: set_rev)
  then have "by_id ps us (str_of ps (jget c ''id'')) = Inr v"
    by (simp only: by_id_def option.case)
  then show ?thesis
    using by_idD by blast
qed

lemma traverse_error: "traverse f xs = Inl e \<Longrightarrow> \<exists>x \<in> set xs. f x = Inl e"
  by (induction xs) (auto split: sum.splits)

lemma apply_creator_updates_error: "apply_review_creator_updates ps cs us = Inl e \<Longrightarrow> e = ValueError"
  by (auto simp: apply_review_creator_updates_def review_creator_def Let_def split: if_splits sum.splits
      dest!: traverse_error dest: by_id_total)

lemma dict_list_objs [simp]: "dict_list (map JObj us) = Inr us"
  by (induction us) (simp_all add: dict_list_def)

text \<open>The concepts and creators after a review are those before it, edited.\<close>

definition edit_of :: "string list \<Rightarrow> jdict \<Rightarrow> jdict \<Rightarrow> bool" where
  "edit_of names d d' = (\<forall>k. k \<notin> set names \<longrightarrow> fmlookup d' k = fmlookup d k)"

lemma edit_of_refl [simp]: "edit_of names d d"
  by (simp add: edit_of_def)

text \<open>
  What a review may do to a creator: change its editable fields, and when it changes the voice brief drop its voice
  candidates, their batch and the selection, keeping the candidates in the history.
\<close>

definition redesigned :: "jdict \<Rightarrow> jdict \<Rightarrow> bool" where
  "redesigned c c' \<longleftrightarrow> edit_of (editable_creator_fields @ creator_state_fields) c c' \<and>
     \<not> py_eq (jget c' ''voice_brief'') (jget c ''voice_brief'') \<and> jget c' ''voice_candidates'' = JList [] \<and>
     fmlookup c' ''voice_design_batch'' = None \<and> jget c' ''selected_voice_candidate_id'' = JNull \<and>
     jget c' ''voice_design_history'' = JList (superseded c)"

definition reviewed_creator :: "jdict \<Rightarrow> jdict \<Rightarrow> bool" where
  "reviewed_creator c c' \<longleftrightarrow> edit_of editable_creator_fields c c' \<or> redesigned c c'"

lemma reviewed_creator_refl [simp]: "reviewed_creator c c"
  by (simp add: reviewed_creator_def)

lemma reviewed_creator_edit: "reviewed_creator c c' \<Longrightarrow> edit_of (editable_creator_fields @ creator_state_fields) c c'"
  by (auto simp: reviewed_creator_def redesigned_def edit_of_def)

lemma review_creator_reviewed:
  assumes "review_creator ps c u = Inr c'"
  shows "reviewed_creator c c'"
proof (cases "brief_changed c u")
  case True
  then obtain b where b: "fmlookup u ''voice_brief'' = Some b" "\<not> py_eq b (jget c ''voice_brief'')"
    by (auto simp: brief_changed_def split: option.splits)
  have c': "c' = fmupd ''selected_voice_candidate_id'' JNull (fmdrop ''voice_design_batch''
      (fmupd ''voice_candidates'' (JList []) (fmupd ''voice_design_history'' (JList (superseded c)) (edited editable_creator_fields c u))))"
    using assms True by (simp add: review_creator_def Let_def)
  have "edit_of (editable_creator_fields @ creator_state_fields) c c'"
    using review_creator_keeps [OF assms] by (auto simp: edit_of_def)
  moreover have "jget c' ''voice_brief'' = b"
    using b(1) by (auto simp: c' jget_def edited_def editable_creator_fields_def fmlookup_dom_iff)
  ultimately show ?thesis
    using b(2) by (simp add: reviewed_creator_def redesigned_def c' jget_def)
next
  case False
  then show ?thesis
    using review_creator_unchanged_voices [OF assms] by (simp add: reviewed_creator_def edit_of_def)
qed

lemma apply_decision_cases:
  assumes "apply_decision f decision k old = Inr new"
  obtains (same) "new = old" | (updated) us where "f old us = Inr new"
proof (cases "jget decision k")
  case (JList vs)
  then show thesis
    using assms updated by (cases "dict_list vs") (simp_all add: apply_decision_def)
qed (use assms same in \<open>simp_all add: apply_decision_def\<close>)

lemma decided_concepts:
  assumes "apply_decision (apply_review_concept_updates ps) decision k old = Inr new"
  shows "list_all2 (edit_of editable_concept_fields) old new"
  using assms
proof (cases rule: apply_decision_cases)
  case (updated us)
  from apply_concept_updatesD [OF this] show ?thesis
    by (rule list.rel_mono_strong) (auto simp: edit_of_def)
qed (simp add: list.rel_refl)

lemma decided_creators:
  assumes "apply_decision (apply_review_creator_updates ps) decision k old = Inr new"
  shows "list_all2 reviewed_creator old new"
  using assms
proof (cases rule: apply_decision_cases)
  case (updated us)
  from apply_creator_updatesD(3) [OF this] show ?thesis
    by (rule list.rel_mono_strong) (auto intro: review_creator_reviewed)
qed (simp add: list.rel_refl)

lemma review_cases:
  assumes "node_review ps vs decision s = Inr s'"
  obtains (passed) "\<not> review_plan vs" "s' = s\<lparr>review_approved := True, revision_request := fmempty\<rparr>"
  | (creators) req cs where "review_plan vs" "jget req ''target'' \<in> {JStr ''creators'', JStr ''voices''}"
      "apply_decision (apply_review_creator_updates ps) decision ''creators'' (roster s) = Inr cs"
      "s' = s\<lparr>review_approved := False, revision_request := req, roster := cs\<rparr>"
  | (concepts) req cs where "review_plan vs" "jget req ''target'' \<in> {JStr ''concepts'', JStr ''scripts''}"
      "apply_decision (apply_review_concept_updates ps) decision ''concepts'' (concepts s) = Inr cs"
      "s' = s\<lparr>review_approved := False, revision_request := req, concepts := cs\<rparr>"
  | (approved) cs creators where "review_plan vs"
      "apply_decision (apply_review_creator_updates ps) decision ''creators'' (roster s) = Inr creators"
      "apply_decision (apply_review_concept_updates ps) decision ''concepts'' (concepts s) = Inr cs"
      "list_all (selection_ok ps) creators"
      "s' = s\<lparr>concepts := cs, roster := creators, review_approved := True, revision_request := fmempty\<rparr>"
proof (cases "review_plan vs")
  case True
  let ?action = "case fmlookup decision ''action'' of None \<Rightarrow> JStr ''approve'' | Some v \<Rightarrow> v"
  let ?target = "jget decision ''target''"
  let ?req = "obj [(''target'', ?target), (''ids'', JList (list_of (jget decision ''ids''))),
      (''feedback'', JStr (text_of ps (jget decision ''feedback'')))]"
  have req: "jget ?req ''target'' = ?target"
    by (simp add: obj_def jget_def)
  show thesis
  proof (cases "?action = JStr ''regenerate''")
    case regenerate: True
    then have target: "?target \<in> set review_targets"
      using assms True by (simp add: node_review_def Let_def split: if_splits)
    show thesis
    proof (cases "?target \<in> {JStr ''creators'', JStr ''voices''}")
      case c: True
      then obtain cs where "apply_decision (apply_review_creator_updates ps) decision ''creators'' (roster s) = Inr cs"
          "s' = s\<lparr>review_approved := False, revision_request := ?req, roster := cs\<rparr>"
        using assms True regenerate target by (auto simp: node_review_def Let_def split: if_splits sum.splits)
      then show thesis
        using creators [OF True] req c by metis
    next
      case c: False
      then obtain cs where "apply_decision (apply_review_concept_updates ps) decision ''concepts'' (concepts s) = Inr cs"
          "s' = s\<lparr>review_approved := False, revision_request := ?req, concepts := cs\<rparr>"
        using assms True regenerate target by (auto simp: node_review_def Let_def split: if_splits sum.splits)
      moreover have "jget ?req ''target'' \<in> {JStr ''concepts'', JStr ''scripts''}"
        using c target by (auto simp: req review_targets_def)
      ultimately show thesis
        using concepts [OF True] by metis
    qed
  next
    case False
    with assms True show thesis
      by (auto simp: node_review_def Let_def validate_voice_selections_def split: if_splits sum.splits intro: approved)
  qed
qed (use assms passed in \<open>simp add: node_review_def\<close>)

section \<open>Candidates and batches\<close>

text \<open>The candidates a creator shows are those of its current batch of designs, or none.\<close>

definition batch_candidates :: "jdict \<Rightarrow> json" where
  "batch_candidates c = (case jget c ''voice_design_batch'' of JObj b \<Rightarrow> jget b ''candidates'' | _ \<Rightarrow> JNull)"

definition coherent :: "jdict \<Rightarrow> bool" where
  "coherent c = (list_of (jget c ''voice_candidates'') = [] \<or> batch_candidates c = jget c ''voice_candidates'')"

lemma coherent_upd: "k \<notin> {''voice_design_batch'', ''voice_candidates''} \<Longrightarrow> coherent (fmupd k v c) = coherent c"
  by (simp add: coherent_def batch_candidates_def)

lemma coherent_designed: "jget b ''candidates'' = JList (map JObj cands) \<Longrightarrow> coherent (designed spec cands b c)"
  by (simp add: coherent_def batch_candidates_def designed_def)

lemma with_selection_coherent: "with_selection vs cands c = Inr c' \<Longrightarrow> coherent c' = coherent c"
  by (auto simp: with_selection_def coherent_upd split: list.splits if_splits sum.splits)

lemma with_preview_coherent: "with_preview cands c = Inr c' \<Longrightarrow> coherent c' = coherent c"
  by (auto simp: with_preview_def coherent_upd split: list.splits sum.splits json.splits)

lemma voice_roundE:
  assumes "voice_round ps vs tools reroll c = Inr (c', q)"
  obtains spec b cands c1 c2 n where "c1 = designed spec cands b (if reroll then reroll_creator n c else c)"
    "n = (if reroll then int_of (jget c ''voice_reroll_count'') + 1 else int_of (jget c ''voice_reroll_count''))"
    "jget b ''candidates'' = JList (map JObj cands)"
    "with_selection vs cands c1 = Inr c2" "with_preview cands c2 = Inr c'"
    "reroll \<Longrightarrow> int_of (jget c ''voice_reroll_count'') < max_rerolls vs"
  using assms unfolding voice_round_def Let_def
  by (auto split: if_splits sum.splits intro!: that [rotated 1, of _ _ _ ] )

lemma voice_round_coherent: "voice_round ps vs tools reroll c = Inr (c', q) \<Longrightarrow> coherent c'"
  by (elim voice_roundE) (simp add: with_preview_coherent with_selection_coherent coherent_designed)

lemma review_creator_coherent:
  assumes "review_creator ps c u = Inr c'" "coherent c"
  shows "coherent c'"
proof (cases "brief_changed c u")
  case True
  then show ?thesis
    using review_creator_new_brief [OF assms(1)] by (simp add: coherent_def list_of_def)
next
  case False
  have "jget c' ''voice_design_batch'' = jget c ''voice_design_batch''" "jget c' ''voice_candidates'' = jget c ''voice_candidates''"
    using review_creator_unchanged_voices [OF assms(1) False] by (simp_all add: jget_def editable_creator_fields_def)
  then show ?thesis
    using assms(2) by (simp add: coherent_def batch_candidates_def)
qed

lemma decided_coherent:
  assumes "apply_decision (apply_review_creator_updates ps) decision k old = Inr new" "list_all coherent old"
  shows "list_all coherent new"
  using assms(1)
proof (cases rule: apply_decision_cases)
  case (updated us)
  show ?thesis
    using apply_creator_updatesD(3) [OF updated] assms(2)
    by (induction rule: list_all2_induct) (auto intro: review_creator_coherent)
qed (use assms(2) in simp)

lemma voice_candidatesE:
  assumes "node_voice_candidates ps vs tools s = Inr s'"
  obtains "list_all2 (\<lambda>c c'. \<exists>q. voice_pass ps vs tools (revision_target s = JStr ''voices'') (requested_ids ps s) c = Inr (c', q))
      (roster s) (roster s')"
proof -
  obtain rs where rs: "traverse (voice_pass ps vs tools (revision_target s = JStr ''voices'') (requested_ids ps s)) (roster s) = Inr rs"
      "roster s' = map fst rs"
    using assms by (auto simp: node_voice_candidates_def Let_def split: if_splits sum.splits)
  have "list_all2 (\<lambda>c y. voice_pass ps vs tools (revision_target s = JStr ''voices'') (requested_ids ps s) c = Inr y) (roster s) rs"
    using rs(1) by (simp only: traverse_Inr_iff)
  then have "list_all2 (\<lambda>c y. \<exists>q. voice_pass ps vs tools (revision_target s = JStr ''voices'') (requested_ids ps s) c = Inr (fst y, q))
      (roster s) rs"
    by (rule list_all2_mono) (metis prod.collapse)
  then show thesis
    by (intro that) (simp add: rs(2) list.rel_map)
qed

lemma voice_passE:
  assumes "voice_pass ps vs tools reroll ids c = Inr (c', q)"
  obtains (kept) "reroll" "c' = c" | (round) "voice_round ps vs tools reroll c = Inr (c', q)"
  using assms by (auto simp: voice_pass_def Let_def split: if_splits)

text \<open>Whatever a round establishes for each creator, and a reroll finds for all of them, holds for all of them after it.\<close>

lemma voice_candidates_all:
  assumes "node_voice_candidates ps vs tools s = Inr s'"
    and "revision_target s = JStr ''voices'' \<Longrightarrow> list_all P (roster s)"
    and "\<And>reroll c c' q. voice_round ps vs tools reroll c = Inr (c', q) \<Longrightarrow> P c'"
  shows "list_all P (roster s') \<and> length (roster s') = length (roster s)"
proof -
  have "list_all2 (\<lambda>c c'. \<exists>q. voice_pass ps vs tools (revision_target s = JStr ''voices'') (requested_ids ps s) c = Inr (c', q))
      (roster s) (roster s')"
    using assms(1) by (rule voice_candidatesE)
  moreover have "P c'" if "voice_pass ps vs tools (revision_target s = JStr ''voices'') (requested_ids ps s) c = Inr (c', q)"
    "c \<in> set (roster s)" for c c' q
    using that(1) by (cases rule: voice_passE) (use that(2) assms(2,3) in \<open>auto simp: list_all_iff\<close>)
  ultimately show ?thesis
    by (auto simp: list_all2_conv_all_nth list_all_length)
qed

lemma voice_candidates_coherent:
  assumes "node_voice_candidates ps vs tools s = Inr s'"
    and "revision_target s = JStr ''voices'' \<Longrightarrow> list_all coherent (roster s)"
  shows "list_all coherent (roster s')"
  by (rule conjunct1 [OF voice_candidates_all [OF assms(1)]]) (use assms(2) voice_round_coherent in blast)+

section \<open>What holds where in the graph\<close>

definition plan_inv :: "(json \<Rightarrow> string) \<Rightarrow> run_settings \<Rightarrow> bnode \<Rightarrow> batch \<Rightarrow> bool" where
  "plan_inv ps rs n s =
    (case n of
       VoiceCandidates \<Rightarrow> revision_target s = JStr ''voices'' \<longrightarrow> list_all coherent (roster s)
     | ReviewGate \<Rightarrow> list_all coherent (roster s)
     | FinalizeVoices \<Rightarrow> list_all coherent (roster s) \<and> review_approved s \<and>
         (review_plan rs \<longrightarrow> list_all (selection_ok ps) (roster s))
     | Production \<Rightarrow> review_approved s \<and> list_all (has_voice ps (roster s)) (required_creators ps s)
     | Feedback \<Rightarrow> review_approved s
     | _ \<Rightarrow> revision_target s \<noteq> JStr ''voices'')"

lemma targets_differ [simp]:
  "JStr ''concepts'' \<noteq> JStr ''voices''" "JStr ''scripts'' \<noteq> JStr ''voices''" "JStr ''creators'' \<noteq> JStr ''voices''"
  by simp_all

lemma node_review_inv:
  assumes "node_review ps (voice_settings.truncate rs) dec s = Inr s'" "list_all coherent (roster s)"
  shows "plan_inv ps rs (route_after_review s') s'"
  using assms(1)
proof (cases rule: review_cases)
  case passed
  then show ?thesis
    using assms(2) by (simp add: plan_inv_def route_after_review_def voice_settings.truncate_def)
next
  case (creators req cs)
  then show ?thesis
    using decided_coherent [OF creators(3) assms(2)]
    by (auto simp: plan_inv_def route_after_review_def revision_target_def)
next
  case (concepts req cs)
  then show ?thesis
    by (auto simp: plan_inv_def route_after_review_def revision_target_def)
next
  case (approved cs creators)
  then show ?thesis
    using decided_coherent [OF approved(2) assms(2)] by (simp add: plan_inv_def route_after_review_def)
qed

lemma finalize_voicesD:
  assumes "node_finalize_voices ps fin s = (Inr s', calls)"
  shows "list_all (has_voice ps (roster s')) (required_creators ps s)" "s' = s\<lparr>roster := roster s'\<rparr>"
  using assms by (auto simp: node_finalize_voices_def split: prod.splits sum.splits if_splits)

lemma jget_obj: "jget (d ++\<^sub>f obj kvs) k = (case map_of kvs k of None \<Rightarrow> jget d k | Some v \<Rightarrow> v)"
  by (cases "map_of kvs k") (simp_all only: jget_def obj_def fmlookup_add fmlookup_dom_iff fmlookup_of_list, simp_all)

lemma finalize_creator_result:
  assumes "finalize_creator ps fin c = (Inr c', calls)"
  shows "ident ps c' = ident ps c" "py_truthy (jget c' ''voice_ref'')"
  using assms
  by (auto simp: finalize_creator_def finalized_creator_def Let_def ident_def jget_obj
      split: if_splits option.splits json.splits sum.splits)

text \<open>The creators whose voice a call may create.\<close>

definition awaits_voice :: "(json \<Rightarrow> string) \<Rightarrow> jdict \<Rightarrow> voice_call \<Rightarrow> bool" where
  "awaits_voice ps c k = (\<not> py_truthy (jget c ''voice_ref'') \<and> (\<exists>b. jget c ''voice_design_batch'' = JObj b) \<and>
     k = (text_of ps (jget c ''selected_voice_candidate_id''), ident ps c) \<and> fst k \<in> set (candidate_ids ps c))"

lemma awaits_ident: "awaits_voice ps c k \<Longrightarrow> snd k = ident ps c"
  by (auto simp: awaits_voice_def)

lemma selected_candidate_id:
  "selected_candidate ps c = Some d \<Longrightarrow> text_of ps (jget c ''selected_voice_candidate_id'') \<in> set (candidate_ids ps c)"
  unfolding selected_candidate_def candidate_ids_def set_map by (drule find_SomeD, elim conjE, rule image_eqI, erule sym)

lemma finalize_creator_calls:
  assumes "finalize_creator ps fin c = (r, calls)"
  shows "calls = [] \<or> (\<exists>k. calls = [k] \<and> awaits_voice ps c k)"
  using assms
  by (auto simp: finalize_creator_def awaits_voice_def Let_def selected_candidate_id
      split: if_splits option.splits json.splits sum.splits)

lemma finalize_all_result:
  "finalize_all ps fin cs = (Inr cs', calls) \<Longrightarrow>
   map (ident ps) cs' = map (ident ps) cs \<and> list_all (\<lambda>c. py_truthy (jget c ''voice_ref'')) cs'"
  by (induction cs arbitrary: cs' calls)
    (auto split: prod.splits sum.splits dest: finalize_creator_result)

lemma finalize_all_calls:
  "finalize_all ps fin cs = (r, calls) \<Longrightarrow>
   (\<forall>k \<in> set calls. \<exists>c \<in> set cs. awaits_voice ps c k) \<and> subseq (map snd calls) (map (ident ps) cs)"
proof (induction cs arbitrary: r calls)
  case (Cons c cs)
  obtain r1 calls1 r2 calls2 where f: "finalize_creator ps fin c = (r1, calls1)" "finalize_all ps fin cs = (r2, calls2)"
    by (metis surj_pair)
  have one: "calls1 = [] \<or> (\<exists>k. calls1 = [k] \<and> awaits_voice ps c k)"
    by (rule finalize_creator_calls [OF f(1)])
  have "calls = calls1 \<or> calls = calls1 @ calls2"
    using Cons.prems f by (auto split: sum.splits)
  then show ?case
    using one Cons.IH [OF f(2)] awaits_ident [of ps c] by (fastforce intro: list_emb_append_mono [of _ _ _ "[ident ps c]", simplified])
qed simp

lemma truncate_simps [simp]:
  "review_plan (voice_settings.truncate rs) = review_plan rs" "max_rerolls (voice_settings.truncate rs) = max_rerolls rs"
  by (simp_all add: voice_settings.truncate_def)

lemma then_go_Inr: "then_go n r = Inr (n', s') \<longleftrightarrow> n' = Some n \<and> r = Inr s'"
  by (auto simp: then_go_def split: sum.splits)

lemma plan_inv_step:
  assumes "plan_inv ps rs n s" "batch_step ps rs ag dec n s = (Inr (Some n', s'), calls)"
  shows "plan_inv ps rs n' s'"
proof (cases n)
  case Concepts
  then show ?thesis
    using assms by (auto simp: plan_inv_def then_go_Inr node_concepts_def revision_target_def split: sum.splits)
next
  case Scripts
  then show ?thesis
    using assms by (auto simp: plan_inv_def then_go_Inr node_scripts_def revision_target_def split: sum.splits)
next
  case CreatorProfiles
  then show ?thesis
    using assms by (auto simp: plan_inv_def then_go_Inr node_creator_profiles_def revision_target_def split: sum.splits)
next
  case Roster
  then have "revision_request s' = revision_request s"
    using assms by (auto simp: then_go_Inr node_roster_def seeded_roster_def built_roster_def Let_def
        split: option.splits list.splits sum.splits)
  then show ?thesis
    using assms Roster by (auto simp: plan_inv_def then_go_Inr revision_target_def)
next
  case VoiceCandidates
  then show ?thesis
    using assms voice_candidates_coherent [of ps "voice_settings.truncate rs" "the_voice_tools ag" s s']
    by (auto simp: plan_inv_def then_go_Inr)
next
  case ReviewGate
  then show ?thesis
    using assms node_review_inv [of ps rs dec s s'] by (auto simp: plan_inv_def split: sum.splits)
next
  case FinalizeVoices
  then have f: "node_finalize_voices ps (finalize_voice ag) s = (Inr s', calls)" "n' = Production"
    using assms(2) by (auto simp: then_go_Inr split: prod.splits)
  have "map (ident ps) (roster s') = map (ident ps) (roster s)" "creator_assignments s' = creator_assignments s"
      "review_approved s' = review_approved s"
    using f(1) finalize_all_result
    by (force simp: node_finalize_voices_def split: prod.splits sum.splits if_splits)+
  then have "required_creators ps s' = required_creators ps s"
    by (simp add: required_creators_def cong: list.case_cong)
  then show ?thesis
    using finalize_voicesD(1) [OF f(1)] f(2) assms(1) FinalizeVoices \<open>review_approved s' = review_approved s\<close>
    by (simp add: plan_inv_def)
next
  case Production
  then show ?thesis
    using assms by (auto simp: plan_inv_def run_production_def split: sum.splits list.splits)
next
  case Feedback
  then show ?thesis
    using assms by simp
qed

lemma reached_inv:
  assumes "reached ps rs s0 n s" "revision_request s0 = fmempty"
  shows "plan_inv ps rs n s"
  using assms
proof (induction rule: reached.induct)
  case start
  then show ?case
    by (simp add: plan_inv_def revision_target_def jget_def)
next
  case (step n s ag dec n' s' calls)
  then show ?case
    by (blast intro: plan_inv_step)
qed

section \<open>Properties of the plan\<close>

lemma review_keeps:
  assumes "node_review ps vs decision s = Inr s'"
  shows "list_all2 (edit_of editable_concept_fields) (concepts s) (concepts s')"
    "list_all2 reviewed_creator (roster s) (roster s')"
    "s' = s\<lparr>concepts := concepts s', roster := roster s', review_approved := review_approved s',
      revision_request := revision_request s'\<rparr>"
  using assms by (auto elim!: review_cases simp: list.rel_refl dest: decided_concepts decided_creators)

lemma edit_keeps_ids:
  assumes "list_all2 (edit_of names) ds ds'" "''id'' \<notin> set names"
  shows "map (ident ps) ds' = map (ident ps) ds"
  using assms by (induction rule: list_all2_induct) (auto simp: edit_of_def ident_def jget_def)

lemma id_not_editable: "''id'' \<notin> set editable_concept_fields" "''id'' \<notin> set (editable_creator_fields @ creator_state_fields)"
  by (simp_all add: editable_concept_fields_def review_concept_fields_def editable_creator_fields_def creator_state_fields_def)

lemma review_keeps_creator_ids:
  assumes "node_review ps vs decision s = Inr s'"
  shows "map (ident ps) (roster s') = map (ident ps) (roster s)"
proof -
  have "list_all2 (edit_of (editable_creator_fields @ creator_state_fields)) (roster s) (roster s')"
    using review_keeps(2) [OF assms] by (rule list.rel_mono_strong) (rule reviewed_creator_edit)
  then show ?thesis
    by (rule edit_keeps_ids [OF _ id_not_editable(2)])
qed

text \<open>
  C6. The review changes only what a reviewer may change. Whatever the decision, a review that does not raise keeps
  the number and the order of concepts and creators. Of a concept it changes at most the editable fields. Of a creator
  it changes at most the editable fields of the casting direction and the selected candidate; only when it changes
  the voice brief it also clears the voice candidates, their batch and the selection, and it keeps the candidates in
  the history. Identifiers, media pointers and finalized voices stay as the server wrote them, and so does everything
  else of the batch but the outcome of the review.
\<close>

theorem review_edits_confined:
  assumes "node_review ps vs decision s = Inr s'"
  shows "list_all2 (edit_of editable_concept_fields) (concepts s) (concepts s') \<and>
    list_all2 reviewed_creator (roster s) (roster s') \<and>
    map (ident ps) (roster s') = map (ident ps) (roster s) \<and> map (ident ps) (concepts s') = map (ident ps) (concepts s) \<and>
    s' = s\<lparr>concepts := concepts s', roster := roster s', review_approved := review_approved s',
      revision_request := revision_request s'\<rparr>"
  using review_keeps [OF assms] review_keeps_creator_ids [OF assms] edit_keeps_ids [OF review_keeps(1) [OF assms] id_not_editable(1)]
  by simp

text \<open>
  C3. Production starts only on an approved plan. In every state that the graph can reach just before the
  items are produced, whatever the agents returned and the reviewer decided on the way, the review was
  passed and every creator that a concept is assigned to has a voice.
\<close>

theorem production_after_approval:
  assumes "reached ps rs s0 Production s" "revision_request s0 = fmempty"
  shows "review_approved s \<and>
    (\<forall>cid \<in> set (required_creators ps s). \<exists>c \<in> set (roster s). ident ps c = cid \<and> py_truthy (jget c ''voice_ref''))"
proof -
  have "has_voice ps (roster s) cid \<Longrightarrow> \<exists>c \<in> set (roster s). ident ps c = cid \<and> py_truthy (jget c ''voice_ref'')" for cid
    by (auto simp: has_voice_def dest!: find_SomeD split: option.splits)
  then show ?thesis
    using reached_inv [OF assms] by (simp add: plan_inv_def list_all_iff)
qed

text \<open>
  C4. Voices are created, and paid for, only for approved candidates. In every state that the graph can
  reach, each call that creates a voice is for a creator of the roster that has none, with the candidate
  selected for it, which belongs to the current batch of designs of that creator; in a reviewed run the
  plan was approved with this selection. No creator gets two calls.
\<close>

theorem only_selected_voices_created:
  assumes "reached ps rs s0 n s" "revision_request s0 = fmempty" "batch_step ps rs ag dec n s = (r, calls)"
  shows "(\<forall>k \<in> set calls. n = FinalizeVoices \<and> review_approved s \<and> (\<exists>c \<in> set (roster s). awaits_voice ps c k \<and>
      fst k \<in> set (map (\<lambda>d. text_of ps (jget d ''candidate_id'')) (dicts_in (list_of (batch_candidates c)))) \<and>
      (review_plan rs \<longrightarrow> selection_ok ps c))) \<and>
    subseq (map snd calls) (map (ident ps) (roster s))"
proof (cases "n = FinalizeVoices")
  case True
  obtain r' where f: "finalize_all ps (finalize_voice ag) (roster s) = (r', calls)"
    using assms(3) by (auto simp: True node_finalize_voices_def split: prod.splits sum.splits)
  have inv: "list_all coherent (roster s)" "review_approved s" "review_plan rs \<longrightarrow> list_all (selection_ok ps) (roster s)"
    using reached_inv [OF assms(1,2)] by (simp_all add: plan_inv_def True)
  have "batch_candidates c = jget c ''voice_candidates''" if "c \<in> set (roster s)" "awaits_voice ps c k" for c k
    using that inv(1) by (auto simp: list_all_iff coherent_def awaits_voice_def candidate_ids_def)
  then show ?thesis
    using finalize_all_calls [OF f] inv(2,3) True
    by (fastforce simp: awaits_voice_def candidate_ids_def list_all_iff)
next
  case False
  then have "calls = []"
    using assms(3) by (cases n) (auto split: sum.splits)
  then show ?thesis
    by simp
qed

text \<open>
   A plan with a changed voice brief cannot be approved: the new brief discards the candidates and the
  selection, so an approval that contains one raises, and the voices have to be designed again first.
\<close>

theorem changed_brief_needs_new_voices:
  assumes "review_plan vs" "fmlookup decision ''action'' = Some (JStr ''approve'')"
    and "jget decision ''creators'' = JList (map JObj us)"
    and "c \<in> set (roster s)" "by_id ps us (str_of ps (jget c ''id'')) = Inr u" "brief_changed c u"
  shows "node_review ps vs decision s = Inl ValueError"
proof (cases "apply_review_creator_updates ps (roster s) us")
  case (Inl e)
  then show ?thesis
    using assms(1-3) apply_creator_updates_error [OF Inl] by (simp add: node_review_def apply_decision_def)
next
  case (Inr cs)
  obtain c' where "c' \<in> set cs" "review_creator ps c u = Inr c'"
    using apply_creator_updatesD(3) [OF Inr] assms(4,5) by (fastforce simp: list_all2_conv_all_nth in_set_conv_nth)
  then have "\<not> list_all (selection_ok ps) cs"
    using review_creator_new_brief(3) assms(6) by (force simp: list_all_iff selection_ok_def text_of_def)
  then show ?thesis
    using assms(1-3) Inr
    by (simp add: node_review_def apply_decision_def validate_voice_selections_def)
qed

section \<open>Runs with a creator chosen beforehand\<close>

definition unselected :: "jdict \<Rightarrow> bool" where
  "unselected c = (jget c ''selected_voice_candidate_id'' = JNull)"

definition seed_inv :: "bnode \<Rightarrow> batch \<Rightarrow> bool" where
  "seed_inv n s =
    (case n of
       VoiceCandidates \<Rightarrow> length (roster s) = 1 \<and> (revision_target s = JStr ''voices'' \<longrightarrow> list_all unselected (roster s))
     | ReviewGate \<Rightarrow> length (roster s) = 1 \<and> list_all unselected (roster s)
     | FinalizeVoices \<Rightarrow> False
     | Production \<Rightarrow> False
     | Feedback \<Rightarrow> False
     | _ \<Rightarrow> revision_target s \<noteq> JStr ''voices'')"

lemma voice_round_unselected:
  assumes "voice_round ps vs tools reroll c = Inr (c', q)" "review_plan vs"
  shows "unselected c'"
  using assms(1)
proof (cases rule: voice_roundE)
  case (1 spec b cands c1 c2 n)
  have "unselected c2"
    using 1(4) assms(2) by (auto simp: with_selection_def unselected_def)
  then show ?thesis
    using 1(5) by (auto simp: with_preview_def unselected_def split: list.splits sum.splits json.splits)
qed

lemma voice_candidates_unselected:
  assumes "node_voice_candidates ps vs tools s = Inr s'" "review_plan vs"
    and "revision_target s = JStr ''voices'' \<Longrightarrow> list_all unselected (roster s)"
  shows "list_all unselected (roster s') \<and> length (roster s') = length (roster s)"
  by (rule voice_candidates_all [OF assms(1)]) (use assms(2,3) voice_round_unselected in blast)+

lemma seed_review:
  assumes "node_review ps vs dec s = Inr s'" "review_plan vs" "length (roster s) = 1" "list_all unselected (roster s)"
  shows "seed_inv (route_after_review s') s'"
  using assms(1)
proof (cases rule: review_cases)
  case passed
  then show ?thesis
    using assms(2) by simp
next
  case (creators req cs)
  then have "cs = roster s"
    using assms(3) by (auto elim!: apply_decision_cases dest: apply_creator_updatesD(1))
  then show ?thesis
    using creators assms(3,4) by (auto simp: seed_inv_def route_after_review_def revision_target_def)
next
  case (concepts req cs)
  then show ?thesis
    by (auto simp: seed_inv_def route_after_review_def revision_target_def)
next
  case (approved cs creators)
  then have "creators = roster s"
    using assms(3) by (auto elim!: apply_decision_cases dest: apply_creator_updatesD(1))
  then show ?thesis
    using approved(4) assms(3,4) by (cases "roster s") (auto simp: selection_ok_def unselected_def text_of_def)
qed

lemma seed_inv_step:
  assumes "seed_creator rs = Some c" "normalize_seed_creator ps c = Some c'" "review_plan rs"
    and "seed_inv n s" "batch_step ps rs ag dec n s = (Inr (Some n', s'), calls)"
  shows "seed_inv n' s'"
proof (cases n)
  case Concepts
  then show ?thesis
    using assms(4,5) by (auto simp: seed_inv_def then_go_Inr node_concepts_def revision_target_def split: sum.splits)
next
  case Scripts
  then show ?thesis
    using assms(4,5) by (auto simp: seed_inv_def then_go_Inr node_scripts_def revision_target_def split: sum.splits)
next
  case CreatorProfiles
  then show ?thesis
    using assms(4,5) by (auto simp: seed_inv_def then_go_Inr node_creator_profiles_def revision_target_def split: sum.splits)
next
  case Roster
  then show ?thesis
    using assms by (auto simp: seed_inv_def then_go_Inr node_roster_def seeded_roster_def revision_target_def)
next
  case VoiceCandidates
  then show ?thesis
    using assms(3-5) voice_candidates_unselected [of ps "voice_settings.truncate rs" "the_voice_tools ag" s s']
    by (auto simp: seed_inv_def then_go_Inr)
next
  case ReviewGate
  then show ?thesis
    using assms(3-5) seed_review [of ps "voice_settings.truncate rs" dec s s'] by (auto simp: seed_inv_def split: sum.splits)
qed (use assms(4) in \<open>simp_all add: seed_inv_def\<close>)

text \<open>
  C40. A reviewed run with a seed creator never gets past its review. Its roster is the seed creator alone;
  candidates have to be selected at the gate, but updates of creators are accepted for exactly two
  creators, so no decision, in no number of rounds, leads to the finalization of voices or to production.
\<close>

theorem seeded_review_never_approved:
  assumes "reached ps rs s0 n s" "revision_request s0 = fmempty"
    and "seed_creator rs = Some c" "normalize_seed_creator ps c = Some c'" "review_plan rs"
  shows "n \<notin> {FinalizeVoices, Production, Feedback}"
proof -
  have "seed_inv n s"
    using assms(1,2)
  proof (induction rule: reached.induct)
    case start
    then show ?case
      by (simp add: seed_inv_def revision_target_def jget_def)
  next
    case (step n s ag dec n' s' calls)
    then show ?case
      using seed_inv_step [OF assms(3-5)] by blast
  qed
  then show ?thesis
    by (auto simp: seed_inv_def)
qed

section \<open>Rerolls\<close>

lemma voice_round_reroll:
  assumes "voice_round ps vs tools True c = Inr (c', q)"
  shows "int_of (jget c' ''voice_reroll_count'') = int_of (jget c ''voice_reroll_count'') + 1"
    "int_of (jget c ''voice_reroll_count'') < max_rerolls vs"
    "jget c' ''voice_ref'' = JNull" "jget c' ''voice_design_history'' = JList (superseded c)"
proof -
  have "int_of (jget c' ''voice_reroll_count'') = int_of (jget c ''voice_reroll_count'') + 1 \<and>
      int_of (jget c ''voice_reroll_count'') < max_rerolls vs \<and>
      jget c' ''voice_ref'' = JNull \<and> jget c' ''voice_design_history'' = JList (superseded c)"
    using assms
  proof (cases rule: voice_roundE)
    case (1 spec b cands c1 c2 n)
    have sel: "jget c2 k = jget c1 k" if "k \<noteq> ''selected_voice_candidate_id''" for k
      using 1(4) that by (auto simp: with_selection_def split: list.splits if_splits sum.splits)
    have pre: "jget c' k = jget c2 k" if "k \<noteq> ''voice_preview_uri''" for k
      using 1(5) that by (auto simp: with_preview_def split: list.splits sum.splits json.splits)
    show ?thesis
      using 1(6) by (simp add: sel pre 1(1,2) designed_def reroll_creator_def int_of_def)
  qed
  then show "int_of (jget c' ''voice_reroll_count'') = int_of (jget c ''voice_reroll_count'') + 1"
    "int_of (jget c ''voice_reroll_count'') < max_rerolls vs"
    "jget c' ''voice_ref'' = JNull" "jget c' ''voice_design_history'' = JList (superseded c)"
    by simp_all
qed

lemma named_creator: "ident ps c \<noteq> [] \<Longrightarrow> (if py_truthy (jget c ''id'') then str_of ps (jget c ''id'') else ''creator'') = ident ps c"
  by (auto simp: ident_def text_of_def split: if_splits)

lemma voices_over_limit:
  assumes "revision_target s = JStr ''voices''" "c \<in> set (roster s)" "ident ps c \<in> set (requested_ids ps s)" "ident ps c \<noteq> []"
    and "max_rerolls vs \<le> int_of (jget c ''voice_reroll_count'')"
  shows "isl (node_voice_candidates ps vs tools s)"
proof -
  have "voice_pass ps vs tools True (requested_ids ps s) c = Inl ValueError"
    using assms(3-5) named_creator [OF assms(4)] by (simp add: voice_pass_def voice_round_def Let_def)
  from traverse_raises [where f = "voice_pass ps vs tools True (requested_ids ps s)", OF assms(2) this]
  show ?thesis
    using assms(1) by (auto simp: node_voice_candidates_def Let_def)
qed

text \<open>What a reroll does to a creator.\<close>

definition rerolled :: "(json \<Rightarrow> string) \<Rightarrow> voice_settings \<Rightarrow> string list \<Rightarrow> jdict \<Rightarrow> jdict \<Rightarrow> bool" where
  "rerolled ps vs ids c c' =
    (if ident ps c \<in> set ids
     then int_of (jget c' ''voice_reroll_count'') = int_of (jget c ''voice_reroll_count'') + 1 \<and>
       int_of (jget c' ''voice_reroll_count'') \<le> max_rerolls vs \<and>
       jget c' ''voice_ref'' = JNull \<and> jget c' ''voice_design_history'' = JList (superseded c)
     else c' = c)"

lemma voice_pass_rerolled:
  assumes "voice_pass ps vs tools True ids c = Inr (c', q)" "ident ps c \<noteq> []"
  shows "rerolled ps vs ids c c'"
  using assms(1) voice_round_reroll [of ps vs tools c c' q] unfolding voice_pass_def named_creator [OF assms(2)] Let_def
  by (auto simp: rerolled_def split: if_splits)

text \<open>
   Rerolls are bounded. A round of voice candidates that a reviewer asked for touches exactly the
  creators asked for: the counter of each goes up by one and never beyond the configured maximum, its
  voice is discarded, and its previous candidates are appended to its history; all other creators keep
  everything. A request for a creator that used up its rerolls, or for one that is not in the roster,
  raises.
\<close>

theorem rerolls_bounded:
  assumes "node_voice_candidates ps vs tools s = r" "revision_target s = JStr ''voices''"
    and "\<And>c. c \<in> set (roster s) \<Longrightarrow> ident ps c \<noteq> []"
  shows "(case r of
      Inr s' \<Rightarrow> list_all2 (rerolled ps vs (requested_ids ps s)) (roster s) (roster s')
    | Inl _ \<Rightarrow> True) \<and>
    ((\<exists>i \<in> set (requested_ids ps s). i \<notin> ident ps ` set (roster s)) \<longrightarrow> r = Inl ValueError) \<and>
    ((\<exists>c \<in> set (roster s). ident ps c \<in> set (requested_ids ps s) \<and> max_rerolls vs \<le> int_of (jget c ''voice_reroll_count'')) \<longrightarrow>
      isl r)"
proof (intro conjI impI)
  show "case r of Inr s' \<Rightarrow> list_all2 (rerolled ps vs (requested_ids ps s)) (roster s) (roster s') | Inl _ \<Rightarrow> True"
  proof (cases r)
    case (Inr s')
    with assms(1) have "node_voice_candidates ps vs tools s = Inr s'"
      by simp
    then have "list_all2 (\<lambda>c c'. \<exists>q. voice_pass ps vs tools True (requested_ids ps s) c = Inr (c', q)) (roster s) (roster s')"
      by (rule voice_candidatesE) (simp add: assms(2))
    then have "list_all2 (rerolled ps vs (requested_ids ps s)) (roster s) (roster s')"
      by (rule list.rel_mono_strong) (use assms(3) voice_pass_rerolled in blast)
    then show ?thesis
      by (simp add: Inr)
  qed simp
  show "r = Inl ValueError" if "\<exists>i \<in> set (requested_ids ps s). i \<notin> ident ps ` set (roster s)"
    using assms(1,2) that by (auto simp: node_voice_candidates_def Let_def)
  show "isl r" if "\<exists>c \<in> set (roster s). ident ps c \<in> set (requested_ids ps s) \<and> max_rerolls vs \<le> int_of (jget c ''voice_reroll_count'')"
    using assms that voices_over_limit by blast
qed

end
