(* ===== verification/Batch_Production.thy ===== *)
theory Batch_Production
  imports Batch_Properties "HOL-Library.Multiset"
begin

text \<open>
  What the fan-out and the feedback of the outer graph guarantee: one item per concept, in order, each with
  the voice of the creator it is assigned to; a feedback that is a function of the multiset of results;
  and what happens when a creator of the plan could not be built.
\<close>

section \<open>Fan-out\<close>

lemma opt_str_Inr: "opt_str v = Inr x \<longleftrightarrow> (v = JNull \<and> x = None) \<or> (\<exists>s. v = JStr s \<and> x = Some s)"
  by (cases v) (auto simp: opt_str_def)

lemma fan_out_itemD:
  assumes "fan_out_item ps uuid s (i, c) = Inr it"
  defines "r \<equiv> creator_for ps s i c"
  shows "concept it = fmdrop ''script'' c" "opt_str (jget c ''script'') = Inr (script it)"
    "opt_str (jget r ''id'') = Inr (creator_ref it)"
    "opt_str (first_truthy [''voice_model_ref'', ''voice_ref'', ''voice_id''] r) = Inr (creator_voice_ref it)"
    "opt_str (first_truthy [''image_source_uri'', ''upscaled_base''] r) = Inr (creator_image_uri it)"
    "item_id it = (if py_truthy (jget c ''id'') then str_of ps (jget c ''id'') else uuid i)"
    "clips it = []" "qc it = None" "attempts it = 0" "cost_usd it = 0" "dropped it = False" "assembled it = None"
    "item_error it = None" "failure it = None"
  using assms(1) by (auto simp: fan_out_item_def r_def Let_def new_item_def split: sum.splits if_splits)

lemma fan_outD:
  assumes "fan_out ps uuid s = Inr its"
  shows "length its = length (concepts s)"
    "i < length its \<Longrightarrow> fan_out_item ps uuid s (i, concepts s ! i) = Inr (its ! i)"
  using assms by (auto simp: fan_out_def traverse_Inr_iff list_all2_conv_all_nth)

lemma creator_for_cases:
  obtains (assigned) "creator_for ps s i c \<in> set (roster s)" "jget (creator_for ps s i c) ''id'' \<noteq> JNull"
      "str_of ps (jget (creator_for ps s i c) ''id'') = assigned_creator ps s c"
  | (turn) "\<not> (\<exists>r \<in> set (fan_out_roster s). jget r ''id'' \<noteq> JNull \<and> str_of ps (jget r ''id'') = assigned_creator ps s c)"
      "creator_for ps s i c = fan_out_roster s ! (i mod length (fan_out_roster s))"
proof (cases "find (\<lambda>r. jget r ''id'' \<noteq> JNull \<and> str_of ps (jget r ''id'') = assigned_creator ps s c) (rev (fan_out_roster s))")
  case None
  then show thesis
    by (intro turn) (simp_all only: find_None_iff set_rev, auto simp: creator_for_def Let_def None)
next
  case (Some r)
  from find_SomeD [OF this] have r: "r \<in> set (fan_out_roster s)" "jget r ''id'' \<noteq> JNull"
      "str_of ps (jget r ''id'') = assigned_creator ps s c"
    by simp_all
  have "creator_for ps s i c = r"
    using Some by (simp add: creator_for_def Let_def)
  then show thesis
    using r assigned by (auto simp: fan_out_roster_def jget_def split: if_splits)
qed

lemma creator_for_in_roster: "creator_for ps s i c \<in> set (fan_out_roster s)"
proof (cases rule: creator_for_cases [of ps s i c])
  case assigned
  then show ?thesis
    by (auto simp: fan_out_roster_def)
next
  case turn
  moreover have "fan_out_roster s \<noteq> []"
    by (simp add: fan_out_roster_def)
  ultimately show ?thesis
    by simp
qed

text \<open>
   The fan-out makes one item per concept, in the order of the concepts. Each item is fresh, carries
  the concept without its script, the script, and as identifier the concept's; its creator is one of the
  roster, the one the concept is assigned to whenever that one is in the roster, else the creator whose
  turn it is.
\<close>

theorem fan_out_items:
  assumes "fan_out ps uuid s = Inr its"
  shows "length its = length (concepts s) \<and>
    (\<forall>i < length its. let c = concepts s ! i; it = its ! i in
       concept it = fmdrop ''script'' c \<and> opt_str (jget c ''script'') = Inr (script it) \<and>
       item_id it = (if py_truthy (jget c ''id'') then str_of ps (jget c ''id'') else uuid i) \<and>
       clips it = [] \<and> attempts it = 0 \<and> cost_usd it = 0 \<and> \<not> dropped it \<and> item_error it = None \<and>
       (\<exists>r \<in> set (fan_out_roster s). opt_str (jget r ''id'') = Inr (creator_ref it) \<and>
          opt_str (first_truthy [''voice_model_ref'', ''voice_ref'', ''voice_id''] r) = Inr (creator_voice_ref it) \<and>
          ((\<exists>r' \<in> set (roster s). jget r' ''id'' \<noteq> JNull \<and> str_of ps (jget r' ''id'') = assigned_creator ps s c) \<longrightarrow>
             creator_ref it = Some (assigned_creator ps s c))))"
proof -
  have "let c = concepts s ! i; it = its ! i in
       concept it = fmdrop ''script'' c \<and> opt_str (jget c ''script'') = Inr (script it) \<and>
       item_id it = (if py_truthy (jget c ''id'') then str_of ps (jget c ''id'') else uuid i) \<and>
       clips it = [] \<and> attempts it = 0 \<and> cost_usd it = 0 \<and> \<not> dropped it \<and> item_error it = None \<and>
       (\<exists>r \<in> set (fan_out_roster s). opt_str (jget r ''id'') = Inr (creator_ref it) \<and>
          opt_str (first_truthy [''voice_model_ref'', ''voice_ref'', ''voice_id''] r) = Inr (creator_voice_ref it) \<and>
          ((\<exists>r' \<in> set (roster s). jget r' ''id'' \<noteq> JNull \<and> str_of ps (jget r' ''id'') = assigned_creator ps s c) \<longrightarrow>
             creator_ref it = Some (assigned_creator ps s c)))" if "i < length its" for i
  proof -
    let ?c = "concepts s ! i"
    note D = fan_out_itemD [OF fan_outD(2) [OF assms that]]
    have "creator_ref (its ! i) = Some (assigned_creator ps s ?c)"
      if "r' \<in> set (roster s)" "jget r' ''id'' \<noteq> JNull" "str_of ps (jget r' ''id'') = assigned_creator ps s ?c" for r'
    proof (cases rule: creator_for_cases [of ps s i ?c])
      case assigned
      then show ?thesis
        using D(3) by (auto simp: opt_str_Inr str_of_def)
    next
      case turn
      then show ?thesis
        using that by (auto simp: fan_out_roster_def split: if_splits)
    qed
    then show ?thesis
      using D creator_for_in_roster [of ps s i ?c] unfolding Let_def by (intro conjI bexI [of _ "creator_for ps s i ?c"]) auto
  qed
  then show ?thesis
    using fan_outD(1) [OF assms] by blast
qed

text \<open>
  The creator of a batch with an identifier, as the fan-out looks it up, and the voice it has: the reference of its
  model, else the one it got when the voices were finalized.
\<close>

definition roster_creator :: "batch \<Rightarrow> string \<Rightarrow> jdict option" where
  "roster_creator s k = find (\<lambda>r. jget r ''id'' = JStr k) (rev (roster s))"

definition creator_voice :: "jdict \<Rightarrow> json" where
  "creator_voice r = (if py_truthy (jget r ''voice_model_ref'') then jget r ''voice_model_ref'' else jget r ''voice_ref'')"

text \<open>
   Every item is produced with a voice. When the graph reaches production, the item of a concept that
  is assigned to a creator gets that creator and its voice.
\<close>

theorem items_have_voices:
  assumes "reached ps rs s0 Production s" "revision_request s0 = fmempty" "fan_out ps uuid s = Inr its"
    and "i < length its" "a \<in> set (creator_assignments s)" "assigned_creator ps s (concepts s ! i) = text_of ps (jget a ''creator_id'')"
    and "text_of ps (jget a ''creator_id'') \<noteq> []" and ids: "\<And>r. r \<in> set (roster s) \<Longrightarrow> \<exists>n. jget r ''id'' = JStr n"
  shows "creator_ref (its ! i) = Some (text_of ps (jget a ''creator_id'')) \<and>
    (\<exists>r v. roster_creator s (text_of ps (jget a ''creator_id'')) = Some r \<and> creator_voice_ref (its ! i) = Some v \<and>
       creator_voice r = JStr v \<and> v \<noteq> [])"
proof -
  let ?cid = "text_of ps (jget a ''creator_id'')" and ?c = "concepts s ! i"
  note D = fan_out_itemD [OF fan_outD(2) [OF assms(3,4)]]
  have "?cid \<in> set (required_creators ps s)"
    using assms(5) by (auto simp: required_creators_def split: list.splits)
  then have "has_voice ps (roster s) ?cid"
    using reached_inv [OF assms(1,2)] by (simp add: plan_inv_def list_all_iff)
  then obtain r where find: "find (\<lambda>c. ident ps c = ?cid) (rev (roster s)) = Some r" and voice: "py_truthy (jget r ''voice_ref'')"
    by (auto simp: has_voice_def split: option.splits)
  have "roster s \<noteq> []"
    using find by auto
  have same: "(jget r' ''id'' \<noteq> JNull \<and> str_of ps (jget r' ''id'') = ?cid) = (ident ps r' = ?cid)" if "r' \<in> set (roster s)" for r'
    using ids [OF that] assms(7) by (auto simp: ident_def text_of_def str_of_def)
  have "creator_for ps s i ?c = r"
    using find \<open>roster s \<noteq> []\<close> find_cong [OF refl same, of "rev (roster s)"]
    by (simp add: creator_for_def assms(6) fan_out_roster_def)
  moreover have "r \<in> set (roster s)" "ident ps r = ?cid"
    using find_SomeD [OF find] by simp_all
  ultimately have "opt_str (jget r ''id'') = Inr (creator_ref (its ! i))" "str_of ps (jget r ''id'') = ?cid"
    "opt_str (first_truthy [''voice_model_ref'', ''voice_ref'', ''voice_id''] r) = Inr (creator_voice_ref (its ! i))"
    using D(3,4) same [of r] by simp_all
  moreover have "roster_creator s ?cid = Some r"
  proof -
    have "(jget r' ''id'' = JStr ?cid) = (ident ps r' = ?cid)" if "r' \<in> set (roster s)" for r'
      using ids [OF that] assms(7) by (auto simp: ident_def text_of_def str_of_def)
    then show ?thesis
      using find find_cong [OF refl, of "rev (roster s)" "\<lambda>r. jget r ''id'' = JStr ?cid" "\<lambda>r. ident ps r = ?cid"]
      by (simp add: roster_creator_def)
  qed
  ultimately show ?thesis
    using ids [OF \<open>r \<in> set (roster s)\<close>] voice by (auto simp: opt_str_Inr str_of_def creator_voice_def split: if_splits)
qed

section \<open>Feedback\<close>

lemma str_le_refl [simp]: "str_le a a"
  by (induction a) simp_all

lemma str_le_trans: "str_le a b \<Longrightarrow> str_le b c \<Longrightarrow> str_le a c"
proof (induction a b arbitrary: c rule: str_le.induct)
  case (3 x a y b)
  then show ?case
    by (cases c) auto
qed simp_all

lemma str_le_antisym: "str_le a b \<Longrightarrow> str_le b a \<Longrightarrow> a = b"
  by (induction a b rule: str_le.induct) (auto elim: str_le.elims)

lemma str_le_total: "str_le a b \<or> str_le b a"
proof (induction a b rule: str_le.induct)
  case (3 x a y b)
  have "(of_char x :: nat) = of_char y \<Longrightarrow> x = y"
    by (metis char_of_char)
  then show ?case
    using 3 by (auto simp: not_less_iff_gr_or_eq)
qed simp_all

lemma mset_insert_by [simp]: "mset (insert_by le x ys) = add_mset x (mset ys)"
  by (induction ys) auto

lemma mset_sort_by [simp]: "mset (sort_by le xs) = mset xs"
  by (induction xs) (simp_all add: sort_by_def)

lemma set_sort_by: "set (sort_by le xs) = set xs" and distinct_sort_by: "distinct (sort_by le xs) = distinct xs"
  using mset_sort_by [of le xs] by (blast dest: mset_eq_setD mset_eq_imp_distinct_iff)+

lemma sorted_insert_by:
  assumes "\<And>a b. le a b \<or> le b a" "\<And>a b c. le a b \<Longrightarrow> le b c \<Longrightarrow> le a c"
  shows "sorted_wrt le ys \<Longrightarrow> sorted_wrt le (insert_by le x ys)"
proof (induction ys)
  case (Cons y ys)
  have "set (insert_by le x ys) = insert x (set ys)" for ys
    by (metis mset_insert_by set_mset_add_mset_insert set_mset_mset)
  then show ?case
    using Cons assms(1) [of x y] by (auto intro: assms(2))
qed simp

lemma sorted_sort_by:
  assumes "\<And>a b. le a b \<or> le b a" "\<And>a b c. le a b \<Longrightarrow> le b c \<Longrightarrow> le a c"
  shows "sorted_wrt le (sort_by le xs)"
  by (induction xs) (simp_all add: sort_by_def sorted_insert_by [OF assms])

lemma sorted_unique:
  assumes "\<And>a b. le a b \<Longrightarrow> le b a \<Longrightarrow> a = b"
  shows "sorted_wrt le xs \<Longrightarrow> sorted_wrt le ys \<Longrightarrow> mset xs = mset ys \<Longrightarrow> xs = ys"
proof (induction xs arbitrary: ys)
  case (Cons x xs)
  then obtain y zs where ys: "ys = y # zs"
    by (cases ys) auto
  have "x = y"
  proof (rule ccontr)
    assume "x \<noteq> y"
    moreover from this have "x \<in> set zs" "y \<in> set xs"
      using Cons.prems(3) unfolding ys by (metis insert_iff list.simps(15) mset_eq_setD)+
    ultimately show False
      using Cons.prems(1,2) assms [of x y] by (auto simp: ys)
  qed
  then show ?case
    using Cons by (auto simp: ys)
qed simp

lemma style_order:
  "style_before n a b \<or> style_before n b a" "style_before n a b \<Longrightarrow> style_before n b c \<Longrightarrow> style_before n a c"
  "style_before n a b \<Longrightarrow> style_before n b a \<Longrightarrow> a = b"
  using str_le_total [of a b] by (auto simp: style_before_def intro: str_le_trans dest: str_le_antisym)

lemma top_styles_mset:
  assumes "mset its = mset its'"
  shows "top_styles ps its = top_styles ps its'"
proof -
  let ?a = "map (style_of ps) its" and ?b = "map (style_of ps) its'"
  have m: "mset ?a = mset ?b"
    using assms by simp
  then have c: "count_list ?a = count_list ?b"
    by (metis count_mset ext)
  have "mset (remdups ?a) = mset (remdups ?b)"
    using mset_eq_setD [OF m] by (metis mset_set_set set_remdups distinct_remdups)
  then show ?thesis
    unfolding top_styles_def Let_def c
    by (intro sorted_unique [of "style_before (count_list ?b)"] sorted_sort_by)
      (auto intro: style_order(2) dest: style_order(3) simp: style_order(1))
qed

text \<open>
   The feedback does not depend on the order in which the items end: batches whose results are the
  same up to their order get the same feedback. Its counts add up, and the winning styles are the styles
  of the approved items, each once, by decreasing number of items and then by name.
\<close>

theorem feedback_order_independent:
  assumes "mset (results s) = mset (results s')"
  shows "feedback (node_feedback ps s) = feedback (node_feedback ps s') \<and>
    (let approved = filter (\<lambda>r. assembled r \<noteq> None \<and> \<not> dropped r) (results s) in
       set (top_styles ps approved) = style_of ps ` set approved \<and> distinct (top_styles ps approved) \<and>
       sorted_wrt (style_before (count_list (map (style_of ps) approved))) (top_styles ps approved) \<and>
       length approved + length (filter dropped (results s)) \<le> length (results s))"
proof -
  let ?P = "\<lambda>r. assembled r \<noteq> None \<and> \<not> dropped r"
  have perm: "mset (filter P (results s)) = mset (filter P (results s'))" for P
    using assms by (simp add: mset_filter)
  have sums: "sum_list (map f (results s)) = sum_list (map f (results s'))" for f :: "item \<Rightarrow> 'a :: comm_monoid_add"
    unfolding sum_mset_sum_list [symmetric] mset_map assms ..
  have lens: "length (filter P (results s)) = length (filter P (results s'))" for P
    unfolding size_mset [symmetric] perm ..
  have "length (results s) = length (results s')"
    unfolding size_mset [symmetric] assms ..
  then have 1: "feedback (node_feedback ps s) = feedback (node_feedback ps s')"
    unfolding node_feedback_def Let_def by (simp only: sums lens top_styles_mset [OF perm]) simp
  have 2: "set (top_styles ps its) = style_of ps ` set its" "distinct (top_styles ps its)" for its
    by (auto simp: top_styles_def Let_def distinct_sort_by set_sort_by)
  have 3: "sorted_wrt (style_before (count_list (map (style_of ps) its))) (top_styles ps its)" for its
    unfolding top_styles_def Let_def by (intro sorted_sort_by) (auto intro: style_order(2) simp: style_order(1))
  have "length (filter ?P rs) + length (filter dropped rs) \<le> length rs" for rs
    by (induction rs) auto
  then show ?thesis
    using 1 2 3 unfolding Let_def by (intro conjI)
qed

section \<open>Creators that could not be built\<close>

text \<open>
  The roster accepts creators that could not be built as long as one could; but a creator that a concept
  is assigned to and that is missing stops the run at the finalization, after the voices of the others
  were created.
\<close>

theorem partial_roster_stops:
  assumes "a \<in> set (creator_assignments s)" "text_of ps (jget a ''creator_id'') \<notin> ident ps ` set (roster s)"
  shows "isl (fst (node_finalize_voices ps fin s)) \<and> snd (node_finalize_voices ps fin s) = snd (finalize_all ps fin (roster s))"
proof (cases "finalize_all ps fin (roster s)")
  case (Pair r calls)
  show ?thesis
  proof (cases r)
    case (Inr cs)
    let ?cid = "text_of ps (jget a ''creator_id'')"
    have "?cid \<in> set (required_creators ps s)"
      using assms(1) by (auto simp: required_creators_def split: list.splits)
    moreover have "?cid \<notin> ident ps ` set cs"
      using finalize_all_result [of ps fin "roster s" cs calls] Pair Inr assms(2) by (simp flip: set_map)
    moreover have "has_voice ps cs cid \<Longrightarrow> cid \<in> ident ps ` set cs" for cid
      by (auto simp: has_voice_def dest!: find_SomeD split: option.splits)
    ultimately show ?thesis
      using Pair Inr by (auto simp: node_finalize_voices_def list_all_iff)
  qed (simp add: node_finalize_voices_def Pair)
qed

theorem partial_roster_accepted:
  assumes "creator_profiles s \<noteq> []" "i < length (creator_profiles s)" "build i = Inr c"
    "j < length (creator_profiles s)" "build j = Inl e"
  shows "\<exists>s'. node_roster ps None n ref build s = Inr s' \<and> length (roster s') < length (creator_profiles s) \<and> c \<in> set (roster s')"
proof -
  let ?n = "length (creator_profiles s)"
  let ?one = "\<lambda>r. case r of Inl _ \<Rightarrow> [] | Inr c \<Rightarrow> [c :: jdict]"
  let ?cs = "concat (map ?one (map build [0..<?n]))"
  have c: "c \<in> set ?cs"
    using assms(2,3) by (force simp: image_iff)
  have short: "length (concat (map ?one rs)) \<le> length rs \<and> (filter isl rs \<noteq> [] \<longrightarrow> length (concat (map ?one rs)) < length rs)"
    for rs :: "jdict res list"
    by (induction rs) (auto split: sum.splits)
  have "filter isl (map build [0..<?n]) \<noteq> []"
    using assms(4,5) by (auto simp: filter_empty_conv image_iff intro!: bexI [of _ j])
  then have "length ?cs < ?n"
    using short [of "map build [0..<?n]"] by simp
  moreover obtain y ys where cs: "?cs = y # ys"
    using c by (rule_tac list.exhaust [of ?cs]) (simp_all only: list.set empty_iff)
  then have "built_roster build ?n s = Inr (s\<lparr>roster := ?cs\<rparr>)"
    unfolding built_roster_def Let_def cs by simp
  ultimately show ?thesis
    using assms(1) c by (simp add: node_roster_def)
qed

section \<open>Executions\<close>

text \<open>The graph run for a number of steps with the same agents and decision.\<close>

fun run_batch :: "(json \<Rightarrow> string) \<Rightarrow> run_settings \<Rightarrow> agents \<Rightarrow> jdict \<Rightarrow> nat \<Rightarrow> bnode \<times> batch \<Rightarrow> (bnode \<times> batch) option" where
  "run_batch ps rs ag dec 0 ns = Some ns"
| "run_batch ps rs ag dec (Suc k) ns =
    (case fst (batch_step ps rs ag dec (fst ns) (snd ns)) of
       Inr (Some n', s') \<Rightarrow> run_batch ps rs ag dec k (n', s')
     | _ \<Rightarrow> None)"

lemma run_batch_reached:
  assumes "run_batch ps rs ag dec k (n, s) = Some (n', s')" "reached ps rs s0 n s"
  shows "reached ps rs s0 n' s'"
  using assms
proof (induction k arbitrary: n s)
  case (Suc k)
  obtain r calls where b: "batch_step ps rs ag dec n s = (r, calls)"
    by fastforce
  then obtain n1 s1 where r: "r = Inr (Some n1, s1)" "run_batch ps rs ag dec k (n1, s1) = Some (n', s')"
    using Suc.prems(1) by (auto split: sum.splits option.splits)
  then show ?case
    using Suc.IH reached.step [OF Suc.prems(2), of ag dec n1 s1 calls] b by simp
qed simp

text \<open>A batch of one concept with one creator, whose agents always answer the same.\<close>

definition demo_batch :: batch where
  "demo_batch = \<lparr>run_id = ''r'', campaign = fmempty, concepts = [], creator_profiles = [], creator_assignments = [],
     roster = [], review_approved = False, revision_request = fmempty, results = [], total_cost_usd = 0, feedback = None\<rparr>"

definition demo_candidate :: jdict where
  "demo_candidate = obj [(''candidate_id'', JStr ''v1''), (''preview'', JObj (obj [(''uri'', JStr ''u'')]))]"

definition demo_agents :: agents where
  "demo_agents = \<lparr>generate_concepts = (\<lambda>_. Inr (fmempty, [obj [(''id'', JStr ''k'')]])),
     write_script = (\<lambda>_ _. Inr (''Hi'', fmempty)),
     design_roster = (\<lambda>_. Inr ([obj [(''id'', JStr ''c'')]], [obj [(''concept_id'', JStr ''k''), (''creator_id'', JStr ''c'')]])),
     seed_reference = (\<lambda>c. c), build_creator = (\<lambda>_. Inr (obj [(''id'', JStr ''c'')])),
     the_voice_tools = \<lparr>derive_spec = (\<lambda>_. Inr fmempty),
       design_voice = (\<lambda>_ _ _. Inr (obj [(''candidates'', JList [JObj demo_candidate])])),
       persist_candidates = (\<lambda>_ _ cs. Inr cs)\<rparr>,
     finalize_voice = (\<lambda>k _ _. Inr (obj [(''voice_ref'', JStr k)])),
     fresh_id = (\<lambda>_. ''x''), produce_item = Inr\<rparr>"

definition demo_run :: "bool \<Rightarrow> jdict option \<Rightarrow> run_settings" where
  "demo_run rv seed = \<lparr>review_plan = rv, max_rerolls = 2, select_first = True, seed_creator = seed, default_creators = 2\<rparr>"

lemma run_batch_at:
  assumes "map_option fst (run_batch ps rs ag dec k (Concepts, s0)) = Some n"
  obtains s where "run_batch ps rs ag dec k (Concepts, s0) = Some (n, s)" "reached ps rs s0 n s"
  using assms run_batch_reached [OF _ reached.start, of ps rs ag dec k s0 n] by auto

theorem production_after_approval_witness:
  "\<exists>s. reached (\<lambda>_. []) (demo_run False None) demo_batch Production s \<and> review_approved s"
proof -
  obtain s where "reached (\<lambda>_. []) (demo_run False None) demo_batch Production s"
    by (rule run_batch_at [of "\<lambda>_. []" "demo_run False None" demo_agents fmempty 7 demo_batch Production]) (code_simp, blast)
  then show ?thesis
    using production_after_approval [of "\<lambda>_. []" "demo_run False None" demo_batch s] by (auto simp: demo_batch_def)
qed

theorem only_selected_voices_created_witness:
  "\<exists>s c. reached (\<lambda>_. []) (demo_run False None) demo_batch FinalizeVoices s \<and> c \<in> set (roster s) \<and>
     snd (batch_step (\<lambda>_. []) (demo_run False None) demo_agents fmempty FinalizeVoices s) = [(''v1'', ''c'')] \<and>
     awaits_voice (\<lambda>_. []) c (''v1'', ''c'')"
proof -
  obtain s where run: "run_batch (\<lambda>_. []) (demo_run False None) demo_agents fmempty 6 (Concepts, demo_batch) = Some (FinalizeVoices, s)"
      and s: "reached (\<lambda>_. []) (demo_run False None) demo_batch FinalizeVoices s"
    by (rule run_batch_at [of "\<lambda>_. []" "demo_run False None" demo_agents fmempty 6 demo_batch FinalizeVoices]) (code_simp, blast)
  have "map_option (\<lambda>(n, s). snd (batch_step (\<lambda>_. []) (demo_run False None) demo_agents fmempty n s))
      (run_batch (\<lambda>_. []) (demo_run False None) demo_agents fmempty 6 (Concepts, demo_batch)) = Some [(''v1'', ''c'')]"
    by code_simp
  then have calls: "batch_step (\<lambda>_. []) (demo_run False None) demo_agents fmempty FinalizeVoices s =
      (fst (batch_step (\<lambda>_. []) (demo_run False None) demo_agents fmempty FinalizeVoices s), [(''v1'', ''c'')])"
    by (simp only: run option.map prod.case option.inject prod_eq_iff fst_conv snd_conv simp_thms)
  have "revision_request demo_batch = fmempty"
    by (simp add: demo_batch_def)
  from only_selected_voices_created [OF s this calls] obtain c where "c \<in> set (roster s)" "awaits_voice (\<lambda>_. []) c (''v1'', ''c'')"
    by (auto simp only: list.set)
  then show ?thesis
    using s calls by (metis snd_conv)
qed

theorem seeded_review_never_approved_witness:
  "\<exists>s. reached (\<lambda>_. []) (demo_run True (Some (obj [(''id'', JStr ''c'')]))) demo_batch ReviewGate s \<and>
     ReviewGate \<notin> {FinalizeVoices, Production, Feedback}"
proof -
  let ?seed = "obj [(''id'', JStr ''c'')]"
  obtain s where s: "reached (\<lambda>_. []) (demo_run True (Some ?seed)) demo_batch ReviewGate s"
    by (rule run_batch_at [of "\<lambda>_. []" "demo_run True (Some ?seed)" demo_agents fmempty 5 demo_batch ReviewGate]) (code_simp, blast)
  have n: "normalize_seed_creator (\<lambda>_. []) ?seed \<noteq> None"
    by code_simp
  then obtain c' where "normalize_seed_creator (\<lambda>_. []) ?seed = Some c'"
    by blast
  then show ?thesis
    using seeded_review_never_approved [OF s, of ?seed c'] s by (auto simp: demo_batch_def demo_run_def)
qed

theorem review_edits_confined_witness:
  "\<exists>s'. node_review (\<lambda>_. []) \<lparr>review_plan = True, max_rerolls = 2, select_first = True\<rparr>
       (obj [(''action'', JStr ''regenerate''), (''target'', JStr ''scripts''),
          (''concepts'', JList [JObj (obj [(''id'', JStr ''k''), (''hook'', JStr ''b'')])])])
       (demo_batch\<lparr>concepts := [obj [(''id'', JStr ''k''), (''hook'', JStr ''a'')]]\<rparr>) = Inr s' \<and>
     map (ident (\<lambda>_. [])) (concepts s') = [''k''] \<and> roster s' = []"
proof -
  let ?vs = "\<lparr>review_plan = True, max_rerolls = 2, select_first = True\<rparr>"
  let ?d = "obj [(''action'', JStr ''regenerate''), (''target'', JStr ''scripts''),
          (''concepts'', JList [JObj (obj [(''id'', JStr ''k''), (''hook'', JStr ''b'')])])]"
  let ?s = "demo_batch\<lparr>concepts := [obj [(''id'', JStr ''k''), (''hook'', JStr ''a'')]]\<rparr>"
  have "\<not> isl (node_review (\<lambda>_. []) ?vs ?d ?s)"
    by code_simp
  then obtain s' where s': "node_review (\<lambda>_. []) ?vs ?d ?s = Inr s'"
    by (cases "node_review (\<lambda>_. []) ?vs ?d ?s") auto
  have "map (ident (\<lambda>_. [])) (concepts ?s) = [''k'']" "roster ?s = []"
    by (code_simp, simp add: demo_batch_def)
  then show ?thesis
    using review_edits_confined [OF s'] s' by auto
qed

theorem changed_brief_needs_new_voices_witness:
  "node_review (\<lambda>_. []) \<lparr>review_plan = True, max_rerolls = 2, select_first = True\<rparr>
       (obj [(''action'', JStr ''approve''), (''creators'', JList (map JObj
          [obj [(''id'', JStr ''a''), (''voice_brief'', JStr ''warm'')], obj [(''id'', JStr ''b'')]]))])
       (demo_batch\<lparr>roster := [obj [(''id'', JStr ''a'')], obj [(''id'', JStr ''b'')]]\<rparr>) = Inl ValueError"
proof (rule changed_brief_needs_new_voices)
  show "by_id (\<lambda>_. []) [obj [(''id'', JStr ''a''), (''voice_brief'', JStr ''warm'')], obj [(''id'', JStr ''b'')]]
      (str_of (\<lambda>_. []) (jget (obj [(''id'', JStr ''a'')]) ''id'')) =
      Inr (obj [(''id'', JStr ''a''), (''voice_brief'', JStr ''warm'')])"
    by (simp add: by_id_def obj_def jget_def fmlookup_of_list str_of_def)
qed (simp_all add: obj_def jget_def fmlookup_of_list brief_changed_def py_eq_def)

theorem rerolls_bounded_witness:
  "isl (node_voice_candidates (\<lambda>_. []) \<lparr>review_plan = True, max_rerolls = 2, select_first = True\<rparr> (the_voice_tools demo_agents)
     (demo_batch\<lparr>roster := [obj [(''id'', JStr ''a''), (''voice_reroll_count'', JNum 2)]],
        revision_request := obj [(''target'', JStr ''voices''), (''ids'', JList [JStr ''a''])]\<rparr>))"
proof -
  let ?c = "obj [(''id'', JStr ''a''), (''voice_reroll_count'', JNum 2)]"
  let ?s = "demo_batch\<lparr>roster := [?c], revision_request := obj [(''target'', JStr ''voices''), (''ids'', JList [JStr ''a''])]\<rparr>"
  have 1: "revision_target ?s = JStr ''voices''" "ident (\<lambda>_. []) ?c = ''a''" "requested_ids (\<lambda>_. []) ?s = [''a'']"
      "int_of (jget ?c ''voice_reroll_count'') = 2"
    by (simp_all add: revision_target_def requested_ids_def ident_def text_of_def str_of_def list_of_def obj_def jget_def
        fmlookup_of_list int_of_def)
  show ?thesis
    using rerolls_bounded [OF refl 1(1), of "\<lambda>_. []" "\<lparr>review_plan = True, max_rerolls = 2, select_first = True\<rparr>"
        "the_voice_tools demo_agents"] 1(2-) by simp
qed

theorem fan_out_items_witness:
  "\<exists>it. fan_out (\<lambda>_. []) (\<lambda>_. ''x'') (demo_batch\<lparr>concepts := [obj [(''id'', JStr ''k'')]], roster := [obj [(''id'', JStr ''c'')]]\<rparr>) = Inr [it] \<and>
     item_id it = ''k'' \<and> clips it = []"
proof -
  let ?s = "demo_batch\<lparr>concepts := [obj [(''id'', JStr ''k'')]], roster := [obj [(''id'', JStr ''c'')]]\<rparr>"
  have "\<not> isl (fan_out (\<lambda>_. []) (\<lambda>_. ''x'') ?s)"
    by code_simp
  then obtain its where its: "fan_out (\<lambda>_. []) (\<lambda>_. ''x'') ?s = Inr its"
    by (cases "fan_out (\<lambda>_. []) (\<lambda>_. ''x'') ?s") auto
  from fan_out_items [OF this] obtain it where "its = [it]" "item_id it = ''k''" "clips it = []"
    by (cases its) (auto simp: Let_def obj_def jget_def fmlookup_of_list str_of_def)
  then show ?thesis
    using its by simp
qed

theorem items_have_voices_witness:
  "\<exists>s it. reached (\<lambda>_. []) (demo_run False None) demo_batch Production s \<and> fan_out (\<lambda>_. []) (\<lambda>_. ''x'') s = Inr [it] \<and>
     creator_ref it = Some ''c'' \<and> creator_voice_ref it \<noteq> None"
proof -
  let ?run = "run_batch (\<lambda>_. []) (demo_run False None) demo_agents fmempty 7 (Concepts, demo_batch)"
  let ?a = "obj [(''concept_id'', JStr ''k''), (''creator_id'', JStr ''c'')]"
  obtain s where run: "?run = Some (Production, s)" and s: "reached (\<lambda>_. []) (demo_run False None) demo_batch Production s"
    by (rule run_batch_at [of "\<lambda>_. []" "demo_run False None" demo_agents fmempty 7 demo_batch Production]) (code_simp, blast)
  have "map_option (\<lambda>(n, s). (creator_assignments s = [?a], map (\<lambda>r. jget r ''id'') (roster s), \<not> isl (fan_out (\<lambda>_. []) (\<lambda>_. ''x'') s),
      map (assigned_creator (\<lambda>_. []) s) (concepts s))) ?run = Some (True, [JStr ''c''], True, [''c''])"
    by code_simp
  then have at: "creator_assignments s = [?a]" "map (\<lambda>r. jget r ''id'') (roster s) = [JStr ''c'']"
      "\<not> isl (fan_out (\<lambda>_. []) (\<lambda>_. ''x'') s)" "map (assigned_creator (\<lambda>_. []) s) (concepts s) = [''c'']"
    by (simp_all only: run option.map prod.case option.inject prod.inject simp_thms)
  obtain its where its: "fan_out (\<lambda>_. []) (\<lambda>_. ''x'') s = Inr its"
    using at(3) by (cases "fan_out (\<lambda>_. []) (\<lambda>_. ''x'') s") auto
  obtain k where k: "concepts s = [k]" "assigned_creator (\<lambda>_. []) s k = ''c''"
    using at(4) by (auto simp: map_eq_Cons_conv)
  obtain it where it: "its = [it]"
    using fan_outD(1) [OF its] k(1) by (cases its) auto
  have cid: "text_of (\<lambda>_. []) (jget ?a ''creator_id'') = ''c''"
    by (simp add: obj_def jget_def fmlookup_of_list text_of_def str_of_def)
  have ids: "\<exists>n. jget r ''id'' = JStr n" if "r \<in> set (roster s)" for r
    using at(2) that by (auto simp: map_eq_Cons_conv)
  have "creator_ref (its ! 0) = Some (text_of (\<lambda>_. []) (jget ?a ''creator_id'')) \<and>
      (\<exists>r v. roster_creator s (text_of (\<lambda>_. []) (jget ?a ''creator_id'')) = Some r \<and> creator_voice_ref (its ! 0) = Some v \<and>
         creator_voice r = JStr v \<and> v \<noteq> [])"
    by (rule items_have_voices [OF s _ its _ _ _ _ ids]) (simp_all add: at(1) cid k it demo_batch_def)
  then show ?thesis
    using s its by (auto simp: cid it)
qed

theorem feedback_order_independent_witness:
  "let it = new_item ''i'' fmempty None None None None; jt = it\<lparr>item_id := ''j'', dropped := True\<rparr>
   in it \<noteq> jt \<and> feedback (node_feedback (\<lambda>_. []) (demo_batch\<lparr>results := [it, jt]\<rparr>)) =
      feedback (node_feedback (\<lambda>_. []) (demo_batch\<lparr>results := [jt, it]\<rparr>))"
proof -
  let ?it = "new_item ''i'' fmempty None None None None"
  let ?jt = "?it\<lparr>item_id := ''j'', dropped := True\<rparr>"
  have "mset (results (demo_batch\<lparr>results := [?it, ?jt]\<rparr>)) = mset (results (demo_batch\<lparr>results := [?jt, ?it]\<rparr>))"
    by simp
  from feedback_order_independent [OF this, of "\<lambda>_. []"] show ?thesis
    by (simp add: new_item_def)
qed

end
