(* ===== verification/Review_Api.thy ===== *)
theory Review_Api
  imports Batch_Production Job_Properties
begin

text \<open>
  The HTTP interface of the review (\<open>web/routes_review.py\<close>) on the durable queue, and what a run that is
  started over HTTP asks of its review (\<open>web/routes_runs.py\<close>, \<open>worker.py\<close>).

  A request is checked against the gate that is stored, which shows creators in their public form, and the
  resolution it stores is what the graph later resumes with: the theorems relate the two checks.
  A failure is the status code of the response.
\<close>

section \<open>Requests\<close>

text \<open>
  The shape of a patch: the fields it may have, with the least and greatest length of those that are
  texts; a missing or null field is not changed.
\<close>

definition text_between :: "nat \<Rightarrow> nat \<Rightarrow> json \<Rightarrow> bool" where
  "text_between least greatest v = (case v of JStr s \<Rightarrow> least \<le> length s \<and> length s \<le> greatest | _ \<Rightarrow> False)"

definition concept_patch_field :: "string \<Rightarrow> json \<Rightarrow> bool" where
  "concept_patch_field k v =
    (if k = ''id'' then text_between 1 200 v
     else if v = JNull then k \<in> set review_concept_fields
     else if k = ''offer'' then text_between 0 8000 v
     else if k = ''hook'' then text_between 0 500 v
     else if k \<in> {''angle'', ''audience_problem'', ''product_mechanism''} then text_between 0 1000 v
     else if k = ''evidence_basis'' then v \<in> {JStr ''provided_fact'', JStr ''performance'', JStr ''cold_test''}
     else if k \<in> {''format'', ''hook_style''} then text_between 0 200 v
     else if k = ''script'' then text_between 0 12000 v
     else k = ''script_draft'' \<and> (case v of JObj _ \<Rightarrow> True | _ \<Rightarrow> False))"

definition creator_patch_fields :: "string list" where
  "creator_patch_fields = [''id'', ''archetype'', ''visual_brief'', ''voice_brief'', ''performance_style'', ''exclusions'',
     ''selected_voice_candidate_id'']"

definition creator_patch_field :: "string \<Rightarrow> json \<Rightarrow> bool" where
  "creator_patch_field k v =
    (if k = ''id'' then text_between 1 200 v
     else if v = JNull then k \<in> set creator_patch_fields
     else if k = ''archetype'' then text_between 0 500 v
     else if k \<in> {''visual_brief'', ''voice_brief''} then text_between 0 2000 v
     else if k = ''performance_style'' then text_between 0 1000 v
     else if k = ''selected_voice_candidate_id'' then text_between 1 200 v
     else k = ''exclusions'' \<and> (case v of JList xs \<Rightarrow> length xs \<le> 20 \<and> list_all (\<lambda>x. case x of JStr _ \<Rightarrow> True | _ \<Rightarrow> False) xs
         | _ \<Rightarrow> False))"

definition patch_ok :: "(string \<Rightarrow> json \<Rightarrow> bool) \<Rightarrow> jdict \<Rightarrow> bool" where
  "patch_ok ok d = (''id'' |\<in>| fmdom d \<and> fmpred ok d)"

definition drop_nulls :: "jdict \<Rightarrow> jdict" where
  "drop_nulls d = fmfilter (\<lambda>k. fmlookup d k \<noteq> Some JNull) d"

record review_request =
  rq_action :: string
  rq_concepts :: "jdict list option"
  rq_creators :: "jdict list option"
  rq_target :: "string option"
  rq_ids :: "string list"
  rq_feedback :: "string option"
  rq_gate_id :: "string option"
  rq_version :: "int option"
  rq_gate_type :: "string option"

definition target_in :: "string list \<Rightarrow> review_request \<Rightarrow> bool" where
  "target_in ts req = (case rq_target req of None \<Rightarrow> False | Some t \<Rightarrow> t \<in> set ts)"

definition validate_action :: "review_request \<Rightarrow> bool" where
  "validate_action req =
    (if rq_action req = ''approve'' then rq_target req = None \<and> rq_ids req = [] \<and> rq_feedback req = None
     else if rq_action req = ''regenerate'' then
       target_in [''concepts'', ''scripts'', ''creators'', ''voices''] req \<and> rq_ids req \<noteq> [] \<and> distinct (rq_ids req) \<and>
       \<not> (target_in [''concepts'', ''scripts''] req \<and> rq_creators req \<noteq> None) \<and>
       \<not> (target_in [''creators'', ''voices''] req \<and> rq_concepts req \<noteq> None)
     else False)"

definition valid_request :: "review_request \<Rightarrow> bool" where
  "valid_request req =
    (list_all (patch_ok concept_patch_field) (case rq_concepts req of None \<Rightarrow> [] | Some ds \<Rightarrow> ds) \<and>
     list_all (patch_ok creator_patch_field) (case rq_creators req of None \<Rightarrow> [] | Some ds \<Rightarrow> ds) \<and>
     length (rq_ids req) \<le> 48 \<and>
     (case rq_feedback req of None \<Rightarrow> True | Some f \<Rightarrow> length f \<le> 4000) \<and>
     (case rq_version req of None \<Rightarrow> True | Some v \<Rightarrow> 1 \<le> v) \<and>
     (case rq_gate_type req of None \<Rightarrow> True | Some t \<Rightarrow> t = ''review_creative_plan'') \<and>
     validate_action req)"

definition patches :: "jdict list option \<Rightarrow> string \<Rightarrow> (string \<times> json) list" where
  "patches ds k = (case ds of None \<Rightarrow> [] | Some ds \<Rightarrow> [(k, JList (map (JObj \<circ> drop_nulls) ds))])"

definition resolution :: "review_request \<Rightarrow> jdict" where
  "resolution req =
    obj ([(''action'', JStr (rq_action req))] @ patches (rq_concepts req) ''concepts'' @ patches (rq_creators req) ''creators'' @
      (if rq_action req = ''regenerate''
       then [(''target'', (case rq_target req of None \<Rightarrow> JNull | Some t \<Rightarrow> JStr t)), (''ids'', JList (map JStr (rq_ids req))),
             (''feedback'', JStr (case rq_feedback req of None \<Rightarrow> [] | Some f \<Rightarrow> f))]
       else []))"

section \<open>The check against the pending gate\<close>

text \<open>The gate as it is stored: the interrupt of the graph with the creators in their public form.\<close>

definition public_gate_payload :: "(json \<Rightarrow> string) \<Rightarrow> jdict \<Rightarrow> jdict" where
  "public_gate_payload ps i =
    (case jget i ''creators'' of
       JList cs \<Rightarrow> fmupd ''creators'' (JList (map (JObj \<circ> normalize_creator_payload ps) (dicts_in cs))) i
     | _ \<Rightarrow> i)"

definition checked :: "(jdict list \<Rightarrow> jdict list \<Rightarrow> jdict list res) \<Rightarrow> jdict list option \<Rightarrow> jdict list \<Rightarrow> jdict list res" where
  "checked f ds old = (case ds of None \<Rightarrow> Inr old | Some us \<Rightarrow> f old (map drop_nulls us))"

text \<open>An exception of a check is a 422 when it is a \<open>ValueError\<close>; anything else is a failure of the server.\<close>

definition check_status :: "exn \<Rightarrow> int" where
  "check_status e = (if e = ValueError then 422 else 500)"

definition review_check :: "(json \<Rightarrow> string) \<Rightarrow> review_request \<Rightarrow> jdict list \<Rightarrow> jdict list \<Rightarrow> unit res" where
  "review_check ps req cs rs =
    (if rq_action req = ''approve'' then
       (case checked (apply_review_concept_updates ps) (rq_concepts req) cs of Inl e \<Rightarrow> Inl e | Inr _ \<Rightarrow>
         (case checked (apply_review_creator_updates ps) (rq_creators req) rs of Inl e \<Rightarrow> Inl e | Inr reviewed \<Rightarrow>
           validate_voice_selections ps reviewed))
     else if rq_ids req = [] then Inr ()
     else
       let available = map (\<lambda>d. str_of ps (jget d ''id''))
             (filter (\<lambda>d. py_truthy (jget d ''id'')) (if target_in [''creators'', ''voices''] req then rs else cs))
       in if \<not> set (rq_ids req) \<subseteq> set available then Inl ValueError
          else (case checked (apply_review_creator_updates ps) (rq_creators req) rs of Inl e \<Rightarrow> Inl e | Inr _ \<Rightarrow>
            (case checked (apply_review_concept_updates ps) (rq_concepts req) cs of Inl e \<Rightarrow> Inl e | Inr _ \<Rightarrow> Inr ())))"

definition validated_review_resolution :: "(json \<Rightarrow> string) \<Rightarrow> review_request \<Rightarrow> jdict \<Rightarrow> int + jdict" where
  "validated_review_resolution ps req pending =
    (case (jget pending ''concepts'', jget pending ''creators'') of
       (JList cs, JList rs) \<Rightarrow>
         (case (dict_list cs, dict_list rs) of
            (Inr cs', Inr rs') \<Rightarrow>
              (case review_check ps req cs' rs' of Inl e \<Rightarrow> Inl (check_status e) | Inr _ \<Rightarrow> Inr (resolution req))
          | _ \<Rightarrow> Inl 500)
     | _ \<Rightarrow> Inl 409)"

text \<open>
  The request on the durable queue; \<open>uuid\<close> reads an identifier and fails on anything else. A response is
  the identifier of the resume job.
\<close>

definition review_run_v2 ::
  "(string \<Rightarrow> string) \<Rightarrow> (json \<Rightarrow> string) \<Rightarrow> (string \<Rightarrow> string option) \<Rightarrow> org \<Rightarrow> string \<Rightarrow> review_request \<Rightarrow> int \<Rightarrow> db \<Rightarrow>
   (int + string) \<times> db" where
  "review_run_v2 uid ps uuid org rid req ts d =
    (if \<not> valid_request req then (Inl 422, d)
     else case (rq_gate_id req, rq_version req) of
       (Some gid, Some v) \<Rightarrow>
         if rq_gate_type req \<noteq> Some ''review_creative_plan'' then (Inl 409, d)
         else
           (case (uuid gid, get_pending_gate org rid d) of
              (Some g, Some gate) \<Rightarrow>
                if gate_key gate \<noteq> g \<or> gate_version gate \<noteq> v \<or> Some (gate_type gate) \<noteq> rq_gate_type req then (Inl 409, d)
                else
                  (case validated_review_resolution ps req (gate_payload gate) of
                     Inl status \<Rightarrow> (Inl status, d)
                   | Inr res \<Rightarrow>
                       (case resolve_gate uid org g v res ts d of
                          Inl e \<Rightarrow> (Inl (if e = CancelledGateError then 410 else if e \<in> {ValueError, StaleGateError} then 409 else 500), d)
                        | Inr (j, d') \<Rightarrow> (Inr (job_key j), d')))
            | _ \<Rightarrow> (Inl 409, d))
     | _ \<Rightarrow> (Inl 409, d))"

section \<open>What a run asks of its review\<close>

record run_request =
  rr_offer :: string
  rr_batch :: int
  rr_platform :: string
  rr_creator_prompt :: "string option"
  rr_video_prompt :: "string option"
  rr_approve_creators :: bool
  rr_edit_concepts :: bool
  rr_seed_creator :: "jdict option"
  rr_script_model :: "string option"

definition opt_json :: "('a \<Rightarrow> json) \<Rightarrow> 'a option \<Rightarrow> json" where
  "opt_json f x = (case x of None \<Rightarrow> JNull | Some v \<Rightarrow> f v)"

text \<open>The payload of the job of a run that is started with \<open>POST /api/run\<close>.\<close>

definition start_run_payload :: "string \<Rightarrow> string \<Rightarrow> run_request \<Rightarrow> jdict" where
  "start_run_payload config_dir db_path req =
    obj [(''offer'', JStr (rr_offer req)), (''batch'', JNum (of_int (rr_batch req))), (''platform'', JStr (rr_platform req)),
         (''config_dir'', JStr config_dir), (''db_path'', JStr db_path),
         (''creator_prompt'', opt_json JStr (rr_creator_prompt req)), (''video_prompt'', opt_json JStr (rr_video_prompt req)),
         (''approve_creators'', JBool (rr_approve_creators req)), (''edit_concepts'', JBool (rr_edit_concepts req)),
         (''seed_creator'', opt_json JObj (rr_seed_creator req)), (''script_model'', opt_json JStr (rr_script_model req))]"

text \<open>The options the worker takes from the payload.\<close>

definition run_option_keys :: "string list" where
  "run_option_keys = [''creator_prompt'', ''video_prompt'', ''approve_creators'', ''edit_concepts'', ''seed_creator'', ''campaign'',
     ''review_plan'']"

definition run_options :: "jdict \<Rightarrow> jdict" where
  "run_options payload = fmfilter (\<lambda>k. k \<in> set run_option_keys) payload"

text \<open>Whether the review stops the run: in the worker, and in the process of the web server.\<close>

definition durable_review_plan :: "jdict \<Rightarrow> bool" where
  "durable_review_plan payload = py_truthy (jget (run_options payload) ''review_plan'')"

definition local_review_plan :: "bool option \<Rightarrow> bool \<Rightarrow> bool \<Rightarrow> bool" where
  "local_review_plan asked approve_creators edit_concepts =
    (case asked of Some b \<Rightarrow> b | None \<Rightarrow> approve_creators \<or> edit_concepts)"

section \<open>Public creators\<close>

lemma jget_public:
  "jget (normalize_creator_payload ps c) ''id'' = first_truthy [''id'', ''creator_id''] c"
  "jget (normalize_creator_payload ps c) ''voice_brief'' = jget c ''voice_brief''"
  "jget (normalize_creator_payload ps c) ''voice_candidates'' =
     (if public_candidates ps c = [] then JNull else JList (map JObj (public_candidates ps c)))"
  "jget (normalize_creator_payload ps c) ''selected_voice_candidate_id'' = jget c ''selected_voice_candidate_id''"
  by (auto simp: normalize_creator_payload_def Let_def casting_fields_def jget_def obj_def fmlookup_of_list fmlookup_dom_iff
      split: option.splits)

lemma public_candidate_id:
  "set (candidate_ids ps (normalize_creator_payload ps c)) \<subseteq> set (candidate_ids ps c)"
proof -
  have "jget e ''candidate_id'' = jget d ''candidate_id''" if "e \<in> set (public_candidate ps d)" for d e
    using that by (auto simp: public_candidate_def Let_def jget_def obj_def fmlookup_of_list split: json.splits if_splits)
  then have "text_of ps (jget e ''candidate_id'') \<in> set (candidate_ids ps c)" if "e \<in> set (public_candidates ps c)" for e
    using that by (fastforce simp: public_candidates_def candidate_ids_def image_iff)
  then show ?thesis
    by (auto simp: candidate_ids_def jget_public list_of_def)
qed

lemma public_ident: "ident ps c \<noteq> [] \<Longrightarrow> ident ps (normalize_creator_payload ps c) = ident ps c"
  by (auto simp: ident_def jget_public text_of_def split: if_splits)

lemma public_id: "ident ps c \<noteq> [] \<Longrightarrow> jget (normalize_creator_payload ps c) ''id'' = jget c ''id''"
  by (auto simp: ident_def jget_public text_of_def split: if_splits)

text \<open>A creator edited in its public form passes whatever check the creator itself, edited alike, must pass.\<close>

lemma review_creator_public:
  assumes "review_creator ps (normalize_creator_payload ps c) u = Inr p'"
  obtains c' where "review_creator ps c u = Inr c'" "selection_ok ps p' \<longrightarrow> selection_ok ps c'"
proof (cases "brief_changed c u")
  case True
  then have "brief_changed (normalize_creator_payload ps c) u"
    by (simp add: brief_changed_def jget_public split: option.splits)
  then have "\<not> selection_ok ps p'"
    using review_creator_new_brief(3) [OF assms] by (simp add: selection_ok_def text_of_def)
  then show thesis
    using that True by (simp add: review_creator_def Let_def)
next
  case False
  then have same: "\<not> brief_changed (normalize_creator_payload ps c) u"
    by (simp add: brief_changed_def jget_public split: option.splits)
  let ?sel = "text_of ps (jget u ''selected_voice_candidate_id'')"
  have ok: "?sel = [] \<or> ?sel \<in> set (candidate_ids ps c)" and p': "p' = edited editable_creator_fields (normalize_creator_payload ps c) u"
    using assms same public_candidate_id by (auto simp: review_creator_def Let_def split: if_splits)
  then have c': "review_creator ps c u = Inr (edited editable_creator_fields c u)"
    using False by (auto simp: review_creator_def Let_def)
  have keep: "jget (edited editable_creator_fields d u) ''voice_candidates'' = jget d ''voice_candidates''" for d
    by (simp add: jget_def editable_creator_fields_def)
  have sel: "jget (edited editable_creator_fields (normalize_creator_payload ps c) u) ''selected_voice_candidate_id'' =
      jget (edited editable_creator_fields c u) ''selected_voice_candidate_id''"
    using jget_public(4) [of ps c] by (auto simp: jget_def split: option.splits)
  have "selection_ok ps p' \<longrightarrow> selection_ok ps (edited editable_creator_fields c u)"
    using public_candidate_id [of ps c] unfolding p' selection_ok_def Let_def sel candidate_ids_def keep by blast
  then show thesis
    using that c' by blast
qed

lemma selection_public: "selection_ok ps (normalize_creator_payload ps c) \<Longrightarrow> selection_ok ps c"
  using public_candidate_id by (auto simp: selection_ok_def jget_public Let_def)

lemma by_id_public: "ident ps c \<noteq> [] \<Longrightarrow>
    by_id ps us (str_of ps (jget (normalize_creator_payload ps c) ''id'')) = by_id ps us (str_of ps (jget c ''id''))"
  by (simp add: public_id)

lemma apply_creators_public:
  assumes "\<And>c. c \<in> set cs \<Longrightarrow> ident ps c \<noteq> []"
    and res: "apply_review_creator_updates ps (map (normalize_creator_payload ps) cs) us = Inr ps'"
  obtains cs' where "apply_review_creator_updates ps cs us = Inr cs'"
    "list_all (selection_ok ps) ps' \<longrightarrow> list_all (selection_ok ps) cs'"
proof -
  let ?pub = "normalize_creator_payload ps"
  have ids: "map (ident ps) (map ?pub cs) = map (ident ps) cs"
    using assms(1) by (simp add: public_ident)
  have checks: "length cs = 2" "same_ids (map (ident ps) cs) (map (ident ps) us)" "\<not> list_ex (unknown_field review_creator_fields) us"
    using res unfolding apply_review_creator_updates_def ids by (auto split: if_splits)
  let ?f = "\<lambda>c. case by_id ps us (str_of ps (jget c ''id'')) of Inl e \<Rightarrow> Inl e | Inr u \<Rightarrow> review_creator ps c u"
  have tr: "traverse ?f (map ?pub cs) = Inr ps'"
    using res unfolding apply_review_creator_updates_def ids by (auto split: if_splits)
  then have "list_all2 (\<lambda>c p'. ?f (?pub c) = Inr p') cs ps'"
    by (simp add: traverse_Inr_iff list.rel_map)
  then have "list_all2 (\<lambda>c p'. \<exists>c'. ?f c = Inr c' \<and> (selection_ok ps p' \<longrightarrow> selection_ok ps c')) cs ps'"
  proof (rule list.rel_mono_strong)
    fix c p' assume c: "c \<in> set cs" and f: "?f (?pub c) = Inr p'"
    then obtain u where u: "by_id ps us (str_of ps (jget c ''id'')) = Inr u" "review_creator ps (?pub c) u = Inr p'"
      unfolding by_id_public [OF assms(1) [OF c]] by (auto split: sum.splits)
    from review_creator_public [OF u(2)] u(1)
    show "\<exists>c'. ?f c = Inr c' \<and> (selection_ok ps p' \<longrightarrow> selection_ok ps c')"
      by (metis (no_types, lifting) sum.case(2))
  qed
  then have "\<exists>cs'. list_all2 (\<lambda>c c'. ?f c = Inr c') cs cs' \<and> (list_all (selection_ok ps) ps' \<longrightarrow> list_all (selection_ok ps) cs')"
    by (induction rule: list_all2_induct) (auto intro: exI [of _ "_ # _"])
  then obtain cs' where "traverse ?f cs = Inr cs'" "list_all (selection_ok ps) ps' \<longrightarrow> list_all (selection_ok ps) cs'"
    unfolding traverse_Inr_iff by blast
  then show thesis
    using that checks by (simp add: apply_review_creator_updates_def)
qed

section \<open>What a resolution holds\<close>

lemma resolution_action: "fmlookup (resolution req) ''action'' = Some (JStr (rq_action req))"
  by (simp add: resolution_def obj_def fmlookup_of_list)

lemma resolution_patches:
  "jget (resolution req) ''concepts'' = (case rq_concepts req of None \<Rightarrow> JNull | Some ds \<Rightarrow> JList (map (JObj \<circ> drop_nulls) ds))"
  "jget (resolution req) ''creators'' = (case rq_creators req of None \<Rightarrow> JNull | Some ds \<Rightarrow> JList (map (JObj \<circ> drop_nulls) ds))"
  by (simp_all add: resolution_def obj_def fmlookup_of_list jget_def patches_def split: option.splits)

lemma resolution_regenerate:
  assumes "rq_action req = ''regenerate''" "rq_target req = Some t"
  shows "jget (resolution req) ''target'' = JStr t" "jget (resolution req) ''ids'' = JList (map JStr (rq_ids req))"
  using assms by (simp_all add: resolution_def obj_def fmlookup_of_list jget_def patches_def map_of_append split: option.splits)

lemma decision_checked:
  "apply_decision f (resolution req) ''concepts'' old = checked f (rq_concepts req) old"
  "apply_decision f (resolution req) ''creators'' old = checked f (rq_creators req) old"
  using dict_list_objs [of "map drop_nulls ds" for ds]
  by (simp_all add: apply_decision_def resolution_patches checked_def split: option.splits)

lemma checked_creators_public:
  assumes "\<And>c. c \<in> set cs \<Longrightarrow> ident ps c \<noteq> []"
    and "checked (apply_review_creator_updates ps) ds (map (normalize_creator_payload ps) cs) = Inr ps'"
  obtains cs' where "checked (apply_review_creator_updates ps) ds cs = Inr cs'"
    "list_all (selection_ok ps) ps' \<longrightarrow> list_all (selection_ok ps) cs'"
proof (cases ds)
  case None
  have "list_all (selection_ok ps) (map (normalize_creator_payload ps) cs) \<longrightarrow> list_all (selection_ok ps) cs"
    by (auto simp: list_all_iff selection_public)
  then show thesis
    using that None assms(2) by (simp add: checked_def)
next
  case (Some us)
  then have "apply_review_creator_updates ps (map (normalize_creator_payload ps) cs) (map drop_nulls us) = Inr ps'"
    using assms(2) by (simp add: checked_def)
  from apply_creators_public [OF assms(1) this] obtain cs' where
      "apply_review_creator_updates ps cs (map drop_nulls us) = Inr cs'"
      "list_all (selection_ok ps) ps' \<longrightarrow> list_all (selection_ok ps) cs'"
    by blast
  then show thesis
    using that Some by (simp add: checked_def)
qed

lemma node_review_approve:
  assumes "review_plan vs" "rq_action req = ''approve''"
    and "checked (apply_review_creator_updates ps) (rq_creators req) (roster s) = Inr rs" "list_all (selection_ok ps) rs"
    and "checked (apply_review_concept_updates ps) (rq_concepts req) (concepts s) = Inr cs"
  shows "node_review ps vs (resolution req) s =
    Inr (s\<lparr>concepts := cs, roster := rs, review_approved := True, revision_request := fmempty\<rparr>)"
  using assms by (simp add: node_review_def resolution_action decision_checked validate_voice_selections_def)

lemma jget_of_obj: "jget (obj kvs) k = (case map_of kvs k of None \<Rightarrow> JNull | Some v \<Rightarrow> v)"
  by (simp add: jget_def obj_def fmlookup_of_list)

lemma node_review_regenerate:
  assumes "review_plan vs" "rq_action req = ''regenerate''" "rq_target req = Some t"
    and "t \<in> {''concepts'', ''scripts'', ''creators'', ''voices''}"
    and "checked (apply_review_creator_updates ps) (rq_creators req) (roster s) = Inr rs"
    and "checked (apply_review_concept_updates ps) (rq_concepts req) (concepts s) = Inr cs"
  shows "\<exists>s'. node_review ps vs (resolution req) s = Inr s' \<and> \<not> review_approved s' \<and> revision_target s' = JStr t \<and>
    requested_ids ps s' = rq_ids req \<and> map (ident ps) (roster s') = map (ident ps) (roster s)"
proof -
  note resolved = resolution_action decision_checked resolution_regenerate [OF assms(2,3)] assms(1,2)
  have "\<exists>s'. node_review ps vs (resolution req) s = Inr s' \<and> \<not> review_approved s' \<and> revision_target s' = JStr t \<and>
    requested_ids ps s' = rq_ids req"
  proof (cases "t \<in> {''creators'', ''voices''}")
    case True
    then show ?thesis
      using assms(5) by (auto simp: node_review_def resolved hashable_def review_targets_def requested_ids_def
          revision_target_def list_of_def str_of_def jget_of_obj Let_def comp_def)
  next
    case False
    then have "t = ''concepts'' \<or> t = ''scripts''"
      using assms(4) by auto
    then show ?thesis
      using assms(6) by (auto simp: node_review_def resolved hashable_def review_targets_def requested_ids_def
          revision_target_def list_of_def str_of_def jget_of_obj Let_def comp_def)
  qed
  then show ?thesis
    using review_keeps_creator_ids by blast
qed

lemma pending_payload:
  assumes "review_interrupt vs s = Some i"
  shows "jget (public_gate_payload ps i) ''concepts'' = JList (map JObj (concepts s))"
    "jget (public_gate_payload ps i) ''creators'' = JList (map JObj (map (normalize_creator_payload ps) (roster s)))"
  using assms by (auto simp: review_interrupt_def public_gate_payload_def jget_def obj_def fmlookup_of_list split: if_splits)

lemma check_passed:
  assumes "review_interrupt vs s = Some i" "validated_review_resolution ps req (public_gate_payload ps i) = Inr dec"
  shows "dec = resolution req" "review_check ps req (concepts s) (map (normalize_creator_payload ps) (roster s)) = Inr ()"
  using assms(2) dict_list_objs [of "map (normalize_creator_payload ps) (roster s)"]
  by (auto simp: validated_review_resolution_def pending_payload [OF assms(1)] split: sum.splits)

text \<open>What a resolution that passed the check makes of the state the graph stopped in.\<close>

definition resumed :: "(json \<Rightarrow> string) \<Rightarrow> review_request \<Rightarrow> batch \<Rightarrow> bool" where
  "resumed ps req s' =
    (if rq_action req = ''approve'' then review_approved s' \<and> list_all (selection_ok ps) (roster s')
     else \<not> review_approved s' \<and> Some (revision_target s') = map_option JStr (rq_target req) \<and>
       requested_ids ps s' = rq_ids req \<and>
       (rq_target req \<in> {Some ''creators'', Some ''voices''} \<longrightarrow>
          rq_ids req \<noteq> [] \<and> set (rq_ids req) \<subseteq> set (map (ident ps) (roster s'))))"

lemma accepted_review_resumes:
  assumes "review_interrupt vs s = Some i" "valid_request req"
    and "validated_review_resolution ps req (public_gate_payload ps i) = Inr dec"
    and ids: "\<And>c. c \<in> set (roster s) \<Longrightarrow> ident ps c \<noteq> []"
  shows "\<exists>s'. node_review ps vs dec s = Inr s' \<and> resumed ps req s'"
proof -
  have plan: "review_plan vs"
    using assms(1) by (simp add: review_interrupt_def split: if_splits)
  note dec = check_passed(1) [OF assms(1,3)] and check = check_passed(2) [OF assms(1,3)]
  have act: "validate_action req"
    using assms(2) by (simp add: valid_request_def)
  show ?thesis
  proof (cases "rq_action req = ''approve''")
    case True
    obtain cs rs' where cs: "checked (apply_review_concept_updates ps) (rq_concepts req) (concepts s) = Inr cs"
      and rs': "checked (apply_review_creator_updates ps) (rq_creators req) (map (normalize_creator_payload ps) (roster s)) = Inr rs'"
        "list_all (selection_ok ps) rs'"
      using check True by (auto simp: review_check_def validate_voice_selections_def split: sum.splits if_splits)
    from checked_creators_public [OF ids rs'(1)] obtain rs where
        rs: "checked (apply_review_creator_updates ps) (rq_creators req) (roster s) = Inr rs" "list_all (selection_ok ps) rs"
      using rs'(2) by blast
    then show ?thesis
      using node_review_approve [OF plan True rs cs] True by (simp add: dec resumed_def)
  next
    case False
    then obtain t where t: "rq_action req = ''regenerate''" "rq_target req = Some t"
        "t \<in> {''concepts'', ''scripts'', ''creators'', ''voices''}" "rq_ids req \<noteq> []"
      using act by (auto simp: validate_action_def target_in_def split: if_splits option.splits)
    obtain cs rs' where cs: "checked (apply_review_concept_updates ps) (rq_concepts req) (concepts s) = Inr cs"
      and rs': "checked (apply_review_creator_updates ps) (rq_creators req) (map (normalize_creator_payload ps) (roster s)) = Inr rs'"
      and avail: "t \<in> {''creators'', ''voices''} \<Longrightarrow> set (rq_ids req) \<subseteq> set (map (\<lambda>d. str_of ps (jget d ''id''))
        (filter (\<lambda>d. py_truthy (jget d ''id'')) (map (normalize_creator_payload ps) (roster s))))"
      using check False t(2,4) by (auto simp: review_check_def target_in_def Let_def split: sum.splits if_splits)
    from checked_creators_public [OF ids rs'] obtain rs where
        rs: "checked (apply_review_creator_updates ps) (rq_creators req) (roster s) = Inr rs"
      by blast
    have "set (rq_ids req) \<subseteq> set (map (ident ps) (roster s))" if "t \<in> {''creators'', ''voices''}"
      using avail [OF that] ids ident_str [of ps] by (fastforce simp: public_id)
    then show ?thesis
      using node_review_regenerate [OF plan t(1-3) rs cs] t(2,4) False by (fastforce simp: dec resumed_def)
  qed
qed

lemma review_runE:
  assumes "review_run_v2 uid ps uuid org rid req ts d = (Inr jid, d')"
  obtains gate j dec where "valid_request req" "get_pending_gate org rid d = Some gate"
    "validated_review_resolution ps req (gate_payload gate) = Inr dec"
    "resolve_gate uid org (gate_key gate) (gate_version gate) dec ts d = Inr (j, d')" "jid = job_key j"
  using assms by (auto simp: review_run_v2_def split: if_splits option.splits sum.splits prod.splits)

section \<open>Properties\<close>

text \<open>
  C7. What the interface accepts, the graph can resume with. When a run is stopped at its review and a
  request over HTTP is accepted, the gate is resolved by exactly one resume job that holds the resolution,
  and with it the review node does not raise on the state the graph stopped in: an approval is an
  approval, with a candidate selected for every creator, and a regeneration goes back to the requested
  stage, for creators of the plan. A refused request changes nothing.
\<close>

theorem review_request_resumes:
  assumes "db_inv uid d" "review_run_v2 uid ps uuid org rid req ts d = (r, d')"
    and "get_pending_gate org rid d = Some g" "gate_payload g = public_gate_payload ps i" "review_interrupt vs s = Some i"
    and "\<And>c. c \<in> set (roster s) \<Longrightarrow> ident ps c \<noteq> []"
  shows "case r of
      Inl _ \<Rightarrow> d' = d
    | Inr jid \<Rightarrow> \<exists>j dec s'. tget jkey (org, jid) (jobs d) = None \<and> tget jkey (org, jid) (jobs d') = Some j \<and>
        job_kind j = ''resume_run'' \<and> job_status j = Queued \<and> fmlookup (job_payload j) ''resolution'' = Some (JObj dec) \<and>
        node_review ps vs dec s = Inr s' \<and> resumed ps req s'"
proof (cases r)
  case (Inl status)
  then show ?thesis
    using assms(2) by (auto simp: review_run_v2_def split: if_splits option.splits sum.splits prod.splits)
next
  case (Inr jid)
  with assms(2) have "review_run_v2 uid ps uuid org rid req ts d = (Inr jid, d')"
    by simp
  then obtain j dec where res: "valid_request req" "validated_review_resolution ps req (public_gate_payload ps i) = Inr dec"
      "resolve_gate uid org (gate_key g) (gate_version g) dec ts d = Inr (j, d')" "jid = job_key j"
    by (rule review_runE) (use assms(3,4) in auto)
  obtain s' where s': "node_review ps vs dec s = Inr s'" "resumed ps req s'"
    using accepted_review_resumes [OF assms(5) res(1,2) assms(6)] by blast
  from res(3) show ?thesis
  proof (cases rule: resolve_gate_cases)
    case (1 g')
    have "jobs d' = jobs d @ [j]" "jkey j = (org, jid)" "jid = resume_job_id uid g'"
      by (simp_all add: 1(5,6) res(4) new_job_def jkey_def add_event_def upd_run_def upd_gate_def announce_def insert_outbox_def insert_job_def)
    then show ?thesis
      using s' 1(4,5) by (auto simp: Inr new_job_def resume_payload_def obj_def fmlookup_of_list)
  qed
qed

definition reroll_request :: "string \<Rightarrow> string \<Rightarrow> review_request" where
  "reroll_request gid cid =
    \<lparr>rq_action = ''regenerate'', rq_concepts = None, rq_creators = None, rq_target = Some ''voices'', rq_ids = [cid],
     rq_feedback = None, rq_gate_id = Some gid, rq_version = Some 1, rq_gate_type = Some ''review_creative_plan''\<rparr>"

text \<open>
  A reroll that the interface accepts may end the run: the check does not look at the number of rerolls,
  the gate is resolved, and the node that designs the voices raises.
\<close>

theorem accepted_reroll_over_limit_raises:
  assumes "review_interrupt vs s = Some i" "c \<in> set (roster s)" "max_rerolls vs \<le> int_of (jget c ''voice_reroll_count'')"
    and ids: "\<And>c. c \<in> set (roster s) \<Longrightarrow> ident ps c \<noteq> []"
  shows "\<exists>dec s'. valid_request (reroll_request gid (ident ps c)) \<and>
    validated_review_resolution ps (reroll_request gid (ident ps c)) (public_gate_payload ps i) = Inr dec \<and>
    node_review ps vs dec s = Inr s' \<and> isl (node_voice_candidates ps vs tools s')"
proof -
  let ?pub = "map (normalize_creator_payload ps) (roster s)"
  let ?req = "reroll_request gid (ident ps c)"
  have valid: "valid_request ?req"
    by (simp add: reroll_request_def valid_request_def validate_action_def target_in_def)
  have "ident ps c \<in> set (map (\<lambda>d. str_of ps (jget d ''id'')) (filter (\<lambda>d. py_truthy (jget d ''id'')) ?pub))"
    using assms(2) ids [OF assms(2)] text_of_truthy [of ps "jget c ''id''"] ident_str [of ps c]
    by (auto simp: public_id ident_def image_iff intro!: bexI [of _ c])
  then have check: "review_check ps ?req (concepts s) ?pub = Inr ()"
    by (simp add: review_check_def reroll_request_def target_in_def Let_def checked_def)
  have acc: "validated_review_resolution ps ?req (public_gate_payload ps i) = Inr (resolution ?req)"
    using check dict_list_objs [of ?pub] by (simp add: validated_review_resolution_def pending_payload [OF assms(1)])
  obtain s' where s': "node_review ps vs (resolution ?req) s = Inr s'" "resumed ps ?req s'"
    using accepted_review_resumes [OF assms(1) valid acc ids] by blast
  have "apply_decision (apply_review_creator_updates ps) (resolution ?req) ''creators'' (roster s) = Inr (roster s)"
    by (simp add: decision_checked checked_def reroll_request_def)
  then have "roster s' = roster s"
    using s'(1) by (auto elim!: review_cases)
  then have "isl (node_voice_candidates ps vs tools s')"
    using s'(2) assms(2,3) ids [OF assms(2)]
    by (intro voices_over_limit [of s' c ps vs tools]) (auto simp: resumed_def reroll_request_def)
  then show ?thesis
    using valid acc s'(1) by blast
qed

text \<open>
   The review that a caller of \<open>POST /api/run\<close> asks for happens only without a database. The payload of
  the durable run has no \<open>review_plan\<close>, so in the worker the review passes every plan without stopping,
  whatever the request says; in the process of the web server the same request stops for its review
  unless it opted out of both edits.
\<close>

theorem durable_run_unreviewed:
  "(let vs' = vs\<lparr>review_plan := durable_review_plan (start_run_payload config_dir db_path req)\<rparr> in
     review_interrupt vs' s = None \<and>
     node_review ps vs' dec s = Inr (s\<lparr>review_approved := True, revision_request := fmempty\<rparr>)) \<and>
   (let vs' = vs\<lparr>review_plan := local_review_plan None (rr_approve_creators req) (rr_edit_concepts req)\<rparr> in
     review_interrupt vs' s \<noteq> None \<longleftrightarrow> rr_approve_creators req \<or> rr_edit_concepts req)"
  by (simp add: durable_review_plan_def run_options_def jget_filter start_run_payload_def jget_of_obj review_interrupt_def
      node_review_def local_review_plan_def Let_def run_option_keys_def)

text \<open>A run stopped at its review, and its approval.\<close>

definition demo_creator :: "string \<Rightarrow> jdict" where
  "demo_creator cid = obj [(''id'', JStr cid), (''selected_voice_candidate_id'', JStr ''v1''),
     (''voice_candidates'', JList [JObj demo_candidate])]"

definition demo_plan :: batch where
  "demo_plan = demo_batch\<lparr>roster := [demo_creator ''a'', demo_creator ''b'']\<rparr>"

definition demo_settings :: voice_settings where
  "demo_settings = \<lparr>review_plan = True, max_rerolls = 2, select_first = True\<rparr>"

definition demo_review :: "jdict" where
  "demo_review = public_gate_payload (\<lambda>_. []) (the (review_interrupt demo_settings demo_plan))"

definition demo_stopped :: db where
  "demo_stopped = run_ops (exec_job (\<lambda>s. s) (\<lambda>_. [])) (demo_ops @ [OpenGate ''o'' ''r'' ''review_creative_plan'' demo_review 3]) empty_db"

definition demo_approval :: review_request where
  "demo_approval = \<lparr>rq_action = ''approve'', rq_concepts = None, rq_creators = None, rq_target = None, rq_ids = [], rq_feedback = None,
     rq_gate_id = Some ''orchestrator:o:r:gate:review_creative_plan:1'', rq_version = Some 1,
     rq_gate_type = Some ''review_creative_plan''\<rparr>"

lemma not_isl_Inr: "\<not> isl r \<Longrightarrow> (\<And>x. r = Inr x \<Longrightarrow> P) \<Longrightarrow> P"
  by (cases r) auto

theorem review_request_resumes_witness:
  "\<exists>jid d' s'. review_run_v2 (\<lambda>s. s) (\<lambda>_. []) Some ''o'' ''r'' demo_approval 9 demo_stopped = (Inr jid, d') \<and>
     length (jobs demo_stopped) < length (jobs d') \<and> (\<exists>dec. node_review (\<lambda>_. []) demo_settings dec demo_plan = Inr s' \<and> review_approved s')"
proof -
  have inv: "db_inv (\<lambda>s. s) demo_stopped"
    unfolding demo_stopped_def by (rule job_store.inv_run) simp
  have "case review_run_v2 (\<lambda>s. s) (\<lambda>_. []) Some ''o'' ''r'' demo_approval 9 demo_stopped of (r, d') \<Rightarrow>
      \<not> isl r \<and> length (jobs demo_stopped) < length (jobs d')"
    by code_simp
  then obtain jid d' where run: "review_run_v2 (\<lambda>s. s) (\<lambda>_. []) Some ''o'' ''r'' demo_approval 9 demo_stopped = (Inr jid, d')"
      and more: "length (jobs demo_stopped) < length (jobs d')"
    by (auto split: prod.splits elim!: not_isl_Inr)
  have "map_option gate_payload (get_pending_gate ''o'' ''r'' demo_stopped) = Some demo_review"
    by (simp add: demo_stopped_def job_eval get_pending_gate_def)
  then obtain g where g: "get_pending_gate ''o'' ''r'' demo_stopped = Some g" "gate_payload g = demo_review"
    by blast
  obtain i where i: "review_interrupt demo_settings demo_plan = Some i"
    by (simp add: review_interrupt_def demo_settings_def)
  have ids: "ident (\<lambda>_. []) c \<noteq> []" if "c \<in> set (roster demo_plan)" for c
    using that by (auto simp: demo_plan_def demo_creator_def ident_def jget_of_obj text_of_def str_of_def)
  have payload: "gate_payload g = public_gate_payload (\<lambda>_. []) i"
    using g(2) i by (simp add: demo_review_def)
  from review_request_resumes [OF inv run g(1) payload i ids] obtain dec s' where
      "node_review (\<lambda>_. []) demo_settings dec demo_plan = Inr s'" "resumed (\<lambda>_. []) demo_approval s'"
    by auto
  then show ?thesis
    using run more by (auto simp: resumed_def demo_approval_def)
qed

end
