(* ===== verification/Creative_Contracts.thy ===== *)
theory Creative_Contracts
  imports Item_Graph Creators
begin

text \<open>
  The contracts between the creative agents and the program (\<open>creative_contracts.py\<close>): concepts, scripts
  and the casting of creators, with the bounds every field declares, and the functions that give them
  identifiers that the program owns.

  A contract is a record; a function \<open>check_...\<close> is its validation, which strips the texts and raises
  \<open>ValueError\<close> (of which \<open>ValidationError\<close> is a subclass) when a bound is violated. \<open>sha\<close> is the
  hexadecimal SHA-256 digest of a text.
\<close>

section \<open>Validation\<close>

definition bind_res :: "'a res \<Rightarrow> ('a \<Rightarrow> 'b res) \<Rightarrow> 'b res" where
  "bind_res r f = (case r of Inl e \<Rightarrow> Inl e | Inr x \<Rightarrow> f x)"

definition ensure :: "bool \<Rightarrow> unit res" where
  "ensure b = (if b then Inr () else Inl ValueError)"

definition bounded_text :: "nat \<Rightarrow> nat \<Rightarrow> string \<Rightarrow> string res" where
  "bounded_text least greatest s =
    (let t = strip s in if least \<le> length t \<and> length t \<le> greatest then Inr t else Inl ValueError)"

lemma bind_res_simps [simp]:
  "bind_res (Inl e) f = Inl e"
  "bind_res (Inr x) f = f x"
  by (simp_all add: bind_res_def)

lemma bind_res_Inr: "bind_res r f = Inr y \<longleftrightarrow> (\<exists>x. r = Inr x \<and> f x = Inr y)"
  by (cases r) simp_all

lemma bind_res_error: "bind_res r f = Inl e \<longleftrightarrow> r = Inl e \<or> (\<exists>x. r = Inr x \<and> f x = Inl e)"
  by (cases r) simp_all

lemma ensure_Inr [simp]: "ensure b = Inr u \<longleftrightarrow> b"
  by (simp add: ensure_def)

lemma ensure_Inl [simp]: "ensure b = Inl e \<longleftrightarrow> \<not> b \<and> e = ValueError"
  by (auto simp: ensure_def)

lemma bounded_text_Inr: "bounded_text a b s = Inr t \<longleftrightarrow> t = strip s \<and> a \<le> length t \<and> length t \<le> b"
  by (auto simp: bounded_text_def Let_def)

lemma bounded_text_Inl: "bounded_text a b s = Inl e \<longleftrightarrow> e = ValueError \<and> \<not> (a \<le> length (strip s) \<and> length (strip s) \<le> b)"
  by (auto simp: bounded_text_def Let_def)

section \<open>Words\<close>

text \<open>\<open>str.split()\<close>: the maximal runs of characters that are not white space.\<close>

function words :: "string \<Rightarrow> string list" where
  "words s = (let t = dropWhile py_space s in
     if t = [] then [] else takeWhile (\<lambda>c. \<not> py_space c) t # words (dropWhile (\<lambda>c. \<not> py_space c) t))"
  by pat_completeness auto
termination
proof (relation "measure length", goal_cases)
  case (2 s t)
  then have "t \<noteq> []" "\<not> py_space (hd t)"
    using hd_dropWhile by blast+
  then have "length (dropWhile (\<lambda>c. \<not> py_space c) t) < length t"
    by (cases t) (simp_all add: le_imp_less_Suc length_dropWhile_le)
  also have "length t \<le> length s"
    using 2 by (simp add: length_dropWhile_le)
  finally show ?case
    by simp
qed simp

declare words.simps [simp del]

text \<open>\<open>round(n / 2.5)\<close>: two words and a half in a second. The fraction is never one half.\<close>

definition speech_seconds :: "nat \<Rightarrow> int" where
  "speech_seconds n = (4 * int n + 5) div 10"

section \<open>Campaigns\<close>

record performance_metric =
  creative_id :: string
  impressions :: int
  clicks :: int
  conversions :: int
  spend_usd :: rat

record performance_snapshot =
  metrics :: "performance_metric list"
  performance_notes :: "string option"

datatype platform = Tiktok | Instagram | Youtube | Facebook | Reels

datatype objective = Conversion | Awareness | Consideration

record campaign_input =
  campaign_offer :: string
  audience :: string
  facts_restrictions :: "string option"
  creator_direction :: "string option"
  video_direction :: "string option"
  campaign_platform :: platform
  objective :: objective
  batch_size :: int
  performance :: "performance_snapshot option"
  script_model :: "string option"

definition opt_text :: "nat \<Rightarrow> string option \<Rightarrow> string option res" where
  "opt_text greatest x = (case x of None \<Rightarrow> Inr None | Some s \<Rightarrow> bind_res (bounded_text 0 greatest s) (\<lambda>t. Inr (Some t)))"

definition check_metric :: "performance_metric \<Rightarrow> performance_metric res" where
  "check_metric m =
    bind_res (bounded_text 1 200 (creative_id m)) (\<lambda>cid.
    bind_res (ensure (0 \<le> impressions m \<and> 0 \<le> clicks m \<and> 0 \<le> conversions m \<and> 0 \<le> spend_usd m)) (\<lambda>_.
    Inr (m\<lparr>creative_id := cid\<rparr>)))"

definition check_performance :: "performance_snapshot \<Rightarrow> performance_snapshot res" where
  "check_performance p =
    bind_res (ensure (length (metrics p) \<le> 200)) (\<lambda>_.
    bind_res (traverse check_metric (metrics p)) (\<lambda>ms.
    bind_res (opt_text 4000 (performance_notes p)) (\<lambda>notes. Inr \<lparr>metrics = ms, performance_notes = notes\<rparr>)))"

definition check_campaign :: "campaign_input \<Rightarrow> campaign_input res" where
  "check_campaign c =
    bind_res (bounded_text 1 8000 (campaign_offer c)) (\<lambda>offer.
    bind_res (bounded_text 1 8000 (audience c)) (\<lambda>aud.
    bind_res (opt_text 8000 (facts_restrictions c)) (\<lambda>facts.
    bind_res (opt_text 8000 (creator_direction c)) (\<lambda>cd.
    bind_res (opt_text 8000 (video_direction c)) (\<lambda>vd.
    bind_res (ensure (1 \<le> batch_size c \<and> batch_size c \<le> 48)) (\<lambda>_.
    bind_res (case performance c of None \<Rightarrow> Inr None | Some p \<Rightarrow> bind_res (check_performance p) (\<lambda>p. Inr (Some p))) (\<lambda>perf.
    bind_res (opt_text 200 (script_model c)) (\<lambda>sm.
    Inr (c\<lparr>campaign_offer := offer, audience := aud, facts_restrictions := facts, creator_direction := cd,
      video_direction := vd, performance := perf, script_model := sm\<rparr>)))))))))"

section \<open>Concepts\<close>

datatype evidence = ProvidedFact | Performance | ColdTest

record concept_submission =
  hook :: string
  angle :: string
  audience_problem :: string
  product_mechanism :: string
  evidence_basis :: evidence
  concept_format :: string
  hook_style :: string

record concept_proposal = concept_submission +
  concept_key :: string
  concept_offer :: string

definition check_concept :: "concept_submission \<Rightarrow> concept_submission res" where
  "check_concept c =
    bind_res (bounded_text 1 500 (hook c)) (\<lambda>h.
    bind_res (bounded_text 1 1000 (angle c)) (\<lambda>a.
    bind_res (bounded_text 1 1000 (audience_problem c)) (\<lambda>p.
    bind_res (bounded_text 1 1000 (product_mechanism c)) (\<lambda>m.
    bind_res (bounded_text 1 200 (concept_format c)) (\<lambda>f.
    bind_res (bounded_text 1 200 (hook_style c)) (\<lambda>st.
    Inr \<lparr>hook = h, angle = a, audience_problem = p, product_mechanism = m, evidence_basis = evidence_basis c,
      concept_format = f, hook_style = st\<rparr>))))))"

definition concept_id_of :: "(string \<Rightarrow> string) \<Rightarrow> string \<Rightarrow> string \<Rightarrow> nat \<Rightarrow> string" where
  "concept_id_of sha run offer i = ''concept-'' @ take 8 (sha (run @ ''|'' @ offer @ ''|'' @ str_nat i))"

definition materialize_concepts ::
  "(string \<Rightarrow> string) \<Rightarrow> string \<Rightarrow> campaign_input \<Rightarrow> concept_submission list \<Rightarrow> concept_proposal list res" where
  "materialize_concepts sha run camp subs =
    (if int (length subs) \<noteq> batch_size camp then Inl ValueError
     else if performance camp = None \<and> list_ex (\<lambda>c. evidence_basis c = Performance) subs then Inl ValueError
     else traverse (\<lambda>(i, c). bind_res (bounded_text 1 200 (concept_id_of sha run (campaign_offer camp) i)) (\<lambda>key.
         bind_res (bounded_text 1 8000 (campaign_offer camp)) (\<lambda>offer.
         Inr (concept_submission.extend c (concept_proposal.fields key offer)))))
       (zip [0..<length subs] subs))"

section \<open>Scripts\<close>

datatype section_label = Hook | Body | Cta

definition section_named :: "string \<Rightarrow> section_label option" where
  "section_named s =
    (if s = ''hook'' then Some Hook else if s = ''body'' then Some Body else if s = ''cta'' then Some Cta else None)"

text \<open>The upper case of its name.\<close>

primrec section_tag :: "section_label \<Rightarrow> string" where
  "section_tag Hook = ''HOOK''"
| "section_tag Body = ''BODY''"
| "section_tag Cta = ''CTA''"

record spoken_beat =
  beat_section :: section_label
  beat_text :: string
  beat_seconds :: int

record script_submission =
  spoken_beats :: "spoken_beat list"
  visual_beats :: "string list"
  on_screen_text :: "string list"
  call_to_action :: string
  estimated_duration :: int

record script_draft = script_submission +
  draft_key :: string
  draft_concept :: string

definition new_beat :: "section_label \<Rightarrow> string \<Rightarrow> int \<Rightarrow> spoken_beat res" where
  "new_beat sec text n =
    bind_res (bounded_text 1 2000 text) (\<lambda>t.
    bind_res (ensure (1 \<le> n \<and> n \<le> 120)) (\<lambda>_.
    Inr \<lparr>beat_section = sec, beat_text = t, beat_seconds = n\<rparr>))"

definition check_script :: "script_submission \<Rightarrow> script_submission res" where
  "check_script s =
    bind_res (traverse (\<lambda>b. new_beat (beat_section b) (beat_text b) (beat_seconds b)) (spoken_beats s)) (\<lambda>beats.
    bind_res (ensure (1 \<le> length beats \<and> length beats \<le> 20)) (\<lambda>_.
    bind_res (ensure (1 \<le> length (visual_beats s) \<and> length (visual_beats s) \<le> 20)) (\<lambda>_.
    bind_res (ensure (length (on_screen_text s) \<le> 20)) (\<lambda>_.
    bind_res (bounded_text 1 500 (call_to_action s)) (\<lambda>cta.
    bind_res (ensure (1 \<le> estimated_duration s \<and> estimated_duration s \<le> 180)) (\<lambda>_.
    Inr \<lparr>spoken_beats = beats, visual_beats = map strip (visual_beats s), on_screen_text = map strip (on_screen_text s),
      call_to_action = cta, estimated_duration = estimated_duration s\<rparr>))))))"

text \<open>
  The digits at the end of an identifier, at least two of them (\<open>$\<close> also matches before a line feed that
  ends the text), or else the first digits of its digest.
\<close>

definition digit :: "char \<Rightarrow> bool" where
  "digit c = (let n = (of_char c :: nat) in 48 \<le> n \<and> n \<le> 57)"

definition id_suffix :: "(string \<Rightarrow> string) \<Rightarrow> string \<Rightarrow> string" where
  "id_suffix sha v =
    (let body = (if v \<noteq> [] \<and> of_char (last v) = (10::nat) then butlast v else v);
         digits = rev (takeWhile digit (rev body))
     in if digits \<noteq> [] then replicate (2 - length digits) (CHR ''0'') @ digits else take 8 (sha v))"

definition materialize_script ::
  "(string \<Rightarrow> string) \<Rightarrow> string \<Rightarrow> string \<Rightarrow> script_submission \<Rightarrow> script_draft res" where
  "materialize_script sha run cid sub =
    bind_res (bounded_text 1 200 (run @ ''-script-'' @ id_suffix sha cid)) (\<lambda>key.
    bind_res (bounded_text 1 200 cid) (\<lambda>c.
    Inr (script_submission.extend sub (script_draft.fields key c))))"

text \<open>The narration limits; a missing limit is \<open>None\<close>.\<close>

definition spoken_seconds :: "'a script_submission_scheme \<Rightarrow> int" where
  "spoken_seconds s = sum_list (map beat_seconds (spoken_beats s))"

definition spoken_words :: "'a script_submission_scheme \<Rightarrow> nat" where
  "spoken_words s = sum_list (map (\<lambda>b. length (words (beat_text b))) (spoken_beats s))"

definition validate_script_submission ::
  "int option \<Rightarrow> int option \<Rightarrow> int option \<Rightarrow> 'a script_submission_scheme \<Rightarrow> unit res" where
  "validate_script_submission target least greatest s =
    (if (case target of None \<Rightarrow> False | Some t \<Rightarrow> t < max (spoken_seconds s) (estimated_duration s)) then Inl ValueError
     else if (case least of None \<Rightarrow> False | Some n \<Rightarrow> int (spoken_words s) < n) then Inl ValueError
     else if (case greatest of None \<Rightarrow> False | Some n \<Rightarrow> n < int (spoken_words s)) then Inl ValueError
     else Inr ())"

text \<open>The text of a script: a labelled line per beat, and the call to action when no beat is one.\<close>

definition rendered_beats :: "'a script_submission_scheme \<Rightarrow> (section_label \<times> string) list" where
  "rendered_beats s =
    map (\<lambda>b. (beat_section b, beat_text b)) (spoken_beats s) @
    (if list_ex (\<lambda>b. beat_section b = Cta) (spoken_beats s) then [] else [(Cta, call_to_action s)])"

definition beat_line :: "section_label \<times> string \<Rightarrow> string" where
  "beat_line b = section_tag (fst b) @ '': '' @ snd b"

definition render_text :: "'a script_submission_scheme \<Rightarrow> string" where
  "render_text s = join [CHR 0x0A] (map beat_line (rendered_beats s))"

section \<open>Scripts from texts\<close>

text \<open>\<open>partition\<close> at the first colon: what is before it, whether there is one, and what follows.\<close>

definition colon_split :: "string \<Rightarrow> string \<times> bool \<times> string" where
  "colon_split s =
    (let label = takeWhile (\<lambda>c. c \<noteq> CHR '':'') s
     in (label, label \<noteq> s, tl (dropWhile (\<lambda>c. c \<noteq> CHR '':'') s)))"

definition labelled_line :: "string \<Rightarrow> section_label \<times> string" where
  "labelled_line line =
    (let (label, sep, content) = colon_split line
     in ((case section_named (py_lower (strip label)) of None \<Rightarrow> Body | Some sec \<Rightarrow> sec),
         if sep then strip content else strip line))"

definition text_beats :: "string \<Rightarrow> spoken_beat list res" where
  "text_beats text =
    traverse (\<lambda>(sec, spoken). new_beat sec spoken (max 1 (min 120 (speech_seconds (length (words spoken))))))
      (filter (\<lambda>(sec, spoken). spoken \<noteq> []) (map labelled_line (splitlines [] text)))"

definition last_cta :: "spoken_beat list \<Rightarrow> string" where
  "last_cta beats =
    beat_text (case find (\<lambda>b. beat_section b = Cta) (rev beats) of None \<Rightarrow> last beats | Some b \<Rightarrow> b)"

definition script_from_text ::
  "(string \<Rightarrow> string) \<Rightarrow> string \<Rightarrow> string \<Rightarrow> string \<Rightarrow> (string \<times> script_draft) res" where
  "script_from_text sha run cid text =
    (let normalized = strip text in
     if normalized = [] then Inl ValueError
     else
       bind_res (text_beats normalized) (\<lambda>found.
       bind_res (if found = [] then bind_res (new_beat Body normalized 1) (\<lambda>b. Inr [b]) else Inr found) (\<lambda>beats.
       bind_res (check_script \<lparr>spoken_beats = beats, visual_beats = [''Follow the approved concept and creator direction.''],
         on_screen_text = [], call_to_action = last_cta beats, estimated_duration = min 180 (sum_list (map beat_seconds beats))\<rparr>) (\<lambda>sub.
       bind_res (materialize_script sha run cid sub) (\<lambda>draft. Inr (normalized, draft))))))"

section \<open>Casting\<close>

record creator_profile_submission =
  archetype :: string
  visual_brief :: string
  voice_brief :: string
  performance_style :: string
  exclusions :: "string list"

record creator_profile = creator_profile_submission +
  profile_key :: string

record creator_assignment_submission =
  wanted_concept :: string
  creator_index :: int

record creator_assignment =
  assigned_concept :: string
  assigned_key :: string

record roster_submission =
  submitted_creators :: "creator_profile_submission list"
  submitted_assignments :: "creator_assignment_submission list"

definition check_profile :: "creator_profile_submission \<Rightarrow> creator_profile_submission res" where
  "check_profile p =
    bind_res (bounded_text 1 500 (archetype p)) (\<lambda>a.
    bind_res (bounded_text 1 2000 (visual_brief p)) (\<lambda>v.
    bind_res (bounded_text 1 2000 (voice_brief p)) (\<lambda>vo.
    bind_res (bounded_text 1 1000 (performance_style p)) (\<lambda>st.
    bind_res (ensure (length (exclusions p) \<le> 20)) (\<lambda>_.
    Inr \<lparr>archetype = a, visual_brief = v, voice_brief = vo, performance_style = st, exclusions = map strip (exclusions p)\<rparr>)))))"

definition check_assignment :: "creator_assignment_submission \<Rightarrow> creator_assignment_submission res" where
  "check_assignment a =
    bind_res (bounded_text 1 200 (wanted_concept a)) (\<lambda>c.
    bind_res (ensure (0 \<le> creator_index a \<and> creator_index a \<le> 1)) (\<lambda>_. Inr (a\<lparr>wanted_concept := c\<rparr>)))"

definition check_roster :: "roster_submission \<Rightarrow> roster_submission res" where
  "check_roster r =
    bind_res (traverse check_profile (submitted_creators r)) (\<lambda>ps.
    bind_res (ensure (length ps = 2)) (\<lambda>_.
    bind_res (traverse check_assignment (submitted_assignments r)) (\<lambda>as.
    Inr \<lparr>submitted_creators = ps, submitted_assignments = as\<rparr>)))"

definition profile_keys :: "nat \<Rightarrow> string list" where
  "profile_keys n = map (\<lambda>i. ''creator-'' @ str_nat i) [0..<n]"

definition materialize_creator_roster ::
  "roster_submission \<Rightarrow> string list \<Rightarrow> (creator_profile list \<times> creator_assignment list) res" where
  "materialize_creator_roster r concept_ids =
    (let assigned = map wanted_concept (submitted_assignments r) in
     if \<not> distinct assigned \<or> set assigned \<noteq> set concept_ids then Inl ValueError
     else
       let ps = map (\<lambda>(key, p). creator_profile_submission.extend p (creator_profile.fields key))
             (zip (profile_keys (length (submitted_creators r))) (submitted_creators r))
       in Inr (ps, map (\<lambda>a. \<lparr>assigned_concept = wanted_concept a, assigned_key = profile_key (ps ! nat (creator_index a))\<rparr>)
             (submitted_assignments r)))"

section \<open>Words and lines of a text\<close>

lemma words_Nil [simp]: "words [] = []"
  by (simp add: words.simps)

lemma words_append_space: "py_space c \<Longrightarrow> words (a @ c # b) = words a @ words b"
proof (induction a rule: words.induct)
  case (1 a)
  let ?t = "dropWhile py_space a" and ?ns = "\<lambda>c. \<not> py_space c"
  show ?case
  proof (cases "?t = []")
    case True
    then have "dropWhile py_space (a @ c # b) = dropWhile py_space b"
      using 1(2) by (simp add: dropWhile_eq_Nil_conv dropWhile_append2)
    then have "words (a @ c # b) = words b"
      by (simp add: words.simps [of "a @ c # b"] words.simps [of b])
    then show ?thesis
      using True by (simp add: words.simps [of a])
  next
    case False
    then have drop: "dropWhile py_space (a @ c # b) = ?t @ c # b"
      by (auto simp: dropWhile_append1)
    have "takeWhile ?ns (?t @ c # b) = takeWhile ?ns ?t" "dropWhile ?ns (?t @ c # b) = dropWhile ?ns ?t @ c # b"
      using 1(2) by (auto simp: takeWhile_append dropWhile_append takeWhile_eq_all_conv [THEN iffD2])
    then show ?thesis
      using 1(1) [OF refl False 1(2)] False
      by (simp add: words.simps [of "a @ c # b"] words.simps [of a] drop Let_def del: dropWhile_eq_Nil_conv)
  qed
qed

lemma words_join: "words (join '' '' ts) = concat (map words ts)"
proof (induction ts)
  case (Cons t ts)
  have "py_space (CHR '' '')"
    by (simp add: py_space_def)
  then show ?case
    using Cons words_append_space [of _ t] by (cases ts) simp_all
qed simp

definition one_line :: "string \<Rightarrow> bool" where
  "one_line s = list_all (\<lambda>c. \<not> line_break c) s"

lemma one_line_simps [simp]:
  "one_line []"
  "one_line (c # s) \<longleftrightarrow> \<not> line_break c \<and> one_line s"
  "one_line (s @ t) \<longleftrightarrow> one_line s \<and> one_line t"
  by (simp_all add: one_line_def)

lemma splitlines_one: "one_line s \<Longrightarrow> splitlines acc s = (if acc = [] \<and> s = [] then [] else [rev acc @ s])"
  by (induction acc s rule: splitlines.induct) (auto simp: line_break_def)

lemma splitlines_feed:
  "one_line s \<Longrightarrow> splitlines acc (s @ CHR 0x0A # r) = (rev acc @ s) # splitlines [] r"
proof (induction s arbitrary: acc)
  case Nil
  show ?case
    by (cases r) (simp_all add: line_break_def)
next
  case (Cons c s)
  then have c: "\<not> line_break c" "of_char c \<noteq> (13::nat)"
    by (auto simp: line_break_def)
  obtain d ds where d: "s @ CHR 0x0A # r = d # ds"
    by (cases s) auto
  have "splitlines acc (c # d # ds) = splitlines (c # acc) (d # ds)"
    using c by simp
  then show ?case
    using Cons d by simp
qed

lemma splitlines_join:
  "list_all (\<lambda>l. one_line l \<and> l \<noteq> []) ls \<Longrightarrow> splitlines [] (join [CHR 0x0A] ls) = ls"
proof (induction ls)
  case (Cons l ls)
  then show ?case
    by (cases ls) (simp_all add: splitlines_one splitlines_feed)
qed simp

lemma strip_fixed_iff: "strip s = s \<longleftrightarrow> s = [] \<or> \<not> py_space (hd s) \<and> \<not> py_space (last s)"
proof
  assume s: "strip s = s"
  show "s = [] \<or> \<not> py_space (hd s) \<and> \<not> py_space (last s)"
  proof (cases "s = []")
    case False
    have "rev s = dropWhile py_space (rev (dropWhile py_space s))"
      using s by (metis rev_rev_ident strip_def)
    then have "\<not> py_space (last s)"
      using False hd_dropWhile [of py_space "rev (dropWhile py_space s)"] by (metis hd_rev rev_is_Nil_conv)
    moreover have "\<not> py_space (hd s)"
    proof
      assume "py_space (hd s)"
      then have "length (dropWhile py_space s) < length s"
        using False by (cases s) (simp_all add: le_imp_less_Suc length_dropWhile_le)
      moreover have "length (strip s) \<le> length (dropWhile py_space s)"
        unfolding strip_def by (metis length_dropWhile_le length_rev)
      ultimately show False
        using s by simp
    qed
    ultimately show ?thesis
      by blast
  qed simp
next
  assume ends: "s = [] \<or> \<not> py_space (hd s) \<and> \<not> py_space (last s)"
  then have "dropWhile py_space s = s"
    by (cases s) simp_all
  moreover have "dropWhile py_space (rev s) = rev s"
    using ends by (cases s rule: rev_cases) simp_all
  ultimately show "strip s = s"
    by (simp add: strip_def)
qed

lemma strip_space [simp]: "strip (CHR '' '' # s) = strip s"
  by (simp add: strip_def py_space_def)

section \<open>The text of a script read back\<close>

definition clean_beat :: "section_label \<times> string \<Rightarrow> bool" where
  "clean_beat b \<longleftrightarrow> snd b \<noteq> [] \<and> strip (snd b) = snd b \<and> one_line (snd b)"

definition section_name :: "section_label \<Rightarrow> string" where
  "section_name sec = (case sec of Hook \<Rightarrow> ''hook'' | Body \<Rightarrow> ''body'' | Cta \<Rightarrow> ''cta'')"

lemma lower_tag: "py_lower (section_tag sec) = section_name sec"
  by (induction sec; code_simp)

lemma section_tag_simps:
  "one_line (section_tag sec)" "section_tag sec \<noteq> []" "\<not> py_space (hd (section_tag sec))"
  "CHR '':'' \<notin> set (section_tag sec)" "strip (section_tag sec) = section_tag sec"
  by (cases sec; simp add: line_break_def py_space_def strip_def)+

lemma section_named_tag:
  "section_named (py_lower (strip (section_tag sec))) = Some sec"
  "py_lower (strip (section_tag sec)) \<in> {''hook'', ''body'', ''cta''}"
  unfolding section_tag_simps(5) lower_tag by (cases sec; simp add: section_name_def section_named_def)+

lemma colon_split_line: "colon_split (beat_line b) = (section_tag (fst b), True, CHR '' '' # snd b)"
proof -
  have "takeWhile (\<lambda>c. c \<noteq> CHR '':'') (section_tag (fst b) @ CHR '':'' # CHR '' '' # snd b) = section_tag (fst b)"
    "dropWhile (\<lambda>c. c \<noteq> CHR '':'') (section_tag (fst b) @ CHR '':'' # CHR '' '' # snd b) = CHR '':'' # CHR '' '' # snd b"
    using section_tag_simps(4) [of "fst b"] by (auto simp: takeWhile_append dropWhile_append takeWhile_eq_all_conv [THEN iffD2])
  then show ?thesis
    by (simp add: colon_split_def beat_line_def Let_def)
qed

lemma labelled_beat_line: "clean_beat b \<Longrightarrow> labelled_line (beat_line b) = b"
  by (cases b) (simp add: labelled_line_def colon_split_line section_named_tag(1) clean_beat_def)

lemma spoken_beat_line: "clean_beat b \<Longrightarrow> spoken_line (beat_line b) = snd b"
  using colon_split_line [of b] section_named_tag(2) [of "fst b"]
  by (auto simp: spoken_line_def colon_split_def Let_def clean_beat_def)

lemma one_line_beat: "clean_beat b \<Longrightarrow> one_line (beat_line b) \<and> beat_line b \<noteq> []"
  by (simp add: clean_beat_def beat_line_def section_tag_simps(1, 2)) (simp add: line_break_def)

lemma render_lines:
  "list_all clean_beat (rendered_beats s) \<Longrightarrow> splitlines [] (render_text s) = map beat_line (rendered_beats s)"
  unfolding render_text_def
  by (rule splitlines_join) (simp add: list_all_iff one_line_beat)

lemma last_join: "ls \<noteq> [] \<Longrightarrow> last ls \<noteq> [] \<Longrightarrow> join sep ls \<noteq> [] \<and> last (join sep ls) = last (last ls)"
proof (induction ls)
  case (Cons l ls)
  then show ?case
    by (cases ls) (auto split: if_splits)
qed simp

lemma hd_join: "ls \<noteq> [] \<Longrightarrow> hd ls \<noteq> [] \<Longrightarrow> hd (join sep ls) = hd (hd ls)"
  by (cases ls; cases "tl ls") auto

lemma rendered_beats_nonempty: "rendered_beats s \<noteq> []"
  by (auto simp: rendered_beats_def)

lemma strip_render:
  assumes "list_all clean_beat (rendered_beats s)"
  shows "strip (render_text s) = render_text s" "render_text s \<noteq> []"
proof -
  let ?ls = "map beat_line (rendered_beats s)"
  have ne: "?ls \<noteq> []"
    using rendered_beats_nonempty by simp
  have hd: "hd ?ls \<noteq> []" "\<not> py_space (hd (hd ?ls))"
    using rendered_beats_nonempty [of s] section_tag_simps(2, 3) by (simp_all add: hd_map beat_line_def)
  let ?b = "last (rendered_beats s)"
  have b: "clean_beat ?b"
    using assms rendered_beats_nonempty [of s] by (simp add: list_all_iff)
  then have last: "last ?ls \<noteq> []" "\<not> py_space (last (last ?ls))"
    using rendered_beats_nonempty [of s] iffD1 [OF strip_fixed_iff, of "snd ?b"]
    by (auto simp: last_map beat_line_def clean_beat_def)
  show "render_text s \<noteq> []"
    using last_join [OF ne last(1)] by (simp add: render_text_def)
  show "strip (render_text s) = render_text s"
    unfolding strip_fixed_iff render_text_def
    using hd_join [OF ne hd(1)] last_join [OF ne last(1)] hd(2) last(2) by metis
qed

text \<open>What the validation of a script gives.\<close>

lemma new_beatD:
  "new_beat sec t n = Inr b \<Longrightarrow> b = \<lparr>beat_section = sec, beat_text = strip t, beat_seconds = n\<rparr> \<and>
     1 \<le> length (strip t) \<and> length (strip t) \<le> 2000 \<and> 1 \<le> n \<and> n \<le> 120"
  by (auto simp: new_beat_def bind_res_Inr bounded_text_Inr)

lemma check_scriptE:
  assumes "check_script s = Inr s'"
  obtains beats where "traverse (\<lambda>b. new_beat (beat_section b) (beat_text b) (beat_seconds b)) (spoken_beats s) = Inr beats"
    "spoken_beats s' = beats" "1 \<le> length beats" "length beats \<le> 20" "estimated_duration s' = estimated_duration s"
    "call_to_action s' = strip (call_to_action s)" "1 \<le> length (call_to_action s')" "length (call_to_action s') \<le> 500"
    "1 \<le> estimated_duration s'" "estimated_duration s' \<le> 180"
  using assms by (auto simp: check_script_def bind_res_Inr bounded_text_Inr)

definition beat_ok :: "spoken_beat \<Rightarrow> bool" where
  "beat_ok b \<longleftrightarrow> strip (beat_text b) = beat_text b \<and> 1 \<le> length (beat_text b) \<and> length (beat_text b) \<le> 2000 \<and>
     1 \<le> beat_seconds b \<and> beat_seconds b \<le> 120"

lemma new_beats_ok:
  "traverse (\<lambda>b. new_beat (f b) (g b) (h b)) xs = Inr bs \<Longrightarrow> list_all beat_ok bs"
  unfolding traverse_Inr_iff
  by (induction xs bs rule: list_all2_induct) (auto simp: beat_ok_def dest!: new_beatD)

lemma checked_beats: "check_script s = Inr s' \<Longrightarrow> list_all beat_ok (spoken_beats s')"
  by (elim check_scriptE) (simp add: new_beats_ok)

lemma checked_rendered:
  assumes "check_script s = Inr s'" "list_all (\<lambda>b. one_line (snd b)) (rendered_beats s')"
  shows "list_all clean_beat (rendered_beats s')"
proof -
  have "strip (call_to_action s') = call_to_action s'" "call_to_action s' \<noteq> []"
    using assms(1) by (auto elim!: check_scriptE)
  then show ?thesis
    using checked_beats [OF assms(1)] assms(2)
    by (fastforce simp: rendered_beats_def list_all_iff clean_beat_def beat_ok_def)
qed

text \<open>A beat read from a line keeps its section and its text.\<close>

lemma text_beats_rendered:
  assumes "list_all clean_beat (rendered_beats s)" "list_all (\<lambda>b. length (snd b) \<le> 2000) (rendered_beats s)"
  obtains beats where "text_beats (render_text s) = Inr beats"
    "map (\<lambda>b. (beat_section b, beat_text b)) beats = rendered_beats s" "list_all beat_ok beats"
proof -
  let ?bs = "rendered_beats s"
  let ?beat = "\<lambda>b :: section_label \<times> string. \<lparr>beat_section = fst b, beat_text = snd b,
    beat_seconds = max 1 (min 120 (speech_seconds (length (words (snd b)))))\<rparr>"
  have "map labelled_line (map beat_line ?bs) = ?bs"
    using assms(1) by (simp add: list_all_iff labelled_beat_line map_idI)
  then have lines: "filter (\<lambda>(sec, spoken). spoken \<noteq> []) (map labelled_line (splitlines [] (render_text s))) = ?bs"
    using assms(1) unfolding render_lines [OF assms(1)]
    by (auto simp: list_all_iff clean_beat_def intro!: filter_True)
  have beats: "text_beats (render_text s) = Inr (map ?beat ?bs)"
    unfolding text_beats_def lines traverse_Inr_iff list.rel_map
  proof (rule list.rel_refl_strong)
    fix b assume "b \<in> set ?bs"
    then have "clean_beat b" "length (snd b) \<le> 2000"
      using assms by (auto simp: list_all_iff)
    then show "(case b of (sec, spoken) \<Rightarrow> new_beat sec spoken (max 1 (min 120 (speech_seconds (length (words spoken)))))) = Inr (?beat b)"
      by (cases b) (simp add: new_beat_def bounded_text_def clean_beat_def Let_def ensure_def Suc_le_eq)
  qed
  moreover have "list_all beat_ok (map ?beat ?bs)"
    using assms by (auto simp: list_all_iff beat_ok_def clean_beat_def Suc_le_eq)
  ultimately show thesis
    by (intro that [of "map ?beat ?bs"]) (simp_all add: o_def)
qed

lemma last_cta_text:
  assumes "map (\<lambda>b. (beat_section b, beat_text b)) beats = rendered_beats s"
  obtains t where "last_cta beats = t" "(Cta, t) \<in> set (rendered_beats s)"
proof -
  have "\<exists>b \<in> set beats. beat_section b = Cta"
  proof -
    have "Cta \<in> fst ` set (rendered_beats s)"
      by (force simp: rendered_beats_def list_ex_iff)
    then show ?thesis
      by (force simp: assms [symmetric])
  qed
  then obtain b where b: "find (\<lambda>b. beat_section b = Cta) (rev beats) = Some b"
    using find_None_iff [of "\<lambda>b. beat_section b = Cta" "rev beats"]
    by (cases "find (\<lambda>b. beat_section b = Cta) (rev beats)") auto
  then have "b \<in> set beats" "beat_section b = Cta"
    using find_SomeD [OF b] by auto
  then have "(Cta, beat_text b) \<in> set (rendered_beats s)"
    unfolding assms [symmetric] by force
  then show thesis
    using that [of "beat_text b"] b by (simp add: last_cta_def)
qed

lemma sum_beat_seconds: "list_all beat_ok bs \<Longrightarrow> int (length bs) \<le> sum_list (map beat_seconds bs)"
  by (induction bs) (auto simp: beat_ok_def)

text \<open>
  Validation does nothing to what it has already accepted.
\<close>

lemma new_beat_ok: "beat_ok b \<Longrightarrow> new_beat (beat_section b) (beat_text b) (beat_seconds b) = Inr b"
  by (simp add: beat_ok_def new_beat_def bounded_text_def ensure_def)

lemma new_beats_id: "list_all beat_ok bs \<Longrightarrow> traverse (\<lambda>b. new_beat (beat_section b) (beat_text b) (beat_seconds b)) bs = Inr bs"
  by (simp add: traverse_Inr_iff list_all_iff new_beat_ok list.rel_refl_strong)

lemma materialize_scriptE:
  assumes "materialize_script sha run cid sub = Inr d"
  obtains "spoken_beats d = spoken_beats sub" "call_to_action d = call_to_action sub"
    "estimated_duration d = estimated_duration sub" "draft_key d = strip (run @ ''-script-'' @ id_suffix sha cid)"
    "draft_concept d = strip cid"
  using assms
  by (auto simp: materialize_script_def bind_res_Inr bounded_text_Inr script_submission.defs script_draft.defs)

text \<open>
  C29. Reading the text of a script back. The text of a valid script, whose beats are single lines, is read
  back as the beats it shows, in order and with their sections, and the call to action is that of the last
  closing beat; it needs at most twenty lines and closing beats short enough for a call to action.
\<close>

theorem script_read_back:
  fixes s :: script_submission
  assumes "check_script s0 = Inr s" "list_all (\<lambda>b. one_line (snd b)) (rendered_beats s)"
    and "length (rendered_beats s) \<le> 20"
    and "\<And>t. (Cta, t) \<in> set (rendered_beats s) \<Longrightarrow> length t \<le> 500"
    and "materialize_script sha run cid s = Inr d"
  shows "\<exists>d'. script_from_text sha run cid (render_text s) = Inr (render_text s, d') \<and>
    map (\<lambda>b. (beat_section b, beat_text b)) (spoken_beats d') = rendered_beats s \<and>
    (Cta, call_to_action d') \<in> set (rendered_beats s) \<and> draft_key d' = draft_key d \<and> draft_concept d' = draft_concept d"
proof -
  have clean: "list_all clean_beat (rendered_beats s)"
    using checked_rendered assms(1, 2) by blast
  have "list_all (\<lambda>b. length (snd b) \<le> 2000) (rendered_beats s)"
    using checked_beats [OF assms(1)] assms(4) by (fastforce simp: rendered_beats_def list_all_iff beat_ok_def split: if_splits)
  from text_beats_rendered [OF clean this] obtain beats where beats: "text_beats (render_text s) = Inr beats"
      "map (\<lambda>b. (beat_section b, beat_text b)) beats = rendered_beats s" "list_all beat_ok beats" .
  from last_cta_text [OF beats(2)] obtain t where t: "last_cta beats = t" "(Cta, t) \<in> set (rendered_beats s)" .
  have len: "length beats = length (rendered_beats s)" "beats \<noteq> []"
    using beats(2) rendered_beats_nonempty [of s] by (metis length_map, metis list.simps(8))
  have total: "1 \<le> min 180 (sum_list (map beat_seconds beats))"
    using sum_beat_seconds [OF beats(3)] len(2) by (cases beats) auto
  have ct: "strip t = t" "1 \<le> length t"
    using t(2) clean by (auto simp: list_all_iff clean_beat_def Suc_le_eq)
  define sub where "sub = \<lparr>spoken_beats = beats, visual_beats = [''Follow the approved concept and creator direction.''],
    on_screen_text = [], call_to_action = t, estimated_duration = min 180 (sum_list (map beat_seconds beats))\<rparr>"
  obtain sub' where sub': "check_script sub = Inr sub'" "spoken_beats sub' = beats" "call_to_action sub' = t"
    using total ct assms(3) assms(4) [OF t(2)] len
    by (simp add: sub_def check_script_def new_beats_id [OF beats(3)] bind_res_Inr bounded_text_def ensure_def Suc_le_eq)
  obtain d' where d': "materialize_script sha run cid sub' = Inr d'"
    using assms(5) by (auto simp: materialize_script_def bind_res_Inr)
  have "script_from_text sha run cid (render_text s) = Inr (render_text s, d')"
    using sub' d' beats(1) t(1) len(2) strip_render [OF clean] by (simp add: script_from_text_def Let_def sub_def)
  moreover have "draft_key d' = draft_key d" "draft_concept d' = draft_concept d"
    using d' assms(5) by (auto elim!: materialize_scriptE)
  moreover have "spoken_beats d' = beats" "call_to_action d' = t"
    using d' sub' by (auto elim!: materialize_scriptE)
  ultimately show ?thesis
    using beats(2) t(2) by blast
qed

lemma narrated_words:
  "length (words (join '' '' (map snd (rendered_beats s)))) =
     spoken_words s + (if list_ex (\<lambda>b. beat_section b = Cta) (spoken_beats s) then 0 else length (words (call_to_action s)))"
  by (simp add: words_join length_concat o_def rendered_beats_def spoken_words_def)

lemma narration_rendered:
  assumes "list_all clean_beat (rendered_beats s)"
  shows "narration_text (render_text s) = join '' '' (map snd (rendered_beats s))"
proof -
  have "map spoken_line (map beat_line (rendered_beats s)) = map snd (rendered_beats s)"
    using assms by (simp add: list_all_iff spoken_beat_line)
  moreover have "filter (\<lambda>v. v \<noteq> []) (map snd (rendered_beats s)) = map snd (rendered_beats s)"
    using assms by (auto simp: list_all_iff clean_beat_def intro!: filter_True)
  ultimately show ?thesis
    unfolding narration_text_def render_lines [OF assms] by (simp only:)
qed

text \<open>
   What is narrated. The narration of a valid script of single-line beats is exactly its beats, and when
  none of them is a closing beat its call to action, without any label; so a script within the limits is
  narrated in at least the words it must have, and in at most those it may have besides the words of a call
  to action that is not a beat.
\<close>

theorem narration_of_script:
  fixes s :: script_submission
  assumes "check_script s0 = Inr s" "list_all (\<lambda>b. one_line (snd b)) (rendered_beats s)"
    and "validate_script_submission target least greatest s = Inr u"
  defines "closing \<equiv> (if list_ex (\<lambda>b. beat_section b = Cta) (spoken_beats s) then 0 else length (words (call_to_action s)))"
  shows "narration_text (render_text s) = join '' '' (map snd (rendered_beats s)) \<and>
    length (words (narration_text (render_text s))) = spoken_words s + closing \<and>
    (case least of None \<Rightarrow> True | Some n \<Rightarrow> n \<le> int (length (words (narration_text (render_text s))))) \<and>
    (case greatest of None \<Rightarrow> True | Some n \<Rightarrow> int (length (words (narration_text (render_text s)))) \<le> n + int closing) \<and>
    (case target of None \<Rightarrow> True | Some t \<Rightarrow> spoken_seconds s \<le> t)"
proof -
  have narr: "narration_text (render_text s) = join '' '' (map snd (rendered_beats s))"
    using narration_rendered checked_rendered [OF assms(1, 2)] by blast
  have len: "length (words (narration_text (render_text s))) = spoken_words s + closing"
    unfolding narr closing_def by (rule narrated_words)
  show ?thesis
    using narr len assms(3) by (auto simp: validate_script_submission_def split: option.splits if_splits)
qed

text \<open>
  A script of five words with at most five allowed is narrated in eight, as its call to action is not a beat.
\<close>

definition short_script :: script_submission where
  "short_script = \<lparr>spoken_beats = [\<lparr>beat_section = Hook, beat_text = ''I changed my whole routine'', beat_seconds = 3\<rparr>],
     visual_beats = [''Creator talks''], on_screen_text = [], call_to_action = ''See the offer'', estimated_duration = 3\<rparr>"

lemma short_script_checked: "check_script short_script = Inr short_script"
  by code_simp

theorem narration_over_limit:
  "check_script short_script = Inr short_script \<and>
   validate_script_submission (Some 16) None (Some 5) short_script = Inr () \<and>
   length (words (narration_text (render_text short_script))) = 8"
  by code_simp

theorem narration_of_script_witness:
  "narration_text (render_text short_script) = ''I changed my whole routine See the offer''"
proof -
  have "list_all (\<lambda>b. one_line (snd b)) (rendered_beats short_script)"
    "validate_script_submission (Some 16) None (Some 5) short_script = Inr ()"
    by code_simp+
  from narration_of_script [OF short_script_checked this]
  have "narration_text (render_text short_script) = join '' '' (map snd (rendered_beats short_script))"
    by (rule conjunct1)
  also have "\<dots> = ''I changed my whole routine See the offer''"
    by code_simp
  finally show ?thesis .
qed

theorem script_read_back_witness:
  "\<exists>d. script_from_text (\<lambda>s. s) ''run'' ''concept-12'' (render_text short_script) = Inr (render_text short_script, d) \<and>
     draft_key d = ''run-script-12''"
proof -
  have h: "list_all (\<lambda>b. one_line (snd b)) (rendered_beats short_script)" "length (rendered_beats short_script) \<le> 20"
    by code_simp+
  have c: "length t \<le> 500" if "(Cta, t) \<in> set (rendered_beats short_script)" for t
    using that by (auto simp: rendered_beats_def short_script_def)
  obtain d where d: "materialize_script (\<lambda>s. s) ''run'' ''concept-12'' short_script = Inr d" "draft_key d = ''run-script-12''"
  proof -
    have "map_sum id draft_key (materialize_script (\<lambda>s. s) ''run'' ''concept-12'' short_script) = Inr ''run-script-12''"
      by code_simp
    then show thesis
      using that by (cases "materialize_script (\<lambda>s. s) ''run'' ''concept-12'' short_script") simp_all
  qed
  from script_read_back [OF short_script_checked h c d(1)] show ?thesis
    using d(2) by metis
qed

section \<open>Casting\<close>

lemma check_rosterE:
  assumes "check_roster r = Inr r'"
  obtains "length (submitted_creators r') = 2"
    "\<And>a. a \<in> set (submitted_assignments r') \<Longrightarrow> 0 \<le> creator_index a \<and> creator_index a \<le> 1"
proof -
  from assms obtain as where as: "traverse check_assignment (submitted_assignments r) = Inr as"
    "submitted_assignments r' = as" "length (submitted_creators r') = 2"
    by (auto simp: check_roster_def bind_res_Inr)
  have "list_all (\<lambda>a. 0 \<le> creator_index a \<and> creator_index a \<le> 1) as"
    using as(1) unfolding traverse_Inr_iff
    by (induction rule: list_all2_induct) (auto simp: check_assignment_def bind_res_Inr)
  then show thesis
    using that as(2, 3) by (simp add: list_all_iff)
qed

lemma profile_keys_2: "profile_keys (Suc (Suc 0)) = [''creator-0'', ''creator-1'']"
  by (simp add: profile_keys_def str_nat.simps upt_rec)

lemma materialized_roster:
  assumes "check_roster r0 = Inr r" "materialize_creator_roster r ids = Inr (ps, as)"
  shows "map profile_key ps = [''creator-0'', ''creator-1'']" "distinct (map assigned_concept as)"
    "set (map assigned_concept as) = set ids" "\<And>a. a \<in> set as \<Longrightarrow> assigned_key a \<in> {''creator-0'', ''creator-1''}"
proof -
  from assms(1) have two: "length (submitted_creators r) = 2"
    and idx: "\<And>a. a \<in> set (submitted_assignments r) \<Longrightarrow> 0 \<le> creator_index a \<and> creator_index a \<le> 1"
    by (auto elim: check_rosterE)
  from two obtain p q where pq: "submitted_creators r = [p, q]"
    by (auto simp: length_Suc_conv numeral_2_eq_2)
  have ps: "ps = [creator_profile_submission.extend p (creator_profile.fields ''creator-0''),
      creator_profile_submission.extend q (creator_profile.fields ''creator-1'')]"
    and as: "as = map (\<lambda>a. \<lparr>assigned_concept = wanted_concept a, assigned_key = profile_key (ps ! nat (creator_index a))\<rparr>)
      (submitted_assignments r)"
    and ok: "distinct (map wanted_concept (submitted_assignments r))"
      "set (map wanted_concept (submitted_assignments r)) = set ids"
    using assms(2) two by (auto simp: materialize_creator_roster_def Let_def pq profile_keys_2 split: if_splits)
  show keys: "map profile_key ps = [''creator-0'', ''creator-1'']"
    by (simp add: ps creator_profile_submission.defs creator_profile.defs)
  show "distinct (map assigned_concept as)" "set (map assigned_concept as) = set ids"
    using ok by (simp_all add: as o_def)
  fix a assume "a \<in> set as"
  then obtain b where b: "b \<in> set (submitted_assignments r)" "assigned_key a = profile_key (ps ! nat (creator_index b))"
    by (auto simp: as)
  have "nat (creator_index b) = 0 \<or> nat (creator_index b) = 1"
    using idx [OF b(1)] by linarith
  moreover have "profile_key (ps ! 0) = ''creator-0''" "profile_key (ps ! 1) = ''creator-1''"
    by (simp_all add: ps creator_profile_submission.defs creator_profile.defs)
  ultimately show "assigned_key a \<in> {''creator-0'', ''creator-1''}"
    using b(2) by auto
qed

text \<open>
   Casting is total and exclusive: a validated submission is accepted exactly when its assignments name
  every concept once and nothing else, and then there are two creators, with identifiers of the program,
  and every concept has exactly one of them.
\<close>

theorem casting_covers_concepts:
  assumes "check_roster r0 = Inr r"
  shows "(materialize_creator_roster r ids = Inl ValueError \<longleftrightarrow>
      \<not> (distinct (map wanted_concept (submitted_assignments r)) \<and>
         set (map wanted_concept (submitted_assignments r)) = set ids)) \<and>
    (case materialize_creator_roster r ids of
       Inl e \<Rightarrow> e = ValueError
     | Inr (ps, as) \<Rightarrow> map profile_key ps = [''creator-0'', ''creator-1''] \<and>
         (\<forall>c \<in> set ids. \<exists>!a. a \<in> set as \<and> assigned_concept a = c) \<and>
         (\<forall>a \<in> set as. assigned_concept a \<in> set ids \<and> assigned_key a \<in> set (map profile_key ps)))"
proof (cases "materialize_creator_roster r ids")
  case (Inl e)
  then show ?thesis
    by (auto simp: materialize_creator_roster_def Let_def split: if_splits)
next
  case (Inr x)
  obtain ps as where x: "x = (ps, as)"
    by (cases x)
  note facts = materialized_roster [OF assms Inr [unfolded x]]
  have one: "\<exists>!a. a \<in> set as \<and> assigned_concept a = c" if "c \<in> set ids" for c
  proof -
    have "c \<in> assigned_concept ` set as"
      using that facts(3) by simp
    then show ?thesis
      using facts(2) by (auto simp: distinct_map inj_on_def)
  qed
  have in_ids: "assigned_concept a \<in> set ids" if "a \<in> set as" for a
    using that facts(3) by auto
  have "distinct (map wanted_concept (submitted_assignments r)) \<and>
      set (map wanted_concept (submitted_assignments r)) = set ids"
    using Inr by (auto simp: materialize_creator_roster_def Let_def split: if_splits)
  moreover have "profile_key ` set ps = {''creator-0'', ''creator-1''}"
    using arg_cong [OF facts(1), of set] by simp
  ultimately show ?thesis
    using one in_ids facts(1, 4) Inr x by simp
qed

definition sample_profile :: creator_profile_submission where
  "sample_profile = \<lparr>archetype = ''Guide'', visual_brief = ''Adult'', voice_brief = ''Warm'', performance_style = ''Calm'',
     exclusions = []\<rparr>"

definition sample_roster :: roster_submission where
  "sample_roster = \<lparr>submitted_creators = [sample_profile, sample_profile],
     submitted_assignments = [\<lparr>wanted_concept = ''b'', creator_index = 1\<rparr>, \<lparr>wanted_concept = ''a'', creator_index = 0\<rparr>]\<rparr>"

theorem casting_covers_concepts_witness:
  "materialize_creator_roster sample_roster [''a'', ''c''] = Inl ValueError"
proof -
  have "check_roster sample_roster = Inr sample_roster"
    by code_simp
  note covers = casting_covers_concepts [OF this, of "[''a'', ''c'']"]
  have "\<not> (set (map wanted_concept (submitted_assignments sample_roster)) = set [''a'', ''c''])"
    by code_simp
  then show ?thesis
    using conjunct1 [OF covers] by blast
qed

end
