(* ===== verification/Creative_Tools.thy ===== *)
theory Creative_Tools
  imports Creative_Contracts Batch_Production
begin

text \<open>
  The creative stages of the outer graph: the executor that runs a stage by its tool or by an agent
  (\<open>stage_executor.py\<close>), the tools that turn what a language model submits into concepts, scripts and a
  cast (\<open>tools/concepts.py\<close>, \<open>tools/scripts.py\<close>, \<open>tools/creator_profiles.py\<close>), and the agents of the graph
  that these make up (\<open>node_concepts\<close>, \<open>node_scripts\<close>, \<open>node_creator_profiles\<close> of \<open>nodes/stages.py\<close>).

  What a language model answers is an argument (\<open>creative_runtime\<close>): any submission, or an exception.
\<close>

section \<open>Stages\<close>

record stage_spec =
  executor :: string
  materializer :: string
  stage_tools :: "string list"
  agent_enabled :: bool

text \<open>\<open>direct\<close> is the call of the tool with the arguments of the node, \<open>agentic\<close> the one with the agent's submission.\<close>

definition execute_stage_tool :: "stage_spec option \<Rightarrow> string \<Rightarrow> bool \<Rightarrow> 'a res \<Rightarrow> 'a res \<Rightarrow> 'a res" where
  "execute_stage_tool spec tool_name has_runtime direct agentic =
    (case spec of
       None \<Rightarrow> Inl RuntimeError
     | Some sp \<Rightarrow>
         if tool_name \<noteq> materializer sp \<and> tool_name \<notin> set (stage_tools sp) then Inl RuntimeError
         else if executor sp = ''tool'' then direct
         else if executor sp \<noteq> ''agent'' then Inl RuntimeError
         else if \<not> agent_enabled sp then Inl RuntimeError
         else if \<not> has_runtime then Inl RuntimeError
         else agentic)"

text \<open>The default catalogue: every creative stage runs its tool.\<close>

definition default_agent_catalog :: "string \<Rightarrow> stage_spec option" where
  "default_agent_catalog stage =
    map_option (\<lambda>tool. \<lparr>executor = ''tool'', materializer = tool, stage_tools = [tool], agent_enabled = False\<rparr>)
      (map_of [(''concepts'', ''generate_concepts''), (''creator_profiles'', ''design_creator_roster''),
         (''scripts'', ''write_script'')] stage)"

section \<open>Outputs of the runtime\<close>

definition require_dict_list :: "json \<Rightarrow> jdict list res" where
  "require_dict_list v =
    (case v of
       JList xs \<Rightarrow>
         if xs = [] then Inl RuntimeError
         else traverse (\<lambda>x. case x of JObj d \<Rightarrow> if d = fmempty then Inl RuntimeError else Inr d | _ \<Rightarrow> Inl RuntimeError) xs
     | _ \<Rightarrow> Inl RuntimeError)"

definition require_non_empty_string :: "json \<Rightarrow> string res" where
  "require_non_empty_string v =
    (case v of JStr s \<Rightarrow> if strip s = [] then Inl RuntimeError else Inr s | _ \<Rightarrow> Inl RuntimeError)"

section \<open>Concepts\<close>

primrec evidence_name :: "evidence \<Rightarrow> string" where
  "evidence_name ProvidedFact = ''provided_fact''"
| "evidence_name Performance = ''performance''"
| "evidence_name ColdTest = ''cold_test''"

definition evidence_named :: "json \<Rightarrow> evidence res" where
  "evidence_named v =
    (if v = JStr ''provided_fact'' then Inr ProvidedFact
     else if v = JStr ''performance'' then Inr Performance
     else if v = JStr ''cold_test'' then Inr ColdTest
     else Inl ValueError)"

definition concept_dict :: "concept_proposal \<Rightarrow> jdict" where
  "concept_dict c = obj [(''hook'', JStr (hook c)), (''angle'', JStr (angle c)), (''audience_problem'', JStr (audience_problem c)),
     (''product_mechanism'', JStr (product_mechanism c)), (''evidence_basis'', JStr (evidence_name (evidence_basis c))),
     (''format'', JStr (concept_format c)), (''hook_style'', JStr (hook_style c)), (''id'', JStr (concept_key c)),
     (''offer'', JStr (concept_offer c))]"

definition or_default :: "(json \<Rightarrow> string) \<Rightarrow> jdict \<Rightarrow> string \<Rightarrow> string \<Rightarrow> string" where
  "or_default ps d k other = (if py_truthy (jget d k) then str_of ps (jget d k) else other)"

text \<open>A concept of the direct runtime, whose missing fields are filled from the campaign.\<close>

definition generated_submission :: "(json \<Rightarrow> string) \<Rightarrow> campaign_input \<Rightarrow> jdict \<Rightarrow> concept_submission res" where
  "generated_submission ps camp d =
    bind_res (evidence_named (if py_truthy (jget d ''evidence_basis'') then jget d ''evidence_basis'' else JStr ''cold_test'')) (\<lambda>ev.
    check_concept \<lparr>hook = or_default ps d ''hook'' ''Untitled hook'', angle = or_default ps d ''angle'' ''Campaign angle'',
      audience_problem = or_default ps d ''audience_problem'' (''Problem described for '' @ audience camp),
      product_mechanism = or_default ps d ''product_mechanism'' (campaign_offer camp), evidence_basis = ev,
      concept_format = or_default ps d ''format'' ''talking_head'', hook_style = or_default ps d ''hook_style'' ''problem''\<rparr>)"

text \<open>\<open>default_campaign\<close> is the campaign made up when none is given; \<open>generated\<close> is what the direct runtime returns.\<close>

definition generate_concepts_tool ::
  "(json \<Rightarrow> string) \<Rightarrow> (string \<Rightarrow> string) \<Rightarrow> string \<Rightarrow> campaign_input res \<Rightarrow> string \<Rightarrow> int \<Rightarrow> campaign_input option \<Rightarrow>
   concept_submission list option \<Rightarrow> bool \<Rightarrow> json res \<Rightarrow> jdict list res" where
  "generate_concepts_tool ps sha run default_campaign offer n camp proposals agent_submission generated =
    (if camp = None \<and> proposals = None \<and> \<not> agent_submission then bind_res generated require_dict_list
     else bind_res (case camp of Some c \<Rightarrow> check_campaign c | None \<Rightarrow> default_campaign) (\<lambda>c.
       if campaign_offer c \<noteq> offer \<or> batch_size c \<noteq> n then Inl ValueError
       else if proposals = None \<and> agent_submission then Inl ValueError
       else bind_res
         (case proposals of
            None \<Rightarrow> bind_res generated (\<lambda>v. bind_res (require_dict_list v) (traverse (generated_submission ps c)))
          | Some cs \<Rightarrow> traverse check_concept cs)
         (\<lambda>subs. bind_res (materialize_concepts sha run c subs) (\<lambda>cs. Inr (map concept_dict cs)))))"

section \<open>Scripts\<close>

definition labelled_sections :: "string \<Rightarrow> (section_label \<times> string) list" where
  "labelled_sections script_text =
    concat (map (\<lambda>raw. let (label, sep, content) = colon_split raw in
        case section_named (py_lower (strip label)) of
          None \<Rightarrow> []
        | Some sec \<Rightarrow> if sep \<and> strip content \<noteq> [] then [(sec, strip content)] else [])
      (splitlines [] script_text))"

definition submission_from_text :: "(json \<Rightarrow> string) \<Rightarrow> string \<Rightarrow> jdict \<Rightarrow> script_submission res" where
  "submission_from_text ps script_text cdict =
    bind_res (traverse (\<lambda>(sec, spoken). new_beat sec spoken (max 1 (speech_seconds (length (words spoken)))))
      (labelled_sections script_text)) (\<lambda>found.
    bind_res (if found = [] then bind_res (new_beat Body script_text 10) (\<lambda>b. Inr [b]) else Inr found) (\<lambda>beats.
    check_script \<lparr>spoken_beats = beats,
      visual_beats = [''Creator performs a '' @ or_default ps cdict ''format'' ''talking_head'' @ '' scene''],
      on_screen_text = (if py_truthy (jget cdict ''hook'') then [str_of ps (jget cdict ''hook'')] else []),
      call_to_action = (case find (\<lambda>b. beat_section b = Cta) beats of None \<Rightarrow> ''See the offer'' | Some b \<Rightarrow> beat_text b),
      estimated_duration = sum_list (map beat_seconds beats)\<rparr>))"

text \<open>The limits of the narration, as configured.\<close>

record narration_limits =
  narration_target :: "int option"
  narration_min :: "int option"
  narration_max :: "int option"

definition write_script_tool ::
  "(json \<Rightarrow> string) \<Rightarrow> (string \<Rightarrow> string) \<Rightarrow> string \<Rightarrow> narration_limits \<Rightarrow> jdict \<Rightarrow> script_submission option \<Rightarrow> bool \<Rightarrow> json res \<Rightarrow>
   (string \<times> script_draft) res" where
  "write_script_tool ps sha run lim cdict draft agent_submission generated =
    (if draft = None \<and> agent_submission then Inl ValueError
     else bind_res
       (case draft of
          None \<Rightarrow> bind_res generated (\<lambda>v. bind_res (require_non_empty_string v) (\<lambda>script_text.
            bind_res (submission_from_text ps script_text cdict) (\<lambda>s. Inr (s, script_text))))
        | Some d \<Rightarrow> bind_res (check_script d) (\<lambda>s. Inr (s, [])))
       (\<lambda>(sub, script_text).
         bind_res (validate_script_submission (narration_target lim) (narration_min lim) (narration_max lim) sub) (\<lambda>_.
         let cid = text_of ps (jget cdict ''id'') in
         if cid = [] then Inl ValueError
         else bind_res (materialize_script sha run cid sub) (\<lambda>d.
           let rendered = strip (if draft \<noteq> None then render_text d else script_text) in
           if rendered = [] then Inl ValueError else Inr (rendered, d)))))"

definition script_dict :: "script_draft \<Rightarrow> jdict" where
  "script_dict d =
    obj [(''spoken_beats'', JList (map (\<lambda>b. JObj (obj [(''section'', JStr (py_lower (section_tag (beat_section b)))),
           (''text'', JStr (beat_text b)), (''seconds'', JNum (of_int (beat_seconds b)))])) (spoken_beats d))),
         (''visual_beats'', JList (map JStr (visual_beats d))), (''on_screen_text'', JList (map JStr (on_screen_text d))),
         (''call_to_action'', JStr (call_to_action d)), (''estimated_duration'', JNum (of_int (estimated_duration d))),
         (''id'', JStr (draft_key d)), (''concept_id'', JStr (draft_concept d))]"

section \<open>Casting\<close>

definition default_profile :: "string \<Rightarrow> nat \<Rightarrow> creator_profile_submission" where
  "default_profile direction i =
    (let (arch, voice, style) =
       (if i = 0 then (''Warm routine guide'', ''Warm, conversational, and practical.'', ''Calm explanation with natural reactions.'')
        else (''Direct product tester'', ''Direct, energetic, and concise.'', ''Fast demonstration with a clear point of view.''))
     in \<lparr>archetype = arch, visual_brief = ''Adult creator '' @ str_nat (i + 1) @ '', approachable '' @ direction @ '' styling.'',
          voice_brief = voice, performance_style = style, exclusions = [''medical authority'', ''guaranteed outcomes'']\<rparr>)"

definition default_roster :: "campaign_input \<Rightarrow> string list \<Rightarrow> roster_submission" where
  "default_roster camp concept_ids =
    (let direction = (case creator_direction camp of None \<Rightarrow> ''commercial UGC'' | Some d \<Rightarrow> if d = [] then ''commercial UGC'' else d)
     in \<lparr>submitted_creators = map (default_profile direction) [0, 1],
         submitted_assignments = map (\<lambda>(i, cid). \<lparr>wanted_concept = cid, creator_index = int (i mod 2)\<rparr>)
           (zip [0..<length concept_ids] concept_ids)\<rparr>)"

definition design_creator_roster_tool ::
  "campaign_input \<Rightarrow> string list \<Rightarrow> roster_submission option \<Rightarrow> bool \<Rightarrow> (creator_profile list \<times> creator_assignment list) res" where
  "design_creator_roster_tool camp concept_ids submitted agent_submission =
    bind_res (check_campaign camp) (\<lambda>c.
    if agent_submission \<and> submitted = None then Inl ValueError
    else bind_res (check_roster (case submitted of Some r \<Rightarrow> r | None \<Rightarrow> default_roster c concept_ids)) (\<lambda>r.
      materialize_creator_roster r concept_ids))"

definition profile_dict :: "creator_profile \<Rightarrow> jdict" where
  "profile_dict p = obj [(''archetype'', JStr (archetype p)), (''visual_brief'', JStr (visual_brief p)),
     (''voice_brief'', JStr (voice_brief p)), (''performance_style'', JStr (performance_style p)),
     (''exclusions'', JList (map JStr (exclusions p))), (''id'', JStr (profile_key p))]"

definition assignment_dict :: "creator_assignment \<Rightarrow> jdict" where
  "assignment_dict a = obj [(''concept_id'', JStr (assigned_concept a)), (''creator_id'', JStr (assigned_key a))]"

section \<open>The agents of the graph\<close>

text \<open>
  What the environment of a run decides: the campaign of a state, as its validation returns it, and the
  answers of the language model, by stage.
\<close>

record creative_runtime =
  stage_campaign :: "batch \<Rightarrow> campaign_input res"
  has_language_runtime :: bool
  direct_concepts :: "batch \<Rightarrow> json res"
  direct_script :: "batch \<Rightarrow> jdict \<Rightarrow> json res"
  agent_concepts :: "batch \<Rightarrow> concept_submission list res"
  agent_script :: "batch \<Rightarrow> jdict \<Rightarrow> script_submission res"
  agent_roster :: "batch \<Rightarrow> roster_submission res"

record creative_settings =
  catalog :: "string \<Rightarrow> stage_spec option"
  narration :: narration_limits

text \<open>The output of an agent is validated before the tool sees it; a script must open with a hook.\<close>

definition agent_output :: "('a \<Rightarrow> 'a res) \<Rightarrow> 'a res \<Rightarrow> 'a res" where
  "agent_output check r = bind_res r (\<lambda>x. case check x of Inl _ \<Rightarrow> Inl RuntimeError | Inr y \<Rightarrow> Inr y)"

definition check_agent_script :: "script_submission \<Rightarrow> script_submission res" where
  "check_agent_script s =
    bind_res (check_script s) (\<lambda>s'. if beat_section (hd (spoken_beats s')) = Hook then Inr s' else Inl ValueError)"

text \<open>The direct runtime, which a run may not have.\<close>

definition direct_runtime :: "creative_runtime \<Rightarrow> json res \<Rightarrow> json res" where
  "direct_runtime rt r = (if has_language_runtime rt then r else Inl RuntimeError)"

definition campaign_dict :: "campaign_input \<Rightarrow> jdict" where
  "campaign_dict c =
    (let text = (\<lambda>x. case x of None \<Rightarrow> JNull | Some s \<Rightarrow> JStr s) in
     obj [(''offer'', JStr (campaign_offer c)), (''audience'', JStr (audience c)), (''facts_restrictions'', text (facts_restrictions c)),
       (''creator_direction'', text (creator_direction c)), (''video_direction'', text (video_direction c)),
       (''platform'', JStr (case campaign_platform c of Tiktok \<Rightarrow> ''tiktok'' | Instagram \<Rightarrow> ''instagram'' | Youtube \<Rightarrow> ''youtube''
          | Facebook \<Rightarrow> ''facebook'' | Reels \<Rightarrow> ''reels'')),
       (''objective'', JStr (case objective c of Conversion \<Rightarrow> ''conversion'' | Awareness \<Rightarrow> ''awareness''
          | Consideration \<Rightarrow> ''consideration'')),
       (''batch_size'', JNum (of_int (batch_size c))),
       (''performance'', (case performance c of None \<Rightarrow> JNull | Some p \<Rightarrow> JObj (obj [(''metrics'', JList (map (\<lambda>m. JObj (obj
            [(''creative_id'', JStr (creative_id m)), (''impressions'', JNum (of_int (impressions m))),
             (''clicks'', JNum (of_int (clicks m))), (''conversions'', JNum (of_int (conversions m))),
             (''spend_usd'', JNum (spend_usd m))])) (metrics p))), (''notes'', text (performance_notes p))]))),
       (''script_model'', text (script_model c))])"

definition concepts_agent ::
  "(json \<Rightarrow> string) \<Rightarrow> (string \<Rightarrow> string) \<Rightarrow> creative_settings \<Rightarrow> creative_runtime \<Rightarrow> batch \<Rightarrow> (jdict \<times> jdict list) res" where
  "concepts_agent ps sha cfg rt s =
    bind_res (stage_campaign rt s) (\<lambda>c.
    let tool = (\<lambda>proposals agentic. generate_concepts_tool ps sha (run_id s) (Inl ValueError) (campaign_offer c) (batch_size c)
          (Some c) proposals agentic (direct_runtime rt (direct_concepts rt s)))
    in bind_res (execute_stage_tool (catalog cfg ''concepts'') ''generate_concepts'' (has_language_runtime rt)
         (tool None False)
         (bind_res (agent_output (traverse check_concept) (agent_concepts rt s)) (\<lambda>cs. tool (Some cs) True)))
       (\<lambda>cs. Inr (campaign_dict c, cs)))"

definition scripts_agent ::
  "(json \<Rightarrow> string) \<Rightarrow> (string \<Rightarrow> string) \<Rightarrow> creative_settings \<Rightarrow> creative_runtime \<Rightarrow> batch \<Rightarrow> jdict \<Rightarrow> (string \<times> jdict) res" where
  "scripts_agent ps sha cfg rt s cdict =
    bind_res (stage_campaign rt s) (\<lambda>_.
    let tool = (\<lambda>draft agentic. write_script_tool ps sha (run_id s) (narration cfg) cdict draft agentic
          (direct_runtime rt (direct_script rt s cdict)))
    in bind_res (execute_stage_tool (catalog cfg ''scripts'') ''write_script'' (has_language_runtime rt)
         (tool None False)
         (bind_res (agent_output check_agent_script (agent_script rt s cdict)) (\<lambda>d. tool (Some d) True)))
       (\<lambda>(text, d). Inr (text, script_dict d)))"

definition roster_agent ::
  "(json \<Rightarrow> string) \<Rightarrow> creative_settings \<Rightarrow> creative_runtime \<Rightarrow> batch \<Rightarrow> (jdict list \<times> jdict list) res" where
  "roster_agent ps cfg rt s =
    bind_res (stage_campaign rt s) (\<lambda>c.
    bind_res (traverse (\<lambda>d. bind_res (jreq d ''id'') (\<lambda>v. Inr (str_of ps v))) (concepts s)) (\<lambda>ids.
    let tool = design_creator_roster_tool c ids
    in bind_res (execute_stage_tool (catalog cfg ''creator_profiles'') ''design_creator_roster'' (has_language_runtime rt)
         (tool None False)
         (bind_res (agent_output check_roster (agent_roster rt s)) (\<lambda>r. tool (Some r) True)))
       (\<lambda>(profiles, assignments). Inr (map profile_dict profiles, map assignment_dict assignments))))"

definition creative_agents ::
  "(json \<Rightarrow> string) \<Rightarrow> (string \<Rightarrow> string) \<Rightarrow> creative_settings \<Rightarrow> creative_runtime \<Rightarrow> agents \<Rightarrow> agents" where
  "creative_agents ps sha cfg rt ag =
    ag\<lparr>generate_concepts := concepts_agent ps sha cfg rt, write_script := scripts_agent ps sha cfg rt,
       design_roster := roster_agent ps cfg rt\<rparr>"

text \<open>The states a run reaches when these are its creative agents, whatever the language model answers at each step.\<close>

inductive creative_run ::
  "(json \<Rightarrow> string) \<Rightarrow> (string \<Rightarrow> string) \<Rightarrow> creative_settings \<Rightarrow> run_settings \<Rightarrow> batch \<Rightarrow> bnode \<Rightarrow> batch \<Rightarrow> bool"
  for ps sha cfg rs s0 where
  start: "creative_run ps sha cfg rs s0 Concepts s0"
| step: "creative_run ps sha cfg rs s0 n s \<Longrightarrow>
    batch_step ps rs (creative_agents ps sha cfg rt ag) dec n s = (Inr (Some n', s'), vc) \<Longrightarrow>
    creative_run ps sha cfg rs s0 n' s'"

lemma creative_run_reached: "creative_run ps sha cfg rs s0 n s \<Longrightarrow> reached ps rs s0 n s"
  by (induction rule: creative_run.induct) (blast intro: reached.intros)+

section \<open>Every concept is cast\<close>

definition concept_keys :: "(json \<Rightarrow> string) \<Rightarrow> batch \<Rightarrow> string list" where
  "concept_keys ps s = map (\<lambda>c. str_of ps (jget c ''id'')) (concepts s)"

definition casts :: "(json \<Rightarrow> string) \<Rightarrow> batch \<Rightarrow> string \<Rightarrow> bool" where
  "casts ps s key =
    (\<exists>a \<in> set (creator_assignments s). jget a ''creator_id'' \<in> {JStr ''creator-0'', JStr ''creator-1''} \<and>
       find (\<lambda>a. str_of ps (jget a ''concept_id'') = key) (rev (creator_assignments s)) = Some a)"

definition cast_nodes :: "bnode set" where
  "cast_nodes = {Roster, VoiceCandidates, ReviewGate, FinalizeVoices, Production}"

definition cast_inv :: "(json \<Rightarrow> string) \<Rightarrow> bnode \<Rightarrow> batch \<Rightarrow> bool" where
  "cast_inv ps n s = (n \<in> cast_nodes \<longrightarrow> list_all (casts ps s) (concept_keys ps s))"

lemma casts_cong: "creator_assignments s' = creator_assignments s \<Longrightarrow> casts ps s' = casts ps s"
  by (simp add: casts_def fun_eq_iff)

lemma cast_keeps:
  assumes "list_all (casts ps s) (concept_keys ps s)" "creator_assignments s' = creator_assignments s"
    "concept_keys ps s' = concept_keys ps s"
  shows "list_all (casts ps s') (concept_keys ps s')"
  using assms casts_cong [OF assms(2)] by simp

lemma execute_stage_cases:
  assumes "execute_stage_tool spec name rt direct agentic = Inr x"
  obtains "direct = Inr x" | "agentic = Inr x"
  using assms by (auto simp: execute_stage_tool_def split: option.splits if_splits)

lemma design_rosterD:
  assumes "design_creator_roster_tool c ids sub ag = Inr (profiles, as)"
  obtains r0 r where "check_roster r0 = Inr r" "materialize_creator_roster r ids = Inr (profiles, as)"
  using assms by (auto simp: design_creator_roster_tool_def bind_res_Inr split: if_splits)

lemma roster_agentE:
  assumes "roster_agent ps cfg rt s = Inr (profiles, assignments)"
  obtains ps0 as where "profiles = map profile_dict ps0" "assignments = map assignment_dict as"
    "map profile_key ps0 = [''creator-0'', ''creator-1'']" "distinct (map assigned_concept as)"
    "set (map assigned_concept as) = set (concept_keys ps s)" "\<And>a. a \<in> set as \<Longrightarrow> assigned_key a \<in> {''creator-0'', ''creator-1''}"
proof -
  from assms obtain c ids ps0 as where ids: "traverse (\<lambda>d. bind_res (jreq d ''id'') (\<lambda>v. Inr (str_of ps v))) (concepts s) = Inr ids"
      and ex: "execute_stage_tool (catalog cfg ''creator_profiles'') ''design_creator_roster'' (has_language_runtime rt)
         (design_creator_roster_tool c ids None False)
         (bind_res (agent_output check_roster (agent_roster rt s)) (\<lambda>r. design_creator_roster_tool c ids (Some r) True)) = Inr (ps0, as)"
      and out: "profiles = map profile_dict ps0" "assignments = map assignment_dict as"
    by (auto simp: roster_agent_def bind_res_Inr Let_def)
  have "list_all2 (\<lambda>d key. str_of ps (jget d ''id'') = key) (concepts s) ids"
    using ids unfolding traverse_Inr_iff
    by (rule list_all2_mono) (auto simp: bind_res_Inr jreq_def jget_def split: option.splits)
  then have keys: "ids = concept_keys ps s"
    unfolding concept_keys_def by (induction rule: list_all2_induct) auto
  obtain sub agentic where "design_creator_roster_tool c ids sub agentic = Inr (ps0, as)"
    using ex by (rule execute_stage_cases) (auto simp: bind_res_Inr)
  then obtain r0 r where r: "check_roster r0 = Inr r" "materialize_creator_roster r ids = Inr (ps0, as)"
    by (rule design_rosterD)
  show thesis
    using that [OF out] materialized_roster [OF r] keys by metis
qed

lemma roster_agent_casts:
  assumes "roster_agent ps cfg rt s = Inr (profiles, assignments)"
  shows "list_all (casts ps (s\<lparr>creator_profiles := profiles, creator_assignments := assignments\<rparr>)) (concept_keys ps s)"
proof -
  from assms obtain ps0 as where out: "assignments = map assignment_dict as"
      and set: "set (map assigned_concept as) = set (concept_keys ps s)"
      and keys: "\<And>a. a \<in> set as \<Longrightarrow> assigned_key a \<in> {''creator-0'', ''creator-1''}"
    by (rule roster_agentE) blast
  have dict: "str_of ps (jget (assignment_dict a) ''concept_id'') = assigned_concept a"
      "jget (assignment_dict a) ''creator_id'' = JStr (assigned_key a)" for a
    by (simp_all add: assignment_dict_def obj_def jget_def str_of_def fmlookup_of_list)
  have "casts ps (s\<lparr>creator_profiles := profiles, creator_assignments := assignments\<rparr>) key" if "key \<in> set (concept_keys ps s)" for key
  proof -
    have "key \<in> (\<lambda>a. str_of ps (jget a ''concept_id'')) ` set assignments"
      using that unfolding set [symmetric] by (force simp: out dict)
    then obtain d where d: "d \<in> set (rev assignments)" "str_of ps (jget d ''concept_id'') = key"
      by auto
    obtain a where a: "find (\<lambda>a. str_of ps (jget a ''concept_id'') = key) (rev assignments) = Some a"
      using find_key [OF d(1), of "\<lambda>a. str_of ps (jget a ''concept_id'')" key, OF d(2)] by (elim exE)
    then have "a \<in> set assignments"
      using find_SomeD [OF a] by simp
    then obtain x where x: "x \<in> set as" "a = assignment_dict x" "a \<in> set assignments"
      unfolding out by auto
    then have "jget a ''creator_id'' \<in> {JStr ''creator-0'', JStr ''creator-1''}"
      using keys [OF x(1)] by (simp add: dict)
    then show ?thesis
      using a x(3) unfolding casts_def by (intro bexI [of _ a]) simp_all
  qed
  then show ?thesis
    by (simp add: list_all_iff)
qed

lemma review_keeps_keys:
  assumes "node_review ps vs decision s = Inr s'"
  shows "concept_keys ps s' = concept_keys ps s" "creator_assignments s' = creator_assignments s"
proof -
  show "concept_keys ps s' = concept_keys ps s"
    using review_keeps(1) [OF assms] id_not_editable(1) unfolding concept_keys_def
    by (induction rule: list_all2_induct) (auto simp: edit_of_def jget_def)
  show "creator_assignments s' = creator_assignments s"
    by (subst review_keeps(3) [OF assms]) simp
qed

lemma cast_inv_step:
  assumes "cast_inv ps n s" "Option.bind (seed_creator rs) (normalize_seed_creator ps) = None"
    and "batch_step ps rs (creative_agents ps sha cfg rt ag) dec n s = (Inr (Some n', s'), vc)"
  shows "cast_inv ps n' s'"
proof (cases n)
  case Concepts
  then show ?thesis
    using assms(3) by (auto simp: cast_inv_def cast_nodes_def then_go_Inr)
next
  case Scripts
  then show ?thesis
    using assms(3) by (auto simp: cast_inv_def cast_nodes_def then_go_Inr)
next
  case CreatorProfiles
  have agent: "design_roster (creative_agents ps sha cfg rt ag) = roster_agent ps cfg rt"
    by (simp add: creative_agents_def)
  have "node_creator_profiles (creative_agents ps sha cfg rt ag) s = Inr s'"
    using assms(3) by (simp add: CreatorProfiles then_go_Inr)
  then obtain profiles assignments where r: "roster_agent ps cfg rt s = Inr (profiles, assignments)"
      "s' = s\<lparr>creator_profiles := profiles, creator_assignments := assignments\<rparr>"
    unfolding node_creator_profiles_def agent by (cases "roster_agent ps cfg rt s") auto
  then have "concept_keys ps s' = concept_keys ps s"
    by (simp add: concept_keys_def)
  then show ?thesis
    using roster_agent_casts [OF r(1)] r(2) by (simp add: cast_inv_def)
next
  case Roster
  then have "creator_assignments s' = creator_assignments s" "concepts s' = concepts s"
    using assms(2,3) by (auto simp: then_go_Inr node_roster_def built_roster_def Let_def split: list.splits sum.splits)
  then show ?thesis
    using cast_keeps [of ps s s'] assms(1) Roster by (simp add: cast_inv_def concept_keys_def cast_nodes_def)
next
  case VoiceCandidates
  then have "creator_assignments s' = creator_assignments s" "concepts s' = concepts s"
    using assms(3) by (auto simp: then_go_Inr node_voice_candidates_def Let_def split: sum.splits if_splits)
  then show ?thesis
    using cast_keeps [of ps s s'] assms(1) VoiceCandidates by (simp add: cast_inv_def concept_keys_def cast_nodes_def)
next
  case ReviewGate
  then have "node_review ps (voice_settings.truncate rs) dec s = Inr s'"
    using assms(3) by (auto split: sum.splits)
  from review_keeps_keys [OF this] show ?thesis
    using cast_keeps [of ps s s'] assms(1) ReviewGate by (simp add: cast_inv_def cast_nodes_def)
next
  case FinalizeVoices
  then have "node_finalize_voices ps (finalize_voice (creative_agents ps sha cfg rt ag)) s = (Inr s', vc)"
    using assms(3) by (auto simp: then_go_Inr split: prod.splits)
  then have "s' = s\<lparr>roster := roster s'\<rparr>"
    by (rule finalize_voicesD(2))
  then have "creator_assignments s' = creator_assignments s" "concepts s' = concepts s"
    by (metis batch.select_convs(5) batch.surjective batch.update_convs(6), metis batch.select_convs(3) batch.surjective batch.update_convs(6))
  then show ?thesis
    using cast_keeps [of ps s s'] assms(1) FinalizeVoices by (simp add: cast_inv_def concept_keys_def cast_nodes_def)
next
  case Production
  then show ?thesis
    using assms(3) by (auto simp: cast_inv_def cast_nodes_def run_production_def split: sum.splits list.splits)
next
  case Feedback
  then show ?thesis
    using assms(3) by simp
qed

lemma creative_run_casts:
  assumes "creative_run ps sha cfg rs s0 n s" "Option.bind (seed_creator rs) (normalize_seed_creator ps) = None"
  shows "cast_inv ps n s"
  using assms
proof (induction rule: creative_run.induct)
  case start
  then show ?case
    by (simp add: cast_inv_def cast_nodes_def)
next
  case (step n s rt ag dec n' s' vc)
  then show ?case
    by (blast intro: cast_inv_step)
qed

text \<open>
  C5. Every item is cast and has its creator's voice. When a fresh run without a seed creator reaches production, however
  often the reviewer asked for new concepts, scripts, creators or voices and whatever the language model answered, and
  the fan-out succeeds for creators whose identifiers are strings, every concept becomes one item. Its creator is the
  one the casting assigned to the concept, one of the two of the plan, and its voice is the voice of just that creator
  in the plan: the reference of its model, else the reference that finalizing the voices required.
\<close>

theorem every_item_cast:
  assumes "creative_run ps sha cfg rs s0 Production s" "revision_request s0 = fmempty"
    and "Option.bind (seed_creator rs) (normalize_seed_creator ps) = None"
    and "fan_out ps uuid s = Inr its" "\<And>r. r \<in> set (roster s) \<Longrightarrow> \<exists>n. jget r ''id'' = JStr n"
  shows "length its = length (concepts s) \<and>
    (\<forall>i < length its. \<exists>k r v. creator_ref (its ! i) = Some k \<and> k \<in> {''creator-0'', ''creator-1''} \<and>
       k = assigned_creator ps s (concepts s ! i) \<and> roster_creator s k = Some r \<and>
       creator_voice_ref (its ! i) = Some v \<and> creator_voice r = JStr v \<and> v \<noteq> [])"
proof (intro conjI allI impI)
  show "length its = length (concepts s)"
    using fan_outD(1) [OF assms(4)] .
  fix i assume i: "i < length its"
  let ?c = "concepts s ! i"
  have "list_all (casts ps s) (concept_keys ps s)"
    using creative_run_casts [OF assms(1, 3)] by (simp add: cast_inv_def cast_nodes_def)
  then have "casts ps s (str_of ps (jget ?c ''id''))"
    using i fan_outD(1) [OF assms(4)] by (simp add: list_all_iff concept_keys_def)
  then obtain a where a: "a \<in> set (creator_assignments s)" "jget a ''creator_id'' \<in> {JStr ''creator-0'', JStr ''creator-1''}"
      "find (\<lambda>a. str_of ps (jget a ''concept_id'') = str_of ps (jget ?c ''id'')) (rev (creator_assignments s)) = Some a"
    by (auto simp: casts_def)
  then have k: "assigned_creator ps s ?c = text_of ps (jget a ''creator_id'')"
      "text_of ps (jget a ''creator_id'') \<in> {''creator-0'', ''creator-1''}"
    by (auto simp: assigned_creator_def text_of_def str_of_def)
  then have "text_of ps (jget a ''creator_id'') \<noteq> []"
    by auto
  from items_have_voices [OF creative_run_reached [OF assms(1)] assms(2, 4) i a(1) k(1) this assms(5)]
  show "\<exists>k r v. creator_ref (its ! i) = Some k \<and> k \<in> {''creator-0'', ''creator-1''} \<and> k = assigned_creator ps s ?c \<and>
      roster_creator s k = Some r \<and> creator_voice_ref (its ! i) = Some v \<and> creator_voice r = JStr v \<and> v \<noteq> []"
    using k by metis
qed

text \<open>A run of one concept whose creative stages run agents.\<close>

definition demo_campaign :: campaign_input where
  "demo_campaign = \<lparr>campaign_offer = ''T'', audience = ''A'', facts_restrictions = None, creator_direction = None,
     video_direction = None, campaign_platform = Tiktok, objective = Conversion, batch_size = 1, performance = None,
     script_model = None\<rparr>"

definition demo_settings :: creative_settings where
  "demo_settings = \<lparr>catalog = (\<lambda>stage. Some \<lparr>executor = ''agent'', materializer = [],
       stage_tools = [''generate_concepts'', ''write_script'', ''design_creator_roster''], agent_enabled = True\<rparr>),
     narration = \<lparr>narration_target = Some 16, narration_min = Some 1, narration_max = None\<rparr>\<rparr>"

definition demo_concept :: concept_submission where
  "demo_concept = \<lparr>hook = ''h'', angle = ''a'', audience_problem = ''p'', product_mechanism = ''m'', evidence_basis = ColdTest,
     concept_format = ''f'', hook_style = ''s''\<rparr>"

definition demo_script :: script_submission where
  "demo_script = \<lparr>spoken_beats = [\<lparr>beat_section = Hook, beat_text = ''a b'', beat_seconds = 3\<rparr>],
     visual_beats = [''v''], on_screen_text = [], call_to_action = ''c'', estimated_duration = 3\<rparr>"

definition demo_cast :: "batch \<Rightarrow> roster_submission" where
  "demo_cast s =
    (let p = \<lparr>archetype = ''a'', visual_brief = ''v'', voice_brief = ''w'', performance_style = ''p'', exclusions = []\<rparr>
     in \<lparr>submitted_creators = [p, p], submitted_assignments = map (\<lambda>c. \<lparr>wanted_concept = str_of (\<lambda>_. []) (jget c ''id''), creator_index = 1\<rparr>) (concepts s)\<rparr>)"

definition demo_runtime :: creative_runtime where
  "demo_runtime = \<lparr>stage_campaign = (\<lambda>_. Inr demo_campaign), has_language_runtime = True,
     direct_concepts = (\<lambda>_. Inl RuntimeError), direct_script = (\<lambda>_ _. Inl RuntimeError),
     agent_concepts = (\<lambda>_. Inr [demo_concept]), agent_script = (\<lambda>_ _. Inr demo_script),
     agent_roster = (\<lambda>s. Inr (demo_cast s))\<rparr>"

definition demo_digest :: "string \<Rightarrow> string" where
  "demo_digest s = [last s]"

definition demo_builder :: agents where
  "demo_builder = demo_agents\<lparr>
     build_creator := (\<lambda>i. Inr (obj [(''id'', JStr (''creator-'' @ str_nat i)), (''voice_ref'', JStr ''v'')])),
     the_voice_tools := \<lparr>derive_spec = (\<lambda>_. Inr fmempty), design_voice = (\<lambda>_ _ _. Inr fmempty), persist_candidates = (\<lambda>_ _ cs. Inr cs)\<rparr>\<rparr>"

lemma run_creative:
  assumes "run_batch ps rs (creative_agents ps sha cfg rt ag) dec k (n, s) = Some (n', s')" "creative_run ps sha cfg rs s0 n s"
  shows "creative_run ps sha cfg rs s0 n' s'"
  using assms
proof (induction k arbitrary: n s)
  case (Suc k)
  obtain r vc where b: "batch_step ps rs (creative_agents ps sha cfg rt ag) dec n s = (r, vc)"
    by fastforce
  then obtain n1 s1 where r: "r = Inr (Some n1, s1)"
      "run_batch ps rs (creative_agents ps sha cfg rt ag) dec k (n1, s1) = Some (n', s')"
    using Suc.prems(1) by (auto split: sum.splits option.splits)
  then show ?case
    using Suc.IH creative_run.step [OF Suc.prems(2), of rt ag dec n1 s1 vc] b by simp
qed simp

definition demo_roster :: "jdict list" where
  "demo_roster = [obj [(''id'', JStr ''creator-0''), (''voice_ref'', JStr ''v'')], obj [(''id'', JStr ''creator-1''), (''voice_ref'', JStr ''v'')]]"

lemma demo_stages:
  "catalog demo_settings stage = Some \<lparr>executor = ''agent'', materializer = [],
     stage_tools = [''generate_concepts'', ''write_script'', ''design_creator_roster''], agent_enabled = True\<rparr>"
  by (simp add: demo_settings_def)

lemma demo_execute:
  assumes "tool \<in> {''generate_concepts'', ''write_script'', ''design_creator_roster''}"
  shows "execute_stage_tool (catalog demo_settings stage) tool True direct agentic = agentic"
  using assms by (auto simp: execute_stage_tool_def demo_stages)

lemma demo_concepts:
  obtains camp c where "concepts_agent (\<lambda>_. []) demo_digest demo_settings demo_runtime demo_batch = Inr (camp, [c])"
    "jget c ''id'' = JStr ''concept-0''"
proof -
  let ?r = "concepts_agent (\<lambda>_. []) demo_digest demo_settings demo_runtime demo_batch"
  have "map_sum id (\<lambda>r. map (\<lambda>c. jget c ''id'') (snd r)) ?r = Inr [JStr ''concept-0'']"
    by code_simp
  then show thesis
    using that by (cases ?r) (auto simp: map_eq_Cons_conv)
qed

definition demo_text :: string where
  "demo_text = ''HOOK: a b'' @ [CHR 0x0A] @ ''CTA: c''"

lemma demo_scripts:
  assumes "run_id s = ''r''" "jget c ''id'' = JStr ''concept-0''"
  obtains d where "scripts_agent (\<lambda>_. []) demo_digest demo_settings demo_runtime s c = Inr (demo_text, d)"
proof -
  have ev: "check_agent_script demo_script = Inr demo_script" "check_script demo_script = Inr demo_script"
    "validate_script_submission (Some 16) (Some 1) None demo_script = Inr ()" "strip demo_text = demo_text" "demo_text \<noteq> []"
    by code_simp+
  have "map_sum id render_text (materialize_script demo_digest ''r'' ''concept-0'' demo_script) = Inr demo_text"
    by code_simp
  then obtain d where d: "materialize_script demo_digest ''r'' ''concept-0'' demo_script = Inr d" "render_text d = demo_text"
    by (cases "materialize_script demo_digest ''r'' ''concept-0'' demo_script") auto
  have "write_script_tool (\<lambda>_. []) demo_digest ''r'' (narration demo_settings) c (Some demo_script) True x = Inr (demo_text, d)" for x
    using assms(2) d ev by (simp add: write_script_tool_def text_of_def str_of_def demo_settings_def Let_def)
  then have "scripts_agent (\<lambda>_. []) demo_digest demo_settings demo_runtime s c = Inr (demo_text, script_dict d)"
    using assms(1) ev(1) by (simp add: scripts_agent_def demo_execute agent_output_def demo_runtime_def)
  then show thesis
    by (rule that)
qed

lemma demo_casting:
  assumes "concepts s = [c]" "jget c ''id'' = JStr ''concept-0''"
  obtains ps0 as where "roster_agent (\<lambda>_. []) demo_settings demo_runtime s = Inr (ps0, as)" "length ps0 = 2"
    "map (\<lambda>a. text_of (\<lambda>_. []) (jget a ''creator_id'')) as = [''creator-1'']"
proof -
  let ?p = "\<lparr>archetype = ''a'', visual_brief = ''v'', voice_brief = ''w'', performance_style = ''p'', exclusions = []\<rparr>"
  let ?r = "\<lparr>submitted_creators = [?p, ?p], submitted_assignments = [\<lparr>wanted_concept = ''concept-0'', creator_index = 1\<rparr>]\<rparr>"
  have cast: "demo_cast s = ?r"
    using assms by (simp add: demo_cast_def str_of_def Let_def)
  have id: "jreq c ''id'' = Inr (JStr ''concept-0'')"
    using assms(2) by (auto simp: jreq_def jget_def split: option.splits)
  have ev: "check_roster ?r = Inr ?r"
    by code_simp
  have out: "map_sum id (\<lambda>(ps0, as). (length ps0, map assigned_key as)) (design_creator_roster_tool demo_campaign [''concept-0''] (Some ?r) True) =
      Inr (2, [''creator-1''])"
    by code_simp
  obtain ps0 as where t: "design_creator_roster_tool demo_campaign [''concept-0''] (Some ?r) True = Inr (ps0, as)"
      "length ps0 = 2" "map assigned_key as = [''creator-1'']"
    using out by (cases "design_creator_roster_tool demo_campaign [''concept-0''] (Some ?r) True") auto
  have "roster_agent (\<lambda>_. []) demo_settings demo_runtime s = Inr (map profile_dict ps0, map assignment_dict as)"
    using assms(1) id t(1) cast ev
    by (simp add: roster_agent_def demo_execute agent_output_def demo_runtime_def str_of_def)
  moreover have "text_of (\<lambda>_. []) (jget (assignment_dict a) ''creator_id'') = assigned_key a" for a
    by (simp add: assignment_dict_def obj_def jget_def text_of_def str_of_def fmlookup_of_list)
  ultimately show thesis
    using t(2,3) by (intro that [of "map profile_dict ps0" "map assignment_dict as"]) (simp_all add: o_def)
qed

definition demo_fields :: "jdict \<Rightarrow> json list" where
  "demo_fields r = map (jget r) [''id'', ''voice_ref'', ''voice_model_ref'', ''image_source_uri'', ''upscaled_base'', ''image_local_path'']"

lemma demo_voices:
  obtains a b p q where "traverse (voice_pass (\<lambda>_. []) (voice_settings.truncate (demo_run False None)) (the_voice_tools demo_builder) False [])
      demo_roster = Inr [(a, p), (b, q)]"
    "demo_fields a = [JStr ''creator-0'', JStr ''v'', JNull, JNull, JNull, JNull]"
    "demo_fields b = [JStr ''creator-1'', JStr ''v'', JNull, JNull, JNull, JNull]"
proof -
  let ?r = "traverse (voice_pass (\<lambda>_. []) (voice_settings.truncate (demo_run False None)) (the_voice_tools demo_builder) False []) demo_roster"
  have "map_sum id (map (demo_fields \<circ> fst)) ?r =
      Inr [[JStr ''creator-0'', JStr ''v'', JNull, JNull, JNull, JNull], [JStr ''creator-1'', JStr ''v'', JNull, JNull, JNull, JNull]]"
    by code_simp
  then show thesis
    using that by (cases ?r) (auto simp: map_eq_Cons_conv)
qed

lemma finalize_voiced:
  "list_all (\<lambda>c. py_truthy (jget c ''voice_ref'')) cs \<Longrightarrow>
     finalize_all ps fin cs = (Inr (map (\<lambda>c. if ''voice_id'' |\<in>| fmdom c then c else fmupd ''voice_id'' (jget c ''voice_ref'') c) cs), [])"
  by (induction cs) (simp_all add: finalize_creator_def)

lemma demo_production:
  obtains s where "creative_run (\<lambda>_. []) demo_digest demo_settings (demo_run False None) demo_batch Production s"
    "map (\<lambda>c. (jget c ''id'', jget c ''script'')) (concepts s) = [(JStr ''concept-0'', JStr demo_text)]"
    "map demo_fields (roster s) = [[JStr ''creator-0'', JStr ''v'', JNull, JNull, JNull, JNull],
       [JStr ''creator-1'', JStr ''v'', JNull, JNull, JNull, JNull]]"
proof -
  let ?ps = "\<lambda>_. [] :: string" and ?rs = "demo_run False None"
  let ?ag = "creative_agents ?ps demo_digest demo_settings demo_runtime demo_builder"
  have ag: "generate_concepts ?ag = concepts_agent ?ps demo_digest demo_settings demo_runtime"
    "write_script ?ag = scripts_agent ?ps demo_digest demo_settings demo_runtime"
    "design_roster ?ag = roster_agent ?ps demo_settings demo_runtime"
    "the_voice_tools ?ag = the_voice_tools demo_builder" "build_creator ?ag = build_creator demo_builder"
    by (simp_all add: creative_agents_def)
  obtain camp c where c: "concepts_agent ?ps demo_digest demo_settings demo_runtime demo_batch = Inr (camp, [c])"
      "jget c ''id'' = JStr ''concept-0''"
    by (rule demo_concepts)
  define s1 where "s1 = demo_batch\<lparr>campaign := camp, concepts := [c]\<rparr>"
  have 1: "batch_step ?ps ?rs ?ag fmempty Concepts demo_batch = (Inr (Some Scripts, s1), [])"
    using c(1) by (simp add: node_concepts_def ag s1_def then_go_def)
  obtain d where d: "scripts_agent ?ps demo_digest demo_settings demo_runtime s1 c = Inr (demo_text, d)"
    using demo_scripts [of s1 c] c(2) by (auto simp: s1_def demo_batch_def)
  define c2 where "c2 = fmupd ''script_draft'' (JObj d) (fmupd ''script'' (JStr demo_text) c)"
  define s2 where "s2 = s1\<lparr>concepts := [c2]\<rparr>"
  have 2: "batch_step ?ps ?rs ?ag fmempty Scripts s1 = (Inr (Some CreatorProfiles, s2), [])"
    using d by (simp add: node_scripts_def ag s2_def c2_def then_go_def) (simp add: s1_def)
  have c2: "jget c2 ''id'' = JStr ''concept-0''" "jget c2 ''script'' = JStr demo_text"
    using c(2) by (simp_all add: c2_def)
  obtain pr as where cast: "roster_agent ?ps demo_settings demo_runtime s2 = Inr (pr, as)" "length pr = 2"
      "map (\<lambda>a. text_of ?ps (jget a ''creator_id'')) as = [''creator-1'']"
    using demo_casting [of s2 c2] c2(1) by (auto simp: s2_def)
  define s3 where "s3 = s2\<lparr>creator_profiles := pr, creator_assignments := as\<rparr>"
  have 3: "batch_step ?ps ?rs ?ag fmempty CreatorProfiles s2 = (Inr (Some Roster, s3), [])"
    using cast(1) by (simp add: node_creator_profiles_def ag s3_def then_go_def)
  define s4 where "s4 = s3\<lparr>roster := demo_roster\<rparr>"
  have creators: "map (build_creator demo_builder) [0..<2] = map Inr demo_roster"
    by (simp add: demo_builder_def demo_roster_def upt_rec str_nat.simps)
  have built: "built_roster (build_creator demo_builder) 2 (s2\<lparr>creator_profiles := pr, creator_assignments := as\<rparr>) = Inr s4"
    unfolding built_roster_def creators by (simp add: demo_roster_def s4_def s3_def Let_def)
  have "pr \<noteq> []"
    using cast(2) by auto
  then have 4: "batch_step ?ps ?rs ?ag fmempty Roster s3 = (Inr (Some VoiceCandidates, s4), [])"
    using cast(2) built by (simp add: node_roster_def ag demo_run_def then_go_def s3_def)
  obtain a b p q where ab: "traverse (voice_pass ?ps (voice_settings.truncate ?rs) (the_voice_tools demo_builder) False []) demo_roster = Inr [(a, p), (b, q)]"
      and f: "demo_fields a = [JStr ''creator-0'', JStr ''v'', JNull, JNull, JNull, JNull]"
        "demo_fields b = [JStr ''creator-1'', JStr ''v'', JNull, JNull, JNull, JNull]"
    by (rule demo_voices)
  define s5 where "s5 = s4\<lparr>roster := [a, b], total_cost_usd := add_cost (Some (total_cost_usd s4)) (Some (p + q))\<rparr>"
  have "revision_request s4 = fmempty" "roster s4 = demo_roster"
    by (simp_all add: s4_def s3_def s2_def s1_def demo_batch_def)
  then have 5: "batch_step ?ps ?rs ?ag fmempty VoiceCandidates s4 = (Inr (Some ReviewGate, s5), [])"
    using ab by (simp add: ag node_voice_candidates_def revision_target_def requested_ids_def jget_def list_of_def then_go_def s5_def)
  define s6 where "s6 = s5\<lparr>review_approved := True, revision_request := fmempty\<rparr>"
  have 6: "batch_step ?ps ?rs ?ag fmempty ReviewGate s5 = (Inr (Some FinalizeVoices, s6), [])"
    by (simp add: node_review_def demo_run_def voice_settings.truncate_def s6_def route_after_review_def)
  let ?voiced = "\<lambda>c. if ''voice_id'' |\<in>| fmdom c then c else fmupd ''voice_id'' (jget c ''voice_ref'') c"
  define s7 where "s7 = s6\<lparr>roster := map ?voiced [a, b]\<rparr>"
  have ids: "ident ?ps (?voiced b) = ''creator-1''" "py_truthy (jget (?voiced b) ''voice_ref'')" "py_truthy (jget a ''voice_ref'')"
      "py_truthy (jget b ''voice_ref'')"
    using f by (simp_all add: demo_fields_def ident_def text_of_def str_of_def)
  have "required_creators ?ps s6 = [''creator-1'']"
    using cast(3) by (simp add: required_creators_def s6_def s5_def s4_def s3_def)
  then have req: "required_creators ?ps s6 = [''creator-1'']" .
  have r6: "roster s6 = [a, b]"
    by (simp add: s6_def s5_def)
  have all: "finalize_all ?ps (finalize_voice ?ag) (roster s6) = (Inr (map ?voiced [a, b]), [])"
    unfolding r6 by (rule finalize_voiced) (simp add: ids(3,4))
  have voice: "has_voice ?ps (map ?voiced [a, b]) ''creator-1''"
    using ids(1,2) by (simp add: has_voice_def)
  have fin: "node_finalize_voices ?ps (finalize_voice ?ag) s6 = (Inr s7, [])"
    unfolding node_finalize_voices_def all req using voice by (simp add: s7_def)
  have 7: "batch_step ?ps ?rs ?ag fmempty FinalizeVoices s6 = (Inr (Some Production, s7), [])"
    by (simp add: fin then_go_def)
  note steps = creative_run.start [THEN creative_run.step, OF 1, THEN creative_run.step, OF 2, THEN creative_run.step, OF 3,
    THEN creative_run.step, OF 4, THEN creative_run.step, OF 5, THEN creative_run.step, OF 6, THEN creative_run.step, OF 7]
  have "concepts s7 = [c2]" "roster s7 = map ?voiced [a, b]"
    by (simp_all add: s7_def s6_def s5_def s4_def s3_def s2_def)
  moreover have "map demo_fields (map ?voiced [a, b]) = [[JStr ''creator-0'', JStr ''v'', JNull, JNull, JNull, JNull],
       [JStr ''creator-1'', JStr ''v'', JNull, JNull, JNull, JNull]]"
    using f by (simp add: demo_fields_def)
  ultimately show thesis
    using c2 by (intro that [OF steps]) simp_all
qed

theorem every_item_cast_witness:
  "\<exists>s its. creative_run (\<lambda>_. []) demo_digest demo_settings (demo_run False None) demo_batch Production s \<and>
     fan_out (\<lambda>_. []) (\<lambda>_. ''x'') s = Inr its \<and> length its = 1 \<and>
     creator_ref (its ! 0) = Some (assigned_creator (\<lambda>_. []) s (concepts s ! 0)) \<and> creator_voice_ref (its ! 0) = Some ''v''"
proof -
  obtain s where cr: "creative_run (\<lambda>_. []) demo_digest demo_settings (demo_run False None) demo_batch Production s"
      and cs: "map (\<lambda>c. (jget c ''id'', jget c ''script'')) (concepts s) = [(JStr ''concept-0'', JStr demo_text)]"
      and rs: "map demo_fields (roster s) = [[JStr ''creator-0'', JStr ''v'', JNull, JNull, JNull, JNull],
         [JStr ''creator-1'', JStr ''v'', JNull, JNull, JNull, JNull]]"
    by (rule demo_production)
  obtain c where c: "concepts s = [c]" "jget c ''script'' = JStr demo_text"
    using cs by (auto simp: map_eq_Cons_conv)
  have fields: "(\<exists>n. jget r ''id'' = JStr n) \<and> jget r ''voice_ref'' = JStr ''v'' \<and> jget r ''voice_model_ref'' = JNull \<and>
      jget r ''image_source_uri'' = JNull \<and> jget r ''upscaled_base'' = JNull \<and> jget r ''image_local_path'' = JNull"
    if "r \<in> set (roster s)" for r
  proof -
    have "demo_fields r \<in> set (map demo_fields (roster s))"
      using that by simp
    then show ?thesis
      unfolding rs by (auto simp: demo_fields_def)
  qed
  have "roster s \<noteq> []"
    using rs by auto
  then have "creator_for (\<lambda>_. []) s 0 c \<in> set (roster s)"
    using creator_for_in_roster [of "\<lambda>_. []" s 0 c] by (simp add: fan_out_roster_def)
  from fields [OF this] obtain it where "fan_out_item (\<lambda>_. []) (\<lambda>_. ''x'') s (0, c) = Inr it"
    using c(2) by (auto simp: fan_out_item_def Let_def opt_str_def)
  then have its: "fan_out (\<lambda>_. []) (\<lambda>_. ''x'') s = Inr [it]"
    by (simp add: fan_out_def c(1))
  have ids: "\<exists>n. jget r ''id'' = JStr n" if "r \<in> set (roster s)" for r
    using fields [OF that] by simp
  have h: "revision_request demo_batch = fmempty" "Option.bind (seed_creator (demo_run False None)) (normalize_seed_creator (\<lambda>_. [])) = None"
    by (simp_all add: demo_batch_def demo_run_def)
  have voices: "creator_voice r = JStr ''v''" if "roster_creator s k = Some r" for k r
    using fields [of r] that by (auto simp: roster_creator_def creator_voice_def dest!: find_SomeD)
  from every_item_cast [OF cr h its ids]
  obtain r v where it: "creator_ref ([it] ! 0) = Some (assigned_creator (\<lambda>_. []) s (concepts s ! 0))"
      "creator_voice_ref ([it] ! 0) = Some v" "creator_voice r = JStr v" "\<exists>k. roster_creator s k = Some r"
    by fastforce
  then have "v = ''v''"
    using voices by auto
  then show ?thesis
    using cr its it(1,2) by (intro exI [of _ s] exI [of _ "[it]"]) simp
qed

section \<open>Scripts of agents\<close>

lemma write_script_draftE:
  assumes "write_script_tool ps sha run lim c (Some d) agentic generated = Inr (text, dr)"
  obtains sub u where "check_script d = Inr sub"
    "validate_script_submission (narration_target lim) (narration_min lim) (narration_max lim) sub = Inr u"
    "materialize_script sha run (text_of ps (jget c ''id'')) sub = Inr dr" "text = strip (render_text dr)"
  using assms by (auto simp: write_script_tool_def bind_res_Inr Let_def split: if_splits)

lemma same_beats:
  assumes "spoken_beats d = spoken_beats s" "call_to_action d = call_to_action s"
  shows "rendered_beats d = rendered_beats s" "render_text d = render_text s" "spoken_words d = spoken_words s"
    "spoken_seconds d = spoken_seconds s"
  using assms by (simp_all add: rendered_beats_def render_text_def spoken_words_def spoken_seconds_def)

text \<open>
  C28. What is narrated of an agent's script. Whatever draft an agent submits, when the tool accepts it and its
  beats are single lines, the text that the item will carry is narrated as exactly the beats of the stored
  draft, followed by its call to action when no beat is one, without labels. Its duration is within the target,
  it has the words it must have, and it exceeds the words it may have at most by such a call to action.
\<close>

theorem script_narrated:
  assumes "write_script_tool ps sha run lim c (Some d) agentic generated = Inr (text, dr)"
    and "list_all (\<lambda>b. one_line (snd b)) (rendered_beats dr)"
  defines "closing \<equiv> (if list_ex (\<lambda>b. beat_section b = Cta) (spoken_beats dr) then 0 else length (words (call_to_action dr)))"
  shows "narration_text text = join '' '' (map snd (rendered_beats dr)) \<and>
    (case narration_target lim of None \<Rightarrow> True | Some t \<Rightarrow> spoken_seconds dr \<le> t) \<and>
    (case narration_min lim of None \<Rightarrow> True | Some n \<Rightarrow> n \<le> int (length (words (narration_text text)))) \<and>
    (case narration_max lim of None \<Rightarrow> True | Some n \<Rightarrow> int (length (words (narration_text text))) \<le> n + int closing)"
proof -
  from assms(1) obtain sub u where sub: "check_script d = Inr sub"
      "validate_script_submission (narration_target lim) (narration_min lim) (narration_max lim) sub = Inr u"
      "materialize_script sha run (text_of ps (jget c ''id'')) sub = Inr dr" "text = strip (render_text dr)"
    by (rule write_script_draftE)
  have fields: "spoken_beats dr = spoken_beats sub" "call_to_action dr = call_to_action sub"
    using sub(3) by (auto elim: materialize_scriptE)
  note same = same_beats [OF fields]
  have clean: "list_all clean_beat (rendered_beats sub)"
    using checked_rendered [OF sub(1)] assms(2) by (simp add: same(1))
  have shown: "text = render_text sub"
    using strip_render(1) [OF clean] by (simp add: sub(4) same(2))
  have "list_all (\<lambda>b. one_line (snd b)) (rendered_beats sub)"
    using assms(2) by (simp add: same(1))
  from narration_of_script [OF sub(1) this sub(2)] show ?thesis
    unfolding closing_def same fields shown by (elim conjE, intro conjI) assumption+
qed

theorem script_narrated_witness:
  "\<exists>dr. write_script_tool (\<lambda>_. []) demo_digest ''r'' (narration demo_settings) (obj [(''id'', JStr ''k'')]) (Some demo_script) True
      (Inl RuntimeError) = Inr (demo_text, dr) \<and> narration_text demo_text = join '' '' (map snd (rendered_beats dr))"
proof -
  let ?r = "write_script_tool (\<lambda>_. []) demo_digest ''r'' (narration demo_settings) (obj [(''id'', JStr ''k'')]) (Some demo_script) True
      (Inl RuntimeError)"
  have "map_sum id (\<lambda>(t, dr). (t, list_all (\<lambda>b. one_line (snd b)) (rendered_beats dr))) ?r = Inr (demo_text, True)"
    by code_simp
  then obtain dr where dr: "?r = Inr (demo_text, dr)" "list_all (\<lambda>b. one_line (snd b)) (rendered_beats dr)"
    by (cases ?r) auto
  have "narration_text demo_text = join '' '' (map snd (rendered_beats dr))"
    using script_narrated [OF dr] by (rule conjunct1)
  then show ?thesis
    using dr(1) by blast
qed

section \<open>Long briefs\<close>

lemma check_campaignE:
  assumes "check_campaign c = Inr c'"
  obtains "campaign_offer c' = strip (campaign_offer c)" "batch_size c' = batch_size c" "1 \<le> length (campaign_offer c')"
  using assms by (auto simp: check_campaign_def bind_res_Inr bounded_text_Inr)

lemma check_profile_error: "check_profile p = Inl e \<Longrightarrow> e = ValueError"
  by (auto simp: check_profile_def bind_res_error bounded_text_Inl)

lemma check_concept_error: "check_concept c = Inl e \<Longrightarrow> e = ValueError"
  by (auto simp: check_concept_def bind_res_error bounded_text_Inl)

lemma long_visual_brief:
  assumes "2000 < length d"
  shows "check_profile (default_profile d 0) = Inl ValueError"
proof -
  let ?v = "visual_brief (default_profile d 0)"
  have "hd ?v = CHR ''A''" "last ?v = CHR ''.''" "?v \<noteq> []" "2000 < length ?v"
    using assms by (simp_all add: default_profile_def)
  moreover from this have "strip ?v = ?v"
    by (simp add: strip_fixed_iff py_space_def)
  ultimately have "bounded_text 1 2000 ?v = Inl ValueError"
    by (simp add: bounded_text_Inl)
  then have "check_profile (default_profile d 0) \<noteq> Inr p" for p
    by (simp add: check_profile_def bind_res_Inr)
  then show ?thesis
    using check_profile_error by (cases "check_profile (default_profile d 0)") auto
qed

lemma generated_error: "generated_submission ps c d = Inl e \<Longrightarrow> e = ValueError"
  by (auto simp: generated_submission_def bind_res_error evidence_named_def split: if_splits dest: check_concept_error)

lemma long_mechanism:
  assumes "strip (campaign_offer c) = campaign_offer c" "1000 < length (campaign_offer c)" "\<not> py_truthy (jget d ''product_mechanism'')"
  shows "generated_submission ps c d = Inl ValueError"
proof -
  have "bounded_text 1 1000 (or_default ps d ''product_mechanism'' (campaign_offer c)) = Inl ValueError"
    using assms by (simp add: or_default_def bounded_text_Inl)
  then have "generated_submission ps c d \<noteq> Inr x" for x
    by (simp add: generated_submission_def check_concept_def bind_res_Inr)
  then show ?thesis
    using generated_error [of ps c d] by (cases "generated_submission ps c d") auto
qed

lemma long_mechanisms:
  assumes "strip (campaign_offer c) = campaign_offer c" "1000 < length (campaign_offer c)"
    and "list_ex (\<lambda>d. \<not> py_truthy (jget d ''product_mechanism'')) ds"
  shows "traverse (generated_submission ps c) ds = Inl ValueError"
  using assms(3)
proof (induction ds)
  case (Cons d ds)
  show ?case
  proof (cases "generated_submission ps c d")
    case (Inl e)
    then show ?thesis
      using generated_error by simp
  next
    case (Inr x)
    then have "py_truthy (jget d ''product_mechanism'')"
      using long_mechanism [OF assms(1,2), of d ps] by auto
    then show ?thesis
      using Cons Inr by simp
  qed
qed simp

text \<open>
  C30. Campaigns that are accepted and then fail. In the mode in which the creative stages run their tools, a
  campaign that passes its validation makes the casting raise whenever its creator direction is longer than 2000
  characters, and makes the concepts raise whenever its offer is longer than 1000 characters and the runtime returns
  dictionaries that are not empty but leaves the mechanism of some concept out, although both texts may have up to 8000.
\<close>

theorem long_briefs_rejected:
  assumes "check_campaign c = Inr c'"
  shows "(\<forall>d. creator_direction c' = Some d \<and> 2000 < length d \<longrightarrow> design_creator_roster_tool c ids None False = Inl ValueError) \<and>
    (1000 < length (campaign_offer c') \<and> list_all (\<lambda>d. d \<noteq> fmempty) ds \<and> list_ex (\<lambda>d. \<not> py_truthy (jget d ''product_mechanism'')) ds \<longrightarrow>
       generate_concepts_tool ps sha run dc (campaign_offer c') (batch_size c') (Some c) None False (Inr (JList (map JObj ds))) =
         Inl ValueError)"
proof (intro conjI allI impI)
  fix d assume d: "creator_direction c' = Some d \<and> 2000 < length d"
  then have "default_roster c' ids = \<lparr>submitted_creators = map (default_profile d) [0, 1],
      submitted_assignments = submitted_assignments (default_roster c' ids)\<rparr>"
    by (auto simp: default_roster_def)
  then have "submitted_creators (default_roster c' ids) = map (default_profile d) [0, 1]"
    by (metis roster_submission.select_convs(1))
  then have "check_roster (default_roster c' ids) = Inl ValueError"
    using long_visual_brief d by (simp add: check_roster_def)
  then show "design_creator_roster_tool c ids None False = Inl ValueError"
    using assms by (simp add: design_creator_roster_tool_def)
next
  assume h: "1000 < length (campaign_offer c') \<and> list_all (\<lambda>d. d \<noteq> fmempty) ds \<and> list_ex (\<lambda>d. \<not> py_truthy (jget d ''product_mechanism'')) ds"
  have "strip (campaign_offer c') = campaign_offer c'"
    using assms by (auto elim!: check_campaignE)
  then have "traverse (generated_submission ps c') ds = Inl ValueError"
    using h long_mechanisms by simp
  moreover have "require_dict_list (JList (map JObj ds)) = Inr ds"
  proof -
    have "ds \<noteq> []"
      using h by auto
    then show ?thesis
      using h by (auto simp: require_dict_list_def traverse_Inr_iff list.rel_map list_all_iff intro: list.rel_refl_strong)
  qed
  ultimately show "generate_concepts_tool ps sha run dc (campaign_offer c') (batch_size c') (Some c) None False (Inr (JList (map JObj ds))) =
      Inl ValueError"
    using assms by (simp add: generate_concepts_tool_def)
qed

definition long_campaign :: campaign_input where
  "long_campaign = demo_campaign\<lparr>campaign_offer := replicate 1001 CHR ''x'', creator_direction := Some (replicate 2001 CHR ''x'')\<rparr>"

theorem long_briefs_rejected_witness:
  "check_campaign long_campaign = Inr long_campaign \<and> design_creator_roster_tool long_campaign [''a''] None False = Inl ValueError \<and>
   generate_concepts_tool (\<lambda>_. []) demo_digest ''r'' (Inl ValueError) (replicate 1001 CHR ''x'') 1 (Some long_campaign) None False
     (Inr (JList [JObj (obj [(''hook'', JStr ''h'')])])) = Inl ValueError"
proof -
  have "strip (replicate n CHR ''x'') = replicate n CHR ''x''" for n
    by (cases n) (simp_all add: strip_fixed_iff py_space_def)
  then have texts: "bounded_text 0 8000 (replicate 2001 CHR ''x'') = Inr (replicate 2001 CHR ''x'')"
      "bounded_text 1 8000 (replicate 1001 CHR ''x'') = Inr (replicate 1001 CHR ''x'')" "bounded_text 1 8000 ''A'' = Inr ''A''"
    by (simp_all add: bounded_text_def strip_def py_space_def)
  then have ok: "check_campaign long_campaign = Inr long_campaign"
    by (simp add: check_campaign_def long_campaign_def demo_campaign_def opt_text_def ensure_def)
  have "creator_direction long_campaign = Some (replicate 2001 CHR ''x'')" "campaign_offer long_campaign = replicate 1001 CHR ''x''"
    "batch_size long_campaign = 1" "\<not> py_truthy (jget (obj [(''hook'', JStr ''h'')]) ''product_mechanism'')"
    "obj [(''hook'', JStr ''h'')] \<noteq> fmempty"
    by (simp_all add: long_campaign_def demo_campaign_def jget_def obj_def fmlookup_of_list)
  then show ?thesis
    using ok long_briefs_rejected [OF ok, of "[''a'']" "[obj [(''hook'', JStr ''h'')]]" "\<lambda>_. []" demo_digest "''r''" "Inl ValueError"] by simp
qed

end
