(* ===== verification/Topology.thy ===== *)
theory Topology
  imports Creators
begin

text \<open>
  The table of the nodes of the pipeline and the views that the progress and the web server derive from it
  (\<open>graph/topology.py\<close>): public stages, labels, the nodes that track or update an item, and the checks that
  compare the table with what the graph builder registers (\<open>graph/builder.py\<close>).

  A dictionary built by a comprehension is the list of its entries; \<open>dget\<close> reads the last one of a key.
\<close>

definition dget :: "('k \<times> 'v) list \<Rightarrow> 'k \<Rightarrow> 'v option" where
  "dget kvs = map_of (rev kvs)"

lemma dget_append: "dget (xs @ ys) k = (case dget ys k of None \<Rightarrow> dget xs k | Some v \<Rightarrow> Some v)"
  by (simp add: dget_def map_add_def split: option.split)

lemma dget_absent: "k \<notin> fst ` set kvs \<Longrightarrow> dget kvs k = None"
  by (simp add: dget_def map_of_eq_None_iff)

lemma dget_distinct: "distinct (map fst kvs) \<Longrightarrow> (k, v) \<in> set kvs \<Longrightarrow> dget kvs k = Some v"
  unfolding dget_def by (rule map_of_is_SomeI) (simp_all add: rev_map [symmetric])

section \<open>The table\<close>

record stage_def =
  stage_id :: string
  stage_label :: string
  stage_parent :: "string option"

definition stages :: "stage_def list" where
  "stages = map (\<lambda>(i, l, p). \<lparr>stage_id = i, stage_label = l, stage_parent = p\<rparr>)
    [(''setup'', ''Configura'' @ [CHR 0xE7, CHR 0xE3] @ ''o'', None),
     (''creative_plan'', ''Plano criativo'', None),
     (''concepts'', ''Criando conceitos'', Some ''creative_plan''),
     (''scripts'', ''Escrevendo roteiros'', Some ''creative_plan''),
     (''creator_profiles'', ''Definindo creators'', Some ''creative_plan''),
     (''creator_previews'', ''Gerando previews'', Some ''creative_plan''),
     (''review'', ''Revis'' @ [CHR 0xE3] @ ''o'', None),
     (''production'', ''Produ'' @ [CHR 0xE7, CHR 0xE3] @ ''o e QC'', None),
     (''talking_head'', ''Talking-head'', Some ''production''),
     (''product_demo'', ''Product demo'', Some ''production''),
     (''qc'', ''Controle de qualidade'', Some ''production''),
     (''assembly'', ''Montagem'', None)]"

definition stage_ids :: "string list" where
  "stage_ids = map stage_id stages"

record node_spec =
  spec_name :: string
  spec_graph :: string
  spec_stage :: "string option"
  spec_label :: "string option"
  tracks_item :: bool
  updates_item :: bool

definition node_row :: "string \<Rightarrow> string \<Rightarrow> string option \<Rightarrow> string option \<Rightarrow> bool \<Rightarrow> bool \<Rightarrow> node_spec" where
  "node_row n g s l t u = \<lparr>spec_name = n, spec_graph = g, spec_stage = s, spec_label = l, tracks_item = t, updates_item = u\<rparr>"

definition node_specs :: "node_spec list" where
  "node_specs =
    [node_row ''concepts'' ''batch'' (Some ''concepts'') (Some ''Conceitos'') False False,
     node_row ''scripts'' ''batch'' (Some ''scripts'') (Some ''Scripts'') False False,
     node_row ''creator_profiles'' ''batch'' (Some ''creator_profiles'') (Some ''Perfis de creators'') False False,
     node_row ''roster'' ''batch'' (Some ''creator_previews'') (Some ''Previews de creators'') False False,
     node_row ''voice_candidates'' ''batch'' None None False False,
     node_row ''review'' ''batch'' (Some ''review'') (Some (''Revis'' @ [CHR 0xE3] @ ''o do plano criativo'')) False False,
     node_row ''finalize_voices'' ''batch'' None None False False,
     node_row ''process_item'' ''batch'' (Some ''production'') (Some ''Item'') True True,
     node_row ''feedback'' ''batch'' None (Some ''Feedback'') False False,
     node_row ''voiceover'' ''item'' (Some ''assembly'') None True False,
     node_row ''ltx'' ''item'' (Some ''talking_head'') (Some ''Talking-Head (LTX)'') True True,
     node_row ''kling'' ''item'' (Some ''talking_head'') (Some ''Talking-Head (Kling)'') True True,
     node_row ''seedance'' ''item'' (Some ''talking_head'') (Some ''Talking-Head (Seedance)'') True True,
     node_row ''product_demo'' ''item'' (Some ''product_demo'') (Some ''Product Demo'') True True,
     node_row ''qc'' ''item'' (Some ''qc'') (Some ''QC'') True True,
     node_row ''assembly'' ''item'' (Some ''assembly'') (Some ''Montagem'') True True,
     node_row ''upscale'' ''item'' (Some ''assembly'') (Some (''Upscale (v'' @ [CHR 0xED] @ ''deo)'')) True True,
     node_row ''drop'' ''item'' (Some ''qc'') (Some ''Descartado'') True True,
     node_row ''script'' ''legacy'' None (Some ''Script'') False True]"

definition default_tiers :: "string list" where
  "default_tiers = [''ltx'', ''kling'', ''seedance'']"

definition terminal_nodes :: "(string \<times> string) list" where
  "terminal_nodes =
    [(''concepts'', ''concepts''), (''scripts'', ''scripts''), (''creator_profiles'', ''creator_profiles''),
     (''creator_previews'', ''roster''), (''review'', ''review''), (''production'', ''process_item''),
     (''product_demo'', ''product_demo''), (''qc'', ''qc''), (''assembly'', ''upscale'')]"

section \<open>Views of the table\<close>

record topology =
  specs :: "node_spec list"
  pipeline_labels :: "(string \<times> string) list"
  node_stages :: "(string \<times> string) list"
  item_progress_nodes :: "string list"
  item_update_nodes :: "string list"
  terminal_node :: "(string \<times> string) list"
  talking_head_nodes :: "string list"

definition field_entries :: "(node_spec \<Rightarrow> string option) \<Rightarrow> node_spec list \<Rightarrow> (string \<times> string) list" where
  "field_entries f sps = concat (map (\<lambda>sp. case f sp of None \<Rightarrow> [] | Some v \<Rightarrow> [(spec_name sp, v)]) sps)"

definition make_topology :: "node_spec list \<Rightarrow> string list \<Rightarrow> topology" where
  "make_topology sps tiers =
    \<lparr>specs = sps, pipeline_labels = field_entries spec_label sps, node_stages = field_entries spec_stage sps,
      item_progress_nodes = map spec_name (filter tracks_item sps), item_update_nodes = map spec_name (filter updates_item sps),
      terminal_node = terminal_nodes, talking_head_nodes = tiers\<rparr>"

definition build_specs :: "node_spec list \<Rightarrow> (string \<times> node_spec) list res" where
  "build_specs sps =
    (if distinct (map spec_name sps) then Inr (map (\<lambda>sp. (spec_name sp, sp)) sps) else Inl RuntimeError)"

definition default_topology :: topology where
  "default_topology = make_topology node_specs default_tiers"

definition fixed_specs :: "node_spec list" where
  "fixed_specs = filter (\<lambda>sp. spec_name sp \<notin> set default_tiers) node_specs"

definition tier_spec :: "string \<Rightarrow> node_spec" where
  "tier_spec tier =
    (case dget (map (\<lambda>sp. (spec_name sp, sp)) node_specs) tier of
       Some sp \<Rightarrow> sp
     | None \<Rightarrow> node_row tier ''item'' (Some ''talking_head'') (Some (''Talking-Head ('' @ tier @ '')'')) True True)"

definition topology_for_tiers :: "string list \<Rightarrow> topology res" where
  "topology_for_tiers tiers =
    (if \<not> distinct tiers then Inl RuntimeError
     else if list_ex (\<lambda>t. t \<in> set (map spec_name fixed_specs)) tiers then Inl RuntimeError
     else Inr (make_topology (fixed_specs @ map tier_spec tiers) tiers))"

definition stage_of :: "topology \<Rightarrow> string \<Rightarrow> string res" where
  "stage_of t node = (case dget (node_stages t) node of None \<Rightarrow> Inl KeyError | Some s \<Rightarrow> Inr s)"

section \<open>Consistency\<close>

datatype problem =
    DuplicateNode string
  | UnknownGraph string
  | UnknownStage string
  | EmptyLabel string
  | LegacyStage string
  | TerminalStage string
  | TerminalElsewhere string
  | LeafWithoutTerminal string
  | TierElsewhere string

definition spec_problems :: "string list \<Rightarrow> node_spec \<Rightarrow> problem list" where
  "spec_problems seen sp =
    (let n = spec_name sp in
     (if n \<in> set seen then [DuplicateNode n] else []) @
     (if spec_graph sp \<notin> {''batch'', ''item'', ''legacy''} then [UnknownGraph n] else []) @
     (case spec_stage sp of None \<Rightarrow> [] | Some s \<Rightarrow> if s \<notin> set stage_ids then [UnknownStage n] else []) @
     (case spec_label sp of None \<Rightarrow> [] | Some l \<Rightarrow> if strip l = [] then [EmptyLabel n] else []) @
     (if (tracks_item sp \<or> updates_item sp) \<and> spec_graph sp = ''legacy'' \<and> spec_stage sp \<noteq> None then [LegacyStage n] else []))"

fun specs_problems :: "string list \<Rightarrow> node_spec list \<Rightarrow> problem list" where
  "specs_problems seen [] = []"
| "specs_problems seen (sp # sps) = spec_problems seen sp @ specs_problems (spec_name sp # seen) sps"

definition validate_topology :: "topology \<Rightarrow> problem list" where
  "validate_topology t =
    specs_problems [] (specs t) @
    concat (map (\<lambda>(sid, node).
      (if sid \<notin> set stage_ids then [TerminalStage sid] else []) @
      (if dget (node_stages t) node \<noteq> Some sid then [TerminalElsewhere sid] else [])) (terminal_node t)) @
    concat (map (\<lambda>st.
      if \<not> list_ex (\<lambda>other. stage_parent other = Some (stage_id st)) stages \<and>
         stage_id st \<notin> set (map fst (terminal_node t) @ [''talking_head'', ''setup''])
      then [LeafWithoutTerminal (stage_id st)] else []) stages) @
    concat (map (\<lambda>tier. if dget (node_stages t) tier \<noteq> Some ''talking_head'' then [TierElsewhere tier] else []) (talking_head_nodes t))"

text \<open>The nodes that the builder registered, checked against the table; \<open>None\<close> is a graph that is not checked.\<close>

definition validate_registrations :: "topology \<Rightarrow> string list option \<Rightarrow> string list option \<Rightarrow> unit res" where
  "validate_registrations t batch item =
    (let registered = (case batch of None \<Rightarrow> [] | Some ns \<Rightarrow> ns);
         item_registered = (case item of None \<Rightarrow> [] | Some ns \<Rightarrow> ns);
         unknown = filter (\<lambda>n. n \<notin> set (map spec_name (specs t))) (registered @ item_registered);
         missing_batch = (if batch = None then [] else
           map spec_name (filter (\<lambda>sp. spec_graph sp = ''batch'' \<and> spec_name sp \<notin> set registered) (specs t)));
         missing_item = (if item = None then [] else
           map spec_name (filter (\<lambda>sp. spec_graph sp = ''item'' \<and> spec_name sp \<notin> set item_registered) (specs t)))
     in if unknown = [] \<and> missing_batch = [] \<and> missing_item = [] then Inr () else Inl RuntimeError)"

section \<open>What the builder registers\<close>

definition batch_graph_nodes :: "string list" where
  "batch_graph_nodes = [''concepts'', ''scripts'', ''creator_profiles'', ''roster'', ''voice_candidates'', ''review'',
     ''finalize_voices'', ''process_item'', ''feedback'']"

definition item_graph_nodes :: "string list \<Rightarrow> string list" where
  "item_graph_nodes tiers = [''voiceover''] @ tiers @ [''product_demo'', ''qc'', ''assembly'', ''upscale'', ''drop'']"

definition public_nodes :: "string list \<Rightarrow> string list" where
  "public_nodes = filter (\<lambda>n. \<not> starts_with ''__'' n)"

definition validate_against_topology :: "string list option \<Rightarrow> string list option \<Rightarrow> string list \<Rightarrow> unit res" where
  "validate_against_topology batch item tiers =
    (case topology_for_tiers (if tiers = [] then default_tiers else tiers) of
       Inl e \<Rightarrow> Inl e
     | Inr t \<Rightarrow> validate_registrations t batch item)"

text \<open>The checks of \<open>build_item_graph\<close> and of \<open>build_graph\<close>, on the nodes each has added.\<close>

definition check_built_graph :: "string list \<Rightarrow> unit res" where
  "check_built_graph tiers =
    (case validate_against_topology None (Some (public_nodes (item_graph_nodes tiers))) tiers of
       Inl e \<Rightarrow> Inl e
     | Inr _ \<Rightarrow> validate_against_topology (Some (public_nodes batch_graph_nodes)) (Some (public_nodes (item_graph_nodes tiers))) tiers)"

section \<open>Every configuration is consistent\<close>

lemma base_names: "map spec_name node_specs = [''concepts'', ''scripts'', ''creator_profiles'', ''roster'', ''voice_candidates'',
    ''review'', ''finalize_voices'', ''process_item'', ''feedback'', ''voiceover'', ''ltx'', ''kling'', ''seedance'', ''product_demo'',
    ''qc'', ''assembly'', ''upscale'', ''drop'', ''script'']"
  by (simp add: node_specs_def node_row_def)

lemma fixed_names: "map spec_name fixed_specs = [''concepts'', ''scripts'', ''creator_profiles'', ''roster'', ''voice_candidates'',
    ''review'', ''finalize_voices'', ''process_item'', ''feedback'', ''voiceover'', ''product_demo'', ''qc'', ''assembly'',
    ''upscale'', ''drop'', ''script'']"
  by (simp add: fixed_specs_def node_specs_def node_row_def default_tiers_def)

lemma base_split: "set (map spec_name node_specs) = set (map spec_name fixed_specs) \<union> set default_tiers"
proof -
  have "list_all (\<lambda>d. d \<in> set (map spec_name node_specs)) default_tiers"
    by code_simp
  then have "set default_tiers \<subseteq> set (map spec_name node_specs)"
    unfolding list_all_iff by blast
  moreover have "set (map spec_name fixed_specs) = set (map spec_name node_specs) - set default_tiers"
    unfolding fixed_specs_def by force
  ultimately show ?thesis
    by blast
qed

definition free_tier :: "string \<Rightarrow> bool" where
  "free_tier t = (t \<notin> set (map spec_name fixed_specs))"

lemma label_not_blank: "strip (CHR ''T'' # s) \<noteq> []"
proof
  assume "strip (CHR ''T'' # s) = []"
  then have "dropWhile py_space (rev s @ [CHR ''T'']) = []"
    by (simp add: strip_def py_space_def)
  then show False
    by (simp add: dropWhile_eq_Nil_conv py_space_def)
qed

lemma tier_spec_fields:
  assumes "free_tier t"
  shows "spec_name (tier_spec t) = t" "spec_graph (tier_spec t) = ''item''" "spec_stage (tier_spec t) = Some ''talking_head''"
    "\<exists>s. spec_label (tier_spec t) = Some (CHR ''T'' # s)"
proof -
  have "spec_name (tier_spec t) = t \<and> spec_graph (tier_spec t) = ''item'' \<and> spec_stage (tier_spec t) = Some ''talking_head'' \<and>
      (\<exists>s. spec_label (tier_spec t) = Some (CHR ''T'' # s))"
  proof (cases "t \<in> set default_tiers")
    case True
    then consider "t = ''ltx''" | "t = ''kling''" | "t = ''seedance''"
      by (auto simp: default_tiers_def)
    then show ?thesis
      by cases (simp_all add: tier_spec_def dget_def node_specs_def node_row_def)
  next
    case False
    then have "t \<notin> set (map spec_name node_specs)"
      using assms base_split by (auto simp: free_tier_def)
    then have "dget (map (\<lambda>sp. (spec_name sp, sp)) node_specs) t = None"
      by (intro dget_absent) force
    then show ?thesis
      by (simp add: tier_spec_def node_row_def)
  qed
  then show "spec_name (tier_spec t) = t" "spec_graph (tier_spec t) = ''item''" "spec_stage (tier_spec t) = Some ''talking_head''"
    "\<exists>s. spec_label (tier_spec t) = Some (CHR ''T'' # s)"
    by blast+
qed

lemma specs_problems_append:
  "specs_problems seen (xs @ ys) = specs_problems seen xs @ specs_problems (rev (map spec_name xs) @ seen) ys"
  by (induction xs arbitrary: seen) simp_all

lemma tier_problems:
  assumes "free_tier t" "t \<notin> set seen"
  shows "spec_problems seen (tier_spec t) = []"
proof -
  obtain s where s: "spec_label (tier_spec t) = Some (CHR ''T'' # s)"
    using tier_spec_fields(4) [OF assms(1)] ..
  have "''talking_head'' \<in> set stage_ids"
    by (simp add: stage_ids_def stages_def)
  then show ?thesis
    using tier_spec_fields(1-3) [OF assms(1)] assms(2) label_not_blank [of s]
    by (simp add: spec_problems_def Let_def s)
qed

lemma tiers_problems:
  "list_all free_tier ts \<Longrightarrow> distinct ts \<Longrightarrow> set ts \<inter> set seen = {} \<Longrightarrow> specs_problems seen (map tier_spec ts) = []"
  by (induction ts arbitrary: seen) (auto simp: tier_problems tier_spec_fields(1))

lemma fixed_problems: "specs_problems [] fixed_specs = []"
  by code_simp

lemma field_entries_append [simp]: "field_entries f (xs @ ys) = field_entries f xs @ field_entries f ys"
  by (simp add: field_entries_def)

lemma tier_entries:
  "list_all free_tier ts \<Longrightarrow> field_entries spec_stage (map tier_spec ts) = map (\<lambda>t. (t, ''talking_head'')) ts"
  by (induction ts) (simp_all add: field_entries_def tier_spec_fields)

lemma topology_for_tiersE:
  assumes "topology_for_tiers tiers = Inr t"
  obtains "t = make_topology (fixed_specs @ map tier_spec tiers) tiers" "distinct tiers" "list_all free_tier tiers"
  using assms by (auto simp: topology_for_tiers_def free_tier_def list_all_iff list_ex_iff split: if_splits)

lemma fixed_terminals:
  "list_all (\<lambda>(sid, node). sid \<in> set stage_ids \<and> node \<in> set (map spec_name fixed_specs) \<and>
     dget (field_entries spec_stage fixed_specs) node = Some sid) terminal_nodes"
  by code_simp

lemma leaves_covered:
  "list_all (\<lambda>st. list_ex (\<lambda>other. stage_parent other = Some (stage_id st)) stages \<or>
     stage_id st \<in> set (map fst terminal_nodes @ [''talking_head'', ''setup''])) stages"
  by code_simp

lemma concat_empty: "list_all (\<lambda>x. f x = []) xs \<Longrightarrow> concat (map f xs) = []"
  by (induction xs) simp_all

lemma topology_no_problems:
  assumes "topology_for_tiers tiers = Inr t"
  shows "validate_topology t = []"
proof -
  from assms have t: "t = make_topology (fixed_specs @ map tier_spec tiers) tiers" and ts: "distinct tiers" "list_all free_tier tiers"
    by (auto elim: topology_for_tiersE)
  have disjoint: "set tiers \<inter> set (map spec_name fixed_specs) = {}"
    using ts(2) by (auto simp: free_tier_def list_all_iff)
  have stage: "node_stages t = field_entries spec_stage fixed_specs @ map (\<lambda>t. (t, ''talking_head'')) tiers"
    using tier_entries [OF ts(2)] by (simp add: t make_topology_def)
  have specs: "specs_problems [] (specs t) = []"
    using tiers_problems [OF ts(2,1), of "rev (map spec_name fixed_specs)"] disjoint fixed_problems
    by (simp add: t make_topology_def specs_problems_append)
  have "dget (node_stages t) node = Some sid \<and> sid \<in> set stage_ids" if "(sid, node) \<in> set terminal_nodes" for sid node
  proof -
    have f: "sid \<in> set stage_ids" "node \<in> set (map spec_name fixed_specs)" "dget (field_entries spec_stage fixed_specs) node = Some sid"
      using fixed_terminals that by (auto simp: list_all_iff)
    have "node \<notin> set tiers"
      using f(2) disjoint by blast
    then have "dget (map (\<lambda>t. (t, ''talking_head'')) tiers) node = None"
      by (intro dget_absent) auto
    then show ?thesis
      using f(1,3) by (simp add: stage dget_append)
  qed
  then have terminals: "list_all (\<lambda>(sid, node). sid \<in> set stage_ids \<and> dget (node_stages t) node = Some sid) terminal_nodes"
    by (auto simp: list_all_iff)
  have tier: "dget (node_stages t) x = Some ''talking_head''" if "x \<in> set tiers" for x
  proof -
    have "dget (map (\<lambda>t. (t, ''talking_head'')) tiers) x = Some ''talking_head''"
      using that ts(1) by (intro dget_distinct) (auto simp: o_def)
    then show ?thesis
      by (simp add: stage dget_append)
  qed
  have parts: "terminal_node t = terminal_nodes" "talking_head_nodes t = tiers"
    by (simp_all add: t make_topology_def)
  have c1: "concat (map (\<lambda>(sid, node).
      (if sid \<notin> set stage_ids then [TerminalStage sid] else []) @
      (if dget (node_stages t) node \<noteq> Some sid then [TerminalElsewhere sid] else [])) (terminal_node t)) = []"
    using terminals unfolding parts by (intro concat_empty) (auto simp: list_all_iff)
  have c2: "concat (map (\<lambda>st.
      if \<not> list_ex (\<lambda>other. stage_parent other = Some (stage_id st)) stages \<and>
         stage_id st \<notin> set (map fst (terminal_node t) @ [''talking_head'', ''setup''])
      then [LeafWithoutTerminal (stage_id st)] else []) stages) = []"
    using leaves_covered unfolding parts by (intro concat_empty) (auto simp: list_all_iff)
  have c3: "concat (map (\<lambda>tier. if dget (node_stages t) tier \<noteq> Some ''talking_head'' then [TierElsewhere tier] else [])
      (talking_head_nodes t)) = []"
    unfolding parts by (intro concat_empty) (simp add: list_all_iff tier)
  show ?thesis
    unfolding validate_topology_def by (simp only: specs c1 c2 c3 append_Nil)
qed

lemma fixed_graphs:
  "map spec_name (filter (\<lambda>sp. spec_graph sp = ''batch'') fixed_specs) = batch_graph_nodes"
  "map spec_name (filter (\<lambda>sp. spec_graph sp = ''item'') fixed_specs) = item_graph_nodes []"
  "map spec_name (filter (\<lambda>sp. spec_graph sp \<notin> {''batch'', ''item''}) fixed_specs) = [''script'']"
  by code_simp+

lemma configured_graphs:
  assumes "topology_for_tiers tiers = Inr t"
  shows "map spec_name (filter (\<lambda>sp. spec_graph sp = ''batch'') (specs t)) = batch_graph_nodes"
    "set (map spec_name (filter (\<lambda>sp. spec_graph sp = ''item'') (specs t))) = set (item_graph_nodes tiers)"
    "set (map spec_name (specs t)) = set batch_graph_nodes \<union> set (item_graph_nodes tiers) \<union> {''script''}"
proof -
  from assms have t: "specs t = fixed_specs @ map tier_spec tiers" and free: "list_all free_tier tiers"
    by (auto elim: topology_for_tiersE simp: make_topology_def)
  have tier: "spec_graph (tier_spec x) = ''item''" "spec_name (tier_spec x) = x" if "x \<in> set tiers" for x
    using free that by (auto simp: list_all_iff tier_spec_fields)
  then have none: "filter (\<lambda>sp. spec_graph sp = ''batch'') (map tier_spec tiers) = []"
    by (auto simp: filter_empty_conv)
  show b: "map spec_name (filter (\<lambda>sp. spec_graph sp = ''batch'') (specs t)) = batch_graph_nodes"
    by (simp add: t none fixed_graphs(1))
  have "filter (\<lambda>sp. spec_graph sp = ''item'') (map tier_spec tiers) = map tier_spec tiers"
    using tier by (auto intro!: filter_True)
  moreover have "map spec_name (map tier_spec tiers) = tiers"
    using tier by (simp add: map_idI)
  ultimately have i: "map spec_name (filter (\<lambda>sp. spec_graph sp = ''item'') (specs t)) = item_graph_nodes [] @ tiers"
    by (simp only: t filter_append map_append fixed_graphs(2))
  have nodes: "set (item_graph_nodes [] @ tiers) = set (item_graph_nodes tiers)"
    by (auto simp: item_graph_nodes_def)
  show "set (map spec_name (filter (\<lambda>sp. spec_graph sp = ''item'') (specs t))) = set (item_graph_nodes tiers)"
    unfolding i by (rule nodes)
  have other: "filter (\<lambda>sp. spec_graph sp \<notin> {''batch'', ''item''}) (map tier_spec tiers) = []"
    using tier by (auto simp: filter_empty_conv)
  have rest: "map spec_name (filter (\<lambda>sp. spec_graph sp \<notin> {''batch'', ''item''}) (specs t)) = [''script'']"
    by (simp only: t filter_append map_append fixed_graphs(3) other list.map append_Nil2)
  have "set (map spec_name (specs t)) = set (map spec_name (filter (\<lambda>sp. spec_graph sp = ''batch'') (specs t))) \<union>
      set (map spec_name (filter (\<lambda>sp. spec_graph sp = ''item'') (specs t))) \<union>
      set (map spec_name (filter (\<lambda>sp. spec_graph sp \<notin> {''batch'', ''item''}) (specs t)))"
    by auto
  then show "set (map spec_name (specs t)) = set batch_graph_nodes \<union> set (item_graph_nodes tiers) \<union> {''script''}"
    unfolding b i rest nodes by simp
qed

lemma registrations_ok:
  assumes "topology_for_tiers tiers = Inr t"
  shows "validate_registrations t (Some b) (Some i) = Inr () \<longleftrightarrow>
    set batch_graph_nodes \<subseteq> set b \<and> set (item_graph_nodes tiers) \<subseteq> set i \<and>
    set b \<union> set i \<subseteq> set batch_graph_nodes \<union> set (item_graph_nodes tiers) \<union> {''script''}"
    "validate_registrations t None (Some i) = Inr () \<longleftrightarrow>
      set (item_graph_nodes tiers) \<subseteq> set i \<and> set i \<subseteq> set batch_graph_nodes \<union> set (item_graph_nodes tiers) \<union> {''script''}"
proof -
  note g = configured_graphs [OF assms]
  have missing: "map spec_name (filter (\<lambda>sp. P sp \<and> spec_name sp \<notin> set ns) sps) = [] \<longleftrightarrow> set (map spec_name (filter P sps)) \<subseteq> set ns"
    for P and ns :: "string list" and sps :: "node_spec list"
    by (auto simp: filter_empty_conv)
  have unknown: "filter (\<lambda>n. n \<notin> set (map spec_name (specs t))) xs = [] \<longleftrightarrow>
      set xs \<subseteq> set batch_graph_nodes \<union> set (item_graph_nodes tiers) \<union> {''script''}" for xs
    unfolding g(3) by (auto simp: filter_empty_conv)
  show "validate_registrations t (Some b) (Some i) = Inr () \<longleftrightarrow>
    set batch_graph_nodes \<subseteq> set b \<and> set (item_graph_nodes tiers) \<subseteq> set i \<and>
    set b \<union> set i \<subseteq> set batch_graph_nodes \<union> set (item_graph_nodes tiers) \<union> {''script''}"
    by (simp only: validate_registrations_def Let_def option.case option.distinct simp_thms if_True if_False missing unknown g(1,2)) auto
  show "validate_registrations t None (Some i) = Inr () \<longleftrightarrow>
      set (item_graph_nodes tiers) \<subseteq> set i \<and> set i \<subseteq> set batch_graph_nodes \<union> set (item_graph_nodes tiers) \<union> {''script''}"
    by (simp only: validate_registrations_def Let_def option.case option.distinct simp_thms if_True if_False missing unknown g(1,2)) auto
qed

lemma public_fixed: "public_nodes batch_graph_nodes = batch_graph_nodes" "public_nodes (item_graph_nodes []) = item_graph_nodes []"
  by code_simp+

lemma public_item_nodes:
  assumes "list_all (\<lambda>x. \<not> starts_with ''__'' x) tiers"
  shows "public_nodes (item_graph_nodes tiers) = item_graph_nodes tiers"
proof -
  have tiers: "filter (\<lambda>n. \<not> starts_with ''__'' n) tiers = tiers"
    using assms by (simp add: list_all_iff)
  have "filter (\<lambda>n. \<not> starts_with ''__'' n) [''voiceover''] = [''voiceover'']"
    "filter (\<lambda>n. \<not> starts_with ''__'' n) [''product_demo'', ''qc'', ''assembly'', ''upscale'', ''drop''] =
       [''product_demo'', ''qc'', ''assembly'', ''upscale'', ''drop'']"
    by code_simp+
  then show ?thesis
    unfolding public_nodes_def item_graph_nodes_def filter_append tiers by (simp only:)
qed

text \<open>
  C36. Every configuration that is accepted, of one or more tiers whose names do not start with the two underscores
  of the nodes of the framework, describes the graph that is built for it. The table derived
  for the tiers has no inconsistency, every tier is a node of the talking head stage, and the checks of the
  builder pass; these accept exactly the registrations that contain every node of the two graphs and none that
  the table does not know.
\<close>

theorem configured_graph_consistent:
  assumes "topology_for_tiers tiers = Inr t" "tiers \<noteq> []" "list_all (\<lambda>x. \<not> starts_with ''__'' x) tiers"
  shows "validate_topology t = [] \<and> check_built_graph tiers = Inr () \<and>
    (\<forall>x \<in> set tiers. stage_of t x = Inr ''talking_head'') \<and>
    (\<forall>b i. validate_registrations t (Some b) (Some i) = Inr () \<longleftrightarrow>
       set batch_graph_nodes \<subseteq> set b \<and> set (item_graph_nodes tiers) \<subseteq> set i \<and>
       set b \<union> set i \<subseteq> set batch_graph_nodes \<union> set (item_graph_nodes tiers) \<union> {''script''})"
proof (intro conjI)
  show "validate_topology t = []"
    using assms(1) by (rule topology_no_problems)
  have "validate_registrations t (Some batch_graph_nodes) (Some (item_graph_nodes tiers)) = Inr ()"
    "validate_registrations t None (Some (item_graph_nodes tiers)) = Inr ()"
    unfolding registrations_ok [OF assms(1)] by blast+
  then show "check_built_graph tiers = Inr ()"
    using assms(1,2) by (simp add: check_built_graph_def public_item_nodes [OF assms(3)] public_fixed validate_against_topology_def)
  show "\<forall>x \<in> set tiers. stage_of t x = Inr ''talking_head''"
  proof
    fix x assume "x \<in> set tiers"
    moreover from assms(1) have "node_stages t = field_entries spec_stage fixed_specs @ map (\<lambda>t. (t, ''talking_head'')) tiers" "distinct tiers"
      by (auto elim!: topology_for_tiersE simp: make_topology_def tier_entries)
    ultimately have "dget (node_stages t) x = Some ''talking_head''"
      using dget_distinct [of "map (\<lambda>t. (t, ''talking_head'')) tiers" x "''talking_head''"] by (auto simp: dget_append o_def)
    then show "stage_of t x = Inr ''talking_head''"
      by (simp add: stage_of_def)
  qed
  show "\<forall>b i. validate_registrations t (Some b) (Some i) = Inr () \<longleftrightarrow>
       set batch_graph_nodes \<subseteq> set b \<and> set (item_graph_nodes tiers) \<subseteq> set i \<and>
       set b \<union> set i \<subseteq> set batch_graph_nodes \<union> set (item_graph_nodes tiers) \<union> {''script''}"
    by (intro allI registrations_ok(1) [OF assms(1)])
qed

theorem configured_graph_consistent_witness:
  "\<exists>t. topology_for_tiers [''pruna'', ''ltx''] = Inr t \<and> stage_of t ''pruna'' = Inr ''talking_head'' \<and> check_built_graph [''pruna'', ''ltx''] = Inr ()"
proof -
  have ok: "\<not> isl (topology_for_tiers [''pruna'', ''ltx''])" "list_all (\<lambda>x. \<not> starts_with ''__'' x) [''pruna'', ''ltx'']"
    by code_simp+
  then obtain t where t: "topology_for_tiers [''pruna'', ''ltx''] = Inr t"
    by (cases "topology_for_tiers [''pruna'', ''ltx'']") auto
  have "[''pruna'', ''ltx''] \<noteq> []"
    by simp
  from configured_graph_consistent [OF t this ok(2)] show ?thesis
    using t by (intro exI [of _ t]) (elim conjE, simp)
qed

text \<open>The table that does not depend on a configuration is the one of the default tiers, up to the order of its rows.\<close>

lemma default_is_configured:
  "\<exists>t. topology_for_tiers default_tiers = Inr t \<and> set (specs t) = set (specs default_topology) \<and>
     (\<forall>n \<in> set (map spec_name node_specs). dget (node_stages t) n = dget (node_stages default_topology) n)"
proof -
  have "\<not> isl (topology_for_tiers default_tiers)"
    by code_simp
  then obtain t where t: "topology_for_tiers default_tiers = Inr t"
    by (cases "topology_for_tiers default_tiers") auto
  then have ms: "t = make_topology (fixed_specs @ map tier_spec default_tiers) default_tiers"
    by (auto elim: topology_for_tiersE)
  have "set (fixed_specs @ map tier_spec default_tiers) = set node_specs"
    by code_simp
  moreover have "list_all (\<lambda>n. dget (node_stages (make_topology (fixed_specs @ map tier_spec default_tiers) default_tiers)) n =
      dget (node_stages default_topology) n) (map spec_name node_specs)"
    by code_simp
  ultimately show ?thesis
    using t by (auto simp: ms default_topology_def make_topology_def list_all_iff)
qed

end
