(* ===== verification/Progress.thy ===== *)
theory Progress
  imports Topology "HOL-Library.AList"
begin

text \<open>
  The public read model of a run (\<open>progress.py\<close>): the translation of the events of the graph, which keeps
  the item of every open operation, the timeline, and the snapshot of the stages that is rebuilt from the
  events each time it is asked for.

  Events and items are JSON dictionaries; \<open>ps\<close> is \<open>str\<close> of values that are not texts. A dictionary of the
  program whose order is shown is an association list. The events of language models have their own
  projector (\<open>Model_Events\<close>); what is here is what the translator makes of all others.
\<close>

section \<open>Fields of events\<close>

definition is_int :: "json \<Rightarrow> bool" where
  "is_int v = (case v of JNum q \<Rightarrow> q = of_int \<lfloor>q\<rfloor> | JBool _ \<Rightarrow> True | _ \<Rightarrow> False)"

definition is_bool :: "json \<Rightarrow> bool" where
  "is_bool v = (case v of JBool _ \<Rightarrow> True | _ \<Rightarrow> False)"

definition int_or_zero :: "json \<Rightarrow> int" where
  "int_or_zero v = (if py_truthy v then int_of v else 0)"

definition opt_text_of :: "(json \<Rightarrow> string) \<Rightarrow> json \<Rightarrow> string option" where
  "opt_text_of ps v = (let s = text_of ps v in if s = [] then None else Some s)"

definition stage_title :: "string \<Rightarrow> string option" where
  "stage_title sid = dget (map (\<lambda>st. (stage_id st, stage_label st)) stages) sid"

section \<open>Items of operations\<close>

text \<open>
  The identifier and the attempt found in a value: its own, that of its input, output or item, or that of
  the last of its results. A value is reduced to what is found in it and, when it is a list, in its elements.
\<close>

type_synonym found = "(string \<times> int) option"

definition first_found :: "found list \<Rightarrow> found" where
  "first_found xs = (case find (\<lambda>x. x \<noteq> None) xs of None \<Rightarrow> None | Some x \<Rightarrow> x)"

definition dict_found :: "(json \<Rightarrow> string) \<Rightarrow> jdict \<Rightarrow> (string, found \<times> found list) fmap \<Rightarrow> found" where
  "dict_found ps d sub =
    (if py_truthy (jget d ''id'') then Some (str_of ps (jget d ''id''), int_or_zero (jget d ''attempts''))
     else
       let at = (\<lambda>k. case fmlookup sub k of None \<Rightarrow> (None, []) | Some x \<Rightarrow> x)
       in first_found (map (\<lambda>k. fst (at k)) [''input'', ''output'', ''item''] @ rev (snd (at ''results''))))"

primrec found_in :: "(json \<Rightarrow> string) \<Rightarrow> json \<Rightarrow> found \<times> found list" where
  "found_in ps JNull = (None, [])"
| "found_in ps (JBool b) = (None, [])"
| "found_in ps (JNum q) = (None, [])"
| "found_in ps (JStr s) = (None, [])"
| "found_in ps (JList xs) = (None, map fst (map (found_in ps) xs))"
| "found_in ps (JObj d) = (dict_found ps d (fmmap (found_in ps) d), [])"

definition item_fields :: "(json \<Rightarrow> string) \<Rightarrow> json \<Rightarrow> found" where
  "item_fields ps v = fst (found_in ps v)"

section \<open>Translation\<close>

type_synonym open_items = "(string, string \<times> int) fmap"

definition creative_progress :: "(json \<Rightarrow> string) \<Rightarrow> jdict \<Rightarrow> jdict option" where
  "creative_progress ps ev =
    (if jget ev ''name'' \<noteq> JStr ''creative_progress'' then None
     else case jget ev ''data'' of
       JObj d \<Rightarrow>
         let sid = text_of ps (jget d ''stage_id''); completed = jget d ''completed_units''; total = jget d ''total_units''
         in case stage_title sid of
              None \<Rightarrow> None
            | Some title \<Rightarrow>
                if \<not> is_int completed \<or> is_bool completed \<or> \<not> is_int total \<or> is_bool total \<or> int_of completed < 0 \<or>
                   int_of total < 1 \<or> int_of total < int_of completed then None
                else Some (obj [(''type'', JStr ''progress_event''),
                  (''operation_id'', JStr (if py_truthy (jget ev ''run_id'') then str_of ps (jget ev ''run_id'') else sid @ '':progress'')),
                  (''stage_id'', JStr sid), (''stage_label'', JStr title), (''node'', JStr sid), (''status'', JStr ''progress''),
                  (''completed_units'', completed), (''total_units'', total)])
     | _ \<Rightarrow> None)"

definition event_node :: "(json \<Rightarrow> string) \<Rightarrow> jdict \<Rightarrow> string" where
  "event_node ps ev =
    (let node = (case jget ev ''metadata'' of JObj m \<Rightarrow> jget m ''langgraph_node'' | _ \<Rightarrow> JNull)
     in if py_truthy node then str_of ps node else text_of ps (jget ev ''name''))"

text \<open>The item of an event of an operation: what its data shows, else what the operation was opened with.\<close>

definition event_item :: "(json \<Rightarrow> string) \<Rightarrow> topology \<Rightarrow> open_items \<Rightarrow> jdict \<Rightarrow> found \<times> open_items" where
  "event_item ps t items ev =
    (let oid = text_of ps (jget ev ''run_id'');
         seen = (if event_node ps ev \<in> set (item_progress_nodes t) then item_fields ps (jget ev ''data'') else None)
     in case seen of
          Some (i, a) \<Rightarrow> if i \<noteq> [] \<and> oid \<noteq> [] then (seen, fmupd oid (i, a) items)
            else (case fmlookup items oid of None \<Rightarrow> (seen, items) | known \<Rightarrow> (known, items))
        | None \<Rightarrow> (case fmlookup items oid of None \<Rightarrow> (None, items) | known \<Rightarrow> (known, items)))"

definition chain_event :: "(json \<Rightarrow> string) \<Rightarrow> topology \<Rightarrow> open_items \<Rightarrow> jdict \<Rightarrow> jdict option res \<times> open_items" where
  "chain_event ps t items ev =
    (case dget (node_stages t) (event_node ps ev) of
       None \<Rightarrow> (Inr None, items)
     | Some sid \<Rightarrow>
         let oid = text_of ps (jget ev ''run_id''); ending = (text_of ps (jget ev ''event'') = ''on_chain_end'');
             (it, items') = event_item ps t items ev
         in case stage_title sid of
              None \<Rightarrow> (Inl KeyError, items')
            | Some title \<Rightarrow>
                (Inr (Some (obj ([(''type'', JStr ''progress_event''), (''operation_id'', JStr oid), (''stage_id'', JStr sid),
                   (''stage_label'', JStr title), (''node'', JStr (event_node ps ev)),
                   (''status'', JStr (if ending then ''completed'' else ''started''))] @
                   (case it of None \<Rightarrow> [] | Some (i, a) \<Rightarrow> if i = [] then [] else [(''item_id'', JStr i), (''attempt'', JNum (of_int a))])))),
                 if ending \<and> oid \<noteq> [] then fmdrop oid items' else items'))"

definition translate ::
  "(json \<Rightarrow> string) \<Rightarrow> topology \<Rightarrow> open_items \<Rightarrow> jdict \<Rightarrow> jdict option res \<times> open_items" where
  "translate ps t items ev =
    (let ty = text_of ps (jget ev ''event'') in
     if ty = ''on_custom_event'' then (Inr (creative_progress ps ev), items)
     else if ty \<notin> {''on_chain_start'', ''on_chain_end''} then (Inr None, items)
     else chain_event ps t items ev)"

text \<open>The operations that are open after a sequence of events.\<close>

definition open_after ::
  "(json \<Rightarrow> string) \<Rightarrow> topology \<Rightarrow> jdict list \<Rightarrow> open_items \<Rightarrow> open_items" where
  "open_after ps t evs items = fold (\<lambda>ev items. snd (translate ps t items ev)) evs items"

section \<open>Timeline\<close>

record activity =
  act_id :: string
  act_kind :: string
  act_status :: string
  act_label :: string
  act_time :: json
  act_stage :: "string option"
  act_item :: "string option"
  act_attempt :: "int option"
  act_detail :: "string option"

type_synonym transition = "string option \<times> string option \<times> int option \<times> string"

definition is_terminal_node :: "topology \<Rightarrow> string \<Rightarrow> string \<Rightarrow> bool" where
  "is_terminal_node t sid node =
    (if sid = ''talking_head'' then node \<in> set (talking_head_nodes t) else dget (terminal_node t) sid = Some node)"

definition attempt_of :: "json \<Rightarrow> int option" where
  "attempt_of v = (case v of JNum _ \<Rightarrow> Some (int_of v) | JBool _ \<Rightarrow> Some (int_of v) | _ \<Rightarrow> None)"

definition or_given :: "'a option \<Rightarrow> 'a \<Rightarrow> 'a" where
  "or_given x d = (case x of None \<Rightarrow> d | Some v \<Rightarrow> v)"

definition status_suffix :: "string \<Rightarrow> string" where
  "status_suffix s = or_given (map_of [(''started'', ''started''), (''completed'', ''completed''), (''waiting'', ''is waiting''),
     (''retrying'', ''is retrying''), (''failed'', ''failed'')] s) s"

text \<open>The status, label and detail of a progress event and its transition; \<open>None\<close> when it is not shown.\<close>

definition stage_activity ::
  "(json \<Rightarrow> string) \<Rightarrow> topology \<Rightarrow> jdict \<Rightarrow> (string \<times> string \<times> string option \<times> transition) option" where
  "stage_activity ps t ev =
    (let status = (if py_truthy (jget ev ''status'') then str_of ps (jget ev ''status'') else ''running'');
         sid = opt_text_of ps (jget ev ''stage_id'');
         item = opt_text_of ps (if py_truthy (jget ev ''item_id'') then jget ev ''item_id'' else jget ev ''creator_id'');
         completed = jget ev ''completed_units''; total = jget ev ''total_units'';
         key = (\<lambda>s. (sid, item, attempt_of (jget ev ''attempt''), s))
     in if status = ''progress'' then
          if \<not> is_int completed \<or> \<not> is_int total then None
          else Some (status, or_given (stage_title (or_given sid [])) (or_given sid ''Stage'') @ '': '' @ str_of ps completed @ ''/'' @ str_of ps total,
                 Some (str_of ps completed @ '' of '' @ str_of ps total @ '' units completed''), key (status @ '':'' @ str_of ps completed))
        else if status = ''completed'' \<and> \<not> is_terminal_node t (or_given sid []) (text_of ps (jget ev ''node'')) then None
        else
          let title = (if py_truthy (jget ev ''stage_label'') then str_of ps (jget ev ''stage_label'')
                else case stage_title (or_given sid []) of Some l \<Rightarrow> if l = [] then or_given sid ''Stage'' else l | None \<Rightarrow> or_given sid ''Stage'')
          in Some (status, title @ '' '' @ status_suffix status, None, key status))"

text \<open>What an event shows: kind, status, label, detail, stage and item, and the transition it stands for.\<close>

definition event_activity ::
  "(json \<Rightarrow> string) \<Rightarrow> topology \<Rightarrow> bool \<Rightarrow> jdict \<Rightarrow>
   (string \<times> string \<times> string \<times> string option \<times> string option \<times> string option \<times> transition option) option" where
  "event_activity ps t has_progress ev =
    (let ty = text_of ps (jget ev ''type''); sid = opt_text_of ps (jget ev ''stage_id'');
         item = opt_text_of ps (if py_truthy (jget ev ''item_id'') then jget ev ''item_id'' else jget ev ''creator_id'');
         show = (\<lambda>kind status label. Some (kind, status, label, None, sid, item, None))
     in if has_progress \<and> ty \<in> {''node_start'', ''node_end'', ''item_update''} then None
        else if ty = ''run_start'' then show ''run'' ''started'' ''Pipeline started''
        else if ty = ''run_queued'' then show ''run'' ''queued'' ''Run queued''
        else if ty = ''job_started'' then show ''run'' ''started'' ''Worker started execution''
        else if ty = ''job_retry'' then
          Some (''run'', ''retrying'', ''Worker will retry the run'', opt_text_of ps (jget ev ''error''), sid, item, None)
        else if ty = ''progress_event'' then
          (case stage_activity ps t ev of None \<Rightarrow> None
           | Some (status, label, detail, key) \<Rightarrow> Some (''stage'', status, label, detail, sid, item, Some key))
        else if ty = ''awaiting_concept_edit'' then
          Some (''gate'', ''waiting'', ''Waiting for script review'', None, Some ''scripts'', item, None)
        else if ty = ''awaiting_approval'' then
          Some (''gate'', ''waiting'', ''Waiting for creator approval'', None, Some ''creator_previews'', item, None)
        else if ty = ''awaiting_review'' then
          Some (''gate'', ''waiting'', ''Plano criativo aguardando revis'' @ [CHR 0xE3] @ ''o'', None, Some ''review'', item, None)
        else if ty = ''creator_start'' then show ''item'' ''started'' ''Creator generation started''
        else if ty = ''creator_ready'' then
          (let cid = (case jget ev ''creator'' of JObj c \<Rightarrow> opt_text_of ps (jget c ''id'') | _ \<Rightarrow> None)
           in Some (''item'', ''completed'', ''Creator ready'', None, sid, (if cid = None then item else cid), None))
        else if ty = ''item_update'' then
          (let iid = (case jget ev ''item'' of JObj i \<Rightarrow> opt_text_of ps (jget i ''id'') | _ \<Rightarrow> None);
               label = (if py_truthy (jget ev ''label'') then str_of ps (jget ev ''label'') else ''Clip updated'')
           in Some (''item'', ''progress'', label, None, sid, (if iid = None then item else iid), None))
        else if ty = ''run_end'' then show ''run'' ''completed'' ''Pipeline completed''
        else if ty \<in> {''error'', ''job_failed''} then
          Some (''error'', ''failed'', ''Pipeline stopped with an error'',
            opt_text_of ps (if py_truthy (jget ev ''message'') then jget ev ''message'' else jget ev ''error''), sid, item, None)
        else if ty \<in> {''node_start'', ''node_end''} then
          (let status = (if ty = ''node_start'' then ''started'' else ''completed''); node = text_of ps (jget ev ''node'');
               label = (if py_truthy (jget ev ''label'') then str_of ps (jget ev ''label'') else if node = [] then ''Stage'' else node)
           in Some (''stage'', status, label @ '' '' @ status, None, dget (node_stages t) node, item, None))
        else None)"

record timeline =
  shown :: "activity list"
  seen_ids :: "string list"
  seen_transitions :: "transition list"

definition add_activity :: "(json \<Rightarrow> string) \<Rightarrow> topology \<Rightarrow> bool \<Rightarrow> nat \<times> jdict \<Rightarrow> timeline \<Rightarrow> timeline" where
  "add_activity ps t has_progress iev line =
    (let (i, ev) = iev in
     case event_activity ps t has_progress ev of
       None \<Rightarrow> line
     | Some (kind, status, label, detail, sid, item, key) \<Rightarrow>
         if (case key of None \<Rightarrow> False | Some k \<Rightarrow> k \<in> set (seen_transitions line)) then line
         else
           let line1 = (case key of None \<Rightarrow> line | Some k \<Rightarrow> line\<lparr>seen_transitions := k # seen_transitions line\<rparr>);
               eid = (if py_truthy (jget ev ''event_id'') then str_of ps (jget ev ''event_id'') else ''event-'' @ str_nat (i + 1))
           in if eid \<in> set (seen_ids line1) then line1
              else line1\<lparr>seen_ids := eid # seen_ids line1, shown := shown line1 @ [\<lparr>act_id = eid, act_kind = kind, act_status = status,
                act_label = label, act_time = jget ev ''occurred_at'', act_stage = sid, act_item = item,
                act_attempt = attempt_of (jget ev ''attempt''), act_detail = detail\<rparr>]\<rparr>)"

text \<open>\<open>xs[-n:]\<close> of a list, for \<open>n = max(0, limit)\<close>: \<open>-0\<close> is the start of the list.\<close>

definition last_entries :: "int \<Rightarrow> 'a list \<Rightarrow> 'a list" where
  "last_entries limit xs = (let n = nat (max 0 limit) in if n = 0 then xs else drop (length xs - n) xs)"

definition build_activity :: "(json \<Rightarrow> string) \<Rightarrow> topology \<Rightarrow> int \<Rightarrow> jdict list \<Rightarrow> activity list" where
  "build_activity ps t limit evs =
    (let has_progress = list_ex (\<lambda>ev. jget ev ''type'' = JStr ''progress_event'') evs
     in last_entries limit (shown (fold (add_activity ps t has_progress) (zip [0..<length evs] evs)
          \<lparr>shown = [], seen_ids = [], seen_transitions = []\<rparr>)))"

section \<open>Snapshot\<close>

datatype stage_status = Pending | Running | Waiting | Completed | Failed

record stage_state = stage_def +
  st_status :: stage_status
  st_completed :: int
  st_active :: int
  st_failed :: int
  st_total :: int
  st_updated :: json

record item_entry =
  ie_stage :: string
  ie_status :: string
  ie_attempt :: int
  ie_updated :: json

record snapshot =
  sn_stages :: "stage_state list"
  active_ops :: "(string \<times> string \<times> string option) list"
  done_units :: "(string \<times> string) list"
  item_entries :: "(string \<times> item_entry) list"

definition item_stages :: "string list" where
  "item_stages = [''production'', ''talking_head'', ''product_demo'', ''qc'', ''assembly'']"

definition initial_stages :: "int \<Rightarrow> stage_state list" where
  "initial_stages n =
    map (\<lambda>d. stage_def.extend d (stage_state.fields Pending 0 0 0 (if stage_id d \<in> set item_stages then n else 1) JNull)) stages"

definition on_stages :: "string list \<Rightarrow> (stage_state \<Rightarrow> stage_state) \<Rightarrow> stage_state list \<Rightarrow> stage_state list" where
  "on_stages sids f sts = map (\<lambda>s. if stage_id s \<in> set sids then f s else s) sts"

definition stage_at :: "string \<Rightarrow> stage_state list \<Rightarrow> stage_state option" where
  "stage_at sid sts = find (\<lambda>s. stage_id s = sid) sts"

definition set_status :: "stage_status \<Rightarrow> stage_state \<Rightarrow> stage_state" where
  "set_status st s = s\<lparr>st_status := st\<rparr>"

definition event_stage :: "(json \<Rightarrow> string) \<Rightarrow> topology \<Rightarrow> jdict \<Rightarrow> string" where
  "event_stage ps t ev =
    (if py_truthy (jget ev ''stage_id'') then str_of ps (jget ev ''stage_id'')
     else or_given (dget (node_stages t) (text_of ps (jget ev ''node''))) [])"

definition lifecycle :: "(json \<Rightarrow> string) \<Rightarrow> jdict \<Rightarrow> string" where
  "lifecycle ps ev =
    (let ty = text_of ps (jget ev ''type'') in
     if ty = ''progress_event'' then text_of ps (jget ev ''status'') else if ty = ''node_start'' then ''started'' else ''completed'')"

definition add_unit :: "'a \<Rightarrow> 'a list \<Rightarrow> 'a list" where
  "add_unit u us = (if u \<in> set us then us else us @ [u])"

definition units_of :: "string \<Rightarrow> (string \<times> string) list \<Rightarrow> int" where
  "units_of sid us = int (length (filter (\<lambda>u. fst u = sid) us))"

text \<open>What an event of a stage does, by its lifecycle.\<close>

definition stage_event ::
  "topology \<Rightarrow> string \<Rightarrow> string \<Rightarrow> string \<Rightarrow> string option \<Rightarrow> string \<Rightarrow> jdict \<Rightarrow> snapshot \<Rightarrow> snapshot" where
  "stage_event t cycle sid node item op ev p =
    (let completed = jget ev ''completed_units''; total = jget ev ''total_units'';
         entry = (\<lambda>status. \<lparr>ie_stage = sid, ie_status = status, ie_attempt = int_or_zero (jget ev ''attempt''),
           ie_updated = jget ev ''occurred_at''\<rparr>);
         put = (\<lambda>status p. case item of None \<Rightarrow> p | Some i \<Rightarrow> p\<lparr>item_entries := AList.update i (entry status) (item_entries p)\<rparr>)
     in if cycle = ''progress'' then
          (if \<not> is_int completed \<or> \<not> is_int total then p
           else p\<lparr>sn_stages := on_stages [sid] (\<lambda>s. s\<lparr>st_completed := int_of completed, st_total := int_of total,
             st_status := (if int_of total \<le> int_of completed then Completed else Running)\<rparr>) (sn_stages p)\<rparr>)
        else if cycle \<in> {''started'', ''running'', ''retrying''} then
          put ''running'' (p\<lparr>active_ops := AList.update op (sid, item) (active_ops p),
            sn_stages := on_stages [sid] (set_status Running) (sn_stages p)\<rparr>)
        else if cycle \<in> {''waiting'', ''waiting_for_user''} then
          p\<lparr>sn_stages := on_stages [sid] (set_status Waiting) (sn_stages p)\<rparr>
        else if cycle \<in> {''failed'', ''error''} then
          p\<lparr>active_ops := AList.delete op (active_ops p),
            sn_stages := on_stages [sid] (\<lambda>s. s\<lparr>st_status := Failed, st_failed := st_failed s + 1\<rparr>) (sn_stages p)\<rparr>
        else if cycle \<in> {''completed'', ''done''} then
          (let p1 = p\<lparr>active_ops := AList.delete op (active_ops p)\<rparr> in
           if sid \<noteq> ''talking_head'' \<and> dget (terminal_node t) sid \<noteq> Some node then p1
           else
             let batch_wide = (item = None \<and> (case stage_at sid (sn_stages p) of None \<Rightarrow> False | Some s \<Rightarrow> 1 < st_total s));
                 units = (if batch_wide then done_units p1 else add_unit (sid, or_given item ''batch'') (done_units p1));
                 p2 = p1\<lparr>done_units := units, sn_stages := on_stages [sid]
                   (\<lambda>s. s\<lparr>st_completed := (if batch_wide then st_total s else units_of sid units)\<rparr>) (sn_stages p1)\<rparr>
             in put (if sid = ''production'' then ''completed'' else ''running'') p2)
        else p)"

definition snapshot_step :: "(json \<Rightarrow> string) \<Rightarrow> topology \<Rightarrow> jdict \<Rightarrow> snapshot \<Rightarrow> snapshot" where
  "snapshot_step ps t ev p =
    (let node = text_of ps (jget ev ''node''); sid = event_stage ps t ev; item = opt_text_of ps (jget ev ''item_id'');
         op = (if py_truthy (jget ev ''operation_id'') then str_of ps (jget ev ''operation_id'')
           else node @ '':'' @ or_given item ''batch'')
     in if text_of ps (jget ev ''type'') \<notin> {''node_start'', ''node_end'', ''progress_event''} \<or> sid \<notin> set stage_ids then p
        else stage_event t (lifecycle ps ev) sid node item op ev
          (p\<lparr>sn_stages := on_stages [sid] (\<lambda>s. s\<lparr>st_updated := (if py_truthy (jget ev ''occurred_at'') then jget ev ''occurred_at''
             else st_updated s)\<rparr>) (sn_stages p)\<rparr>))"

text \<open>The operations still open count as active; a stage whose units are complete is completed.\<close>

definition settle_stage :: "(string \<times> string \<times> string option) list \<Rightarrow> stage_state \<Rightarrow> stage_state" where
  "settle_stage ops s =
    (let active = remdups (map (\<lambda>(op, sid, item). or_given item op) (filter (\<lambda>(op, sid, item). sid = stage_id s) ops));
         s1 = s\<lparr>st_active := int (length active)\<rparr>
     in if st_status s = Failed then s1
        else if active \<noteq> [] then set_status Running s1
        else if st_completed s \<noteq> 0 \<and> (st_total s \<in> {0, 1} \<or> st_total s \<le> st_completed s) then set_status Completed s1
        else s1)"

text \<open>The results of a run that is done.\<close>

definition failure_stage :: "(json \<Rightarrow> string) \<Rightarrow> jdict \<Rightarrow> string option" where
  "failure_stage ps item =
    (case jget item ''failure'' of
       JObj f \<Rightarrow> let s = strip (text_of ps (jget f ''stage'')) in if s = [] then None else Some s
     | _ \<Rightarrow> None)"

definition dict_in :: "jdict \<Rightarrow> jdict list \<Rightarrow> bool" where
  "dict_in d ds = list_ex (\<lambda>e. py_eq (JObj d) (JObj e)) ds"

definition settled_stage :: "stage_status \<Rightarrow> nat \<Rightarrow> nat \<Rightarrow> nat \<Rightarrow> stage_state \<Rightarrow> stage_state" where
  "settled_stage st all completed failed s =
    s\<lparr>st_status := st, st_total := int all, st_completed := int completed, st_active := 0, st_failed := int failed\<rparr>"

definition done_with_items :: "(json \<Rightarrow> string) \<Rightarrow> jdict list \<Rightarrow> stage_state list \<Rightarrow> stage_state list" where
  "done_with_items ps its sts =
    (let talking_failed = filter (\<lambda>i. failure_stage ps i = Some ''talking_head'') its;
         product_candidates = filter (\<lambda>i. \<not> dict_in i talking_failed) its;
         product_failed = filter (\<lambda>i. failure_stage ps i = Some ''product_demo'') product_candidates;
         has = (\<lambda>k i. py_truthy (jget i k));
         qc_candidates = filter (\<lambda>i. \<not> dict_in i (talking_failed @ product_failed)) its;
         assembly_candidates = filter (\<lambda>i. \<not> has ''dropped'' i \<and>
           (\<not> has ''error'' i \<or> failure_stage ps i \<in> {None, Some ''assembly''})) its;
         assembled = length (filter (has ''assembled'') assembly_candidates);
         assembly_failed = length (filter (has ''error'') assembly_candidates)
     in on_stages [''production''] (settled_stage Completed (length its)
          (length (filter (\<lambda>i. has ''assembled'' i \<or> has ''dropped'' i \<or> has ''error'' i) its)) (length (filter (has ''error'') its)))
        (on_stages [''assembly''] (settled_stage (if length assembly_candidates \<le> assembled + assembly_failed then Completed else Failed)
          (length assembly_candidates) assembled assembly_failed)
        (on_stages [''qc''] (settled_stage Completed (length qc_candidates) (length qc_candidates) (length (filter (has ''dropped'') its)))
        (on_stages [''product_demo''] (settled_stage Completed (length product_candidates)
          (length product_candidates - length product_failed) (length product_failed))
        (on_stages [''talking_head''] (settled_stage Completed (length its) (length its - length talking_failed) (length talking_failed))
        (on_stages [''setup'', ''concepts'', ''scripts'', ''creator_profiles'', ''creator_previews'', ''creative_plan'', ''review'']
          (\<lambda>s. s\<lparr>st_status := Completed, st_completed := 1, st_active := 0\<rparr>) sts))))))"

definition done_entries :: "(json \<Rightarrow> string) \<Rightarrow> jdict list \<Rightarrow> (string \<times> item_entry) list" where
  "done_entries ps its =
    fold (\<lambda>i es. if \<not> py_truthy (jget i ''id'') then es
      else AList.update (str_of ps (jget i ''id''))
        \<lparr>ie_stage = (if py_truthy (jget i ''dropped'') then ''qc''
           else case failure_stage ps i of None \<Rightarrow> ''assembly'' | Some s \<Rightarrow> if s \<in> set stage_ids then s else ''assembly''),
         ie_status = (if py_truthy (jget i ''dropped'') then ''dropped'' else if py_truthy (jget i ''error'') then ''failed'' else ''completed''),
         ie_attempt = int_or_zero (jget i ''attempts''), ie_updated = JNull\<rparr> es) its []"

definition phase_stages :: "(json \<Rightarrow> string) \<Rightarrow> string \<Rightarrow> jdict list \<Rightarrow> stage_state list \<Rightarrow> stage_state list" where
  "phase_stages ps phase its sts =
    (if phase = ''editing'' then on_stages [''scripts''] (set_status Waiting) sts
     else if phase = ''awaiting'' then on_stages [''creator_previews''] (set_status Waiting) sts
     else if phase = ''review'' then on_stages [''review''] (set_status Waiting) sts
     else if phase = ''done'' then
       (if its \<noteq> [] then done_with_items ps its sts
        else map (\<lambda>s. s\<lparr>st_status := Completed, st_completed := (if st_total s \<noteq> 0 then st_total s else st_completed s), st_active := 0\<rparr>) sts)
     else if phase \<in> {''error'', ''cancelled''} then
       map (\<lambda>s. if st_status s \<in> {Running, Waiting} then s\<lparr>st_status := Failed, st_active := 0\<rparr> else s) sts
     else sts)"

text \<open>The status of a parent, from its children.\<close>

definition parent_status :: "stage_status list \<Rightarrow> stage_status \<Rightarrow> stage_status" where
  "parent_status children own =
    (if Failed \<in> set children then Failed else if Running \<in> set children then Running
     else if list_all (\<lambda>c. c = Completed) children then Completed else own)"

definition statuses :: "string list \<Rightarrow> stage_state list \<Rightarrow> stage_status list" where
  "statuses sids sts = map st_status (concat (map (\<lambda>sid. case stage_at sid sts of None \<Rightarrow> [] | Some s \<Rightarrow> [s]) sids))"

definition with_parent :: "string \<Rightarrow> string list \<Rightarrow> stage_state list \<Rightarrow> stage_state list" where
  "with_parent parent children sts =
    on_stages [parent] (\<lambda>s. set_status (parent_status (statuses children sts) (st_status s)) s) sts"

definition execution_status :: "(json \<Rightarrow> string) \<Rightarrow> string \<Rightarrow> jdict list \<Rightarrow> string" where
  "execution_status ps phase evs =
    (if phase = ''error'' then ''failed'' else if phase = ''done'' then ''completed''
     else if phase \<in> {''editing'', ''awaiting'', ''review''} then ''waiting_for_user''
     else if phase = ''cancelled'' then ''cancelled''
     else
       let types = map (\<lambda>ev. text_of ps (jget ev ''type'')) evs
       in if ''run_queued'' \<in> set types \<and> ''job_started'' \<notin> set types then ''queued'' else ''running'')"

record progress_view =
  pv_execution :: string
  pv_stages :: "stage_state list"
  pv_items :: "(string \<times> item_entry) list"
  pv_active :: "string list"
  pv_updated :: json

definition total_items :: "jdict list \<Rightarrow> jdict list \<Rightarrow> int option \<Rightarrow> int" where
  "total_items evs its batch =
    (let n = (case batch of None \<Rightarrow> int (length its) | Some b \<Rightarrow> if b \<noteq> 0 then b else int (length its)) in
     if n \<noteq> 0 then n
     else case find (\<lambda>ev. jget ev ''type'' = JStr ''run_start'') evs of None \<Rightarrow> 0 | Some ev \<Rightarrow> int_or_zero (jget ev ''batch''))"

definition active_stage_ids :: "stage_state list \<Rightarrow> string list" where
  "active_stage_ids sts =
    (let busy = (\<lambda>s. st_status s = Running \<or> st_status s = Waiting);
         children = map stage_id (filter (\<lambda>s. stage_parent s \<noteq> None \<and> busy s) sts)
     in if children \<noteq> [] then children else map stage_id (filter (\<lambda>s. stage_parent s = None \<and> busy s) sts))"

definition build_progress ::
  "(json \<Rightarrow> string) \<Rightarrow> topology \<Rightarrow> string \<Rightarrow> jdict list \<Rightarrow> int option \<Rightarrow> jdict list \<Rightarrow> progress_view" where
  "build_progress ps t phase its batch evs =
    (let p = fold (snapshot_step ps t) evs \<lparr>sn_stages = initial_stages (total_items evs its batch), active_ops = [], done_units = [], item_entries = []\<rparr>;
         settled = map (settle_stage (active_ops p)) (sn_stages p);
         opened = (if evs \<noteq> [] \<or> phase \<noteq> ''idle'' then on_stages [''setup''] (\<lambda>s. s\<lparr>st_status := Completed, st_completed := 1\<rparr>) settled else settled);
         phased = phase_stages ps phase its opened;
         creative = with_parent ''creative_plan'' [''concepts'', ''scripts'', ''creator_profiles'', ''creator_previews''] phased;
         ordered = with_parent ''production'' [''talking_head'', ''product_demo'', ''qc''] creative
     in \<lparr>pv_execution = execution_status ps phase evs, pv_stages = ordered,
          pv_items = (if phase = ''done'' \<and> its \<noteq> [] then done_entries ps its else item_entries p),
          pv_active = active_stage_ids ordered,
          pv_updated = (case find (\<lambda>ev. py_truthy (jget ev ''occurred_at'')) (rev evs) of None \<Rightarrow> JNull | Some ev \<Rightarrow> jget ev ''occurred_at'')\<rparr>)"

end
