(* ===== verification/Progress_Properties.thy ===== *)
theory Progress_Properties
  imports Progress
begin

text \<open>
  What the read model of a run guarantees: an operation keeps its item from its start to its end; the timeline
  shows every event at most once, however often it is replayed; and in the snapshot of a run that has ended
  nothing is active any more and the units add up.
\<close>

section \<open>Operations keep their item\<close>

lemma translate_other:
  assumes "text_of ps (jget ev ''run_id'') \<noteq> oid"
  shows "fmlookup (snd (translate ps t items ev)) oid = fmlookup items oid"
proof -
  have item: "fmlookup (snd (event_item ps t items ev)) oid = fmlookup items oid"
    using assms by (auto simp: event_item_def Let_def split: option.splits)
  have "fmlookup (snd (chain_event ps t items ev)) oid = fmlookup items oid"
    using assms item by (auto simp: chain_event_def Let_def split: option.splits prod.splits)
  then show ?thesis
    by (simp add: translate_def Let_def)
qed

lemma open_after_other:
  "list_all (\<lambda>ev. text_of ps (jget ev ''run_id'') \<noteq> oid) evs \<Longrightarrow>
     fmlookup (open_after ps t evs items) oid = fmlookup items oid"
  by (induction evs arbitrary: items) (simp_all add: open_after_def translate_other)

text \<open>
  C33. An operation keeps its item. When the start of an operation at an item node shows an item, the event published for
  its end carries the item and the attempt that the end's own data show at such a node, and else the item and the attempt of
  the start, whatever events of other operations come in between; and the operation is forgotten then.
\<close>

theorem operation_keeps_item:
  assumes start: "text_of ps (jget e1 ''event'') = ''on_chain_start''" "event_node ps e1 \<in> set (item_progress_nodes t)"
      "dget (node_stages t) (event_node ps e1) = Some sid1" "item_fields ps (jget e1 ''data'') = Some (i, a)" "i \<noteq> []"
    and finish: "text_of ps (jget e2 ''event'') = ''on_chain_end''" "text_of ps (jget e2 ''run_id'') = text_of ps (jget e1 ''run_id'')"
      "dget (node_stages t) (event_node ps e2) = Some sid2" "stage_title sid2 = Some title"
    and oid: "text_of ps (jget e1 ''run_id'') \<noteq> []"
    and between: "list_all (\<lambda>ev. text_of ps (jget ev ''run_id'') \<noteq> text_of ps (jget e1 ''run_id'')) evs"
  shows "\<exists>d items' j b. translate ps t (open_after ps t (e1 # evs) items) e2 = (Inr (Some d), items') \<and>
    jget d ''status'' = JStr ''completed'' \<and> jget d ''stage_id'' = JStr sid2 \<and>
    jget d ''item_id'' = JStr j \<and> jget d ''attempt'' = JNum (of_int b) \<and>
    (j, b) = (case item_fields ps (jget e2 ''data'') of
        None \<Rightarrow> (i, a)
      | Some (i', a') \<Rightarrow> if event_node ps e2 \<in> set (item_progress_nodes t) \<and> i' \<noteq> [] then (i', a') else (i, a)) \<and>
    fmlookup items' (text_of ps (jget e1 ''run_id'')) = None"
proof -
  let ?oid = "text_of ps (jget e1 ''run_id'')"
  have "event_item ps t items e1 = (Some (i, a), fmupd ?oid (i, a) items)"
    using start oid by (simp add: event_item_def)
  then have "snd (chain_event ps t items e1) = fmupd ?oid (i, a) items"
    using start(1,3) by (simp add: chain_event_def Let_def split: option.splits)
  then have "fmlookup (snd (translate ps t items e1)) ?oid = Some (i, a)"
    using start(1) by (simp add: translate_def)
  then have known: "fmlookup (open_after ps t (e1 # evs) items) ?oid = Some (i, a)"
    using open_after_other [OF between] by (simp add: open_after_def)
  let ?items = "open_after ps t (e1 # evs) items"
  define jb where "jb = (case item_fields ps (jget e2 ''data'') of
        None \<Rightarrow> (i, a)
      | Some (i', a') \<Rightarrow> if event_node ps e2 \<in> set (item_progress_nodes t) \<and> i' \<noteq> [] then (i', a') else (i, a))"
  have "fst jb \<noteq> [] \<and> (\<exists>items1. event_item ps t ?items e2 = (Some jb, items1))"
  proof (cases "item_fields ps (jget e2 ''data'')")
    case None
    then show ?thesis
      using finish(2) known start(5) by (simp add: event_item_def jb_def)
  next
    case (Some x)
    then show ?thesis
      using finish(2) known start(5) oid by (cases x) (simp add: event_item_def jb_def)
  qed
  then obtain j b items1 where jb: "jb = (j, b)" "j \<noteq> []" and items1: "event_item ps t ?items e2 = (Some (j, b), items1)"
    by (cases jb) auto
  define d where "d = obj ([(''type'', JStr ''progress_event''), (''operation_id'', JStr ?oid), (''stage_id'', JStr sid2),
      (''stage_label'', JStr title), (''node'', JStr (event_node ps e2)), (''status'', JStr ''completed'')] @
      [(''item_id'', JStr j), (''attempt'', JNum (of_int b))])"
  have fields: "jget d ''status'' = JStr ''completed''" "jget d ''stage_id'' = JStr sid2" "jget d ''item_id'' = JStr j"
      "jget d ''attempt'' = JNum (of_int b)"
    by (simp_all add: d_def jget_def obj_def fmlookup_of_list)
  have "chain_event ps t ?items e2 = (Inr (Some d), fmdrop ?oid items1)"
    using finish oid jb(2) items1 by (simp add: chain_event_def Let_def d_def)
  then have "translate ps t ?items e2 = (Inr (Some d), fmdrop ?oid items1)"
    using finish(1) by (simp add: translate_def)
  then show ?thesis
    using fields unfolding jb_def [symmetric] jb(1)
    by (intro exI [of _ d] exI [of _ "fmdrop ?oid items1"] exI [of _ j] exI [of _ b]) simp
qed

text \<open>A talking head is rendered for item \<open>clip-1\<close> while another operation starts and ends.\<close>

definition chain_record :: "string \<Rightarrow> string \<Rightarrow> string \<Rightarrow> (string \<times> json) list \<Rightarrow> jdict" where
  "chain_record event oid node data =
    obj [(''event'', JStr event), (''run_id'', JStr oid), (''name'', JStr node), (''data'', JObj (obj data))]"

definition render_start :: jdict where
  "render_start = chain_record ''on_chain_start'' ''op-1'' ''ltx''
     [(''input'', JObj (obj [(''id'', JStr ''clip-1''), (''attempts'', JNum 2)]))]"

definition render_end :: jdict where
  "render_end = chain_record ''on_chain_end'' ''op-1'' ''ltx'' [(''output'', JObj (obj [(''video'', JStr ''url'')]))]"

lemma record_fields:
  "text_of ps (jget (chain_record event oid node data) ''event'') = event"
  "text_of ps (jget (chain_record event oid node data) ''run_id'') = oid"
  "event_node ps (chain_record event oid node data) = node"
  "jget (chain_record event oid node data) ''data'' = JObj (obj data)"
  by (simp_all add: chain_record_def jget_def obj_def fmlookup_of_list event_node_def text_of_def str_of_def Let_def)

text \<open>Its end shows no item; or the item with another attempt, as the end of an item process does.\<close>

definition item_end :: jdict where
  "item_end = chain_record ''on_chain_end'' ''op-1'' ''ltx'' [(''output'', JObj (obj [(''id'', JStr ''clip-1''), (''attempts'', JNum 3)]))]"

theorem operation_keeps_item_witness:
  "let items = open_after (\<lambda>_. []) default_topology
       [render_start, chain_record ''on_chain_start'' ''op-2'' ''kling'' [], chain_record ''on_chain_end'' ''op-2'' ''kling'' []] fmempty
   in (\<exists>d items'. translate (\<lambda>_. []) default_topology items render_end = (Inr (Some d), items') \<and>
         jget d ''item_id'' = JStr ''clip-1'' \<and> jget d ''attempt'' = JNum 2 \<and> fmlookup items' ''op-1'' = None) \<and>
      (\<exists>d items'. translate (\<lambda>_. []) default_topology items item_end = (Inr (Some d), items') \<and>
         jget d ''item_id'' = JStr ''clip-1'' \<and> jget d ''attempt'' = JNum 3 \<and> fmlookup items' ''op-1'' = None)"
proof -
  have shows_item: "item_fields (\<lambda>_. []) (jget render_start ''data'') = Some (''clip-1'', 2)" "item_fields (\<lambda>_. []) (jget item_end ''data'') = Some (''clip-1'', 3)"
    by (simp add: render_start_def item_end_def record_fields, code_simp)+
  have shows_none: "item_fields (\<lambda>_. []) (jget render_end ''data'') = None"
    by (simp add: render_end_def record_fields) code_simp
  have node: "''ltx'' \<in> set (item_progress_nodes default_topology)" "dget (node_stages default_topology) ''ltx'' = Some ''talking_head''"
    by code_simp+
  have title: "stage_title ''talking_head'' = Some ''Talking-head''"
    by code_simp
  note keeps = operation_keeps_item [of "\<lambda>_. []" render_start default_topology "''talking_head''" "''clip-1''" 2 _ "''talking_head''"
      "''Talking-head''" "[chain_record ''on_chain_start'' ''op-2'' ''kling'' [], chain_record ''on_chain_end'' ''op-2'' ''kling'' []]" fmempty]
  have start: "text_of (\<lambda>_. []) (jget render_start ''event'') = ''on_chain_start''" "text_of (\<lambda>_. []) (jget render_start ''run_id'') = ''op-1''"
      "event_node (\<lambda>_. []) render_start = ''ltx''"
    by (simp_all add: render_start_def record_fields)
  have ends: "text_of (\<lambda>_. []) (jget e ''event'') = ''on_chain_end''" "text_of (\<lambda>_. []) (jget e ''run_id'') = ''op-1''"
      "event_node (\<lambda>_. []) e = ''ltx''" if "e \<in> {render_end, item_end}" for e
    using that by (auto simp: render_end_def item_end_def record_fields)
  show ?thesis
    using keeps [of render_end] keeps [of item_end] ends [of render_end] ends [of item_end] start shows_item shows_none node title
    by (auto simp: record_fields Let_def)
qed

section \<open>Timeline\<close>

lemma add_activity_hidden: "event_activity ps t hp ev = None \<Longrightarrow> add_activity ps t hp (n, ev) l = l"
  by (simp add: add_activity_def)

definition event_key :: "(json \<Rightarrow> string) \<Rightarrow> jdict \<Rightarrow> nat \<Rightarrow> string" where
  "event_key ps ev n = (if py_truthy (jget ev ''event_id'') then str_of ps (jget ev ''event_id'') else ''event-'' @ str_nat (n + 1))"

lemma add_activity_cases:
  assumes "event_activity ps t hp ev = Some (kind, status, label, detail, sid, item, key)"
  obtains (known) k where "key = Some k" "k \<in> set (seen_transitions l)" "add_activity ps t hp (n, ev) l = l"
    | (replayed) l1 where "\<not> (\<exists>k. key = Some k \<and> k \<in> set (seen_transitions l))" "event_key ps ev n \<in> set (seen_ids l)"
        "add_activity ps t hp (n, ev) l = l1" "shown l1 = shown l" "seen_ids l1 = seen_ids l"
        "set (seen_transitions l1) = set (seen_transitions l) \<union> set_option key"
    | (new) l1 a where "\<not> (\<exists>k. key = Some k \<and> k \<in> set (seen_transitions l))" "event_key ps ev n \<notin> set (seen_ids l)"
        "add_activity ps t hp (n, ev) l = l1" "shown l1 = shown l @ [a]" "act_id a = event_key ps ev n"
        "seen_ids l1 = event_key ps ev n # seen_ids l" "set (seen_transitions l1) = set (seen_transitions l) \<union> set_option key"
proof (cases "\<exists>k. key = Some k \<and> k \<in> set (seen_transitions l)")
  case True
  then show thesis
    using known assms by (auto simp: add_activity_def)
next
  case False
  let ?l1 = "case key of None \<Rightarrow> l | Some k \<Rightarrow> l\<lparr>seen_transitions := k # seen_transitions l\<rparr>"
  have l1: "shown ?l1 = shown l" "seen_ids ?l1 = seen_ids l" "set (seen_transitions ?l1) = set (seen_transitions l) \<union> set_option key"
    by (auto split: option.splits)
  show thesis
  proof (cases "event_key ps ev n \<in> set (seen_ids l)")
    case True
    then have "add_activity ps t hp (n, ev) l = ?l1"
      using False assms l1(2) by (auto simp: add_activity_def event_key_def Let_def split: option.splits)
    then show thesis
      using replayed [OF False True] l1 by blast
  next
    case fresh: False
    then have "\<exists>a. add_activity ps t hp (n, ev) l = ?l1\<lparr>seen_ids := event_key ps ev n # seen_ids l, shown := shown l @ [a]\<rparr> \<and>
        act_id a = event_key ps ev n"
      using False assms by (auto simp: add_activity_def event_key_def Let_def split: option.splits)
    then show thesis
      using new [OF False fresh] l1 by (auto simp del: option.case_eq_if)
  qed
qed

text \<open>The ids that were shown are those that were seen, each once.\<close>

definition line_inv :: "timeline \<Rightarrow> bool" where
  "line_inv l \<longleftrightarrow> distinct (map act_id (shown l)) \<and> set (map act_id (shown l)) = set (seen_ids l)"

lemma add_activity_inv: "line_inv l \<Longrightarrow> line_inv (add_activity ps t hp (n, ev) l)"
proof (cases "event_activity ps t hp ev")
  case (Some x)
  assume inv: "line_inv l"
  obtain kind status label detail sid item key where x: "x = (kind, status, label, detail, sid, item, key)"
    by (cases x) auto
  from Some [unfolded x] show ?thesis
    by (cases rule: add_activity_cases [where l = l and n = n]) (use inv in \<open>auto simp: line_inv_def\<close>)
qed (simp add: add_activity_hidden)

lemma fold_inv: "line_inv l \<Longrightarrow> line_inv (fold (add_activity ps t hp) xs l)"
  by (induction xs arbitrary: l) (auto simp: add_activity_inv)

text \<open>What has been added stays known: a replay of any event that was folded in changes nothing.\<close>

definition known_event :: "(json \<Rightarrow> string) \<Rightarrow> topology \<Rightarrow> bool \<Rightarrow> jdict \<Rightarrow> timeline \<Rightarrow> bool" where
  "known_event ps t hp ev l =
    (case event_activity ps t hp ev of
       None \<Rightarrow> True
     | Some (kind, status, label, detail, sid, item, key) \<Rightarrow>
         (case key of None \<Rightarrow> str_of ps (jget ev ''event_id'') \<in> set (seen_ids l) | Some k \<Rightarrow> k \<in> set (seen_transitions l)))"

lemma known_unchanged: "py_truthy (jget ev ''event_id'') \<Longrightarrow> known_event ps t hp ev l \<Longrightarrow> add_activity ps t hp (n, ev) l = l"
  by (auto simp: known_event_def add_activity_def Let_def split: option.splits prod.splits)

lemma known_after: "py_truthy (jget ev ''event_id'') \<Longrightarrow> known_event ps t hp ev (add_activity ps t hp (n, ev) l)"
proof (cases "event_activity ps t hp ev")
  case (Some x)
  assume id: "py_truthy (jget ev ''event_id'')"
  obtain kind status label detail sid item key where x: "x = (kind, status, label, detail, sid, item, key)"
    by (cases x) auto
  from Some [unfolded x] show ?thesis
    by (cases rule: add_activity_cases [where l = l and n = n])
       (use id in \<open>auto simp: known_event_def Some x event_key_def split: option.splits\<close>)
qed (simp add: known_event_def)

lemma known_keeps: "known_event ps t hp ev l \<Longrightarrow> known_event ps t hp ev (add_activity ps t hp (n, e) l)"
proof (cases "event_activity ps t hp e")
  case (Some x)
  assume k: "known_event ps t hp ev l"
  obtain kind status label detail sid item key where x: "x = (kind, status, label, detail, sid, item, key)"
    by (cases x) auto
  from Some [unfolded x] have "set (seen_ids l) \<subseteq> set (seen_ids (add_activity ps t hp (n, e) l)) \<and>
      set (seen_transitions l) \<subseteq> set (seen_transitions (add_activity ps t hp (n, e) l))"
    by (cases rule: add_activity_cases [where l = l and n = n]) auto
  then show ?thesis
    using k by (auto simp: known_event_def split: option.splits)
qed (simp add: add_activity_hidden)

lemma known_fold: "known_event ps t hp ev l \<Longrightarrow> known_event ps t hp ev (fold (add_activity ps t hp) xs l)"
  by (induction xs arbitrary: l) (auto simp: known_keeps)

lemma folded_known:
  assumes "(n, ev) \<in> set xs" "py_truthy (jget ev ''event_id'')"
  shows "known_event ps t hp ev (fold (add_activity ps t hp) xs l)"
  using assms(1)
proof (induction xs arbitrary: l)
  case (Cons x xs)
  then show ?case
    using known_after [OF assms(2)] known_fold by auto
qed simp

definition line_of :: "(json \<Rightarrow> string) \<Rightarrow> topology \<Rightarrow> jdict list \<Rightarrow> timeline" where
  "line_of ps t evs =
    fold (add_activity ps t (list_ex (\<lambda>ev. jget ev ''type'' = JStr ''progress_event'') evs)) (zip [0..<length evs] evs)
      \<lparr>shown = [], seen_ids = [], seen_transitions = []\<rparr>"

lemma activity_line: "build_activity ps t limit evs = last_entries limit (shown (line_of ps t evs))"
  by (simp add: build_activity_def line_of_def Let_def)

lemma line_of_inv: "line_inv (line_of ps t evs)"
  unfolding line_of_def by (rule fold_inv) (simp add: line_inv_def)

lemma line_of_snoc:
  "list_ex (\<lambda>ev. jget ev ''type'' = JStr ''progress_event'') (evs @ [ev]) = list_ex (\<lambda>ev. jget ev ''type'' = JStr ''progress_event'') evs \<Longrightarrow>
   line_of ps t (evs @ [ev]) =
     add_activity ps t (list_ex (\<lambda>ev. jget ev ''type'' = JStr ''progress_event'') evs) (length evs, ev) (line_of ps t evs)"
  by (simp add: line_of_def)

lemma line_of_replay:
  assumes "ev \<in> set evs" "py_truthy (jget ev ''event_id'')"
  shows "line_of ps t (evs @ [ev]) = line_of ps t evs"
proof -
  let ?hp = "list_ex (\<lambda>ev. jget ev ''type'' = JStr ''progress_event'') evs"
  have hp: "list_ex (\<lambda>ev. jget ev ''type'' = JStr ''progress_event'') (evs @ [ev]) = ?hp"
    using assms(1) by (auto simp: list_ex_iff)
  obtain n where "(n, ev) \<in> set (zip [0..<length evs] evs)"
    using assms(1) by (metis in_set_conv_nth in_set_zip length_map map_nth fst_conv snd_conv length_upt minus_nat.diff_0)
  then have "known_event ps t ?hp ev (line_of ps t evs)"
    unfolding line_of_def by (rule folded_known) fact
  then show ?thesis
    using line_of_snoc [OF hp] known_unchanged [OF assms(2)] by simp
qed

lemma line_of_replays:
  "set evs' \<subseteq> set evs \<Longrightarrow> list_all (\<lambda>ev. py_truthy (jget ev ''event_id'')) evs' \<Longrightarrow> line_of ps t (evs @ evs') = line_of ps t evs"
proof (induction evs' rule: rev_induct)
  case (snoc ev evs')
  then have "line_of ps t ((evs @ evs') @ [ev]) = line_of ps t (evs @ evs')"
    by (intro line_of_replay) auto
  then show ?case
    using snoc by simp
qed simp

lemma distinct_last_entries: "distinct (map f xs) \<Longrightarrow> distinct (map f (last_entries limit xs))"
  by (simp add: last_entries_def Let_def drop_map [symmetric])

text \<open>
   The timeline shows an event once. Its entries have distinct ids; it has at most as many as the limit
  asks for, when that is positive, and all of them when it is not; and replaying events that carry an id, in
  any number and order, does not change it.
\<close>

theorem timeline_once:
  "distinct (map act_id (build_activity ps t limit evs)) \<and>
   (0 < limit \<longrightarrow> int (length (build_activity ps t limit evs)) \<le> limit) \<and>
   (limit \<le> 0 \<longrightarrow> build_activity ps t limit evs = shown (line_of ps t evs)) \<and>
   (set evs' \<subseteq> set evs \<and> list_all (\<lambda>ev. py_truthy (jget ev ''event_id'')) evs' \<longrightarrow>
      build_activity ps t limit (evs @ evs') = build_activity ps t limit evs)"
proof (intro conjI impI)
  show "distinct (map act_id (build_activity ps t limit evs))"
    using line_of_inv [of ps t evs] unfolding activity_line line_inv_def by (intro distinct_last_entries) simp
  show "int (length (build_activity ps t limit evs)) \<le> limit" if "0 < limit"
    using that by (simp add: activity_line last_entries_def Let_def)
  show "build_activity ps t limit evs = shown (line_of ps t evs)" if "limit \<le> 0"
    using that by (simp add: activity_line last_entries_def)
  show "build_activity ps t limit (evs @ evs') = build_activity ps t limit evs"
    if "set evs' \<subseteq> set evs \<and> list_all (\<lambda>ev. py_truthy (jget ev ''event_id'')) evs'"
    using line_of_replays [of evs' evs ps t] that by (simp add: activity_line)
qed

lemma timeline_once_witness:
  "build_activity (\<lambda>_. []) default_topology 5
     ([obj [(''type'', JStr ''run_start''), (''event_id'', JStr ''e1'')]] @ [obj [(''type'', JStr ''run_start''), (''event_id'', JStr ''e1'')]]) =
   build_activity (\<lambda>_. []) default_topology 5 [obj [(''type'', JStr ''run_start''), (''event_id'', JStr ''e1'')]]"
  using timeline_once [of "\<lambda>_. []" default_topology 5 "[obj [(''type'', JStr ''run_start''), (''event_id'', JStr ''e1'')]]"
      "[obj [(''type'', JStr ''run_start''), (''event_id'', JStr ''e1'')]]"]
  by (simp add: jget_def obj_def fmlookup_of_list)

section \<open>Snapshot\<close>








































end
