(* ===== verification/Model_Events.thy ===== *)
theory Model_Events
  imports Progress "HOL-Library.Char_ord" "HOL-Library.List_Lexorder" "HOL-Library.Multiset"
begin

text \<open>
  The projector of language model events (\<open>LangChainEventProjector\<close> of \<open>progress.py\<close>) and the translator that
  asks it first. Unlike the events of the graph these carry live objects: a value is a JSON value or an object
  with attributes, which may be iterable. A dictionary of the program is an association list with distinct keys.
  \<open>dump\<close> is what \<open>model_dump\<close> makes of an object, and \<open>ps\<close> is \<open>str\<close> of JSON values that are not texts.
\<close>

section \<open>Values\<close>

datatype live =
    LNone
  | LBool bool
  | LNum rat
  | LText string
  | LList "live list"
  | LDict "(string \<times> live) list"
  | LObject "(string \<times> live) list" "live list option"

type_synonym live_dict = "(string \<times> live) list"

definition lget :: "live_dict \<Rightarrow> string \<Rightarrow> live" where
  "lget d k = (case map_of d k of None \<Rightarrow> LNone | Some v \<Rightarrow> v)"

text \<open>\<open>getattr(v, k, None)\<close>, and what iterating over a value gives.\<close>

definition getattr :: "live \<Rightarrow> string \<Rightarrow> live" where
  "getattr v k = (case v of LObject as _ \<Rightarrow> lget as k | _ \<Rightarrow> LNone)"

definition iterated :: "live \<Rightarrow> live list option" where
  "iterated v = (case v of
     LText s \<Rightarrow> Some (map (\<lambda>c. LText [c]) s)
   | LList xs \<Rightarrow> Some xs
   | LDict kvs \<Rightarrow> Some (map (\<lambda>kv. LText (fst kv)) kvs)
   | LObject _ items \<Rightarrow> items
   | _ \<Rightarrow> None)"

definition is_dict :: "live \<Rightarrow> bool" where
  "is_dict v = (case v of LDict _ \<Rightarrow> True | _ \<Rightarrow> False)"

definition dict_or_empty :: "live \<Rightarrow> live_dict" where
  "dict_or_empty v = (case v of LDict d \<Rightarrow> d | _ \<Rightarrow> [])"

definition live_truthy :: "live \<Rightarrow> bool" where
  "live_truthy v = (case v of LNone \<Rightarrow> False | LBool b \<Rightarrow> b | LNum q \<Rightarrow> q \<noteq> 0 | LText s \<Rightarrow> s \<noteq> [] | LList xs \<Rightarrow> xs \<noteq> []
     | LDict d \<Rightarrow> d \<noteq> [] | LObject _ _ \<Rightarrow> True)"

primrec to_plain :: "(live_dict \<Rightarrow> live list option \<Rightarrow> json) \<Rightarrow> live \<Rightarrow> json" where
  "to_plain dump LNone = JNull"
| "to_plain dump (LBool b) = JBool b"
| "to_plain dump (LNum q) = JNum q"
| "to_plain dump (LText s) = JStr s"
| "to_plain dump (LList xs) = JList (map (to_plain dump) xs)"
| "to_plain dump (LDict d) = JObj (obj (map (map_prod id (to_plain dump)) d))"
| "to_plain dump (LObject as items) = dump as items"

text \<open>\<open>str(v or "")\<close>.\<close>

definition live_text :: "(json \<Rightarrow> string) \<Rightarrow> (live_dict \<Rightarrow> live list option \<Rightarrow> json) \<Rightarrow> live \<Rightarrow> string" where
  "live_text ps dump v = (if live_truthy v then (case v of LText s \<Rightarrow> s | _ \<Rightarrow> ps (to_plain dump v)) else [])"

section \<open>Usage\<close>

primrec live_size :: "live \<Rightarrow> nat" where
  "live_size LNone = 1"
| "live_size (LBool b) = 1"
| "live_size (LNum q) = 1"
| "live_size (LText s) = 1"
| "live_size (LList xs) = 1 + sum_list (map live_size xs)"
| "live_size (LDict d) = 2 + sum_list (map snd (map (map_prod id live_size) d))"
| "live_size (LObject as items) = 1 + sum_list (map snd (map (map_prod id live_size) as)) +
     (case map_option (map live_size) items of None \<Rightarrow> 0 | Some ns \<Rightarrow> sum_list ns)"

definition message_of :: "live \<Rightarrow> live" where
  "message_of v = (case v of LObject as _ \<Rightarrow> (case map_of as ''message'' of None \<Rightarrow> v | Some m \<Rightarrow> m) | _ \<Rightarrow> v)"

definition generation_messages :: "live \<Rightarrow> live list" where
  "generation_messages gs = (case iterated gs of
     None \<Rightarrow> []
   | Some groups \<Rightarrow> concat (map (\<lambda>g. map message_of (case iterated g of None \<Rightarrow> [g] | Some xs \<Rightarrow> xs)) groups))"

definition first_some :: "'a option list \<Rightarrow> 'a option" where
  "first_some xs = (case find (\<lambda>x. x \<noteq> None) xs of None \<Rightarrow> None | Some x \<Rightarrow> x)"

definition direct_usage :: "live_dict \<Rightarrow> live_dict option" where
  "direct_usage d = (case lget d ''usage_metadata'' of LDict u \<Rightarrow> Some u | _ \<Rightarrow> None)"

lemma size_elem: "x \<in> set xs \<Longrightarrow> live_size x \<le> sum_list (map live_size xs)"
  by (simp add: member_le_sum_list)

lemma size_value: "kv \<in> set d \<Longrightarrow> live_size (snd kv) \<le> sum_list (map snd (map (map_prod id live_size) d))"
  by (induction d) auto

lemma size_iterated: "iterated v = Some xs \<Longrightarrow> x \<in> set xs \<Longrightarrow> live_size x \<le> live_size v"
  by (cases v) (auto simp: iterated_def dest: size_elem)

lemma size_attr: "map_of as k = Some v \<Longrightarrow> live_size v < live_size (LObject as items)"
  using size_value [of "(k, v)" as] by (auto dest!: map_of_SomeD)

lemma size_message: "live_size (message_of v) \<le> live_size v"
proof (cases v)
  case (LObject as items)
  then show ?thesis
    using size_attr [of as "''message''" _ items] by (auto simp: message_of_def less_imp_le split: option.split)
qed (simp_all add: message_of_def)

lemma size_generation:
  assumes "x \<in> set (generation_messages gs)"
  shows "live_size x \<le> live_size gs"
proof -
  from assms obtain groups g y where groups: "iterated gs = Some groups" "g \<in> set groups"
      and y: "y \<in> set (case iterated g of None \<Rightarrow> [g] | Some xs \<Rightarrow> xs)" "x = message_of y"
    unfolding generation_messages_def by (cases "iterated gs") auto
  have "live_size y \<le> live_size g"
    using y(1) size_iterated [of g _ y] by (auto split: option.split_asm)
  also have "\<dots> \<le> live_size gs"
    by (rule size_iterated [OF groups])
  finally show ?thesis
    using size_message [of y] y(2) by simp
qed

function usage_in :: "live \<Rightarrow> live_dict option" where
  "usage_in (LDict d) =
    (case direct_usage d of
       Some u \<Rightarrow> Some u
     | None \<Rightarrow> first_some (map usage_in (map snd d)))"
| "usage_in (LObject as items) =
    (case direct_usage as of
       Some u \<Rightarrow> Some u
     | None \<Rightarrow> (case map_of as ''generations'' of None \<Rightarrow> None | Some gs \<Rightarrow> first_some (map usage_in (generation_messages gs))))"
| "usage_in LNone = None"
| "usage_in (LBool b) = None"
| "usage_in (LNum q) = None"
| "usage_in (LText s) = None"
| "usage_in (LList xs) = None"
  by pat_completeness auto

termination
proof (relation "measure live_size", goal_cases)
  case (2 d x)
  then obtain kv where "kv \<in> set d" "x = snd kv"
    by auto
  then show ?case
    using size_value [of kv d] by simp
next
  case (3 as items gs x)
  then show ?case
    using size_generation [of x gs] size_attr [of as "''generations''" gs items] by simp
qed simp

section \<open>The projector\<close>

definition model_start :: "string list" where
  "model_start = [''on_chat_model_start'', ''on_llm_start'']"

definition model_stream :: "string list" where
  "model_stream = [''on_chat_model_stream'', ''on_llm_stream'']"

definition model_end :: "string list" where
  "model_end = [''on_chat_model_end'', ''on_llm_end'']"

type_synonym call_key = "string \<times> string \<times> string \<times> string list"

definition live_or :: "live \<Rightarrow> live \<Rightarrow> live" where
  "live_or v w = (if live_truthy v then v else w)"

definition event_type :: "(json \<Rightarrow> string) \<Rightarrow> (live_dict \<Rightarrow> live list option \<Rightarrow> json) \<Rightarrow> live_dict \<Rightarrow> string" where
  "event_type ps dump ev = live_text ps dump (lget ev ''event'')"

definition model_stage :: "(json \<Rightarrow> string) \<Rightarrow> (live_dict \<Rightarrow> live list option \<Rightarrow> json) \<Rightarrow> live_dict \<Rightarrow> string" where
  "model_stage ps dump ev =
    (let m = dict_or_empty (lget ev ''metadata'')
     in live_text ps dump (live_or (lget m ''stage'') (live_or (lget m ''langgraph_node'') (LText ''llm''))))"

definition event_tags :: "live_dict \<Rightarrow> string list" where
  "event_tags ev = (case lget ev ''tags'' of
     LList vs \<Rightarrow> sort (concat (map (\<lambda>v. case v of LText s \<Rightarrow> [s] | _ \<Rightarrow> []) vs))
   | _ \<Rightarrow> [])"

definition model_key :: "(json \<Rightarrow> string) \<Rightarrow> (live_dict \<Rightarrow> live list option \<Rightarrow> json) \<Rightarrow> live_dict \<Rightarrow> call_key" where
  "model_key ps dump ev =
    (live_text ps dump (lget ev ''run_id''), model_stage ps dump ev, event_type ps dump ev, event_tags ev)"

definition some_text :: "string \<Rightarrow> string option" where
  "some_text s = (if s = [] then None else Some s)"

definition plain_text :: "live \<Rightarrow> string option" where
  "plain_text chunk =
    (case chunk of
       LText s \<Rightarrow> some_text s
     | LDict d \<Rightarrow>
         if set (map fst d) \<noteq> {''content''} then None
         else (case lget d ''content'' of LText s \<Rightarrow> some_text s | _ \<Rightarrow> None)
     | v \<Rightarrow>
         (case getattr v ''content'' of
            LText s \<Rightarrow>
              if s = [] then None
              else if list_ex (\<lambda>k. live_truthy (getattr v k)) [''tool_calls'', ''invalid_tool_calls'', ''tool_call_chunks''] then None
              else if list_ex (\<lambda>k. k \<in> set (map fst (dict_or_empty (getattr v ''additional_kwargs''))))
                [''tool_calls'', ''reasoning'', ''structured_response''] then None
              else Some s
          | _ \<Rightarrow> None))"

definition usage_keys :: "string list" where
  "usage_keys = [''input_tokens'', ''output_tokens'', ''total_tokens'', ''total_cost'']"

definition is_number :: "live \<Rightarrow> bool" where
  "is_number v = (case v of LNum _ \<Rightarrow> True | LBool _ \<Rightarrow> True | _ \<Rightarrow> False)"

datatype model_payload =
    Llm_Start string
  | Llm_Token string string
  | Llm_End string "live_dict option"

definition event_data :: "live_dict \<Rightarrow> live_dict" where
  "event_data ev = dict_or_empty (lget ev ''data'')"

definition project_model ::
  "(json \<Rightarrow> string) \<Rightarrow> (live_dict \<Rightarrow> live list option \<Rightarrow> json) \<Rightarrow> call_key list \<Rightarrow> live_dict \<Rightarrow> model_payload option \<times> call_key list" where
  "project_model ps dump seen ev =
    (let ty = event_type ps dump ev; stage = model_stage ps dump ev; key = model_key ps dump ev;
         lifecycle = (ty \<in> set (model_start @ model_end))
     in if ty \<notin> set (model_start @ model_stream @ model_end) then (None, seen)
        else if lifecycle \<and> key \<in> set seen then (None, seen)
        else
          let seen' = (if lifecycle then key # seen else seen)
          in if ty \<in> set model_start then (Some (Llm_Start stage), seen')
             else if ty \<in> set model_end then
               (Some (Llm_End stage (map_option (filter (\<lambda>(k, v). k \<in> set usage_keys \<and> is_number v))
                  (usage_in (lget (event_data ev) ''output'')))), seen')
             else (map_option (Llm_Token stage) (plain_text (lget (event_data ev) ''chunk'')), seen'))"

text \<open>The dictionary that is published.\<close>

definition number_json :: "live \<Rightarrow> json" where
  "number_json v = (case v of LNum q \<Rightarrow> JNum q | LBool b \<Rightarrow> JBool b | _ \<Rightarrow> JNull)"

definition payload_json :: "model_payload \<Rightarrow> jdict" where
  "payload_json p = (case p of
     Llm_Start stage \<Rightarrow> obj [(''type'', JStr ''llm_start''), (''stage'', JStr stage)]
   | Llm_Token stage token \<Rightarrow> obj [(''type'', JStr ''llm_token''), (''stage'', JStr stage), (''token'', JStr token)]
   | Llm_End stage usage \<Rightarrow> obj ([(''type'', JStr ''llm_end''), (''stage'', JStr stage)] @
       (case usage of None \<Rightarrow> [] | Some u \<Rightarrow> [(''usage'', JObj (obj (map (map_prod id number_json) u)))])))"

section \<open>The translator\<close>

text \<open>
  The view of an event of the graph: its values made plain, where the program does not insist on a dictionary.
\<close>

definition event_view :: "(live_dict \<Rightarrow> live list option \<Rightarrow> json) \<Rightarrow> live_dict \<Rightarrow> jdict" where
  "event_view dump ev =
    (let plain = (\<lambda>k. to_plain dump (lget ev k));
         strict = (\<lambda>k. if is_dict (lget ev k) then plain k else JNull)
     in obj [(''event'', plain ''event''), (''name'', plain ''name''), (''run_id'', plain ''run_id''), (''metadata'', strict ''metadata''),
       (''data'', if lget ev ''event'' = LText ''on_custom_event'' then strict ''data'' else plain ''data'')])"

type_synonym translator = "call_key list \<times> open_items"

definition translate_event ::
  "(json \<Rightarrow> string) \<Rightarrow> (live_dict \<Rightarrow> live list option \<Rightarrow> json) \<Rightarrow> topology \<Rightarrow> translator \<Rightarrow> live_dict \<Rightarrow>
   jdict option res \<times> translator" where
  "translate_event ps dump t st ev =
    (let (seen, items) = st; (payload, seen') = project_model ps dump seen ev in
     case payload of
       Some p \<Rightarrow> (Inr (Some (payload_json p)), (seen', items))
     | None \<Rightarrow> let (r, items') = translate ps t items (event_view dump ev) in (r, (seen', items')))"

section \<open>What is published\<close>

text \<open>The payloads of a stream of events, each with its event.\<close>

fun project_stream ::
  "(json \<Rightarrow> string) \<Rightarrow> (live_dict \<Rightarrow> live list option \<Rightarrow> json) \<Rightarrow> call_key list \<Rightarrow> live_dict list \<Rightarrow> (live_dict \<times> model_payload) list" where
  "project_stream ps dump seen [] = []"
| "project_stream ps dump seen (ev # evs) =
    (let (p, seen') = project_model ps dump seen ev
     in (case p of None \<Rightarrow> [] | Some p \<Rightarrow> [(ev, p)]) @ project_stream ps dump seen' evs)"

definition is_lifecycle :: "(json \<Rightarrow> string) \<Rightarrow> (live_dict \<Rightarrow> live list option \<Rightarrow> json) \<Rightarrow> live_dict \<Rightarrow> bool" where
  "is_lifecycle ps dump ev \<longleftrightarrow> event_type ps dump ev \<in> set (model_start @ model_end)"

text \<open>
  A text that was shown as such: the chunk itself, the only entry of a dictionary, or the content of a message without tool
  calls, neither in its attributes nor in its additional arguments.
\<close>

definition shown_as_text :: "live \<Rightarrow> string \<Rightarrow> bool" where
  "shown_as_text chunk s \<longleftrightarrow> s \<noteq> [] \<and>
    (chunk = LText s \<or> (\<exists>d. chunk = LDict d \<and> set (map fst d) = {''content''} \<and> lget d ''content'' = LText s) \<or>
    (\<exists>as items. chunk = LObject as items \<and> lget as ''content'' = LText s \<and> \<not> live_truthy (lget as ''tool_calls'') \<and>
       \<not> live_truthy (lget as ''invalid_tool_calls'') \<and> \<not> live_truthy (lget as ''tool_call_chunks'') \<and>
       (case lget as ''additional_kwargs'' of
          LDict d \<Rightarrow> map_of d ''tool_calls'' = None \<and> map_of d ''reasoning'' = None \<and> map_of d ''structured_response'' = None
        | _ \<Rightarrow> True)))"

text \<open>Two events of the same call: its identifier, its stage, the kind of the event and its tags, in any order.\<close>

definition text_tags :: "live_dict \<Rightarrow> string list" where
  "text_tags ev = (case lget ev ''tags'' of LList vs \<Rightarrow> concat (map (\<lambda>v. case v of LText s \<Rightarrow> [s] | _ \<Rightarrow> []) vs) | _ \<Rightarrow> [])"

definition tag_bag :: "live_dict \<Rightarrow> string multiset" where
  "tag_bag ev = mset (text_tags ev)"

definition same_call :: "(json \<Rightarrow> string) \<Rightarrow> (live_dict \<Rightarrow> live list option \<Rightarrow> json) \<Rightarrow> live_dict \<Rightarrow> live_dict \<Rightarrow> bool" where
  "same_call ps dump e1 e2 \<longleftrightarrow> live_text ps dump (lget e1 ''run_id'') = live_text ps dump (lget e2 ''run_id'') \<and>
    model_stage ps dump e1 = model_stage ps dump e2 \<and> event_type ps dump e1 = event_type ps dump e2 \<and> tag_bag e1 = tag_bag e2"

lemma tags_in_any_order: "event_tags e1 = event_tags e2 \<longleftrightarrow> tag_bag e1 = tag_bag e2"
proof -
  have "sort xs = sort ys \<longleftrightarrow> mset xs = mset ys" for xs ys :: "string list"
    by (metis mset_sort properties_for_sort sorted_sort)
  moreover have "event_tags e = sort (text_tags e)" for e
    by (simp add: event_tags_def text_tags_def split: live.split)
  ultimately show ?thesis
    by (simp add: tag_bag_def)
qed

definition public_payload :: "(json \<Rightarrow> string) \<Rightarrow> (live_dict \<Rightarrow> live list option \<Rightarrow> json) \<Rightarrow> live_dict \<Rightarrow> model_payload \<Rightarrow> bool" where
  "public_payload ps dump ev p \<longleftrightarrow> (case p of
     Llm_Start stage \<Rightarrow> stage = model_stage ps dump ev \<and> event_type ps dump ev \<in> {''on_chat_model_start'', ''on_llm_start''}
   | Llm_Token stage s \<Rightarrow> stage = model_stage ps dump ev \<and> event_type ps dump ev \<in> {''on_chat_model_stream'', ''on_llm_stream''} \<and>
       shown_as_text (lget (event_data ev) ''chunk'') s
   | Llm_End stage usage \<Rightarrow> stage = model_stage ps dump ev \<and> event_type ps dump ev \<in> {''on_chat_model_end'', ''on_llm_end''} \<and>
       list_all (\<lambda>(k, v). k \<in> {''input_tokens'', ''output_tokens'', ''total_tokens'', ''total_cost''} \<and> is_number v)
         (case usage of None \<Rightarrow> [] | Some u \<Rightarrow> u))"

lemma plain_text_shown: "plain_text chunk = Some s \<longleftrightarrow> shown_as_text chunk s"
proof (cases chunk)
  case (LObject as items)
  have "list_ex (\<lambda>k. k \<in> set (map fst (dict_or_empty v))) [''tool_calls'', ''reasoning'', ''structured_response''] \<longleftrightarrow>
      \<not> (case v of LDict d \<Rightarrow> map_of d ''tool_calls'' = None \<and> map_of d ''reasoning'' = None \<and> map_of d ''structured_response'' = None
        | _ \<Rightarrow> True)" for v
    by (cases v) (auto simp: dict_or_empty_def map_of_eq_None_iff simp del: map_of_eq_None_iff [symmetric])
  note this [of "lget as ''additional_kwargs''"]
  then show ?thesis
    using LObject by (cases "lget as ''content''") (simp_all add: plain_text_def shown_as_text_def getattr_def del: set_map list.set_map, blast)
next
  case (LDict d)
  then show ?thesis
    by (cases "lget d ''content''") (auto simp: plain_text_def shown_as_text_def some_text_def)
qed (auto simp: plain_text_def shown_as_text_def some_text_def getattr_def)

lemma project_public: "project_model ps dump seen ev = (Some p, seen') \<Longrightarrow> public_payload ps dump ev p"
  by (auto simp: project_model_def public_payload_def Let_def list_all_iff plain_text_shown model_start_def model_stream_def model_end_def usage_keys_def
      split: if_splits option.splits model_payload.splits)

lemma project_lifecycle:
  assumes "is_lifecycle ps dump ev"
  shows "if model_key ps dump ev \<in> set seen then project_model ps dump seen ev = (None, seen)
    else \<exists>p. project_model ps dump seen ev = (Some p, model_key ps dump ev # seen)"
  using assms by (auto simp: is_lifecycle_def project_model_def Let_def)

lemma project_other: "\<not> is_lifecycle ps dump ev \<Longrightarrow> snd (project_model ps dump seen ev) = seen"
  by (auto simp: is_lifecycle_def project_model_def Let_def)

text \<open>The keys seen after a part of the stream.\<close>

definition seen_after :: "(json \<Rightarrow> string) \<Rightarrow> (live_dict \<Rightarrow> live list option \<Rightarrow> json) \<Rightarrow> call_key list \<Rightarrow> live_dict list \<Rightarrow> call_key list" where
  "seen_after ps dump seen evs = fold (\<lambda>ev seen. snd (project_model ps dump seen ev)) evs seen"

lemma seen_after_keys: "set (seen_after ps dump seen evs) = set seen \<union> model_key ps dump ` {ev \<in> set evs. is_lifecycle ps dump ev}"
proof (induction evs arbitrary: seen)
  case (Cons ev evs)
  show ?case
  proof (cases "is_lifecycle ps dump ev")
    case True
    then show ?thesis
      using project_lifecycle [OF True, of seen] Cons by (auto simp: seen_after_def split: if_splits)
  next
    case False
    then have "{e \<in> set (ev # evs). is_lifecycle ps dump e} = {e \<in> set evs. is_lifecycle ps dump e}"
      by auto
    then show ?thesis
      using project_other [OF False, of seen] Cons [of seen] by (simp add: seen_after_def)
  qed
qed (simp add: seen_after_def)

lemma project_snoc: "project_stream ps dump seen (evs @ [ev]) = project_stream ps dump seen evs @
    (case fst (project_model ps dump (seen_after ps dump seen evs) ev) of None \<Rightarrow> [] | Some p \<Rightarrow> [(ev, p)])"
  by (induction evs arbitrary: seen) (auto simp: seen_after_def split: prod.split)

lemma stream_public: "list_all (\<lambda>(ev, p). public_payload ps dump ev p) (project_stream ps dump seen evs)"
  by (induction evs arbitrary: seen) (auto dest: project_public split: prod.split option.split)

text \<open>The event with a number is the first one of the stream of its call, stage, kind and tags.\<close>

definition first_of_call :: "(json \<Rightarrow> string) \<Rightarrow> (live_dict \<Rightarrow> live list option \<Rightarrow> json) \<Rightarrow> live_dict list \<Rightarrow> nat \<Rightarrow> bool" where
  "first_of_call ps dump evs i \<longleftrightarrow> is_lifecycle ps dump (evs ! i) \<and>
    \<not> list_ex (\<lambda>e. is_lifecycle ps dump e \<and> same_call ps dump e (evs ! i)) (take i evs)"

lemma first_of_call_snoc:
  "i < length evs \<Longrightarrow> first_of_call ps dump (evs @ [ev]) i = first_of_call ps dump evs i"
  "first_of_call ps dump (evs @ [ev]) (length evs) \<longleftrightarrow> is_lifecycle ps dump ev \<and>
     \<not> list_ex (\<lambda>e. is_lifecycle ps dump e \<and> same_call ps dump e ev) evs"
  by (simp_all add: first_of_call_def nth_append)

lemma announced_events:
  "map fst (filter (\<lambda>(ev, p). is_lifecycle ps dump ev) (project_stream ps dump [] evs)) =
   map (nth evs) (filter (first_of_call ps dump evs) [0..<length evs])"
proof (induction evs rule: rev_induct)
  case (snoc ev evs)
  let ?seen = "seen_after ps dump [] evs"
  have same: "same_call ps dump e ev \<longleftrightarrow> model_key ps dump e = model_key ps dump ev" for e
    by (auto simp: same_call_def model_key_def tags_in_any_order)
  have known: "model_key ps dump ev \<in> set ?seen \<longleftrightarrow> list_ex (\<lambda>e. is_lifecycle ps dump e \<and> same_call ps dump e ev) evs"
    unfolding seen_after_keys by (auto simp: same list_ex_iff intro: rev_image_eqI)
  have "map fst (filter (\<lambda>(e, p). is_lifecycle ps dump e) (case fst (project_model ps dump ?seen ev) of None \<Rightarrow> [] | Some p \<Rightarrow> [(ev, p)])) =
      (if is_lifecycle ps dump ev \<and> model_key ps dump ev \<notin> set ?seen then [ev] else [])"
    using project_lifecycle [of ps dump ev ?seen] by (auto split: option.split if_splits)
  moreover have "map (nth (evs @ [ev])) (filter (first_of_call ps dump (evs @ [ev])) [0..<length evs]) =
      map (nth evs) (filter (first_of_call ps dump evs) [0..<length evs])"
    by (intro map_cong filter_cong refl) (auto simp: first_of_call_snoc(1) nth_append)
  ultimately show ?case
    using snoc.IH by (simp add: project_snoc first_of_call_snoc(2) known)
qed simp

text \<open>Texts are published as they come, whatever was announced.\<close>

lemma project_text: "fst (project_model ps dump seen ev) = Some (Llm_Token stage s) \<longleftrightarrow>
    event_type ps dump ev \<in> {''on_chat_model_stream'', ''on_llm_stream''} \<and> stage = model_stage ps dump ev \<and>
    shown_as_text (lget (event_data ev) ''chunk'') s"
  by (auto simp: project_model_def model_start_def model_stream_def model_end_def Let_def simp flip: plain_text_shown)

lemma stream_texts: "(ev, Llm_Token stage s) \<in> set (project_stream ps dump seen evs) \<longleftrightarrow> ev \<in> set evs \<and>
    fst (project_model ps dump [] ev) = Some (Llm_Token stage s)"
proof (induction evs arbitrary: seen)
  case (Cons e evs)
  have "fst (project_model ps dump seen e) = Some (Llm_Token stage s) \<longleftrightarrow> fst (project_model ps dump [] e) = Some (Llm_Token stage s)"
    unfolding project_text ..
  then show ?case
    using Cons [of "snd (project_model ps dump seen e)"] by (cases "project_model ps dump seen e") (auto split: option.splits)
qed simp

text \<open>The two parts of the translator do not touch each other's state.\<close>

lemma event_view_type: "lget ev ''event'' = LText ty \<Longrightarrow> text_of ps (jget (event_view dump ev) ''event'') = ty"
  by (simp add: event_view_def Let_def jget_def obj_def fmlookup_of_list text_of_def str_of_def)

lemma translator_parts:
  assumes "lget ev ''event'' = LText ty"
  shows "snd (translate_event ps dump t (seen, items) ev) =
    (if ty \<in> set (model_start @ model_stream @ model_end) then (snd (project_model ps dump seen ev), items)
     else (seen, snd (translate ps t items (event_view dump ev))))"
proof -
  have ty: "event_type ps dump ev = ty"
    using assms by (simp add: event_type_def live_text_def live_truthy_def)
  show ?thesis
  proof (cases "ty \<in> set (model_start @ model_stream @ model_end)")
    case True
    then have "ty \<noteq> ''on_custom_event''" "ty \<notin> {''on_chain_start'', ''on_chain_end''}"
      by (auto simp: model_start_def model_stream_def model_end_def)
    then have "translate ps t items (event_view dump ev) = (Inr None, items)"
      using event_view_type [OF assms] by (simp add: translate_def)
    then show ?thesis
      using True by (auto simp: translate_event_def split: prod.splits option.splits)
  next
    case False
    then have "project_model ps dump seen ev = (None, seen)"
      using ty by (simp add: project_model_def)
    then show ?thesis
      unfolding if_not_P [OF False] by (simp add: translate_event_def split: prod.split)
  qed
qed

text \<open>
  C34. What is published of language models is public. Of a stream of events, the starts and ends of calls that are
  announced are exactly the first of each call, stage, kind and tags, in their order. A start carries the stage only; a
  text is published exactly for the streamed chunks that are shown as text: a text, the only entry of a
  dictionary, or the content of a message that has tool calls neither in its attributes nor in its additional
  arguments; and an end carries numbers under the four keys of usage only.
\<close>

theorem model_events_public:
  "map fst (filter (\<lambda>(ev, p). is_lifecycle ps dump ev) (project_stream ps dump [] evs)) =
     map (nth evs) (filter (first_of_call ps dump evs) [0..<length evs]) \<and>
   list_all (\<lambda>(ev, p). public_payload ps dump ev p) (project_stream ps dump [] evs) \<and>
   ((ev, Llm_Token stage s) \<in> set (project_stream ps dump [] evs) \<longleftrightarrow> ev \<in> set evs \<and>
     event_type ps dump ev \<in> {''on_chat_model_stream'', ''on_llm_stream''} \<and> stage = model_stage ps dump ev \<and>
     shown_as_text (lget (event_data ev) ''chunk'') s)"
  by (intro conjI announced_events stream_public) (simp only: stream_texts project_text)

end
