(* ===== verification/Throttle.thy ===== *)
theory Throttle
  imports Prelude "HOL-Library.Multiset"
begin

text \<open>
  The throttle that all calls of one provider share (\<open>adapters/_throttle.py\<close>): at most \<open>concurrency\<close> calls at a
  time, whose slots are at least \<open>min_interval\<close> apart. Tasks interleave where the code awaits: on the semaphore, in the
  sleep until the slot, and in the call. Clock readings and durations are rationals, in seconds.
\<close>

section \<open>Slots\<close>

record throttle =
  min_interval :: rat
  concurrency :: nat
  next_start :: "rat option"

definition new_throttle :: "rat \<Rightarrow> int \<Rightarrow> throttle" where
  "new_throttle interval n = \<lparr>min_interval = interval, concurrency = nat (max 1 n), next_start = None\<rparr>"

text \<open>The reservation of a slot, between two awaits.\<close>

definition reserve_slot :: "rat \<Rightarrow> throttle \<Rightarrow> rat \<times> throttle" where
  "reserve_slot now th =
    (let start = (case next_start th of None \<Rightarrow> now | Some s \<Rightarrow> if now < s then s else now)
     in (start, th\<lparr>next_start := Some (start + min_interval th)\<rparr>))"

section \<open>Tasks\<close>

text \<open>Where a task that holds the semaphore is: before its call, or in it.\<close>

datatype holder = Sleeping rat | Calling rat

record throttled =
  shared :: throttle
  time :: rat
  holders :: "(nat \<times> holder) list"
  slots :: "rat list"
  begun :: "(rat \<times> rat) list"

definition idle :: "rat \<Rightarrow> int \<Rightarrow> rat \<Rightarrow> throttled" where
  "idle interval n now = \<lparr>shared = new_throttle interval n, time = now, holders = [], slots = [], begun = []\<rparr>"

text \<open>
  The clock goes on; a task takes the semaphore, reads the clock and reserves its slot; the call begins, at its slot or
  later; a task gives the semaphore back, whether its call ended or it was cancelled.
\<close>

inductive throttle_step :: "throttled \<Rightarrow> throttled \<Rightarrow> bool" where
  goes_on: "time s \<le> now \<Longrightarrow> throttle_step s (s\<lparr>time := now\<rparr>)"
| enters: "length (holders s) < concurrency (shared s) \<Longrightarrow> task \<notin> fst ` set (holders s) \<Longrightarrow>
    reserve_slot (time s) (shared s) = (start, th) \<Longrightarrow>
    throttle_step s (s\<lparr>shared := th, holders := (task, Sleeping start) # holders s, slots := start # slots s\<rparr>)"
| begins: "(task, Sleeping start) \<in> set (holders s) \<Longrightarrow> start \<le> time s \<Longrightarrow>
    throttle_step s (s\<lparr>holders := map (\<lambda>h. if fst h = task then (task, Calling start) else h) (holders s),
      begun := (start, time s) # begun s\<rparr>)"
| leaves: "task \<in> fst ` set (holders s) \<Longrightarrow>
    throttle_step s (s\<lparr>holders := filter (\<lambda>h. fst h \<noteq> task) (holders s)\<rparr>)"

inductive_cases throttle_stepE: "throttle_step s s'"

abbreviation throttle_run :: "throttled \<Rightarrow> throttled \<Rightarrow> bool" where
  "throttle_run \<equiv> throttle_step\<^sup>*\<^sup>*"

section \<open>Invariant\<close>

definition spaced :: "rat \<Rightarrow> rat list \<Rightarrow> bool" where
  "spaced d xs \<longleftrightarrow> sorted_wrt (\<lambda>later earlier. earlier + d \<le> later) xs"

text \<open>The slots that tasks wait for.\<close>

definition awaited :: "(nat \<times> holder) list \<Rightarrow> rat multiset" where
  "awaited hs = sum_list (map (\<lambda>h. case snd h of Sleeping x \<Rightarrow> {#x#} | Calling _ \<Rightarrow> {#}) hs)"

definition throttle_inv :: "rat \<Rightarrow> int \<Rightarrow> throttled \<Rightarrow> bool" where
  "throttle_inv interval n s \<longleftrightarrow>
    min_interval (shared s) = interval \<and> concurrency (shared s) = nat (max 1 n) \<and> length (holders s) \<le> concurrency (shared s) \<and>
    distinct (map fst (holders s)) \<and> spaced interval (slots s) \<and>
    (\<forall>x \<in> set (slots s). \<exists>nxt. next_start (shared s) = Some nxt \<and> x + interval \<le> nxt) \<and>
    (\<forall>(start, at) \<in> set (begun s). start \<le> at) \<and>
    mset (map fst (begun s)) + awaited (holders s) \<subseteq># mset (slots s)"

lemma inv_idle: "throttle_inv interval n (idle interval n now)"
  by (simp add: throttle_inv_def idle_def new_throttle_def spaced_def awaited_def)

lemma reserve_slot_next:
  assumes "reserve_slot now th = (start, th')"
  shows "th' = th\<lparr>next_start := Some (start + min_interval th)\<rparr>" "next_start th = Some nxt \<Longrightarrow> nxt \<le> start" "now \<le> start"
  using assms by (auto simp: reserve_slot_def Let_def split: option.splits if_splits)

abbreviation begin_call :: "nat \<Rightarrow> rat \<Rightarrow> (nat \<times> holder) list \<Rightarrow> (nat \<times> holder) list" where
  "begin_call task start \<equiv> map (\<lambda>h. if fst h = task then (task, Calling start) else h)"

lemma awaited_begins:
  "distinct (map fst hs) \<Longrightarrow> (task, Sleeping start) \<in> set hs \<Longrightarrow> add_mset start (awaited (begin_call task start hs)) = awaited hs"
proof (induction hs)
  case (Cons h hs)
  show ?case
  proof (cases "fst h = task")
    case True
    then have other: "task \<notin> fst ` set hs"
      using Cons.prems(1) by auto
    then have "begin_call task start hs = hs"
      by (intro map_idI) force
    moreover have "h = (task, Sleeping start)"
      using Cons.prems(2) other by force
    ultimately show ?thesis
      by (simp add: awaited_def)
  next
    case False
    then have "add_mset start (awaited (begin_call task start hs)) = awaited hs"
      using Cons by (cases h) auto
    then show ?thesis
      using False unfolding awaited_def by (auto split: holder.split)
  qed
qed simp

lemma awaited_leaves: "awaited (filter P hs) \<subseteq># awaited hs"
  by (induction hs) (auto simp: awaited_def subset_mset.add_increasing)

lemma begin_call_names: "map fst (begin_call task start hs) = map fst hs"
  by (induction hs) auto

lemma inv_step:
  assumes "throttle_step s s'" "throttle_inv interval n s" "0 \<le> interval"
  shows "throttle_inv interval n s'"
  using assms(1)
proof cases
  case (goes_on now)
  then show ?thesis
    using assms(2) by (simp add: throttle_inv_def)
next
  case (enters task start th)
  note res = reserve_slot_next [OF enters(4)]
  have old: "x + interval \<le> start" if "x \<in> set (slots s)" for x
    using assms(2) that res(2) by (fastforce simp: throttle_inv_def)
  have "x + interval \<le> start + interval" if "x \<in> set (slots s)" for x
    using old [OF that] assms(3) by linarith
  then show ?thesis
    using assms(2) enters(2,3) old by (auto simp: enters(1) res(1) throttle_inv_def spaced_def awaited_def)
next
  case (begins task start)
  have old: "distinct (map fst (holders s))" "mset (map fst (begun s)) + awaited (holders s) \<subseteq># mset (slots s)"
    using assms(2) by (simp_all add: throttle_inv_def)
  have "mset (map fst ((start, time s) # begun s)) + awaited (begin_call task start (holders s)) \<subseteq># mset (slots s)"
    using old(2) by (simp flip: awaited_begins [OF old(1) begins(2)])
  then show ?thesis
    using assms(2) begins(3) unfolding begins(1) throttle_inv_def
    by (simp add: begin_call_names del: map_map list.set_map)
next
  case (leaves task)
  have "mset (map fst (begun s)) + awaited (filter (\<lambda>h. fst h \<noteq> task) (holders s)) \<subseteq># mset (slots s)"
    using assms(2) awaited_leaves [of "\<lambda>h. fst h \<noteq> task" "holders s"] unfolding throttle_inv_def
    by (meson subset_mset.add_left_mono subset_mset.order_trans)
  moreover have "length (filter (\<lambda>h. fst h \<noteq> task) (holders s)) \<le> concurrency (shared s)"
    using assms(2) length_filter_le [of "\<lambda>h. fst h \<noteq> task" "holders s"] unfolding throttle_inv_def by linarith
  ultimately show ?thesis
    using assms(2) unfolding leaves(1) throttle_inv_def by (simp add: distinct_map_filter)
qed

lemma throttle_run_inv: "throttle_run s s' \<Longrightarrow> throttle_inv interval n s \<Longrightarrow> 0 \<le> interval \<Longrightarrow> throttle_inv interval n s'"
  by (induction rule: rtranclp_induct) (auto intro: inv_step)

section \<open>What the throttle guarantees\<close>

lemma spaced_filter: "spaced d xs \<Longrightarrow> spaced d (filter P xs)"
  by (simp add: spaced_def sorted_wrt_filter)

lemma spaced_span: "spaced d (x # xs) \<Longrightarrow> last (x # xs) + of_nat (length xs) * d \<le> x"
proof (induction xs arbitrary: x)
  case (Cons y xs)
  have "y + d \<le> x" "spaced d (y # xs)"
    using Cons.prems by (auto simp: spaced_def)
  with Cons.IH [of y] show ?case
    by (simp add: algebra_simps)
qed simp

lemma spaced_window:
  assumes "spaced d xs" "list_all (\<lambda>x. a \<le> x \<and> x < a + w) xs" "0 < w" "0 \<le> d"
  shows "(of_nat (length xs) - 1) * d < w"
proof (cases xs)
  case (Cons x ys)
  have "a \<le> last xs" "x < a + w"
    using assms(2) Cons by (auto simp: list_all_iff)
  then show ?thesis
    using spaced_span [of d x ys] assms(1) unfolding Cons by simp
qed (use assms(3,4) in simp)

lemma distinct_if_sub:
  assumes "mset xs \<subseteq># mset ys" "distinct ys"
  shows "distinct xs"
proof -
  obtain zs where "mset ys = mset (xs @ zs)"
    using assms(1) by (metis ex_mset mset_append subset_mset.le_iff_add)
  then have "distinct (xs @ zs)"
    using assms(2) mset_eq_imp_distinct_iff by blast
  then show ?thesis
    by simp
qed

lemma spaced_distinct: "spaced d xs \<Longrightarrow> 0 < d \<Longrightarrow> distinct xs"
  by (induction xs) (auto simp: spaced_def)

text \<open>
  C31. The throttle spaces the calls. In every state that any tasks reach in any order, at most \<open>concurrency\<close> of
  them hold the semaphore; the slots are at least \<open>min_interval\<close> apart, so that a window of length \<open>w\<close> contains fewer
  than \<open>w / min_interval + 1\<close> of them; every call that began has a slot of its own (the slots of the calls are a
  sub-multiset of the slots reserved, so with a positive interval no two calls have the same one), and none begins before
  its slot.
\<close>

theorem throttle_spaces_calls:
  assumes "throttle_run (idle interval n now) s" "0 \<le> interval"
  shows "length (holders s) \<le> nat (max 1 n) \<and> spaced interval (slots s) \<and>
    (\<forall>a w. 0 < w \<longrightarrow> (of_nat (length (filter (\<lambda>x. a \<le> x \<and> x < a + w) (slots s))) - 1) * interval < w) \<and>
    mset (map fst (begun s)) \<subseteq># mset (slots s) \<and> (0 < interval \<longrightarrow> distinct (map fst (begun s))) \<and>
    list_all (\<lambda>(start, at). start \<le> at) (begun s)"
proof -
  have inv: "throttle_inv interval n s"
    using throttle_run_inv [OF assms(1) inv_idle assms(2)] .
  then have sp: "spaced interval (slots s)"
    by (simp add: throttle_inv_def)
  have own: "mset (map fst (begun s)) \<subseteq># mset (slots s)"
    using inv unfolding throttle_inv_def by (meson mset_subset_eq_add_left subset_mset.order_trans)
  have "distinct (map fst (begun s))" if "0 < interval"
    by (rule distinct_if_sub [OF own spaced_distinct [OF sp that]])
  moreover have "(of_nat (length (filter (\<lambda>x. a \<le> x \<and> x < a + w) (slots s))) - 1) * interval < w" if "0 < w" for a w
    by (rule spaced_window [OF spaced_filter [OF sp]]) (use that assms(2) in \<open>auto simp: list_all_iff\<close>)
  ultimately show ?thesis
    using inv sp own by (auto simp: throttle_inv_def list_all_iff)
qed

text \<open>Two tasks at once: the second sleeps until ten seconds after the first.\<close>

definition two_tasks :: throttled where
  "two_tasks = \<lparr>shared = \<lparr>min_interval = 10, concurrency = 2, next_start = Some 20\<rparr>, time = 0,
     holders = [(2, Sleeping 10), (1, Calling 0)], slots = [10, 0], begun = [(0, 0)]\<rparr>"

lemma two_tasks_reached: "throttle_run (idle 10 2 0) two_tasks"
proof -
  let ?s1 = "\<lparr>shared = \<lparr>min_interval = 10, concurrency = 2, next_start = Some 10\<rparr>, time = 0, holders = [(1, Sleeping 0)], slots = [0], begun = []\<rparr>"
  let ?s2 = "\<lparr>shared = \<lparr>min_interval = 10, concurrency = 2, next_start = Some 10\<rparr>, time = 0, holders = [(1, Calling 0)], slots = [0], begun = [(0, 0)]\<rparr>"
  have "throttle_step (idle 10 2 0) ?s1"
    using enters [of "idle 10 2 0" 1 0 "\<lparr>min_interval = 10, concurrency = 2, next_start = Some 10\<rparr>"]
    by (simp add: idle_def new_throttle_def reserve_slot_def)
  moreover have "throttle_step ?s1 ?s2"
    using begins [of 1 0 ?s1] by simp
  moreover have "throttle_step ?s2 two_tasks"
    using enters [of ?s2 2 10 "\<lparr>min_interval = 10, concurrency = 2, next_start = Some 20\<rparr>"]
    by (simp add: two_tasks_def reserve_slot_def)
  ultimately show ?thesis
    by (meson converse_rtranclp_into_rtranclp rtranclp.rtrancl_refl)
qed

theorem throttle_spaces_calls_witness:
  "length (holders two_tasks) \<le> 2 \<and> spaced 10 (slots two_tasks) \<and> distinct (map fst (begun two_tasks)) \<and> mset (map fst (begun two_tasks)) \<subseteq># {#10, 0#}"
  using throttle_spaces_calls [OF two_tasks_reached] by (simp add: two_tasks_def)

end
