(* ===== verification/Video_Units.thy ===== *)
theory Video_Units
  imports Video_Lifecycle
begin

text \<open>
  What a video life cycle (\<open>tools/video.py\<close>) does to the quota of its provider: it reserves the units when it creates the
  effect, and gives them back only when the submission failed before it was sent or was rejected by the provider.
\<close>

section \<open>Other processes that leave the quota\<close>

fun changes_quota :: "org_id \<Rightarrow> ledger_op \<Rightarrow> bool" where
  "changes_quota org (SetQuota o' p n) = (o' = org)"
| "changes_quota org (Reserve o' k rid p u req) = (o' = org)"
| "changes_quota org (MarkFailed o' k err release et) = (o' = org \<and> release)"
| "changes_quota org _ = False"

definition steady :: "org_id \<Rightarrow> env \<Rightarrow> env" where
  "steady org env = (\<lambda>i. filter (\<lambda>op. \<not> changes_quota org op) (env i))"

text \<open>The effect is recorded with its units, and its quota is \<open>q\<close>.\<close>

definition quota_held :: "org_id \<Rightarrow> string \<Rightarrow> string \<Rightarrow> int \<Rightarrow> quota_row \<Rightarrow> ledger \<Rightarrow> bool" where
  "quota_held org k p u q l \<longleftrightarrow> ledger_inv l \<and>
     (\<exists>row. tget ekey (org, k) (external_effects l) = Some row \<and> provider row = p \<and> units row = u) \<and>
     tget qkey (org, p) (provider_quotas l) = Some q"

lemma exec_quota_rows:
  assumes "\<not> changes_quota org op"
  shows "tget qkey (org, p) (provider_quotas (exec_ledger op l)) = tget qkey (org, p) (provider_quotas l)"
  using assms
  by (cases op)
    (auto simp: op_defs Let_def commit_def release_units_def upd_effect_def tget_tupd qkey_def split: option.splits sum.splits if_splits)

lemma run_quota_rows: "\<forall>op \<in> set ops. \<not> changes_quota org op \<Longrightarrow>
    tget qkey (org, p) (provider_quotas (run_ops exec_ledger ops l)) = tget qkey (org, p) (provider_quotas l)"
  by (induction ops arbitrary: l) (simp_all add: exec_quota_rows)

lemma steady_quota_rows: "tget qkey (org, p) (provider_quotas (interleave (steady org env) w)) = tget qkey (org, p) (provider_quotas (led w))"
  unfolding interleave_def by (rule run_quota_rows) (simp add: steady_def)

lemma held_exec:
  assumes "quota_held org k p u q l" "\<not> changes_quota org op"
  shows "quota_held org k p u q (exec_ledger op l)"
proof -
  obtain row where l: "ledger_inv l" and row: "tget ekey (org, k) (external_effects l) = Some row" "provider row = p" "units row = u"
      and q: "tget qkey (org, p) (provider_quotas l) = Some q"
    using assms(1) by (auto simp: quota_held_def)
  obtain row' where "tget ekey (org, k) (external_effects (exec_ledger op l)) = Some row'" "effect_le row row'"
    using ledger_store.le_exec [OF l, of op] row(1) unfolding ledger_le_def by blast
  then show ?thesis
    using row q exec_quota_rows [OF assms(2)] ledger_store.inv_exec [OF l] by (auto simp: quota_held_def effect_le_def)
qed

lemma held_run: "quota_held org k p u q l \<Longrightarrow> \<forall>op \<in> set ops. \<not> changes_quota org op \<Longrightarrow>
    quota_held org k p u q (run_ops exec_ledger ops l)"
  by (induction ops arbitrary: l) (simp_all add: held_exec)

interpretation held: phase_invariant "steady org env" org k "quota_held org k p u q" for org env k p u q
proof
  show "quota_held org k p u q (interleave (steady org env) w)" if "quota_held org k p u q (led w)" for w
    unfolding interleave_def by (rule held_run [OF that]) (simp add: steady_def)
  show "quota_held org k p u q l'" if "mark_uncertain org k err et l = Inr (x, l')" "quota_held org k p u q l" for err et l x l'
    using held_exec [OF that(2), of "MarkUncertain org k err et"] that(1) by simp
  show "quota_held org k p u q l'" if "update_provider_status org k pst et l = Inr (x, l')" "quota_held org k p u q l" for pst et l x l'
    using held_exec [OF that(2), of "UpdateStatus org k pst et"] that(1) by simp
qed

section \<open>After the submission\<close>

lemma raise_after_world: "raise_after c err = (r, w') \<Longrightarrow> \<exists>x. c = (x, w')"
  by (cases c) (auto simp: raise_after_def split: sum.splits)

lemma held_failed:
  assumes "raise_after (ledger_call (steady org env) (mark_failed org k err False et) w) e = (r, w')" "quota_held org k p u q (led w)"
  shows "quota_held org k p u q (led w')"
proof -
  obtain x where "ledger_call (steady org env) (mark_failed org k err False et) w = (x, w')"
    using raise_after_world [OF assms(1)] by blast
  moreover have "quota_held org k p u q l'" if "mark_failed org k err False et l = Inr (y, l')" "quota_held org k p u q l" for l y l'
    using held_exec [OF that(2), of "MarkFailed org k err False et"] that(1) by simp
  ultimately show ?thesis
    using assms(2) held.call by blast
qed

lemma held_uncertain:
  assumes "raise_after (ledger_call (steady org env) (mark_uncertain org k err et) w) e = (r, w')" "quota_held org k p u q (led w)"
  shows "quota_held org k p u q (led w')"
  using raise_after_world [OF assms(1)] held.call_uncertain assms(2) by blast

lemma held_succeeded:
  assumes "ledger_call (steady org env) (mark_succeeded org k res) w = (r, w')" "quota_held org k p u q (led w)"
  shows "quota_held org k p u q (led w')"
proof -
  have "quota_held org k p u q l'" if "mark_succeeded org k res l = Inr (y, l')" "quota_held org k p u q l" for l y l'
    using held_exec [OF that(2), of "MarkSucceeded org k res"] that(1) by simp
  then show ?thesis
    using held.call assms by blast
qed

lemma held_finish: "finish_prediction (steady org env) org k inp pr w = (r, w') \<Longrightarrow> quota_held org k p u q (led w) \<Longrightarrow> quota_held org k p u q (led w')"
  unfolding finish_prediction_def
  by (auto split: sum.splits option.splits prod.splits dest: held_failed held_succeeded)

lemma held_time_out:
  assumes "time_out_prediction (steady org env) org k inp w = (r, w')" "quota_held org k p u q (led w)"
  shows "quota_held org k p u q (led w')"
proof (cases "cancel_answer inp")
  case (Inl exc)
  then show ?thesis
    using assms held_uncertain by (auto simp: time_out_prediction_def Let_def split: if_splits)
next
  case (Inr c)
  obtain x w1 where up: "ledger_call (steady org env) (update_provider_status org k (pred_status c) (Some ''PredictionTimeout'')) w = (x, w1)"
    by fastforce
  have w1: "quota_held org k p u q (led w1)"
    by (rule held.call_update [OF up assms(2)])
  show ?thesis
    using assms(1) Inr up w1 held_uncertain [OF _ w1] held_failed [OF _ w1] held_finish [OF _ w1]
    by (auto simp: time_out_prediction_def Let_def split: sum.splits if_splits)
qed

lemma held_poll:
  assumes "poll_prediction (steady org env) org k as prev w = (r, w')" "quota_held org k p u q (led w)"
  shows "quota_held org k p u q (led w')"
  using assms
proof (induction as arbitrary: prev w)
  case (Cons a as)
  show ?case
  proof (cases a)
    case (Inl exc)
    then show ?thesis
      using Cons.prems held_uncertain by (auto simp: Let_def split: if_splits)
  next
    case (Inr pr)
    then show ?thesis
      using Cons held.call_update by (auto split: prod.splits sum.splits if_splits)
  qed
qed simp

lemma held_follow:
  assumes "follow_prediction (steady org env) org k inp w = (r, w')" "quota_held org k p u q (led w)"
  shows "quota_held org k p u q (led w')"
proof -
  obtain x w1 where poll: "poll_prediction (steady org env) org k (poll_answers inp) None w = (x, w1)"
    by fastforce
  have w1: "quota_held org k p u q (led w1)"
    by (rule held_poll [OF poll assms(2)])
  show ?thesis
    using assms(1) poll w1 held_time_out [OF _ w1] held_finish [OF _ w1] held_failed [OF _ w1]
    by (auto simp: follow_prediction_def settle_prediction_def Let_def split: sum.splits option.splits if_splits)
qed

lemma held_resolve:
  assumes "resolve_prediction (steady org env) org k inp amb (x, w) = (r, w')" "quota_held org k p u q (led w)"
  shows "quota_held org k p u q (led w')"
  using assms held_follow by (auto simp: resolve_prediction_def split: sum.splits if_splits)

section \<open>The submission\<close>

definition certainly_unsent :: "submit_exc \<Rightarrow> bool" where
  "certainly_unsent exc \<longleftrightarrow> never_sent (exc_kind exc) \<or> (\<exists>st. http_status (exc_kind exc) = Some st \<and> client_error st)"

text \<open>The quota after a submission: as before, or with the units given back after a failure that bills nothing.\<close>

definition released :: "int \<Rightarrow> quota_row \<Rightarrow> quota_row" where
  "released u q = q\<lparr>used_units := used_units q - u\<rparr>"

lemma failed_releases:
  assumes "raise_after (ledger_call (steady org env) (mark_failed org k err True et) w) e = (r, w')" "quota_held org k p u q (led w)"
  shows "isl r \<and> tget qkey (org, p) (provider_quotas (led w')) \<in> {Some q, Some (released u q)}"
proof -
  obtain x where "ledger_call (steady org env) (mark_failed org k err True et) w = (x, w')"
    using raise_after_world [OF assms(1)] by blast
  then have "tget qkey (org, p) (provider_quotas (led w')) \<in> {Some q, Some (released u q)}"
  proof (cases rule: ledger_call_cases)
    case raised
    then show ?thesis
      using held.keep_env [OF assms(2)] by (simp add: quota_held_def)
  next
    case (returned y l')
    obtain row where row: "tget ekey (org, k) (external_effects (interleave (steady org env) w)) = Some row" "provider row = p" "units row = u"
        and q: "tget qkey (org, p) (provider_quotas (interleave (steady org env) w)) = Some q"
      using held.keep_env [OF assms(2), of env] unfolding quota_held_def by blast
    have "tget qkey (org, p) (provider_quotas l') \<in> {Some q, Some (released u q)}"
      using returned(1) row q
      by (auto simp: mark_failed_def release_units_def released_def Let_def upd_effect_def tget_tupd qkey_def
          split: if_splits sum.splits)
    then show ?thesis
      using returned(3) by simp
  qed
  moreover have "isl r"
    using assms(1) by (auto simp: raise_after_def split: prod.splits sum.splits)
  ultimately show ?thesis
    by simp
qed

lemma held_ambiguous:
  assumes "uncertain_then_await (steady org env) org k err et n w = (r, w')" "quota_held org k p u q (led w)"
  shows "quota_held org k p u q (led w')"
  using held.uncertain_then_await assms by blast

text \<open>The submission keeps the quota, or it raises after a certain failure, which may give the units back.\<close>

lemma submit_quota:
  assumes "submit_prediction pstr (steady org env) org k inp w = (s, amb, w')" "quota_held org k p u q (led w)"
  shows "quota_held org k p u q (led w') \<or>
    (isl s \<and> (\<exists>exc. submit_answer inp = Inl exc \<and> certainly_unsent exc) \<and>
      tget qkey (org, p) (provider_quotas (led w')) \<in> {Some q, Some (released u q)})"
proof (cases "webhook_configured inp")
  case True
  have w1: "quota_held org k p u q (led (provider_call org k w))"
    using assms(2) by (simp add: provider_call_def)
  note releases = failed_releases [OF _ w1] and ambiguous = held_ambiguous [OF _ w1]
  show ?thesis
  proof (cases "submit_answer inp")
    case (Inl exc)
    have rejected: ?thesis if rj: "rejected_submission pstr (steady org env) org k inp exc (provider_call org k w) = (s, amb, w')"
    proof (cases "\<exists>st. http_status (exc_kind exc) = Some st \<and> client_error st")
      case True
      then obtain st where st: "http_status (exc_kind exc) = Some st" "client_error st"
        by blast
      have "raise_after (ledger_call (steady org env) (mark_failed org k (error_message pstr exc) True (Some (type_name (exc_kind exc))))
          (provider_call org k w)) (video_error ''provider_rejected'' (st = 429) False (type_name (exc_kind exc))) = (s, w')"
        using rj st by (simp add: rejected_submission_def Let_def split: prod.splits)
      from releases [OF this] show ?thesis
        using Inl st unfolding certainly_unsent_def by blast
    next
      case False
      then obtain et where "uncertain_then_await (steady org env) org k (error_message pstr exc) et (wait_turns inp) (provider_call org k w) = (s, w')"
        using rj by (auto simp: rejected_submission_def Let_def split: option.splits prod.splits if_splits)
      from ambiguous [OF this] show ?thesis ..
    qed
    show ?thesis
    proof (cases "never_sent (exc_kind exc)")
      case True
      have "raise_after (ledger_call (steady org env) (mark_failed org k (type_name (exc_kind exc)) True (Some (type_name (exc_kind exc))))
          (provider_call org k w)) (video_error ''provider_unreachable'' True False (type_name (exc_kind exc))) = (s, w')"
        using assms(1) \<open>webhook_configured inp\<close> Inl True by (simp add: submit_prediction_def Let_def split: prod.splits)
      from releases [OF this] show ?thesis
        using Inl True unfolding certainly_unsent_def by blast
    next
      case False
      consider "rejected_submission pstr (steady org env) org k inp exc (provider_call org k w) = (s, amb, w')"
        | et where "uncertain_then_await (steady org env) org k et et (wait_turns inp) (provider_call org k w) = (s, w')"
        | "w' = provider_call org k w"
        using assms(1) \<open>webhook_configured inp\<close> Inl False
        by (cases "exc_kind exc") (auto simp: submit_prediction_def Let_def split: prod.splits if_splits)
      then show ?thesis
        by cases (use rejected ambiguous w1 in blast)+
    qed
  next
    case (Inr pr)
    have "quota_held org k p u q l'" if "bind_provider_operation org k opid pst l = Inr (x, l')" "quota_held org k p u q l" for opid pst l x l'
      using held_exec [OF that(2), of "BindOperation org k opid pst"] that(1) by simp
    note keep = this
    obtain x where bound: "ledger_call (steady org env) (bind_provider_operation org k (pred_id pr) (pred_status pr)) (provider_call org k w) = (x, w')"
      using assms(1) \<open>webhook_configured inp\<close> Inr by (auto simp: submit_prediction_def Let_def split: prod.splits sum.splits)
    show ?thesis
      by (rule disjI1, rule held.call [OF bound w1], rule keep)
  qed
qed (use assms in \<open>auto simp: submit_prediction_def\<close>)

text \<open>Only a reservation of its own lets the life cycle submit.\<close>

lemma submits_when_created:
  assumes run: "durable_prediction_lifecycle pstr env ctx org k p u req inp w = (r, w')"
    and rg: "reserve_or_get env org k (ctx_run_id ctx) p u req w = (x, w1)" and bought: "calls w' \<noteq> calls w"
  obtains res s amb w2 where "x = Inr res" "created res" "submit_prediction pstr env org k inp w1 = (s, amb, w2)"
    "resolve_prediction env org k inp (case amb of None \<Rightarrow> error_type res | Some t \<Rightarrow> Some t) (s, w2) = (r, w')"
proof (cases "has_ledger ctx")
  case on: True
  have submitted: "calls w' \<noteq> calls w1"
    using bought rg by (auto simp: reserve_or_get_def split: prod.splits sum.splits if_splits dest!: ledger_call_calls)
  show thesis
  proof (cases x)
    case (Inl e)
    then show thesis
      using run rg submitted on by (simp add: durable_prediction_lifecycle_def)
  next
    case (Inr res)
    let ?pid = "provider_operation_id res"
    define y where "y = (if ?pid = None \<or> ?pid = Some [] then await_id env org k (wait_turns inp) w1 else (Inr ?pid, w1))"
    have y: "calls (snd y) = calls w1"
      using await_calls [of env org k "wait_turns inp" w1 _ "snd (await_operation env org k (wait_turns inp) w1)", OF prod.collapse [symmetric]]
      by (simp add: y_def await_id_world)
    consider "status res = Succeeded" | "status res \<noteq> Succeeded" "created res" | "status res \<noteq> Succeeded" "\<not> created res"
      by blast
    then show thesis
    proof cases
      case 1
      then show thesis
        using run rg submitted on Inr replay_video_world [of inp res w1] by (simp add: durable_prediction_lifecycle_def)
    next
      case 2
      obtain s amb w2 where sub: "submit_prediction pstr env org k inp w1 = (s, amb, w2)"
        by (cases "submit_prediction pstr env org k inp w1") auto
      show thesis
        by (rule that [OF Inr 2(2) sub]) (use run rg on Inr 2 sub in \<open>simp add: durable_prediction_lifecycle_def\<close>)
    next
      case 3
      then have "durable_prediction_lifecycle pstr env ctx org k p u req inp w = resolve_prediction env org k inp (error_type res) y"
        using rg Inr on by (simp add: durable_prediction_lifecycle_def y_def Let_def)
      then have "calls w' = calls w1"
        using resolve_calls [of env org k inp "error_type res" y] y run by (metis snd_conv)
      then show thesis
        using submitted by simp
    qed
  qed
qed (use run bought in \<open>auto simp: durable_prediction_lifecycle_def\<close>)

text \<open>The quota of a life cycle that submitted: its units are held, or given back after a certain failure.\<close>

lemma lifecycle_quota:
  assumes ok: "world_ok w" and run: "durable_prediction_lifecycle pstr (steady org env) ctx org k p u req inp w = (r, w')"
    and submitted: "calls w' \<noteq> calls w"
  obtains q q' where "tget qkey (org, p) (provider_quotas (led w)) = Some q" "tget qkey (org, p) (provider_quotas (led w')) = Some q'"
    "used_units q' = used_units q + u \<or>
      used_units q' = used_units q \<and> (\<exists>exc. submit_answer inp = Inl exc \<and> certainly_unsent exc)"
proof -
  obtain x w1 where rg: "reserve_or_get (steady org env) org k (ctx_run_id ctx) p u req w = (x, w1)"
    by fastforce
  obtain res s amb w2 where res: "x = Inr res" "created res"
      and sub: "submit_prediction pstr (steady org env) org k inp w1 = (s, amb, w2)"
      and rest: "resolve_prediction (steady org env) org k inp (case amb of None \<Rightarrow> error_type res | Some t \<Rightarrow> Some t) (s, w2) = (r, w')"
    using submits_when_created [OF run rg submitted] by metis
  have "ledger_call (steady org env) (reserve org k (ctx_run_id ctx) p u (JObj req)) w = (Inr res, w1)"
    using rg [unfolded res(1)] read_not_created res(2) by (cases rule: reserve_or_get_cases) auto
  then have reserved: "reserve org k (ctx_run_id ctx) p u (JObj req) (interleave (steady org env) w) = Inr (res, led w1)"
    by (auto elim!: ledger_call_cases)
  from reserved obtain q where q: "tget qkey (org, p) (provider_quotas (interleave (steady org env) w)) = Some q"
      "tget qkey (org, p) (provider_quotas (led w1)) = Some (q\<lparr>used_units := used_units q + u\<rparr>)"
      "tget ekey (org, k) (external_effects (led w1)) = Some (new_effect org k (ctx_run_id ctx) p u (JObj req))"
  proof (cases rule: reserve_cases)
    case (replay row)
    then show ?thesis
      using res(2) by (simp add: reservation_def)
  next
    case (fresh q)
    then show ?thesis
      by (intro that [of q]) (simp_all add: tget_tupd qkey_def ekey_def new_effect_def)
  qed
  have "world_ok w1"
    using reserve_or_get_ok(1) [OF ok, of "steady org env" org k "ctx_run_id ctx" p u req] rg by simp
  then have held1: "quota_held org k p u (q\<lparr>used_units := used_units q + u\<rparr>) (led w1)"
    using q(2,3) by (simp add: quota_held_def world_ok_def new_effect_def)
  have q0: "tget qkey (org, p) (provider_quotas (led w)) = Some q"
    using q(1) by (simp add: steady_quota_rows)
  from submit_quota [OF sub held1] show thesis
  proof
    assume "quota_held org k p u (q\<lparr>used_units := used_units q + u\<rparr>) (led w2)"
    from held_resolve [OF rest this] show thesis
      using q0 by (intro that [OF q0]) (auto simp: quota_held_def)
  next
    assume out: "isl s \<and> (\<exists>exc. submit_answer inp = Inl exc \<and> certainly_unsent exc) \<and>
      tget qkey (org, p) (provider_quotas (led w2)) \<in> {Some (q\<lparr>used_units := used_units q + u\<rparr>), Some (released u (q\<lparr>used_units := used_units q + u\<rparr>))}"
    then have "w' = w2"
      using rest by (cases s) (simp_all add: resolve_prediction_def)
    then show thesis
      using out q0 by (auto simp: released_def intro: that [OF q0])
  qed
qed

end
