(* ===== verification/Provider_Retry.thy ===== *)
theory Provider_Retry
  imports Video_Lifecycle
begin

text \<open>
  Calls of external providers: which failures are repeated (\<open>adapters/_retry.py\<close>) and how the calls of one process
  are spaced (\<open>adapters/_throttle.py\<close>). A call is a function on a world, which is whatever it may change; durations
  are rationals, in seconds. Exceptions are those of \<open>Paid_Effect\<close> and \<open>Video_Lifecycle\<close>, whose \<open>except Exception\<close>
  leaves out the cancellation of the task.
\<close>

section \<open>Which failures are repeated\<close>

definition is_retryable :: "'e py_exc_scheme \<Rightarrow> bool" where
  "is_retryable exc =
    (if never_sent (exc_kind exc) then True
     else if (case exc_cause exc of None \<Rightarrow> False | Some c \<Rightarrow> never_sent c) then True
     else case exc_kind exc of
       HTTPStatusError n \<Rightarrow> n = 429
     | k \<Rightarrow> exc_status_code exc = IntAttr 429 \<or> k = ReplicateError (Some 429))"

fun transport_error :: "exc_kind \<Rightarrow> bool" where
  "transport_error (HTTPStatusError _) = False"
| "transport_error (ReplicateError _) = False"
| "transport_error (OtherException _) = False"
| "transport_error _ = True"

definition is_idempotent_retryable :: "'e py_exc_scheme \<Rightarrow> bool" where
  "is_idempotent_retryable exc =
    (case exc_kind exc of
       HTTPStatusError n \<Rightarrow> n = 429 \<or> 500 \<le> n
     | ReplicateError (Some n) \<Rightarrow> n = 429 \<or> 500 \<le> n
     | k \<Rightarrow> transport_error k)"

section \<open>The hint of a throttled response\<close>

definition is_digit :: "char \<Rightarrow> bool" where
  "is_digit c = (let n = (of_char c :: nat) in 48 \<le> n \<and> n \<le> 57)"

definition digits_value :: "string \<Rightarrow> nat" where
  "digits_value s = fold (\<lambda>c n. 10 * n + (of_char c - 48)) s 0"

definition hint_number :: "string \<Rightarrow> rat option" where
  "hint_number s =
    (let whole = takeWhile is_digit s in
     if whole = [] then None
     else case dropWhile is_digit s of
       CHR ''.'' # rest \<Rightarrow>
         let part = takeWhile is_digit rest
         in Some (of_nat (digits_value whole) + of_nat (digits_value part) / 10 ^ length part)
     | _ \<Rightarrow> Some (of_nat (digits_value whole)))"

definition hint_after :: "string \<Rightarrow> string \<Rightarrow> rat option" where
  "hint_after marker s =
    (if py_lower (take (length marker) s) \<noteq> marker then None
     else
       let rest = dropWhile py_space (drop (length marker) s)
       in hint_number (dropWhile py_space (case rest of CHR ''~'' # r \<Rightarrow> r | _ \<Rightarrow> rest)))"

text \<open>The first place of the message where the expression matches.\<close>

fun search_hint :: "string \<Rightarrow> rat option" where
  "search_hint [] = None"
| "search_hint (c # s) =
    (case hint_after ''resets in'' (c # s) of
       Some h \<Rightarrow> Some h
     | None \<Rightarrow> (case hint_after ''available in'' (c # s) of Some h \<Rightarrow> Some h | None \<Rightarrow> search_hint s))"

definition throttle_reset_hint :: "submit_exc \<Rightarrow> rat option" where
  "throttle_reset_hint exc = search_hint (case exc_detail exc of Some d \<Rightarrow> d | None \<Rightarrow> exc_str exc)"

section \<open>The loop\<close>

record retry_config =
  max_retries :: int
  backoff_base :: rat
  max_delay :: rat

definition retry_delay :: "retry_config \<Rightarrow> nat \<Rightarrow> submit_exc \<Rightarrow> rat" where
  "retry_delay cfg attempt exc =
    (let delay = backoff_base cfg * 2 ^ attempt
     in min (case throttle_reset_hint exc of None \<Rightarrow> delay | Some h \<Rightarrow> max delay (h + 1)) (max_delay cfg))"

type_synonym ('a, 'w) call = "'w \<Rightarrow> (submit_exc + 'a) \<times> 'w"

function retry_loop ::
  "(submit_exc \<Rightarrow> bool) \<Rightarrow> retry_config \<Rightarrow> (rat \<Rightarrow> 'w \<Rightarrow> 'w) \<Rightarrow> ('a, 'w) call \<Rightarrow> nat \<Rightarrow> ('a, 'w) call" where
  "retry_loop again cfg pause call attempt w =
    (case call w of
       (Inr x, w') \<Rightarrow> (Inr x, w')
     | (Inl exc, w') \<Rightarrow>
         if \<not> again exc \<or> max_retries cfg \<le> int attempt then (Inl exc, w')
         else retry_loop again cfg pause call (Suc attempt) (pause (retry_delay cfg attempt exc) w'))"
  by pat_completeness auto

termination
  by (relation "measure (\<lambda>(again, cfg, pause, call, attempt, w). nat (max_retries cfg - int attempt))") auto

declare retry_loop.simps [simp del]

definition with_transport_retry :: "retry_config \<Rightarrow> (rat \<Rightarrow> 'w \<Rightarrow> 'w) \<Rightarrow> ('a, 'w) call \<Rightarrow> ('a, 'w) call" where
  "with_transport_retry cfg pause call = retry_loop is_retryable cfg pause call 0"

definition with_idempotent_retry :: "retry_config \<Rightarrow> (rat \<Rightarrow> 'w \<Rightarrow> 'w) \<Rightarrow> ('a, 'w) call \<Rightarrow> ('a, 'w) call" where
  "with_idempotent_retry cfg pause call = retry_loop is_idempotent_retryable cfg pause call 0"

section \<open>What the loop does\<close>

text \<open>
  A world that answers the \<open>n\<close>-th call with the \<open>n\<close>-th answer and keeps the calls and the pauses in a journal.
\<close>

datatype journal_entry = Called | Paused rat

type_synonym journal = "nat \<times> journal_entry list"

definition scripted :: "(nat \<Rightarrow> submit_exc + 'a) \<Rightarrow> ('a, journal) call" where
  "scripted answers w = (answers (fst w), (Suc (fst w), snd w @ [Called]))"

definition journal_pause :: "rat \<Rightarrow> journal \<Rightarrow> journal" where
  "journal_pause d w = (fst w, snd w @ [Paused d])"

definition again_after :: "(submit_exc \<Rightarrow> bool) \<Rightarrow> submit_exc + 'a \<Rightarrow> bool" where
  "again_after again r = (case r of Inl exc \<Rightarrow> again exc | Inr _ \<Rightarrow> False)"

definition error_of :: "submit_exc + 'a \<Rightarrow> submit_exc" where
  "error_of r = (case r of Inl exc \<Rightarrow> exc | Inr _ \<Rightarrow> undefined)"

text \<open>The number of the last call: the first one from \<open>n\<close> whose answer ends the loop, at most \<open>m\<close>.\<close>

function last_call :: "(submit_exc \<Rightarrow> bool) \<Rightarrow> (nat \<Rightarrow> submit_exc + 'a) \<Rightarrow> nat \<Rightarrow> nat \<Rightarrow> nat" where
  "last_call again answers m n = (if m \<le> n \<or> \<not> again_after again (answers n) then n else last_call again answers m (Suc n))"
  by pat_completeness auto

termination
  by (relation "measure (\<lambda>(again, answers, m, n). m - n)") auto

declare last_call.simps [simp del]

lemma last_call_bounds: "n \<le> last_call again answers m n \<and> last_call again answers m n \<le> max m n"
  by (induction again answers m n rule: last_call.induct) (subst (1 2) last_call.simps, auto)

lemma last_call_ends:
  "n \<le> m \<Longrightarrow> last_call again answers m n = m \<or> \<not> again_after again (answers (last_call again answers m n))"
  by (induction again answers m n rule: last_call.induct) (subst (1 2) last_call.simps, auto)

lemma last_call_again:
  "n \<le> i \<Longrightarrow> i < last_call again answers m n \<Longrightarrow> again_after again (answers i)"
proof (induction again answers m n arbitrary: i rule: last_call.induct)
  case (1 again answers m n)
  show ?case
  proof (cases "m \<le> n \<or> \<not> again_after again (answers n)")
    case True
    then have "last_call again answers m n = n"
      by (subst last_call.simps) auto
    then show ?thesis
      using 1(2,3) by simp
  next
    case False
    then have "last_call again answers m n = last_call again answers m (Suc n)"
      by (subst last_call.simps) auto
    then show ?thesis
      using 1(1) [OF False, of i] 1(2,3) False by (cases "i = n") auto
  qed
qed

definition pauses :: "retry_config \<Rightarrow> (nat \<Rightarrow> submit_exc + 'a) \<Rightarrow> nat \<Rightarrow> nat \<Rightarrow> journal_entry list" where
  "pauses cfg answers n k = concat (map (\<lambda>i. [Called, Paused (retry_delay cfg i (error_of (answers i)))]) [n..<k]) @ [Called]"

lemma retry_loop_script:
  "n \<le> nat (max_retries cfg) \<Longrightarrow>
   retry_loop again cfg journal_pause (scripted answers) n (n, log) =
     (answers (last_call again answers (nat (max_retries cfg)) n),
      (Suc (last_call again answers (nat (max_retries cfg)) n),
       log @ pauses cfg answers n (last_call again answers (nat (max_retries cfg)) n)))"
proof (induction again answers "nat (max_retries cfg)" n arbitrary: log rule: last_call.induct)
  case (1 again answers n)
  show ?case
  proof (cases "nat (max_retries cfg) \<le> n \<or> \<not> again_after again (answers n)")
    case True
    then have last: "last_call again answers (nat (max_retries cfg)) n = n"
      by (subst last_call.simps) auto
    have "max_retries cfg \<le> int n \<or> \<not> again_after again (answers n)"
      using True by auto
    then show ?thesis
      unfolding last by (subst retry_loop.simps) (auto simp: scripted_def pauses_def again_after_def split: sum.splits)
  next
    case False
    then have last: "last_call again answers (nat (max_retries cfg)) n = last_call again answers (nat (max_retries cfg)) (Suc n)"
      by (subst last_call.simps) auto
    have "Suc n \<le> nat (max_retries cfg)"
      using False by auto
    note IH = 1(1) [OF False this]
    have less: "n < last_call again answers (nat (max_retries cfg)) (Suc n)"
      using last_call_bounds [of "Suc n" again answers "nat (max_retries cfg)"] by simp
    obtain exc where exc: "answers n = Inl exc" "again exc" "\<not> max_retries cfg \<le> int n"
      using False by (auto simp: again_after_def split: sum.splits)
    have "retry_loop again cfg journal_pause (scripted answers) n (n, log) =
        retry_loop again cfg journal_pause (scripted answers) (Suc n) (Suc n, (log @ [Called]) @ [Paused (retry_delay cfg n exc)])"
      by (subst retry_loop.simps) (simp add: scripted_def exc journal_pause_def)
    also have "\<dots> = (answers (last_call again answers (nat (max_retries cfg)) n), (Suc (last_call again answers (nat (max_retries cfg)) n),
        log @ pauses cfg answers n (last_call again answers (nat (max_retries cfg)) n)))"
      unfolding IH last using less exc(1) by (simp add: pauses_def upt_conv_Cons error_of_def)
    finally show ?thesis .
  qed
qed

text \<open>
  What may be repeated, and the pause after the attempt with number \<open>i\<close>, as \<open>_retry.py\<close> documents them: the connection was
  never made (of the exception or of its cause), or the status is 429.
\<close>

definition unsent_or_throttled :: "submit_exc \<Rightarrow> bool" where
  "unsent_or_throttled exc \<longleftrightarrow>
    exc_kind exc \<in> {ConnectError, ConnectTimeout, PoolTimeout} \<or>
    exc_cause exc \<in> {Some ConnectError, Some ConnectTimeout, Some PoolTimeout} \<or>
    exc_kind exc = HTTPStatusError 429 \<or> exc_kind exc = ReplicateError (Some 429) \<or>
    exc_status_code exc = IntAttr 429 \<and> (\<forall>n. exc_kind exc \<noteq> HTTPStatusError n)"

definition pause_after :: "retry_config \<Rightarrow> nat \<Rightarrow> submit_exc \<Rightarrow> rat" where
  "pause_after cfg i exc =
    (let hinted = (case throttle_reset_hint exc of None \<Rightarrow> backoff_base cfg * 2 ^ i | Some h \<Rightarrow> max (backoff_base cfg * 2 ^ i) (h + 1))
     in if max_delay cfg < hinted then max_delay cfg else hinted)"

lemma is_retryable_spec: "is_retryable exc \<longleftrightarrow> unsent_or_throttled exc"
  by (cases "exc_kind exc") (auto simp: is_retryable_def unsent_or_throttled_def never_sent_def split: option.splits)

lemma retry_delay_spec: "retry_delay cfg i exc = pause_after cfg i exc"
  by (simp add: retry_delay_def pause_after_def Let_def min_def split: option.split)

text \<open>A read that timed out, a broken connection or a server error may have been executed: it is never repeated.\<close>

lemma possibly_sent_not_repeated:
  assumes "exc_kind exc \<in> {ReadTimeout, ReadError, WriteError, WriteTimeout} \<or> (\<exists>n \<ge> 500. exc_kind exc = HTTPStatusError n \<or> exc_kind exc = ReplicateError (Some n))"
    and "exc_cause exc = None" "exc_status_code exc \<noteq> IntAttr 429"
  shows "\<not> unsent_or_throttled exc"
  using assms by (auto simp: unsent_or_throttled_def)

text \<open>
  C32. A call that fails before it is sent, or is throttled, is repeated, and no other: a failure is repeated only when its
  kind, or the kind of its cause, is a connection that was never made, or its status is 429. So a read timeout or a server
  error with no such cause or status attribute ends the loop. Whatever the provider answers, the loop ends
  with the answer of its last call: all calls before it failed in such a way, and it succeeded, or failed otherwise, or was
  the call after \<open>max_retries\<close> repetitions. Between two calls there is exactly one pause: the base doubled with every
  attempt, at least a second over what the response asks for, and never more than \<open>max_delay\<close>.
\<close>

theorem transport_retry_ends:
  "\<exists>k errors. k \<le> nat (max_retries cfg) \<and> length errors = k \<and>
     with_transport_retry cfg journal_pause (scripted answers) (0, []) =
       (answers k, (Suc k, concat (map (\<lambda>i. [Called, Paused (pause_after cfg i (errors ! i))]) [0..<k]) @ [Called])) \<and>
     (\<forall>i < k. answers i = Inl (errors ! i) \<and> unsent_or_throttled (errors ! i) \<and> pause_after cfg i (errors ! i) \<le> max_delay cfg) \<and>
     (k = nat (max_retries cfg) \<or> (\<forall>exc. answers k = Inl exc \<longrightarrow> \<not> unsent_or_throttled exc))"
proof -
  define k where "k = last_call is_retryable answers (nat (max_retries cfg)) 0"
  define errors where "errors = map (\<lambda>i. error_of (answers i)) [0..<k]"
  have failed: "answers i = Inl (errors ! i) \<and> is_retryable (errors ! i)" if "i < k" for i
  proof -
    have "again_after is_retryable (answers i)"
      using last_call_again [of 0 i is_retryable answers "nat (max_retries cfg)"] that by (simp add: k_def)
    then show ?thesis
      using that by (auto simp: again_after_def errors_def error_of_def split: sum.splits)
  qed
  have bound: "k \<le> nat (max_retries cfg)"
    using last_call_bounds [of 0 is_retryable answers "nat (max_retries cfg)"] by (simp add: k_def)
  have journal: "pauses cfg answers 0 k = concat (map (\<lambda>i. [Called, Paused (pause_after cfg i (errors ! i))]) [0..<k]) @ [Called]"
    by (auto simp: pauses_def errors_def retry_delay_spec intro!: arg_cong [where f = concat])
  have run: "with_transport_retry cfg journal_pause (scripted answers) (0, []) = (answers k, (Suc k, pauses cfg answers 0 k))"
    using retry_loop_script [of 0 cfg is_retryable answers "[]"] by (simp add: with_transport_retry_def k_def)
  have last: "k = nat (max_retries cfg) \<or> (\<forall>exc. answers k = Inl exc \<longrightarrow> \<not> is_retryable exc)"
    using last_call_ends [of 0 "nat (max_retries cfg)" is_retryable answers] by (auto simp: k_def again_after_def)
  have "length errors = k"
    by (simp add: errors_def)
  moreover have "pause_after cfg i exc \<le> max_delay cfg" for i exc
    by (simp add: pause_after_def Let_def)
  ultimately show ?thesis
    using bound run [unfolded journal] failed last unfolding is_retryable_spec
    by (intro exI [of _ k] exI [of _ errors]) simp
qed

definition refused_exc :: submit_exc where
  "refused_exc = \<lparr>exc_kind = ReplicateError (Some 429), exc_cause = None, exc_status_code = NoAttr, exc_detail = Some ''Request was throttled. Resets in ~8s'',
     exc_body = None, exc_text = None, exc_str = ''''\<rparr>"

definition timeout_exc :: submit_exc where
  "timeout_exc = \<lparr>exc_kind = ReadTimeout, exc_cause = None, exc_status_code = NoAttr, exc_detail = None, exc_body = None, exc_text = None, exc_str = ''''\<rparr>"

definition two_answers :: "nat \<Rightarrow> submit_exc + nat" where
  "two_answers n = (if n = 0 then Inl refused_exc else Inr n)"

definition default_retry :: retry_config where
  "default_retry = \<lparr>max_retries = 3, backoff_base = 1, max_delay = 60\<rparr>"

lemma hint_read: "throttle_reset_hint refused_exc = Some 8"
  by code_simp

text \<open>A throttled call is repeated after the nine seconds that its response implies; a read that times out is not.\<close>

theorem transport_retry_ends_witness:
  "with_transport_retry default_retry journal_pause (scripted two_answers) (0, []) = (Inr 1, (2, [Called, Paused 9, Called])) \<and>
   with_transport_retry default_retry journal_pause (scripted (\<lambda>_. Inl timeout_exc)) (0, []) =
     (Inl timeout_exc :: submit_exc + nat, (1, [Called]))"
proof
  have again: "unsent_or_throttled refused_exc" "\<not> unsent_or_throttled timeout_exc"
    by (simp_all add: unsent_or_throttled_def refused_exc_def timeout_exc_def)
  obtain k errors where k: "k \<le> 3" and run: "with_transport_retry default_retry journal_pause (scripted two_answers) (0, []) =
      (two_answers k, (Suc k, concat (map (\<lambda>i. [Called, Paused (pause_after default_retry i (errors ! i))]) [0..<k]) @ [Called]))"
    and failed: "\<forall>i < k. two_answers i = Inl (errors ! i) \<and> unsent_or_throttled (errors ! i)"
    and last: "k = 3 \<or> (\<forall>exc. two_answers k = Inl exc \<longrightarrow> \<not> unsent_or_throttled exc)"
    using transport_retry_ends [of default_retry two_answers] by (auto simp: default_retry_def)
  have "k \<noteq> 0"
    using last again(1) by (cases k) (simp_all add: two_answers_def)
  moreover have "\<not> 1 < k"
    using failed by (auto simp: two_answers_def)
  ultimately have one: "k = 1"
    by linarith
  then have "errors ! 0 = refused_exc"
    using failed by (simp add: two_answers_def)
  moreover have "pause_after default_retry 0 refused_exc = 9"
    by (simp add: pause_after_def hint_read default_retry_def)
  ultimately show "with_transport_retry default_retry journal_pause (scripted two_answers) (0, []) = (Inr 1, (2, [Called, Paused 9, Called]))"
    using run unfolding one by (simp add: two_answers_def)
  obtain k errors where run: "with_transport_retry default_retry journal_pause (scripted (\<lambda>_. Inl timeout_exc)) (0, []) =
      (Inl timeout_exc :: submit_exc + nat, (Suc k, concat (map (\<lambda>i. [Called, Paused (pause_after default_retry i (errors ! i))]) [0..<k]) @ [Called]))"
    and failed: "\<forall>i < k. timeout_exc = errors ! i \<and> unsent_or_throttled (errors ! i)"
    using transport_retry_ends [of default_retry "\<lambda>_. Inl timeout_exc"] by auto
  have "k = 0"
    using failed again(2) by (cases k) auto
  then show "with_transport_retry default_retry journal_pause (scripted (\<lambda>_. Inl timeout_exc)) (0, []) =
      (Inl timeout_exc :: submit_exc + nat, (1, [Called]))"
    using run by simp
qed

section \<open>What is billed at the provider\<close>

text \<open>
  \<open>billed\<close> counts in a world what the provider has created and will bill. The documented behaviour: a call creates at
  most one thing; and none when the connection was never made, or when the response is a refusal (4xx).
\<close>

definition refused :: "'e py_exc_scheme \<Rightarrow> bool" where
  "refused exc \<longleftrightarrow> never_sent (exc_kind exc) \<or> (case exc_cause exc of None \<Rightarrow> False | Some c \<Rightarrow> never_sent c) \<or>
    (case exc_status_code exc of IntAttr n \<Rightarrow> client_error n | _ \<Rightarrow> False) \<or>
    (case exc_kind exc of HTTPStatusError n \<Rightarrow> client_error n | ReplicateError (Some n) \<Rightarrow> client_error n | _ \<Rightarrow> False)"

definition creates_once :: "('w \<Rightarrow> nat) \<Rightarrow> ('a, 'w) call \<Rightarrow> bool" where
  "creates_once billed call \<longleftrightarrow> (\<forall>w. billed w \<le> billed (snd (call w)) \<and> billed (snd (call w)) \<le> Suc (billed w) \<and>
     (\<forall>exc. fst (call w) = Inl exc \<and> refused exc \<longrightarrow> billed (snd (call w)) = billed w))"

lemma retryable_refused: "is_retryable exc \<Longrightarrow> refused exc"
  by (auto simp: is_retryable_def refused_def client_error_def split: if_splits exc_kind.splits option.splits)

lemma not_billed_refused: "definitely_not_billed exc \<Longrightarrow> refused exc"
  by (auto simp: definitely_not_billed_def refused_def split: if_splits exc_kind.splits option.splits attr.splits)

lemma retry_creates:
  assumes "creates_once billed call" "\<And>d w. billed (pause d w) = billed w" "\<And>exc. again exc \<Longrightarrow> refused exc"
  shows "billed w \<le> billed (snd (retry_loop again cfg pause call n w)) \<and>
    billed (snd (retry_loop again cfg pause call n w)) \<le> Suc (billed w) \<and>
    (\<forall>exc. fst (retry_loop again cfg pause call n w) = Inl exc \<and> refused exc \<longrightarrow>
       billed (snd (retry_loop again cfg pause call n w)) = billed w)"
  using assms
proof (induction again cfg pause call n w rule: retry_loop.induct)
  case (1 again cfg pause call n w)
  have here: "billed w \<le> billed (snd (call w))" "billed (snd (call w)) \<le> Suc (billed w)"
      "\<And>exc. fst (call w) = Inl exc \<Longrightarrow> refused exc \<Longrightarrow> billed (snd (call w)) = billed w"
    using 1(2) by (auto simp: creates_once_def)
  show ?case
  proof (cases "\<exists>exc. fst (call w) = Inl exc \<and> again exc \<and> \<not> max_retries cfg \<le> int n")
    case True
    then obtain exc w' where call: "call w = (Inl exc, w')" "again exc" "\<not> max_retries cfg \<le> int n"
      by (cases "call w") auto
    have same: "billed w' = billed w"
      using here(3) [of exc] 1(4) [OF call(2)] by (simp add: call)
    have "retry_loop again cfg pause call n w = retry_loop again cfg pause call (Suc n) (pause (retry_delay cfg n exc) w')"
      by (subst retry_loop.simps) (simp add: call)
    then show ?thesis
      using 1(1) [of "Inl exc" w' exc] 1(2-4) call same by simp
  next
    case False
    then have "retry_loop again cfg pause call n w = call w"
      by (subst retry_loop.simps) (auto split: sum.splits prod.splits)
    then show ?thesis
      using here by simp
  qed
qed

end
