(* ===== verification/Replicate_Video.thy ===== *)
theory Replicate_Video
  imports Video_Units Provider_Retry Creators
begin

text \<open>
  The adapter of the video provider (\<open>adapters/replicate_video.py\<close>): what it asks for, how it creates, reads and cancels
  predictions, how it turns them into artifacts, and the two ways it generates a clip. The client of the provider is a
  record of functions on a world; \<open>wait_slot\<close> is what the shared throttle (\<open>Throttle\<close>) does before a call, \<open>rest\<close> is a
  sleep. \<open>ps\<close> is \<open>str\<close> of values that are not texts.
\<close>

section \<open>Configuration and client\<close>

record video_tier =
  vt_name :: string
  vt_model :: string
  vt_cost :: rat

record clip_settings =
  cs_resolution :: string
  cs_aspect_ratio :: string
  cs_fps :: int
  cs_camera_motion :: string
  cs_draft :: bool
  cs_poll_interval :: rat

record sync_settings =
  ls_enabled :: bool
  ls_required :: bool
  ls_model :: string
  ls_max_retries :: int
  ls_cost :: rat

record assembly_settings =
  as_model :: string
  as_duration :: int
  as_resolution :: string
  as_aspect_ratio :: string
  as_fps :: int
  as_draft :: bool
  as_generate_audio :: bool
  as_cost :: rat

record video_adapter =
  va_tiers :: "video_tier list"
  va_runner :: bool
  va_clip :: clip_settings
  va_sync :: sync_settings
  va_assembly :: assembly_settings
  va_max_retries :: int
  va_backoff :: rat
  va_throttled :: bool
  va_mock_fallback :: bool

text \<open>What the client makes of an output: nothing, a list, a dictionary in its order, or another value.\<close>

datatype provider_output = OutNone | OutList "json list" | OutDict "(string \<times> json) list" | OutOther json

record raw_prediction =
  raw_id :: json
  raw_status :: json
  raw_output :: provider_output
  raw_error :: json

record 'w video_client =
  run_model :: "string \<Rightarrow> jdict \<Rightarrow> (provider_output, 'w) call"
  create_for_model :: "string \<Rightarrow> jdict \<Rightarrow> jdict \<Rightarrow> (raw_prediction, 'w) call"
  create_for_version :: "string \<Rightarrow> jdict \<Rightarrow> jdict \<Rightarrow> (raw_prediction, 'w) call"
  get_prediction :: "string \<Rightarrow> (raw_prediction, 'w) call"
  cancel_prediction :: "string \<Rightarrow> (raw_prediction, 'w) call"
  latest_version :: "(string \<Rightarrow> (string option, 'w) call) option"
  mock_clip :: "(string \<Rightarrow> string \<Rightarrow> int \<Rightarrow> int \<Rightarrow> (artifact, 'w) call) option"
  wait_slot :: "'w \<Rightarrow> 'w"
  rest :: "rat \<Rightarrow> 'w \<Rightarrow> 'w"

text \<open>Errors of the adapter itself, and calls in sequence.\<close>

definition plain_error :: "string \<Rightarrow> string \<Rightarrow> submit_exc" where
  "plain_error kind message = \<lparr>exc_kind = OtherException kind, exc_cause = None, exc_status_code = NoAttr, exc_detail = None,
     exc_body = None, exc_text = None, exc_str = message\<rparr>"

definition runtime_error :: "string \<Rightarrow> submit_exc" where
  "runtime_error = plain_error ''RuntimeError''"

definition bind_call :: "('a, 'w) call \<Rightarrow> ('a \<Rightarrow> ('b, 'w) call) \<Rightarrow> ('b, 'w) call" where
  "bind_call c f w = (case c w of (Inl e, w') \<Rightarrow> (Inl e, w') | (Inr x, w') \<Rightarrow> f x w')"

definition pure_call :: "submit_exc + 'a \<Rightarrow> ('a, 'w) call" where
  "pure_call r w = (r, w)"

definition throttled_call :: "video_adapter \<Rightarrow> 'w video_client \<Rightarrow> ('a, 'w) call \<Rightarrow> ('a, 'w) call" where
  "throttled_call va cl op w = op (if va_throttled va then wait_slot cl w else w)"

definition retry_settings :: "video_adapter \<Rightarrow> int \<Rightarrow> retry_config" where
  "retry_settings va n = \<lparr>max_retries = n, backoff_base = va_backoff va, max_delay = 60\<rparr>"

section \<open>Inputs and outputs\<close>

definition ltx_model :: string where
  "ltx_model = ''lightricks/ltx-2.3-fast''"

definition pruna_model :: string where
  "pruna_model = ''prunaai/p-video''"

definition supported_models :: "string list" where
  "supported_models = [ltx_model, pruna_model]"

definition tier_named :: "video_adapter \<Rightarrow> string \<Rightarrow> submit_exc + video_tier" where
  "tier_named va tier =
    (case find (\<lambda>t. vt_name t = tier) (rev (va_tiers va)) of
       None \<Rightarrow> Inl (plain_error ''KeyError'' tier)
     | Some t \<Rightarrow> Inr t)"

definition text_or :: "string option \<Rightarrow> string \<Rightarrow> string" where
  "text_or p d = (case p of Some (c # cs) \<Rightarrow> c # cs | _ \<Rightarrow> d)"

definition filled :: "string option \<Rightarrow> bool" where
  "filled s \<longleftrightarrow> s \<noteq> None \<and> s \<noteq> Some []"

definition image_entry :: "string option \<Rightarrow> (string \<times> json) list" where
  "image_entry img = (if filled img then [(''image'', JStr (the img))] else [])"

definition int_json :: "int \<Rightarrow> json" where
  "int_json n = JNum (of_int n)"

definition clip_input ::
  "video_adapter \<Rightarrow> string \<Rightarrow> string \<Rightarrow> int \<Rightarrow> string option \<Rightarrow> string option \<Rightarrow> submit_exc + string \<times> jdict \<times> rat" where
  "clip_input va iid tier secs system_prompt img =
    (case tier_named va tier of
       Inl e \<Rightarrow> Inl e
     | Inr spec \<Rightarrow>
         if vt_model spec \<notin> set supported_models then Inl (runtime_error ''Replicate prediction lifecycle does not support model'')
         else
           let cs = va_clip va;
               prompt = (''prompt'', JStr (text_or system_prompt (''Generate a silent vertical UGC video for item '' @ iid @ ''.'')));
               size = [(''resolution'', JStr (cs_resolution cs)), (''aspect_ratio'', JStr (cs_aspect_ratio cs)), (''fps'', int_json (cs_fps cs))];
               inp = (if vt_model spec = pruna_model then
                   [prompt, (''duration'', int_json secs)] @ size @
                   [(''draft'', JBool (cs_draft cs)), (''save_audio'', JBool False), (''prompt_upsampling'', JBool False)]
                 else [prompt, (''duration'', int_json secs), (''generate_audio'', JBool False)] @ size @
                   [(''camera_motion'', JStr (cs_camera_motion cs))])
           in Inr (vt_model spec, obj (inp @ image_entry img), py_round 4 (vt_cost spec * of_int secs)))"

definition create_params :: "string option \<Rightarrow> jdict" where
  "create_params webhook_url =
    obj ([(''wait'', JBool False)] @
      (if filled webhook_url then [(''webhook'', JStr (the webhook_url)), (''webhook_events_filter'', JList [JStr ''start'', JStr ''completed''])]
       else []))"

definition first_uri :: "(json \<Rightarrow> string) \<Rightarrow> json \<Rightarrow> submit_exc + string" where
  "first_uri ps v =
    (case v of
       JList [] \<Rightarrow> Inl (runtime_error ''empty list'')
     | JList (x # xs) \<Rightarrow> Inr (str_of ps x)
     | _ \<Rightarrow> Inr (str_of ps v))"

definition coerce_output :: "(json \<Rightarrow> string) \<Rightarrow> provider_output \<Rightarrow> submit_exc + string" where
  "coerce_output ps out =
    (case out of
       OutNone \<Rightarrow> Inl (runtime_error ''Replicate video output is empty'')
     | OutList xs \<Rightarrow> first_uri ps (JList xs)
     | OutDict [] \<Rightarrow> Inl (runtime_error ''Replicate video output dict is empty'')
     | OutDict ((k0, v0) # kvs) \<Rightarrow>
         (let field = (\<lambda>k. case map_of ((k0, v0) # kvs) k of None \<Rightarrow> JNull | Some v \<Rightarrow> v) in
          case find (\<lambda>k. py_truthy (field k)) [''video'', ''video_url'', ''output''] of
            Some k \<Rightarrow> first_uri ps (field k)
          | None \<Rightarrow> first_uri ps v0)
     | OutOther v \<Rightarrow>
         (let uri = strip (str_of ps v) in if uri = [] then Inl (runtime_error ''Replicate video output is empty'') else Inr uri))"

section \<open>Predictions\<close>

record video_prediction =
  vp_id :: string
  vp_status :: string
  vp_output :: provider_output
  vp_error :: "string option"

definition snapshot_of :: "(json \<Rightarrow> string) \<Rightarrow> raw_prediction \<Rightarrow> submit_exc + video_prediction" where
  "snapshot_of ps raw =
    (let pid = strip (text_of ps (raw_id raw)); status = py_lower (strip (text_of ps (raw_status raw))) in
     if pid = [] \<or> status = [] then Inl (runtime_error ''Replicate returned a prediction without id/status'')
     else Inr \<lparr>vp_id = pid, vp_status = status, vp_output = raw_output raw,
       vp_error = (if py_truthy (raw_error raw) then Some (str_of ps (raw_error raw)) else None)\<rparr>)"

definition submit_clip_prediction ::
  "(json \<Rightarrow> string) \<Rightarrow> video_adapter \<Rightarrow> 'w video_client \<Rightarrow> string \<Rightarrow> string \<Rightarrow> int \<Rightarrow> string option \<Rightarrow> string option \<Rightarrow> string option \<Rightarrow>
   (video_prediction, 'w) call" where
  "submit_clip_prediction ps va cl iid tier secs system_prompt img webhook_url =
    bind_call (pure_call (clip_input va iid tier secs system_prompt img)) (\<lambda>(model, inp, cost).
    bind_call (with_transport_retry (retry_settings va (va_max_retries va)) (rest cl)
      (throttled_call va cl (create_for_model cl model inp (create_params webhook_url)))) (\<lambda>raw.
    pure_call (snapshot_of ps raw)))"

definition get_video_prediction :: "(json \<Rightarrow> string) \<Rightarrow> video_adapter \<Rightarrow> 'w video_client \<Rightarrow> string \<Rightarrow> (video_prediction, 'w) call" where
  "get_video_prediction ps va cl pid =
    bind_call (with_idempotent_retry (retry_settings va (va_max_retries va)) (rest cl) (throttled_call va cl (get_prediction cl pid)))
      (\<lambda>raw. pure_call (snapshot_of ps raw))"

definition cancel_video_prediction :: "(json \<Rightarrow> string) \<Rightarrow> video_adapter \<Rightarrow> 'w video_client \<Rightarrow> string \<Rightarrow> (video_prediction, 'w) call" where
  "cancel_video_prediction ps va cl pid =
    bind_call (with_idempotent_retry (retry_settings va (va_max_retries va)) (rest cl) (throttled_call va cl (cancel_prediction cl pid)))
      (\<lambda>raw. pure_call (snapshot_of ps raw))"

text \<open>The version of the LatentSync model: of its name, of the cache, built in, or asked for once.\<close>

type_synonym version_cache = "(string, string) fmap"

definition known_version :: string where
  "known_version = ''637ce1919f807ca20da3a448ddc2743535d2853649574cd52a933120e9b9e293''"

definition sync_version ::
  "video_adapter \<Rightarrow> 'w video_client \<Rightarrow> version_cache \<Rightarrow> 'w \<Rightarrow> string option \<times> version_cache \<times> 'w" where
  "sync_version va cl cache w =
    (let model = ls_model (va_sync va) in
     if CHR '':'' \<in> set model then (Some (tl (dropWhile (\<lambda>c. c \<noteq> CHR '':'') model)), cache, w)
     else case fmlookup cache model of
       Some v \<Rightarrow> (Some v, cache, w)
     | None \<Rightarrow>
         if model = ''bytedance/latentsync'' then (Some known_version, fmupd model known_version cache, w)
         else (case latest_version cl of
             None \<Rightarrow> (None, cache, w)
           | Some ask \<Rightarrow>
               (case throttled_call va cl (ask model) w of
                  (Inr (Some (c # v)), w') \<Rightarrow> (Some (c # v), fmupd model (c # v) cache, w')
                | (_, w') \<Rightarrow> (None, cache, w'))))"

definition create_sync :: "video_adapter \<Rightarrow> 'w video_client \<Rightarrow> string option \<Rightarrow> jdict \<Rightarrow> jdict \<Rightarrow> (raw_prediction, 'w) call" where
  "create_sync va cl version inp params =
    (case version of
       Some (c # v) \<Rightarrow> create_for_version cl (c # v) inp params
     | _ \<Rightarrow> create_for_model cl (ls_model (va_sync va)) inp params)"

definition submit_latentsync_prediction ::
  "(json \<Rightarrow> string) \<Rightarrow> video_adapter \<Rightarrow> 'w video_client \<Rightarrow> string \<Rightarrow> string \<Rightarrow> string option \<Rightarrow> version_cache \<Rightarrow>
   'w \<Rightarrow> (submit_exc + video_prediction) \<times> version_cache \<times> 'w" where
  "submit_latentsync_prediction ps va cl video_uri audio_uri webhook_url cache w =
    (let (version, cache', w1) = sync_version va cl cache w;
         inp = obj [(''video'', JStr video_uri), (''audio'', JStr audio_uri)];
         (r, w2) = bind_call (with_transport_retry (retry_settings va (max (va_max_retries va) 5)) (rest cl)
           (throttled_call va cl (create_sync va cl version inp (create_params webhook_url))))
           (\<lambda>raw. pure_call (snapshot_of ps raw)) w1
     in (r, cache', w2))"

section \<open>Artifacts\<close>

definition meta_num :: "jdict \<Rightarrow> string \<Rightarrow> rat" where
  "meta_num d k = num_of (jget d k)"

definition clip_artifact ::
  "(json \<Rightarrow> string) \<Rightarrow> video_adapter \<Rightarrow> video_prediction \<Rightarrow> string \<Rightarrow> int \<Rightarrow> int \<Rightarrow> string option \<Rightarrow> submit_exc + artifact" where
  "clip_artifact ps va p tier secs attempt img =
    (if vp_status p \<noteq> ''succeeded'' then Inl (runtime_error (''Replicate video prediction did not succeed: '' @ text_or (vp_error p) (vp_status p)))
     else case tier_named va tier of
       Inl e \<Rightarrow> Inl e
     | Inr spec \<Rightarrow>
         (case coerce_output ps (vp_output p) of
            Inl e \<Rightarrow> Inl e
          | Inr uri \<Rightarrow> Inr \<lparr>art_kind = ''clip'', art_uri = uri, art_meta = obj
              [(''tier'', JStr tier), (''model'', JStr (vt_model spec)), (''seconds'', int_json secs),
               (''cost_usd'', JNum (py_round 4 (vt_cost spec * of_int secs))), (''attempt'', int_json attempt), (''provider'', JStr ''replicate''),
               (''prediction_id'', JStr (vp_id p)), (''generate_audio'', JBool False), (''has_reference_image'', JBool (filled img))]\<rparr>))"

definition latentsync_artifact :: "(json \<Rightarrow> string) \<Rightarrow> video_adapter \<Rightarrow> video_prediction \<Rightarrow> artifact \<Rightarrow> submit_exc + artifact" where
  "latentsync_artifact ps va p base =
    (if vp_status p \<noteq> ''succeeded'' then Inl (runtime_error (''Replicate LatentSync prediction did not succeed: '' @ text_or (vp_error p) (vp_status p)))
     else case coerce_output ps (vp_output p) of
       Inl e \<Rightarrow> Inl e
     | Inr uri \<Rightarrow>
         (let meta = art_meta base;
              sync_cost = py_round 4 (ls_cost (va_sync va) * of_int (int_of (jget meta ''seconds'')))
          in Inr \<lparr>art_kind = ''clip'', art_uri = uri, art_meta =
            fmupd ''cost_usd'' (JNum (py_round 4 (meta_num meta ''cost_usd'' + sync_cost)))
              (fmupd ''latentsync_cost_usd'' (JNum sync_cost)
              (fmupd ''base_clip_uri'' (JStr (art_uri base))
              (fmupd ''prediction_id'' (JStr (vp_id p))
              (fmupd ''latentsync_model'' (JStr (ls_model (va_sync va)))
              (fmupd ''latentsync_applied'' (JBool True) meta)))))\<rparr>))"

section \<open>Generating a clip\<close>

text \<open>
  Reading a prediction until it is terminal; the timeout fires after \<open>turns\<close> reads.
\<close>

fun poll_until_terminal ::
  "(json \<Rightarrow> string) \<Rightarrow> video_adapter \<Rightarrow> 'w video_client \<Rightarrow> nat \<Rightarrow> video_prediction \<Rightarrow> (video_prediction, 'w) call" where
  "poll_until_terminal ps va cl turns p w =
    (if terminal_status (vp_status p) then (Inr p, w)
     else case turns of
       0 \<Rightarrow> (Inl (plain_error ''TimeoutError'' []), w)
     | Suc n \<Rightarrow>
         bind_call (get_video_prediction ps va cl (vp_id p)) (poll_until_terminal ps va cl n)
           (rest cl (cs_poll_interval (va_clip va)) w))"

declare poll_until_terminal.simps [simp del]

text \<open>What a clip request asks for.\<close>

record clip_request =
  cr_item :: string
  cr_tier :: string
  cr_seconds :: int
  cr_attempt :: int
  cr_prompt :: "string option"
  cr_image :: "string option"
  cr_audio :: "string option"
  cr_stage :: "string option"

definition wants_sync :: "video_adapter \<Rightarrow> clip_request \<Rightarrow> bool" where
  "wants_sync va cr \<longleftrightarrow> filled (cr_audio cr) \<and> ls_enabled (va_sync va)"

definition sync_guard :: "video_adapter \<Rightarrow> clip_request \<Rightarrow> submit_exc + unit" where
  "sync_guard va cr =
    (if ls_required (va_sync va) \<and> cr_stage cr \<noteq> Some ''product_demo'' then
       (if \<not> ls_enabled (va_sync va) then Inl (runtime_error ''LatentSync is required but latentsync is disabled'')
        else if \<not> filled (cr_audio cr) then Inl (runtime_error ''LatentSync is required for talking head but audio_uri is missing'')
        else Inr ())
     else Inr ())"

text \<open>A tier without a supported model: the mock, if the composition root gave one.\<close>

definition mock_artifact :: "video_adapter \<Rightarrow> 'w video_client \<Rightarrow> clip_request \<Rightarrow> (artifact, 'w) call" where
  "mock_artifact va cl cr =
    (case (va_mock_fallback va, mock_clip cl) of
       (True, Some gen) \<Rightarrow> bind_call (gen (cr_item cr) (cr_tier cr) (cr_seconds cr) (cr_attempt cr)) (\<lambda>a.
         pure_call (Inr (a\<lparr>art_meta := fmupd ''fallback_reason'' (JStr ''replicate_model_not_configured'')
           (fmupd ''provider'' (JStr ''mock'') (art_meta a))\<rparr>)))
     | _ \<Rightarrow> pure_call (Inl (runtime_error ''Replicate video mock fallback disabled'')))"

definition sync_clip ::
  "(json \<Rightarrow> string) \<Rightarrow> video_adapter \<Rightarrow> 'w video_client \<Rightarrow> nat \<Rightarrow> clip_request \<Rightarrow> version_cache \<Rightarrow> artifact \<Rightarrow> (artifact, 'w) call" where
  "sync_clip ps va cl turns cr cache base w =
    (let (r, cache', w1) = submit_latentsync_prediction ps va cl (art_uri base) (the (cr_audio cr)) None cache w in
     bind_call (\<lambda>w. (r, w)) (\<lambda>p.
     bind_call (poll_until_terminal ps va cl turns p) (\<lambda>p'.
     pure_call (latentsync_artifact ps va p' base))) w1)"

text \<open>With the prediction client: a prediction for the clip and, when there is audio, one for the lip sync.\<close>

definition predicted_clip ::
  "(json \<Rightarrow> string) \<Rightarrow> video_adapter \<Rightarrow> 'w video_client \<Rightarrow> nat \<Rightarrow> nat \<Rightarrow> clip_request \<Rightarrow> version_cache \<Rightarrow> (artifact, 'w) call" where
  "predicted_clip ps va cl turns sync_turns cr cache =
    bind_call (submit_clip_prediction ps va cl (cr_item cr) (cr_tier cr) (cr_seconds cr) (cr_prompt cr) (cr_image cr) None) (\<lambda>p.
    bind_call (poll_until_terminal ps va cl turns p) (\<lambda>p'.
    bind_call (pure_call (clip_artifact ps va p' (cr_tier cr) (cr_seconds cr) (cr_attempt cr) (cr_image cr))) (\<lambda>base.
    if wants_sync va cr then sync_clip ps va cl sync_turns cr cache base else pure_call (Inr base))))"

text \<open>With a runner, which waits for the output itself.\<close>

definition run_sync :: "(json \<Rightarrow> string) \<Rightarrow> video_adapter \<Rightarrow> 'w video_client \<Rightarrow> clip_request \<Rightarrow> jdict \<Rightarrow> rat \<Rightarrow> string \<Rightarrow> (artifact, 'w) call" where
  "run_sync ps va cl cr meta cost uri =
    bind_call (with_idempotent_retry (retry_settings va (ls_max_retries (va_sync va))) (rest cl)
      (throttled_call va cl (run_model cl (ls_model (va_sync va)) (obj [(''video'', JStr uri), (''audio'', JStr (the (cr_audio cr)))])))) (\<lambda>out.
    pure_call (case coerce_output ps out of
      Inl e \<Rightarrow> Inl e
    | Inr uri' \<Rightarrow>
        let sync_cost = py_round 4 (ls_cost (va_sync va) * of_int (cr_seconds cr))
        in Inr \<lparr>art_kind = ''clip'', art_uri = uri', art_meta =
          fmupd ''cost_usd'' (JNum (py_round 4 (cost + sync_cost))) (fmupd ''latentsync_cost_usd'' (JNum sync_cost)
            (fmupd ''base_clip_uri'' (JStr uri) (fmupd ''latentsync_model'' (JStr (ls_model (va_sync va)))
            (fmupd ''latentsync_applied'' (JBool True) meta))))\<rparr>))"

definition run_meta :: "clip_request \<Rightarrow> string \<Rightarrow> rat \<Rightarrow> jdict" where
  "run_meta cr model cost = obj
    [(''tier'', JStr (cr_tier cr)), (''model'', JStr model), (''seconds'', int_json (cr_seconds cr)), (''cost_usd'', JNum cost),
     (''attempt'', int_json (cr_attempt cr)), (''provider'', JStr ''replicate''), (''generate_audio'', JBool False),
     (''has_reference_image'', JBool (filled (cr_image cr)))]"

definition run_clip :: "(json \<Rightarrow> string) \<Rightarrow> video_adapter \<Rightarrow> 'w video_client \<Rightarrow> clip_request \<Rightarrow> (artifact, 'w) call" where
  "run_clip ps va cl cr =
    bind_call (pure_call (clip_input va (cr_item cr) (cr_tier cr) (cr_seconds cr) (cr_prompt cr) (cr_image cr))) (\<lambda>(model, inp, cost).
    bind_call (with_transport_retry (retry_settings va (va_max_retries va)) (rest cl) (throttled_call va cl (run_model cl model inp))) (\<lambda>out.
    bind_call (pure_call (coerce_output ps out)) (\<lambda>uri.
    if wants_sync va cr then run_sync ps va cl cr (run_meta cr model cost) cost uri
    else pure_call (Inr \<lparr>art_kind = ''clip'', art_uri = uri, art_meta = run_meta cr model cost\<rparr>))))"

definition generate_clip ::
  "(json \<Rightarrow> string) \<Rightarrow> video_adapter \<Rightarrow> 'w video_client \<Rightarrow> nat \<Rightarrow> nat \<Rightarrow> clip_request \<Rightarrow> version_cache \<Rightarrow> (artifact, 'w) call" where
  "generate_clip ps va cl turns sync_turns cr cache =
    bind_call (pure_call (sync_guard va cr)) (\<lambda>_.
    bind_call (pure_call (tier_named va (cr_tier cr))) (\<lambda>spec.
    if vt_model spec \<notin> set supported_models then mock_artifact va cl cr
    else if \<not> va_runner va then predicted_clip ps va cl turns sync_turns cr cache
    else run_clip ps va cl cr))"

text \<open>The final video, from the briefing and the image of the creator.\<close>

definition assemble_video ::
  "(json \<Rightarrow> string) \<Rightarrow> video_adapter \<Rightarrow> 'w video_client \<Rightarrow> item \<Rightarrow> string \<Rightarrow> string option \<Rightarrow> (artifact, 'w) call" where
  "assemble_video ps va cl i platform_name system_prompt =
    (let cfg = va_assembly va;
         img = (if filled (creator_image_uri i) then creator_image_uri i
           else if filled (creator_image_local_path i) then creator_image_local_path i else creator_image_uri i);
         prompt = text_or system_prompt (''Create one polished final vertical UGC ad for '' @ platform_name @ ''. Script: '' @ text_or (script i) [])
     in if as_model cfg \<noteq> pruna_model then pure_call (Inl (runtime_error ''Replicate assembly requires model''))
        else
          bind_call (with_transport_retry (retry_settings va (va_max_retries va)) (rest cl) (throttled_call va cl (run_model cl (as_model cfg)
            (obj ([(''prompt'', JStr prompt), (''duration'', int_json (as_duration cfg)), (''resolution'', JStr (as_resolution cfg)),
              (''aspect_ratio'', JStr (as_aspect_ratio cfg)), (''fps'', int_json (as_fps cfg)), (''draft'', JBool (as_draft cfg)),
              (''save_audio'', JBool (as_generate_audio cfg)), (''prompt_upsampling'', JBool False)] @ image_entry img))))) (\<lambda>out.
          bind_call (pure_call (coerce_output ps out)) (\<lambda>uri.
          pure_call (Inr \<lparr>art_kind = ''video'', art_uri = uri, art_meta = obj
            [(''provider'', JStr ''replicate''), (''model'', JStr (as_model cfg)), (''platform'', JStr platform_name), (''duration'', int_json (as_duration cfg)),
             (''aspect_ratio'', JStr (as_aspect_ratio cfg)), (''resolution'', JStr (as_resolution cfg)), (''generate_audio'', JBool (as_generate_audio cfg)),
             (''draft'', JBool (as_draft cfg)), (''cost_usd'', JNum (py_round 4 (as_cost cfg * of_int (as_duration cfg)))),
             (''source_clips'', JNum (of_nat (length (clips i)))), (''has_reference_image'', JBool (img \<noteq> None))]\<rparr>))))"

section \<open>What is billed\<close>

text \<open>
  The documented behaviour of the provider: creating a prediction or running a model bills at most once and not at all
  when the request is refused (\<open>creates_once\<close>); reading, cancelling, asking for a version, the mock and waiting bill nothing.
\<close>

definition bills_at_most :: "('w \<Rightarrow> nat) \<Rightarrow> nat \<Rightarrow> ('a, 'w) call \<Rightarrow> bool" where
  "bills_at_most billed n call \<longleftrightarrow> (\<forall>w. billed w \<le> billed (snd (call w)) \<and> billed (snd (call w)) \<le> billed w + n)"

definition lawful_client :: "('w \<Rightarrow> nat) \<Rightarrow> 'w video_client \<Rightarrow> bool" where
  "lawful_client billed cl \<longleftrightarrow>
    (\<forall>m i. creates_once billed (run_model cl m i)) \<and> (\<forall>m i p. creates_once billed (create_for_model cl m i p)) \<and>
    (\<forall>v i p. creates_once billed (create_for_version cl v i p)) \<and>
    (\<forall>pid. bills_at_most billed 0 (get_prediction cl pid)) \<and> (\<forall>pid. bills_at_most billed 0 (cancel_prediction cl pid)) \<and>
    (\<forall>ask m. latest_version cl = Some ask \<longrightarrow> bills_at_most billed 0 (ask m)) \<and>
    (\<forall>gen a b c d. mock_clip cl = Some gen \<longrightarrow> bills_at_most billed 0 (gen a b c d)) \<and>
    (\<forall>w. billed (wait_slot cl w) = billed w) \<and> (\<forall>d w. billed (rest cl d w) = billed w)"

lemma bills_bind:
  assumes "bills_at_most billed n c" "\<And>x. bills_at_most billed m (f x)"
  shows "bills_at_most billed (n + m) (bind_call c f)"
  unfolding bills_at_most_def
proof
  fix w
  show "billed w \<le> billed (snd (bind_call c f w)) \<and> billed (snd (bind_call c f w)) \<le> billed w + (n + m)"
  proof (cases "c w")
    case (Pair r w')
    then have here: "billed w \<le> billed w'" "billed w' \<le> billed w + n"
      using assms(1) unfolding bills_at_most_def by (metis snd_conv)+
    show ?thesis
    proof (cases r)
      case (Inr x)
      have "billed w' \<le> billed (snd (f x w'))" "billed (snd (f x w')) \<le> billed w' + m"
        using assms(2) unfolding bills_at_most_def by blast+
      then show ?thesis
        using here by (simp add: bind_call_def Pair Inr)
    qed (use here in \<open>simp add: bind_call_def Pair\<close>)
  qed
qed

lemma bills_pure: "bills_at_most billed 0 (pure_call r)"
  by (simp add: bills_at_most_def pure_call_def)

lemma bills_mono: "bills_at_most billed n c \<Longrightarrow> n \<le> m \<Longrightarrow> bills_at_most billed m c"
  unfolding bills_at_most_def by (meson add_left_mono order_trans)

lemma bills_bind_pure: "(\<And>x. r = Inr x \<Longrightarrow> bills_at_most billed n (f x)) \<Longrightarrow> bills_at_most billed n (bind_call (pure_call r) f)"
  by (cases r) (simp_all add: bills_at_most_def bind_call_def pure_call_def)

lemma creates_once_bills: "creates_once billed c \<Longrightarrow> bills_at_most billed 1 c"
  by (simp add: creates_once_def bills_at_most_def)

lemma lawful_waits:
  assumes "lawful_client billed cl"
  shows "billed (wait_slot cl w) = billed w" "billed (rest cl d w) = billed w"
  using assms unfolding lawful_client_def by blast+

lemma lawful_reads:
  assumes "lawful_client billed cl"
  shows "bills_at_most billed 0 (get_prediction cl pid)" "bills_at_most billed 0 (cancel_prediction cl pid)"
    "latest_version cl = Some ask \<Longrightarrow> bills_at_most billed 0 (ask m)" "mock_clip cl = Some gen \<Longrightarrow> bills_at_most billed 0 (gen x y z u)"
  using assms unfolding lawful_client_def by blast+

lemma lawful_creates:
  assumes "lawful_client billed cl"
  shows "creates_once billed (run_model cl m i)" "creates_once billed (create_for_model cl m i p)" "creates_once billed (create_for_version cl m i p)"
  using assms unfolding lawful_client_def by blast+

text \<open>What a predicate of a call says after a wait that bills nothing.\<close>

lemma throttled_creates:
  assumes "lawful_client billed cl" "creates_once billed op"
  shows "creates_once billed (throttled_call va cl op)"
  unfolding creates_once_def
proof
  fix w
  define w1 where "w1 = (if va_throttled va then wait_slot cl w else w)"
  have w1: "billed w1 = billed w" "throttled_call va cl op w = op w1"
    by (simp_all add: w1_def throttled_call_def lawful_waits(1) [OF assms(1)])
  show "billed w \<le> billed (snd (throttled_call va cl op w)) \<and> billed (snd (throttled_call va cl op w)) \<le> Suc (billed w) \<and>
      (\<forall>exc. fst (throttled_call va cl op w) = Inl exc \<and> refused exc \<longrightarrow> billed (snd (throttled_call va cl op w)) = billed w)"
    using spec [OF assms(2) [unfolded creates_once_def], of w1] unfolding w1 .
qed

lemma throttled_bills:
  assumes "lawful_client billed cl" "bills_at_most billed n op"
  shows "bills_at_most billed n (throttled_call va cl op)"
  unfolding bills_at_most_def
proof
  fix w
  define w1 where "w1 = (if va_throttled va then wait_slot cl w else w)"
  have w1: "billed w1 = billed w" "throttled_call va cl op w = op w1"
    by (simp_all add: w1_def throttled_call_def lawful_waits(1) [OF assms(1)])
  show "billed w \<le> billed (snd (throttled_call va cl op w)) \<and> billed (snd (throttled_call va cl op w)) \<le> billed w + n"
    using spec [OF assms(2) [unfolded bills_at_most_def], of w1] unfolding w1 .
qed

lemma transport_retry_creates:
  assumes "lawful_client billed cl" "creates_once billed op"
  shows "creates_once billed (with_transport_retry cfg (rest cl) op)"
  unfolding creates_once_def with_transport_retry_def
proof
  show "billed w \<le> billed (snd (retry_loop is_retryable cfg (rest cl) op 0 w)) \<and>
      billed (snd (retry_loop is_retryable cfg (rest cl) op 0 w)) \<le> Suc (billed w) \<and>
      (\<forall>exc. fst (retry_loop is_retryable cfg (rest cl) op 0 w) = Inl exc \<and> refused exc \<longrightarrow>
        billed (snd (retry_loop is_retryable cfg (rest cl) op 0 w)) = billed w)" for w
    by (rule retry_creates [OF assms(2)]) (simp_all only: lawful_waits(2) [OF assms(1)] retryable_refused)
qed

lemma retry_loop_bills:
  assumes "bills_at_most billed n op" "\<And>d w. billed (pause d w) = billed w"
  shows "billed w \<le> billed (snd (retry_loop again cfg pause op k w)) \<and>
    billed (snd (retry_loop again cfg pause op k w)) \<le> billed w + Suc (nat (max_retries cfg - int k)) * n"
  using assms
proof (induction again cfg pause op k w rule: retry_loop.induct)
  case (1 again cfg pause op k w)
  have here: "billed w \<le> billed (snd (op w))" "billed (snd (op w)) \<le> billed w + n"
    using 1(2) by (auto simp: bills_at_most_def)
  show ?case
  proof (cases "\<exists>exc. fst (op w) = Inl exc \<and> again exc \<and> \<not> max_retries cfg \<le> int k")
    case True
    then obtain exc w' where op: "op w = (Inl exc, w')" "again exc" "\<not> max_retries cfg \<le> int k"
      by (cases "op w") auto
    have "retry_loop again cfg pause op k w = retry_loop again cfg pause op (Suc k) (pause (retry_delay cfg k exc) w')"
      by (subst retry_loop.simps) (simp add: op)
    moreover have "nat (max_retries cfg - int k) = Suc (nat (max_retries cfg - int (Suc k)))"
      using op(3) by simp
    ultimately show ?thesis
      using 1(1) [of "Inl exc" w' exc] 1(2,3) op here by simp
  next
    case False
    then have "retry_loop again cfg pause op k w = op w"
      by (subst retry_loop.simps) (auto split: sum.splits prod.splits)
    then show ?thesis
      using here by simp
  qed
qed

lemma idempotent_retry_bills:
  assumes "lawful_client billed cl" "bills_at_most billed n op"
  shows "bills_at_most billed (Suc (nat (max_retries cfg)) * n) (with_idempotent_retry cfg (rest cl) op)"
  unfolding bills_at_most_def with_idempotent_retry_def
  using retry_loop_bills [where pause = "rest cl" and k = 0 and again = is_idempotent_retryable and cfg = cfg, OF assms(2)]
  by (simp only: lawful_waits(2) [OF assms(1)] simp_thms of_nat_0 diff_zero)

lemma read_bills:
  assumes "lawful_client billed cl" "bills_at_most billed 0 op"
  shows "bills_at_most billed 0 (bind_call (with_idempotent_retry cfg (rest cl) (throttled_call va cl op)) (\<lambda>raw. pure_call (f raw)))"
  using bills_bind [OF idempotent_retry_bills [OF assms(1) throttled_bills [OF assms]] bills_pure] by simp

lemma get_bills: "lawful_client billed cl \<Longrightarrow> bills_at_most billed 0 (get_video_prediction ps va cl pid)"
  unfolding get_video_prediction_def by (intro read_bills lawful_reads)

lemma cancel_bills: "lawful_client billed cl \<Longrightarrow> bills_at_most billed 0 (cancel_video_prediction ps va cl pid)"
  unfolding cancel_video_prediction_def by (intro read_bills lawful_reads)

lemma poll_bills:
  assumes "lawful_client billed cl"
  shows "bills_at_most billed 0 (poll_until_terminal ps va cl n p)"
proof (induction n arbitrary: p)
  case 0
  show ?case
    unfolding bills_at_most_def by (subst (1 2) poll_until_terminal.simps) simp
next
  case (Suc n)
  have "bills_at_most billed (0 + 0) (bind_call (get_video_prediction ps va cl (vp_id p)) (poll_until_terminal ps va cl n))"
    by (rule bills_bind [OF get_bills [OF assms] Suc])
  then have step: "bills_at_most billed 0 (bind_call (get_video_prediction ps va cl (vp_id p)) (poll_until_terminal ps va cl n))"
    by simp
  show ?case
    unfolding bills_at_most_def
  proof
    show "billed w \<le> billed (snd (poll_until_terminal ps va cl (Suc n) p w)) \<and>
        billed (snd (poll_until_terminal ps va cl (Suc n) p w)) \<le> billed w + 0" for w
      using step [unfolded bills_at_most_def, rule_format, of "rest cl (cs_poll_interval (va_clip va)) w"]
      by (subst (1 2) poll_until_terminal.simps) (simp add: lawful_waits(2) [OF assms])
  qed
qed

text \<open>Errors of the adapter itself are no refusals.\<close>

lemma runtime_not_refused: "\<not> refused (runtime_error m)" "\<not> refused (plain_error k m)"
  by (simp_all add: refused_def runtime_error_def plain_error_def never_sent_def)

lemma snapshot_not_refused: "snapshot_of ps raw = Inl e \<Longrightarrow> \<not> refused e"
  by (auto simp: snapshot_of_def Let_def runtime_not_refused split: if_splits)

lemma creates_bind:
  assumes "creates_once billed c" "\<And>x e. f x = Inl e \<Longrightarrow> \<not> refused e"
  shows "creates_once billed (bind_call c (\<lambda>x. pure_call (f x)))"
  unfolding creates_once_def
proof
  fix w
  obtain r w' where c: "c w = (r, w')"
    by fastforce
  have "billed w \<le> billed w'" "billed w' \<le> Suc (billed w)" "\<And>exc. r = Inl exc \<Longrightarrow> refused exc \<Longrightarrow> billed w' = billed w"
    using assms(1) [unfolded creates_once_def, rule_format, of w] by (simp_all add: c)
  then show "billed w \<le> billed (snd (bind_call c (\<lambda>x. pure_call (f x)) w)) \<and>
      billed (snd (bind_call c (\<lambda>x. pure_call (f x)) w)) \<le> Suc (billed w) \<and>
      (\<forall>exc. fst (bind_call c (\<lambda>x. pure_call (f x)) w) = Inl exc \<and> refused exc \<longrightarrow>
        billed (snd (bind_call c (\<lambda>x. pure_call (f x)) w)) = billed w)"
    using assms(2) by (cases r) (auto simp: bind_call_def pure_call_def c)
qed

lemma creates_pure: "(\<And>x. r = Inr x \<Longrightarrow> creates_once billed (f x)) \<Longrightarrow> creates_once billed (bind_call (pure_call r) f)"
  by (cases r) (simp_all add: creates_once_def bind_call_def pure_call_def)

lemma submit_clip_creates:
  assumes "lawful_client billed cl"
  shows "creates_once billed (submit_clip_prediction ps va cl iid tier secs prompt img url)"
  unfolding submit_clip_prediction_def
  by (intro creates_pure)
    (auto intro!: creates_bind transport_retry_creates throttled_creates lawful_creates assms snapshot_not_refused)

lemma sync_version_bills:
  assumes "lawful_client billed cl" "sync_version va cl cache w = (v, cache', w')"
  shows "billed w' = billed w"
proof (cases "latest_version cl")
  case (Some ask)
  have "bills_at_most billed 0 (throttled_call va cl (ask (ls_model (va_sync va))))"
    by (rule throttled_bills [OF assms(1) lawful_reads(3) [OF assms(1) Some]])
  then have "billed (snd (throttled_call va cl (ask (ls_model (va_sync va))) w)) = billed w"
    by (simp add: bills_at_most_def dual_order.antisym)
  then show ?thesis
    using assms(2) by (auto simp: sync_version_def Let_def Some split: if_splits option.splits prod.splits sum.splits list.splits)
qed (use assms(2) in \<open>auto simp: sync_version_def Let_def split: if_splits option.splits\<close>)

lemma create_sync_creates: "lawful_client billed cl \<Longrightarrow> creates_once billed (create_sync va cl v inp params)"
  by (auto simp: create_sync_def lawful_creates split: option.split list.split)

lemma submit_sync_creates:
  assumes "lawful_client billed cl" "submit_latentsync_prediction ps va cl v a url cache w = (r, cache', w')"
  shows "billed w \<le> billed w' \<and> billed w' \<le> Suc (billed w) \<and> (\<forall>exc. r = Inl exc \<and> refused exc \<longrightarrow> billed w' = billed w)"
proof -
  obtain ver c1 w1 where ver: "sync_version va cl cache w = (ver, c1, w1)"
    by (cases "sync_version va cl cache w") auto
  let ?call = "bind_call (with_transport_retry (retry_settings va (max (va_max_retries va) 5)) (rest cl)
      (throttled_call va cl (create_sync va cl ver (obj [(''video'', JStr v), (''audio'', JStr a)]) (create_params url))))
      (\<lambda>raw. pure_call (snapshot_of ps raw))"
  have "creates_once billed ?call"
    by (intro creates_bind transport_retry_creates throttled_creates create_sync_creates assms(1) snapshot_not_refused)
  moreover have "?call w1 = (r, w')"
    using assms(2) by (simp add: submit_latentsync_prediction_def ver split: prod.splits)
  ultimately show ?thesis
    unfolding creates_once_def sync_version_bills [OF assms(1) ver, symmetric] by (metis fst_conv snd_conv)
qed

section \<open>What a clip costs\<close>

lemma bills_bind0: "bills_at_most billed 0 c \<Longrightarrow> (\<And>x. bills_at_most billed n (f x)) \<Longrightarrow> bills_at_most billed n (bind_call c f)"
  using bills_bind [of billed 0 c n f] by simp

lemma bills_then_pure: "bills_at_most billed n c \<Longrightarrow> bills_at_most billed n (bind_call c (\<lambda>x. pure_call (f x)))"
  using bills_bind [OF _ bills_pure, of billed n c] by simp

lemma sync_clip_bills:
  assumes "lawful_client billed cl"
  shows "bills_at_most billed 1 (sync_clip ps va cl turns cr cache base)"
  unfolding bills_at_most_def
proof
  fix w
  obtain r cache' w1 where sub: "submit_latentsync_prediction ps va cl (art_uri base) (the (cr_audio cr)) None cache w = (r, cache', w1)"
    by (cases "submit_latentsync_prediction ps va cl (art_uri base) (the (cr_audio cr)) None cache w") auto
  let ?rest = "bind_call (\<lambda>w. (r, w)) (\<lambda>p. bind_call (poll_until_terminal ps va cl turns p) (\<lambda>p'. pure_call (latentsync_artifact ps va p' base)))"
  have "bills_at_most billed 0 ?rest"
  proof (rule bills_bind0)
    show "bills_at_most billed 0 (\<lambda>w. (r, w))"
      by (simp add: bills_at_most_def)
    show "bills_at_most billed 0 (bind_call (poll_until_terminal ps va cl turns p) (\<lambda>p'. pure_call (latentsync_artifact ps va p' base)))" for p
      by (rule bills_then_pure [OF poll_bills [OF assms]])
  qed
  moreover have "sync_clip ps va cl turns cr cache base w = ?rest w1"
    by (simp add: sync_clip_def sub)
  ultimately show "billed w \<le> billed (snd (sync_clip ps va cl turns cr cache base w)) \<and>
      billed (snd (sync_clip ps va cl turns cr cache base w)) \<le> billed w + 1"
    using submit_sync_creates [OF assms sub] unfolding bills_at_most_def by (metis Suc_eq_plus1 add.right_neutral le_antisym)
qed

lemma predicted_clip_bills:
  assumes "lawful_client billed cl"
  shows "bills_at_most billed (1 + (if wants_sync va cr then 1 else 0)) (predicted_clip ps va cl turns sync_turns cr cache)"
  unfolding predicted_clip_def
proof (rule bills_bind [OF creates_once_bills [OF submit_clip_creates [OF assms]]], rule bills_bind0 [OF poll_bills [OF assms]],
    rule bills_bind_pure)
  show "bills_at_most billed (if wants_sync va cr then 1 else 0)
      (if wants_sync va cr then sync_clip ps va cl sync_turns cr cache x else pure_call (Inr x))" for x
    by (cases "wants_sync va cr") (simp_all only: if_True if_False sync_clip_bills [OF assms] bills_pure)
qed

lemma run_sync_bills:
  assumes "lawful_client billed cl"
  shows "bills_at_most billed (Suc (nat (ls_max_retries (va_sync va)))) (run_sync ps va cl cr meta cost uri)"
  unfolding run_sync_def
  using idempotent_retry_bills [OF assms throttled_bills [OF assms creates_once_bills [OF lawful_creates(1) [OF assms]]],
      of "retry_settings va (ls_max_retries (va_sync va))"]
  by (intro bills_then_pure) (simp add: retry_settings_def)

lemma run_clip_bills:
  assumes "lawful_client billed cl"
  shows "bills_at_most billed (1 + (if wants_sync va cr then Suc (nat (ls_max_retries (va_sync va))) else 0)) (run_clip ps va cl cr)"
  unfolding run_clip_def
proof (rule bills_bind_pure)
  fix x :: "string \<times> jdict \<times> rat"
  obtain model inp cost where x: "x = (model, inp, cost)"
    by (cases x) auto
  have first: "bills_at_most billed 1 (with_transport_retry cfg (rest cl) (throttled_call va cl (run_model cl m i)))" for cfg m i
    by (intro creates_once_bills transport_retry_creates throttled_creates lawful_creates assms)
  show "bills_at_most billed (1 + (if wants_sync va cr then Suc (nat (ls_max_retries (va_sync va))) else 0)) (case x of (model, inp, cost) \<Rightarrow>
      bind_call (with_transport_retry (retry_settings va (va_max_retries va)) (rest cl) (throttled_call va cl (run_model cl model inp))) (\<lambda>out.
      bind_call (pure_call (coerce_output ps out)) (\<lambda>uri.
      if wants_sync va cr then run_sync ps va cl cr (run_meta cr model cost) cost uri
      else pure_call (Inr \<lparr>art_kind = ''clip'', art_uri = uri, art_meta = run_meta cr model cost\<rparr>))))"
    unfolding x prod.case
  proof (rule bills_bind [OF first], rule bills_bind_pure)
    show "bills_at_most billed (if wants_sync va cr then Suc (nat (ls_max_retries (va_sync va))) else 0)
        (if wants_sync va cr then run_sync ps va cl cr (run_meta cr model cost) cost uri
         else pure_call (Inr \<lparr>art_kind = ''clip'', art_uri = uri, art_meta = run_meta cr model cost\<rparr>))" for uri
      by (cases "wants_sync va cr") (simp_all only: if_True if_False run_sync_bills [OF assms] bills_pure)
  qed
qed

definition clip_bill :: "video_adapter \<Rightarrow> clip_request \<Rightarrow> nat" where
  "clip_bill va cr =
    (if \<not> isl (sync_guard va cr) \<and> (case tier_named va (cr_tier cr) of Inl _ \<Rightarrow> False | Inr t \<Rightarrow> vt_model t \<in> set supported_models)
     then 1 + (if wants_sync va cr then (if va_runner va then Suc (nat (ls_max_retries (va_sync va))) else 1) else 0)
     else 0)"

lemma mock_bills:
  assumes "lawful_client billed cl"
  shows "bills_at_most billed 0 (mock_artifact va cl cr)"
proof (cases "va_mock_fallback va \<and> mock_clip cl \<noteq> None")
  case True
  then obtain gen where "va_mock_fallback va" and gen: "mock_clip cl = Some gen"
    by auto
  then show ?thesis
    by (simp add: mock_artifact_def bills_then_pure [OF lawful_reads(4) [OF assms gen]])
next
  case False
  then show ?thesis
    by (cases "va_mock_fallback va"; cases "mock_clip cl") (simp_all add: mock_artifact_def bills_pure)
qed

lemma generate_clip_bill:
  assumes "lawful_client billed cl"
  shows "bills_at_most billed (clip_bill va cr) (generate_clip ps va cl turns sync_turns cr cache)"
  unfolding generate_clip_def
proof (rule bills_bind_pure, rule bills_bind_pure)
  fix u spec
  assume "sync_guard va cr = Inr u" "tier_named va (cr_tier cr) = Inr spec"
  then have bill: "clip_bill va cr = (if vt_model spec \<in> set supported_models
      then 1 + (if wants_sync va cr then (if va_runner va then Suc (nat (ls_max_retries (va_sync va))) else 1) else 0) else 0)"
    by (simp add: clip_bill_def)
  show "bills_at_most billed (clip_bill va cr) (if vt_model spec \<notin> set supported_models then mock_artifact va cl cr
      else if \<not> va_runner va then predicted_clip ps va cl turns sync_turns cr cache else run_clip ps va cl cr)"
    unfolding bill
    by (cases "vt_model spec \<in> set supported_models"; cases "va_runner va"; cases "wants_sync va cr")
      (use predicted_clip_bills [OF assms, of va cr] run_clip_bills [OF assms, of va cr] in
        \<open>simp_all only: if_True if_False not_True_eq_False not_False_eq_True mock_bills [OF assms]\<close>)
qed

lemma bind_call_InrE:
  assumes "bind_call c f w = (Inr y, w')"
  obtains x w1 where "c w = (Inr x, w1)" "f x w1 = (Inr y, w')"
  using assms by (auto simp: bind_call_def split: prod.splits sum.splits)

lemma bind_pure_InrE:
  assumes "bind_call (pure_call r) f w = (Inr y, w')"
  obtains x where "r = Inr x" "f x w = (Inr y, w')"
  using assms by (auto simp: bind_call_def pure_call_def split: sum.splits)

definition synced :: "artifact \<Rightarrow> bool" where
  "synced a \<longleftrightarrow> jget (art_meta a) ''latentsync_applied'' = JBool True"

lemma latentsync_artifact_synced: "latentsync_artifact ps va p base = Inr a \<Longrightarrow> synced a"
  by (auto simp: latentsync_artifact_def synced_def Let_def split: if_splits sum.splits)

lemma sync_clip_synced:
  assumes "sync_clip ps va cl turns cr cache base w = (Inr a, w')"
  shows "synced a"
proof -
  obtain r c1 w1 where "submit_latentsync_prediction ps va cl (art_uri base) (the (cr_audio cr)) None cache w = (r, c1, w1)"
    by (cases "submit_latentsync_prediction ps va cl (art_uri base) (the (cr_audio cr)) None cache w") auto
  then have "bind_call (\<lambda>w. (r, w)) (\<lambda>p. bind_call (poll_until_terminal ps va cl turns p) (\<lambda>p'.
      pure_call (latentsync_artifact ps va p' base))) w1 = (Inr a, w')"
    using assms by (simp add: sync_clip_def)
  then show ?thesis
    by (auto elim!: bind_call_InrE simp: pure_call_def intro: latentsync_artifact_synced)
qed

lemma run_sync_synced: "run_sync ps va cl cr meta cost uri w = (Inr a, w') \<Longrightarrow> synced a"
  unfolding run_sync_def by (erule bind_call_InrE) (auto simp: pure_call_def Let_def synced_def split: sum.splits)

lemma predicted_clip_synced:
  assumes "predicted_clip ps va cl turns sync_turns cr cache w = (Inr a, w')" "wants_sync va cr"
  shows "synced a"
  using assms(1) unfolding predicted_clip_def if_P [OF assms(2)]
  by (elim bind_call_InrE bind_pure_InrE) (rule sync_clip_synced)

lemma run_clip_synced:
  assumes "run_clip ps va cl cr w = (Inr a, w')" "wants_sync va cr"
  shows "synced a"
  using assms(1) unfolding run_clip_def if_P [OF assms(2)]
  by (auto elim!: bind_pure_InrE bind_call_InrE split: prod.splits intro: run_sync_synced)

text \<open>
  C12. What a clip may cost. Whatever the provider answers and however often reads and creations are repeated, generating
  a clip bills at most one prediction, and when its lip sync is wanted one more with the prediction client. With a runner
  the lip sync is repeated after failures that say nothing about whether it ran, so it is billed at most once for
  the first request and once for each configured repetition. Nothing is billed when the tier is unknown or has no supported
  model, or when a required lip sync is not possible. A clip of a supported tier for which the lip sync is required is
  never returned without it, either way.
\<close>

theorem clip_bought_once:
  assumes "lawful_client billed cl" "generate_clip ps va cl turns sync_turns cr cache w = (r, w')"
  shows "billed w' \<le> billed w + 1 + (if \<not> wants_sync va cr then 0 else if va_runner va then Suc (nat (ls_max_retries (va_sync va))) else 1) \<and>
    (isl (sync_guard va cr) \<or> (\<forall>t. tier_named va (cr_tier cr) = Inr t \<longrightarrow> vt_model t \<notin> set supported_models) \<longrightarrow> billed w' = billed w) \<and>
    (\<forall>a t. r = Inr a \<and> ls_required (va_sync va) \<and> cr_stage cr \<noteq> Some ''product_demo'' \<and>
       tier_named va (cr_tier cr) = Inr t \<and> vt_model t \<in> set supported_models \<longrightarrow> synced a)"
proof (intro conjI impI allI)
  have bill: "billed w \<le> billed w'" "billed w' \<le> billed w + clip_bill va cr"
    using spec [OF generate_clip_bill [OF assms(1), of va cr ps turns sync_turns cache, unfolded bills_at_most_def], of w] assms(2) by simp_all
  then show "billed w' \<le> billed w + 1 + (if \<not> wants_sync va cr then 0 else if va_runner va then Suc (nat (ls_max_retries (va_sync va))) else 1)"
    unfolding clip_bill_def by (simp split: if_splits)
  show "billed w' = billed w"
    if "isl (sync_guard va cr) \<or> (\<forall>t. tier_named va (cr_tier cr) = Inr t \<longrightarrow> vt_model t \<notin> set supported_models)"
  proof -
    have "clip_bill va cr = 0"
      using that by (auto simp: clip_bill_def split: sum.split)
    then show ?thesis
      using bill by simp
  qed
  fix a t
  assume ret: "r = Inr a \<and> ls_required (va_sync va) \<and> cr_stage cr \<noteq> Some ''product_demo'' \<and>
    tier_named va (cr_tier cr) = Inr t \<and> vt_model t \<in> set supported_models"
  obtain u where guard: "sync_guard va cr = Inr u"
      and "(if va_runner va then run_clip ps va cl cr else predicted_clip ps va cl turns sync_turns cr cache) w = (Inr a, w')"
    using assms(2) ret unfolding generate_clip_def by (auto elim!: bind_pure_InrE split: if_splits)
  moreover have "wants_sync va cr"
    using guard ret by (auto simp: sync_guard_def wants_sync_def split: if_splits)
  ultimately show "synced a"
    by (auto split: if_splits intro: predicted_clip_synced run_clip_synced)
qed

text \<open>A provider whose predictions succeed at once; the world counts what it has billed.\<close>

definition done_prediction :: raw_prediction where
  "done_prediction = \<lparr>raw_id = JStr ''p1'', raw_status = JStr ''succeeded'', raw_output = OutOther (JStr ''u''), raw_error = JNull\<rparr>"

definition steady_client :: "nat video_client" where
  "steady_client = \<lparr>run_model = (\<lambda>m i n. (Inr (OutOther (JStr ''u'')), Suc n)), create_for_model = (\<lambda>m i p n. (Inr done_prediction, Suc n)),
     create_for_version = (\<lambda>m i p n. (Inr done_prediction, Suc n)), get_prediction = (\<lambda>pid n. (Inr done_prediction, n)),
     cancel_prediction = (\<lambda>pid n. (Inr done_prediction, n)), latest_version = None, mock_clip = None, wait_slot = (\<lambda>n. n), rest = (\<lambda>d n. n)\<rparr>"

definition demo_adapter :: video_adapter where
  "demo_adapter = \<lparr>va_tiers = [\<lparr>vt_name = ''ltx'', vt_model = ltx_model, vt_cost = 1 / 10\<rparr>], va_runner = False,
     va_clip = \<lparr>cs_resolution = ''1080p'', cs_aspect_ratio = ''9:16'', cs_fps = 25, cs_camera_motion = ''static'', cs_draft = False, cs_poll_interval = 1\<rparr>,
     va_sync = \<lparr>ls_enabled = True, ls_required = True, ls_model = ''bytedance/latentsync'', ls_max_retries = 3, ls_cost = 3 / 1000\<rparr>,
     va_assembly = \<lparr>as_model = pruna_model, as_duration = 8, as_resolution = ''1080p'', as_aspect_ratio = ''9:16'', as_fps = 24, as_draft = False,
       as_generate_audio = False, as_cost = 0\<rparr>, va_max_retries = 3, va_backoff = 1, va_throttled = True, va_mock_fallback = False\<rparr>"

definition demo_request :: clip_request where
  "demo_request = \<lparr>cr_item = ''i'', cr_tier = ''ltx'', cr_seconds = 8, cr_attempt = 1, cr_prompt = None, cr_image = None, cr_audio = Some ''a'', cr_stage = None\<rparr>"

lemma steady_lawful: "lawful_client (\<lambda>n. n) steady_client"
  by (simp add: lawful_client_def steady_client_def creates_once_def bills_at_most_def)

text \<open>
  With a runner the lip sync is repeated after failures that say nothing about whether it was created: a provider whose
  answers are lost bills it once for each repetition.
\<close>

definition losing_client :: "nat video_client" where
  "losing_client = steady_client\<lparr>run_model := (\<lambda>m i n. if m = ltx_model then (Inr (OutOther (JStr ''u'')), Suc n) else (Inl timeout_exc, Suc n))\<rparr>"

lemma losing_lawful: "lawful_client (\<lambda>n. n) losing_client"
  using steady_lawful by (simp add: lawful_client_def losing_client_def creates_once_def timeout_exc_def refused_def never_sent_def)

lemma losing_sync:
  "k \<le> 3 \<Longrightarrow> retry_loop is_idempotent_retryable (retry_settings demo_adapter 3) (\<lambda>d n. n) (\<lambda>n. (Inl timeout_exc, Suc n)) k n = (Inl timeout_exc, n + 4 - k)"
proof (induction "3 - k" arbitrary: k n)
  case 0
  then show ?case
    by (subst retry_loop.simps) (simp add: retry_settings_def)
next
  case (Suc j)
  then have "j = 3 - Suc k" "Suc k \<le> 3"
    by auto
  note IH = Suc(1) [OF this, of "Suc n"]
  have "is_idempotent_retryable timeout_exc" "\<not> (3::int) \<le> int k"
    using Suc(2) by (simp_all add: is_idempotent_retryable_def timeout_exc_def)
  then show ?case
    using IH by (subst retry_loop.simps) (simp add: retry_settings_def)
qed

lemma runner_sync_bought_again:
  "snd (run_clip (\<lambda>_. []) (demo_adapter\<lparr>va_runner := True\<rparr>) losing_client demo_request 0) = 5"
proof -
  let ?va = "demo_adapter\<lparr>va_runner := True\<rparr>"
  have cl: "run_model losing_client ltx_model i = (\<lambda>n. (Inr (OutOther (JStr ''u'')), Suc n))"
    "run_model losing_client ''bytedance/latentsync'' i = (\<lambda>n. (Inl timeout_exc, Suc n))" for i
    by (simp_all add: losing_client_def ltx_model_def)
  have waits: "wait_slot losing_client n = n" "rest losing_client = (\<lambda>d n. n)" for n
    by (simp_all add: losing_client_def steady_client_def)
  have settings: "retry_settings ?va k = retry_settings demo_adapter k" for k
    by (simp add: retry_settings_def)
  have first: "with_transport_retry cfg (rest losing_client) (throttled_call ?va losing_client (run_model losing_client ltx_model i)) 0 =
      (Inr (OutOther (JStr ''u'')), 1)" for cfg i
    unfolding with_transport_retry_def by (subst retry_loop.simps) (simp add: throttled_call_def cl waits)
  have op: "throttled_call ?va losing_client (run_model losing_client ''bytedance/latentsync'' i) = (\<lambda>n. (Inl timeout_exc, Suc n))" for i
    by (rule ext) (simp add: throttled_call_def cl waits)
  have second: "with_idempotent_retry (retry_settings ?va 3) (rest losing_client)
      (throttled_call ?va losing_client (run_model losing_client ''bytedance/latentsync'' i)) (Suc 0) = (Inl timeout_exc, 5)" for i
    using losing_sync [of 0 "Suc 0"] unfolding with_idempotent_retry_def op waits settings by simp
  have config: "ls_model (va_sync demo_adapter) = ''bytedance/latentsync''" "ls_max_retries (va_sync demo_adapter) = 3" "wants_sync ?va demo_request"
    by (simp_all add: demo_adapter_def wants_sync_def demo_request_def filled_def)
  have "tier_named ?va (cr_tier demo_request) = Inr \<lparr>vt_name = ''ltx'', vt_model = ltx_model, vt_cost = 1 / 10\<rparr>"
    by (simp add: tier_named_def demo_adapter_def demo_request_def)
  then obtain inp cost where inp: "clip_input ?va (cr_item demo_request) (cr_tier demo_request) (cr_seconds demo_request) (cr_prompt demo_request)
      (cr_image demo_request) = Inr (ltx_model, inp, cost)"
    by (simp add: clip_input_def supported_models_def Let_def)
  have "coerce_output (\<lambda>_. []) (OutOther (JStr ''u'')) = Inr ''u''"
    by code_simp
  then show ?thesis
    by (simp add: run_clip_def run_sync_def bind_call_def pure_call_def inp first [unfolded bind_call_def] second config)
qed

text \<open>The bound with a runner is reached: the clip once, and its lip sync for the first request and three repetitions.\<close>

theorem clip_bought_once_witness:
  "let w' = snd (generate_clip (\<lambda>_. []) (demo_adapter\<lparr>va_runner := True\<rparr>) losing_client 3 3 demo_request fmempty 0) in w' \<le> 5 \<and> 5 \<le> w'"
proof -
  let ?va = "demo_adapter\<lparr>va_runner := True\<rparr>"
  have config: "wants_sync ?va demo_request" "va_runner ?va" "ls_max_retries (va_sync ?va) = 3"
    by (simp_all add: demo_adapter_def demo_request_def wants_sync_def filled_def)
  have "sync_guard ?va demo_request = Inr ()" "tier_named ?va (cr_tier demo_request) = Inr \<lparr>vt_name = ''ltx'', vt_model = ltx_model, vt_cost = 1 / 10\<rparr>"
    by (simp_all add: sync_guard_def tier_named_def demo_adapter_def demo_request_def filled_def)
  then have run: "generate_clip (\<lambda>_. []) ?va losing_client 3 3 demo_request fmempty 0 = run_clip (\<lambda>_. []) ?va losing_client demo_request 0"
    by (simp add: generate_clip_def bind_call_def pure_call_def config(2) supported_models_def)
  obtain r w' where out: "generate_clip (\<lambda>_. []) ?va losing_client 3 3 demo_request fmempty 0 = (r, w')"
    by fastforce
  from clip_bought_once [OF losing_lawful out] config have "w' \<le> 5"
    by simp
  then show ?thesis
    using runner_sync_bought_again run out by simp
qed

section \<open>Submission and ledger\<close>

text \<open>What the life cycle reads of a prediction of the adapter.\<close>

definition to_prediction :: "video_prediction \<Rightarrow> prediction" where
  "to_prediction p = \<lparr>pred_id = vp_id p, pred_status = vp_status p, pred_error = vp_error p\<rparr>"

lemma certain_failure_refused: "certainly_unsent exc \<Longrightarrow> refused exc"
  by (cases "exc_kind exc") (auto simp: certainly_unsent_def refused_def never_sent_def split: option.splits)

text \<open>
  C10. Units are given back only for what was not bought. Take a whole video life cycle that submits its effect through the
  adapter, run among other processes that do not themselves change the organization's quotas. The provider bills at most
  one prediction, however often the adapter repeats the creation, and in the end the units in use of the provider's
  quota have either grown by exactly the units of the effect, or they are what they were and the provider has billed
  nothing. So the units of a prediction that was billed stay held, whether the life cycle returns, fails or leaves
  the effect uncertain. The same holds for the lip sync.
\<close>

theorem released_only_unbilled:
  assumes "lawful_client billed cl"
    and "submit_clip_prediction ps va cl iid tier secs prompt img (Some url) pw = (r, pw') \<or>
      submit_latentsync_prediction ps va cl video audio (Some url) cache pw = (r, cache', pw')"
    and "submit_answer inp = map_sum id to_prediction r"
    and "world_ok w" "durable_prediction_lifecycle pstr (steady org env) ctx org k p u req inp w = (res, w')" "calls w' \<noteq> calls w"
  shows "billed pw' \<le> Suc (billed pw) \<and>
    (\<exists>q q'. tget qkey (org, p) (provider_quotas (led w)) = Some q \<and> tget qkey (org, p) (provider_quotas (led w')) = Some q' \<and>
       (used_units q' = used_units q + u \<or> used_units q' = used_units q \<and> billed pw' = billed pw))"
proof -
  have billing: "billed pw' \<le> Suc (billed pw) \<and> (\<forall>exc. r = Inl exc \<and> refused exc \<longrightarrow> billed pw' = billed pw)"
    using assms(2)
  proof
    assume "submit_clip_prediction ps va cl iid tier secs prompt img (Some url) pw = (r, pw')"
    then show ?thesis
      using submit_clip_creates [OF assms(1), of ps va iid tier secs prompt img "Some url", unfolded creates_once_def, rule_format, of pw] by simp
  qed (use submit_sync_creates [OF assms(1)] in blast)
  have unbilled: "billed pw' = billed pw" if "submit_answer inp = Inl exc" "certainly_unsent exc" for exc
  proof -
    have "r = Inl exc"
      using that(1) assms(3) by (cases r) simp_all
    then show ?thesis
      using billing certain_failure_refused [OF that(2)] by blast
  qed
  from lifecycle_quota [OF assms(4-6)] obtain q q' where
    "tget qkey (org, p) (provider_quotas (led w)) = Some q" "tget qkey (org, p) (provider_quotas (led w')) = Some q'"
    "used_units q' = used_units q + u \<or> used_units q' = used_units q \<and> (\<exists>exc. submit_answer inp = Inl exc \<and> certainly_unsent exc)" .
  then show ?thesis
    using billing unbilled by blast
qed

text \<open>The provider rejects the request: the units are given back, and nothing was billed.\<close>

definition rejecting_exc :: submit_exc where
  "rejecting_exc = refused_exc\<lparr>exc_kind := ReplicateError (Some 422)\<rparr>"

definition rejecting_client :: "nat video_client" where
  "rejecting_client = steady_client\<lparr>create_for_model := (\<lambda>m i p n. (Inl rejecting_exc, n))\<rparr>"

lemma rejecting_lawful: "lawful_client (\<lambda>n. n) rejecting_client"
  using steady_lawful by (simp add: lawful_client_def rejecting_client_def creates_once_def)

lemma rejected_clip:
  "submit_clip_prediction (\<lambda>_. []) demo_adapter rejecting_client ''i'' ''ltx'' 8 None None (Some ''hook'') 0 = (Inl rejecting_exc, 0)"
proof -
  have create: "create_for_model rejecting_client m i p = (\<lambda>n. (Inl rejecting_exc, n))" and wait: "wait_slot rejecting_client n = n" for m i p n
    by (simp_all add: rejecting_client_def steady_client_def)
  have "tier_named demo_adapter ''ltx'' = Inr \<lparr>vt_name = ''ltx'', vt_model = ltx_model, vt_cost = 1 / 10\<rparr>"
    by (simp add: tier_named_def demo_adapter_def)
  then obtain inp cost where inp: "clip_input demo_adapter ''i'' ''ltx'' 8 None None = Inr (ltx_model, inp, cost)"
    by (simp add: clip_input_def supported_models_def Let_def)
  have "\<not> is_retryable rejecting_exc"
    by (simp add: rejecting_exc_def refused_exc_def is_retryable_def never_sent_def)
  then show ?thesis
    by (simp add: submit_clip_prediction_def bind_call_def pure_call_def inp with_transport_retry_def retry_loop.simps throttled_call_def create wait)
qed

theorem released_only_unbilled_witness:
  "case submit_clip_prediction (\<lambda>_. []) demo_adapter rejecting_client ''i'' ''ltx'' 8 None None (Some ''hook'') 0 of (r, n) \<Rightarrow>
   case durable_prediction_lifecycle (\<lambda>_. []) (steady ''o'' (\<lambda>_. [])) sample_ctx ''o'' ''k'' ''p'' 1 fmempty
     (sample_video\<lparr>submit_answer := map_sum id to_prediction r\<rparr>) sample_world of (_, w') \<Rightarrow>
   calls w' = [(''o'', ''k'')] \<and> map_option used_units (tget qkey (''o'', ''p'') (provider_quotas (led w'))) = Some 0 \<and> n = 0"
proof -
  let ?inp = "sample_video\<lparr>submit_answer := map_sum id to_prediction (Inl rejecting_exc)\<rparr>"
  obtain res w' where run: "durable_prediction_lifecycle (\<lambda>_. []) (steady ''o'' (\<lambda>_. [])) sample_ctx ''o'' ''k'' ''p'' 1 fmempty ?inp sample_world = (res, w')"
    by fastforce
  have c: "calls w' = [(''o'', ''k'')]" and u: "map_option used_units (tget qkey (''o'', ''p'') (provider_quotas (led w'))) = Some 0"
    using run by (auto simp: video_eval rejected_submission_def rejecting_exc_def refused_exc_def never_sent_def client_error_def steady_def)
  have start: "world_ok sample_world" "calls sample_world = []"
    using ledger_store.inv_exec [OF ledger_inv_empty, of "SetQuota ''o'' ''p'' 5"] by (simp_all add: world_ok_def sample_world_def fresh_world_def)
  have before: "map_option used_units (tget qkey (''o'', ''p'') (provider_quotas (led sample_world))) = Some 0"
    by code_simp
  have "calls w' \<noteq> calls sample_world"
    using c start(2) by simp
  from released_only_unbilled [OF rejecting_lawful disjI1 [OF rejected_clip] _ start(1) run this] c u before
  show ?thesis
    by (auto simp: rejected_clip run [simplified])
qed

text \<open>An empty value inside a list or a dictionary passes as the address it is printed as.\<close>

lemma null_output_accepted:
  assumes "ps JNull = ''None''"
  shows "coerce_output ps (OutList [JNull]) = Inr ''None''" "coerce_output ps (OutDict [(''video'', JNull)]) = Inr ''None''"
    "coerce_output ps (OutOther (JStr ''  '')) \<noteq> Inr ''''"
  using assms by (simp_all add: coerce_output_def first_uri_def str_of_def Let_def)

end
