(* ===== verification/Video_Tools.thy ===== *)
theory Video_Tools
  imports Replicate_Video Media_Storage
begin

text \<open>
  The video tool (\<open>tools/video.py\<close> outside its life cycle): the addresses that are given to the provider, the
  prompt, and the durable clip, which is one life cycle for the clip and a second one for its lip sync. It runs in the
  worlds of \<open>Paid_Effect\<close>. \<open>sha\<close> is SHA-256 in hexadecimal and \<open>dumps\<close> the canonical JSON text of a dictionary.
\<close>

section \<open>Addresses for the provider\<close>

text \<open>
  What may resolve an address: a resolver of the context, its storage, the R2 storage of the environment and the files
  of the local media. A resolver is asked for the address, or for the key when it only signs keys.
\<close>

datatype uri_resolver = ByUri "string \<Rightarrow> string option" | ByKey "string \<Rightarrow> string option"

datatype uri_storage = SignsFor "string \<Rightarrow> string \<Rightarrow> string option" | SignsKey "string \<Rightarrow> string option"

record uri_context =
  uc_resolver :: "uri_resolver option"
  uc_storage :: "uri_storage option"
  uc_r2 :: "string \<Rightarrow> string option"
  uc_file :: "(string \<Rightarrow> string option) option"

text \<open>The local file of an address as a data URL: what follows the prefix is a path below the media root.\<close>

definition local_data :: "uri_context \<Rightarrow> string \<Rightarrow> string option" where
  "local_data uc uri =
    (case uc_file uc of
       None \<Rightarrow> None
     | Some data_url \<Rightarrow>
         if starts_with ''/videos/'' uri then data_url (drop 8 uri)
         else if starts_with ''/media/'' uri then data_url (drop 7 uri)
         else None)"

definition truthy_uri :: "string option \<Rightarrow> string option" where
  "truthy_uri r = (case r of Some (c # s) \<Rightarrow> r | _ \<Rightarrow> None)"

definition ask_resolver :: "uri_context \<Rightarrow> string \<Rightarrow> string option" where
  "ask_resolver uc uri =
    (case uc_resolver uc of
       None \<Rightarrow> None
     | Some (ByUri f) \<Rightarrow> truthy_uri (f uri)
     | Some (ByKey f) \<Rightarrow> (case object_pointer_from_uri uri of None \<Rightarrow> None | Some (b, key) \<Rightarrow> truthy_uri (f key)))"

definition ask_storage :: "uri_context \<Rightarrow> string \<Rightarrow> string option" where
  "ask_storage uc uri =
    (case (uc_storage uc, object_pointer_from_uri uri) of
       (Some (SignsFor f), Some (b, key)) \<Rightarrow> truthy_uri (f b key)
     | (Some (SignsKey f), Some (b, key)) \<Rightarrow> truthy_uri (f key)
     | _ \<Rightarrow> None)"

definition ask_r2 :: "uri_context \<Rightarrow> string \<Rightarrow> string option" where
  "ask_r2 uc uri =
    (case object_pointer_from_uri uri of
       Some (b, key) \<Rightarrow> if starts_with ''r2://'' uri \<and> b = ''r2'' then uc_r2 uc key else None
     | None \<Rightarrow> None)"

definition resolve_uri_for_provider :: "uri_context \<Rightarrow> string option \<Rightarrow> string option" where
  "resolve_uri_for_provider uc given_uri =
    (case given_uri of
       None \<Rightarrow> None
     | Some raw \<Rightarrow>
         let uri = strip raw in
         if uri = [] then None
         else case find (\<lambda>r. r \<noteq> None) [ask_resolver uc uri, ask_storage uc uri, ask_r2 uc uri, local_data uc uri] of
           Some r \<Rightarrow> r
         | None \<Rightarrow> Some uri)"

definition web_uri :: "string \<Rightarrow> bool" where
  "web_uri s \<longleftrightarrow> starts_with ''http://'' s \<or> starts_with ''https://'' s"

definition data_uri :: "string \<Rightarrow> bool" where
  "data_uri s \<longleftrightarrow> starts_with ''data:'' s"

definition resolve_base_video :: "uri_context \<Rightarrow> string \<Rightarrow> json \<Rightarrow> string" where
  "resolve_base_video uc uri source_uri =
    (let resolved = truthy_uri (resolve_uri_for_provider uc (Some uri)) in
     case resolved of
       Some r \<Rightarrow>
         if r \<noteq> uri \<or> data_uri r \<or> web_uri r then r
         else (case source_uri of JStr s \<Rightarrow> if web_uri s \<or> data_uri s then s else r | _ \<Rightarrow> r)
     | None \<Rightarrow> (case source_uri of JStr s \<Rightarrow> if web_uri s \<or> data_uri s then s else uri | _ \<Rightarrow> uri))"

section \<open>Prompt\<close>

definition newline :: string where
  "newline = [CHR 0x0A]"

definition compose_prompt :: "string option \<Rightarrow> string option \<Rightarrow> string option" where
  "compose_prompt system_prompt revision =
    (let directive = strip (text_or revision []);
         block = ''Revision directive (refine the take within the brief above; the brief and its constraints above always win):''
           @ newline @ directive
     in if directive = [] then system_prompt
        else if filled system_prompt then Some (the system_prompt @ newline @ newline @ block) else Some block)"

section \<open>The durable clip\<close>

record clip_task =
  ct_request :: clip_request
  ct_stage :: string
  ct_org :: org_id
  ct_env :: env
  ct_sync_env :: env
  ct_input :: video_input
  ct_sync_input :: "jdict \<Rightarrow> video_input"

definition joined :: "string list \<Rightarrow> string" where
  "joined parts = concat (map (\<lambda>p. CHR '':'' # p) parts)"

definition base_request ::
  "(string option \<Rightarrow> string) \<Rightarrow> string \<Rightarrow> clip_request \<Rightarrow> jdict" where
  "base_request sha model cr = obj
    [(''model'', JStr model), (''tier'', JStr (cr_tier cr)), (''seconds'', int_json (cr_seconds cr)), (''attempt'', int_json (cr_attempt cr)),
     (''prompt_hash'', JStr (sha (cr_prompt cr))), (''reference_hash'', JStr (sha (cr_image cr)))]"

definition sync_request :: "(string option \<Rightarrow> string) \<Rightarrow> video_adapter \<Rightarrow> clip_request \<Rightarrow> string \<Rightarrow> string \<Rightarrow> jdict" where
  "sync_request sha va cr resolution base_uri = obj
    [(''model'', JStr (ls_model (va_sync va))), (''video_hash'', JStr (sha (Some base_uri))), (''audio_hash'', JStr (sha (cr_audio cr))),
     (''resolution'', JStr resolution), (''seconds'', int_json (cr_seconds cr)), (''attempt'', int_json (cr_attempt cr))]"

definition durable_key ::
  "(string option \<Rightarrow> string) \<Rightarrow> (jdict \<Rightarrow> string) \<Rightarrow> string \<Rightarrow> string \<Rightarrow> clip_task \<Rightarrow> jdict \<Rightarrow> string" where
  "durable_key sha dumps prefix run ct req =
    prefix @ joined [run, cr_item (ct_request ct), ct_stage ct, str_int (cr_attempt (ct_request ct)), sha (Some (dumps req))]"

definition text_in :: "jdict \<Rightarrow> string \<Rightarrow> string" where
  "text_in d k = (case jget d k of JStr s \<Rightarrow> s | _ \<Rightarrow> [])"

definition meta_in :: "jdict \<Rightarrow> jdict" where
  "meta_in d = (case jget d ''meta'' of JObj m \<Rightarrow> m | _ \<Rightarrow> fmempty)"

definition with_base_uri :: "string \<Rightarrow> jdict \<Rightarrow> jdict" where
  "with_base_uri base_uri a =
    (if fmlookup (meta_in a) ''base_clip_uri'' \<noteq> None then a
     else fmupd ''meta'' (JObj (fmupd ''base_clip_uri'' (JStr base_uri) (meta_in a))) a)"

text \<open>The lip sync is required but cannot be made.\<close>

definition sync_missing :: "video_adapter \<Rightarrow> clip_task \<Rightarrow> string option" where
  "sync_missing va ct =
    (if ls_required (va_sync va) \<and> ct_stage ct \<noteq> ''product_demo'' then
       (if \<not> filled (cr_audio (ct_request ct)) then Some ''latentsync_audio_missing''
        else if \<not> ls_enabled (va_sync va) then Some ''latentsync_disabled'' else None)
     else None)"

definition durable_replicate_clip ::
  "(json \<Rightarrow> string) \<Rightarrow> (string option \<Rightarrow> string) \<Rightarrow> (jdict \<Rightarrow> string) \<Rightarrow> video_adapter \<Rightarrow> string \<Rightarrow> tool_context \<Rightarrow> clip_task \<Rightarrow>
   world \<Rightarrow> (perr + jdict) \<times> world" where
  "durable_replicate_clip pstr sha dumps va resolution ctx ct w =
    (let cr = ct_request ct in
     if \<not> paid_adapters_enabled ctx \<or> \<not> has_ledger ctx then (Inl (PyErr RuntimeError), w)
     else case tier_named va (cr_tier cr) of
       Inl _ \<Rightarrow> (Inl (PyErr KeyError), w)
     | Inr tier \<Rightarrow>
         (case sync_missing va ct of
            Some code \<Rightarrow> (Inl (video_error code False False ''LatentSyncRequiredError''), w)
          | None \<Rightarrow>
              let req = base_request sha (vt_model tier) cr in
              case durable_prediction_lifecycle pstr (ct_env ct) ctx (ct_org ct) (durable_key sha dumps ''video'' (ctx_run_id ctx) ct req)
                  ''replicate_video_seconds'' (cr_seconds cr) req (ct_input ct) w of
                (Inl e, w1) \<Rightarrow> (Inl e, w1)
              | (Inr base, w1) \<Rightarrow>
                  if \<not> wants_sync va cr then (Inr base, w1)
                  else
                    let sreq = sync_request sha va cr resolution (text_in base ''uri'') in
                    case durable_prediction_lifecycle pstr (ct_sync_env ct) ctx (ct_org ct) (durable_key sha dumps ''latentsync'' (ctx_run_id ctx) ct sreq)
                        ''replicate_video_seconds'' (cr_seconds cr) sreq (ct_sync_input ct base) w1 of
                      (Inl e, w2) \<Rightarrow> (Inl e, w2)
                    | (Inr final, w2) \<Rightarrow> (Inr (with_base_uri (text_in base ''uri'') final), w2)))"

section \<open>The tool\<close>

text \<open>
  Without durability the adapter generates the clip itself, for resolved addresses; an artifact without an address
  is refused.
\<close>

definition direct_request :: "uri_context \<Rightarrow> string option \<Rightarrow> clip_request \<Rightarrow> clip_request" where
  "direct_request uc revision cr =
    cr\<lparr>cr_prompt := compose_prompt (cr_prompt cr) revision,
       cr_image := (case resolve_uri_for_provider uc (cr_image cr) of None \<Rightarrow> cr_image cr | r \<Rightarrow> r),
       cr_audio := (case resolve_uri_for_provider uc (cr_audio cr) of None \<Rightarrow> cr_audio cr | r \<Rightarrow> r)\<rparr>"

definition require_artifact :: "artifact \<Rightarrow> submit_exc + artifact" where
  "require_artifact a = (if art_uri a = [] then Inl (runtime_error ''Artifact with non-empty uri'') else Inr a)"

definition direct_clip ::
  "(json \<Rightarrow> string) \<Rightarrow> video_adapter \<Rightarrow> 'w video_client \<Rightarrow> uri_context \<Rightarrow> nat \<Rightarrow> nat \<Rightarrow> string option \<Rightarrow> clip_request \<Rightarrow> version_cache \<Rightarrow>
   (artifact, 'w) call" where
  "direct_clip ps va cl uc turns sync_turns revision cr cache =
    bind_call (generate_clip ps va cl turns sync_turns (direct_request uc revision cr) cache) (\<lambda>a. pure_call (require_artifact a))"

section \<open>Submissions of a durable clip\<close>

lemma submit_calls:
  assumes "submit_prediction pstr env org k inp w = (s, amb, w')"
  shows "calls w' = calls w \<or> calls w' = calls w @ [(org, k)]"
proof (cases "webhook_configured inp")
  case True
  have settle: "calls w2 = calls w @ [(org, k)]" if "ledger_call env f (provider_call org k w) = (r, w2)" for f :: "ledger \<Rightarrow> ('x \<times> ledger) res" and r w2
    using ledger_call_calls [OF that] by (simp add: provider_call_def)
  have wait: "calls w2 = calls w @ [(org, k)]" if "uncertain_then_await env org k err et n (provider_call org k w) = (r, w2)" for err et n r w2
    using that by (auto simp: uncertain_then_await_def await_id_def provider_call_def split: prod.splits sum.splits
        dest!: ledger_call_calls await_calls)
  have failed: "calls w2 = calls w @ [(org, k)]" if "raise_after (ledger_call env f (provider_call org k w)) e = (r, w2)"
    for f :: "ledger \<Rightarrow> ('x \<times> ledger) res" and e and r :: "perr + 'y" and w2
    using raise_after_calls [OF that] by (simp add: provider_call_def)
  have rejected_calls: "calls w2 = calls w @ [(org, k)]" if "rejected_submission pstr env org k inp exc (provider_call org k w) = (r, amb', w2)" for exc r amb' w2
    using that by (auto simp: rejected_submission_def Let_def split: option.splits if_splits prod.splits dest: wait failed)
  show ?thesis
  proof (cases "submit_answer inp")
    case (Inl exc)
    have run: "submit_prediction pstr env org k inp w =
        (let w1 = provider_call org k w; kind = exc_kind exc; et = type_name kind in
         if never_sent kind then
           (case raise_after (ledger_call env (mark_failed org k et True (Some et)) w1) (video_error ''provider_unreachable'' True False et) of
              (r, w2) \<Rightarrow> (r, None, w2))
         else case kind of
           HTTPStatusError _ \<Rightarrow> rejected_submission pstr env org k inp exc w1
         | ReplicateError _ \<Rightarrow> rejected_submission pstr env org k inp exc w1
         | _ \<Rightarrow> if ambiguous_create kind then (case uncertain_then_await env org k et et (wait_turns inp) w1 of (r, w2) \<Rightarrow> (r, Some et, w2))
             else (Inl (ProviderErr (py_exc.truncate exc)), None, w1))"
      using True Inl by (simp add: submit_prediction_def Let_def)
    have after: "calls (provider_call org k w) = calls w @ [(org, k)]"
      by (simp add: provider_call_def)
    show ?thesis
    proof (cases "never_sent (exc_kind exc)")
      case True
      then obtain r :: "perr + string option" where "raise_after (ledger_call env (mark_failed org k (type_name (exc_kind exc)) True (Some (type_name (exc_kind exc))))
          (provider_call org k w)) (video_error ''provider_unreachable'' True False (type_name (exc_kind exc))) = (r, w')"
        using assms unfolding run by (auto simp: Let_def split: prod.splits)
      then show ?thesis
        by (simp add: failed)
    next
      case sent: False
      define rest where "rest = (if ambiguous_create (exc_kind exc)
          then (case uncertain_then_await env org k (type_name (exc_kind exc)) (type_name (exc_kind exc)) (wait_turns inp) (provider_call org k w)
            of (r, w2) \<Rightarrow> (r, Some (type_name (exc_kind exc)), w2))
          else (Inl (ProviderErr (py_exc.truncate exc)), None, provider_call org k w))"
      have "submit_prediction pstr env org k inp w = rejected_submission pstr env org k inp exc (provider_call org k w) \<or>
          submit_prediction pstr env org k inp w = rest"
        unfolding run rest_def Let_def if_not_P [OF sent] by (cases "exc_kind exc") simp_all
      then show ?thesis
      proof
        assume "submit_prediction pstr env org k inp w = rest"
        then show ?thesis
          using assms after wait by (auto simp: rest_def split: if_splits prod.splits)
      qed (use assms rejected_calls [of exc s amb w'] in simp)
    qed
  next
    case (Inr p)
    then show ?thesis
      using assms True by (auto simp: submit_prediction_def Let_def split: prod.splits sum.splits dest: settle)
  qed
qed (use assms in \<open>simp add: submit_prediction_def\<close>)

lemma reserve_or_get_calls: "reserve_or_get env org k rid p u req w = (r, w') \<Longrightarrow> calls w' = calls w"
  by (auto simp: reserve_or_get_def split: prod.splits sum.splits if_splits dest!: ledger_call_calls)

lemma lifecycle_calls:
  assumes "durable_prediction_lifecycle pstr env ctx org k p u req inp w = (r, w')"
  shows "calls w' = calls w \<or> calls w' = calls w @ [(org, k)]"
proof (cases "has_ledger ctx")
  case True
  obtain x w1 where rg: "reserve_or_get env org k (ctx_run_id ctx) p u req w = (x, w1)"
    by fastforce
  note c = reserve_or_get_calls [OF rg]
  show ?thesis
  proof (cases x)
    case (Inl e)
    then show ?thesis
      using assms rg c True by (simp add: durable_prediction_lifecycle_def)
  next
    case (Inr res)
    have run: "durable_prediction_lifecycle pstr env ctx org k p u req inp w = (r, w')"
      by (rule assms)
    show ?thesis
    proof (cases "status res = Succeeded")
      case True
      then have "w' = w1"
        using run \<open>has_ledger ctx\<close> rg Inr replay_video_world [of inp res w1] by (simp add: durable_prediction_lifecycle_def)
      then show ?thesis
        using c by simp
    next
      case open_effect: False
      obtain amb x where x: "resolve_prediction env org k inp amb x = (r, w')" "calls (snd x) = calls w1 \<or> calls (snd x) = calls w1 @ [(org, k)]"
      proof (cases "created res")
        case True
        obtain s am w2 where sub: "submit_prediction pstr env org k inp w1 = (s, am, w2)"
          by (cases "submit_prediction pstr env org k inp w1") auto
        then have "resolve_prediction env org k inp (case am of None \<Rightarrow> error_type res | Some t \<Rightarrow> Some t) (s, w2) = (r, w')"
          using run \<open>has_ledger ctx\<close> rg Inr open_effect True by (simp add: durable_prediction_lifecycle_def)
        then show ?thesis
          using submit_calls [OF sub] that [of _ "(s, w2)"] by simp
      next
        case False
        define y where "y = (if provider_operation_id res = None \<or> provider_operation_id res = Some [] then await_id env org k (wait_turns inp) w1
            else (Inr (provider_operation_id res), w1))"
        have "calls (snd y) = calls w1"
          using await_calls [of env org k "wait_turns inp" w1] by (cases "await_operation env org k (wait_turns inp) w1") (auto simp: y_def await_id_world)
        moreover have "resolve_prediction env org k inp (error_type res) y = (r, w')"
          using run \<open>has_ledger ctx\<close> rg Inr open_effect False by (auto simp: durable_prediction_lifecycle_def Let_def y_def)
        ultimately show ?thesis
          using that [of "error_type res" y] by simp
      qed
      then show ?thesis
        using resolve_calls [of env org k inp amb x] c by simp
    qed
  qed
qed (use assms in \<open>simp add: durable_prediction_lifecycle_def\<close>)

lemma durable_clip_calls:
  assumes "durable_replicate_clip pstr sha dumps va resolution ctx ct w = (r, w')"
  obtains (none) "calls w' = calls w" "isl r \<or> sync_missing va ct = None"
    | (some) ks where "sync_missing va ct = None" "calls w' = calls w @ map (Pair (ct_org ct)) ks" "ks \<noteq> []"
        "length ks \<le> (if wants_sync va (ct_request ct) then 2 else 1)"
proof -
  let ?cr = "ct_request ct"
  show thesis
  proof (cases "(\<not> paid_adapters_enabled ctx \<or> \<not> has_ledger ctx) \<or> isl (tier_named va (cr_tier ?cr)) \<or> sync_missing va ct \<noteq> None")
    case True
    then have "calls w' = calls w \<and> isl r"
      using assms by (auto simp: durable_replicate_clip_def Let_def isl_def split: if_splits sum.splits)
    then show thesis
      using none by blast
  next
    case False
    then obtain tier where tier: "tier_named va (cr_tier ?cr) = Inr tier"
      by (cases "tier_named va (cr_tier ?cr)") auto
    define req where "req = base_request sha (vt_model tier) ?cr"
    define key where "key = durable_key sha dumps ''video'' (ctx_run_id ctx) ct req"
    obtain x w1 where first: "durable_prediction_lifecycle pstr (ct_env ct) ctx (ct_org ct) key ''replicate_video_seconds'' (cr_seconds ?cr) req (ct_input ct) w = (x, w1)"
      by fastforce
    obtain ks1 where ks1: "calls w1 = calls w @ map (Pair (ct_org ct)) ks1" "length ks1 \<le> 1"
    proof (cases "calls w1 = calls w")
      case True
      then show ?thesis
        using that [of "[]"] by simp
    next
      case False
      then show ?thesis
        using lifecycle_calls [OF first] that [of "[key]"] by simp
    qed
    have missing: "sync_missing va ct = None"
      using False by blast
    have run: "(case x of Inl e \<Rightarrow> (Inl e, w1) | Inr base \<Rightarrow>
        if \<not> wants_sync va ?cr then (Inr base, w1)
        else
          let sreq = sync_request sha va ?cr resolution (text_in base ''uri'') in
          case durable_prediction_lifecycle pstr (ct_sync_env ct) ctx (ct_org ct) (durable_key sha dumps ''latentsync'' (ctx_run_id ctx) ct sreq)
              ''replicate_video_seconds'' (cr_seconds ?cr) sreq (ct_sync_input ct base) w1 of
            (Inl e, w2) \<Rightarrow> (Inl e, w2)
          | (Inr final, w2) \<Rightarrow> (Inr (with_base_uri (text_in base ''uri'') final), w2)) = (r, w')"
      using assms False tier missing first by (simp add: durable_replicate_clip_def Let_def req_def key_def split: sum.splits)
    have settle: thesis if "calls w' = calls w @ map (Pair (ct_org ct)) ks" "length ks \<le> (if wants_sync va ?cr then 2 else 1)" for ks
      using that none some [OF missing] missing by (cases "ks = []") simp_all
    show thesis
    proof (cases "\<exists>base. x = Inr base \<and> wants_sync va ?cr")
      case True
      then obtain base where base: "x = Inr base" "wants_sync va ?cr"
        by blast
      define sreq where "sreq = sync_request sha va ?cr resolution (text_in base ''uri'')"
      define skey where "skey = durable_key sha dumps ''latentsync'' (ctx_run_id ctx) ct sreq"
      obtain y w2 where second: "durable_prediction_lifecycle pstr (ct_sync_env ct) ctx (ct_org ct) skey ''replicate_video_seconds'' (cr_seconds ?cr)
          sreq (ct_sync_input ct base) w1 = (y, w2)"
        by fastforce
      then have "w' = w2"
        using run base by (auto simp: Let_def sreq_def [symmetric] skey_def [symmetric] split: sum.splits)
      then show thesis
        using lifecycle_calls [OF second] ks1 base(2) settle [of ks1] settle [of "ks1 @ [skey]"] by auto
    next
      case False
      then have "w' = w1"
        using run by (auto split: sum.splits if_splits)
      then show thesis
        using ks1 settle [of ks1] by auto
    qed
  qed
qed

text \<open>Durable clips among other paid tasks.\<close>

datatype video_work =
    ClipWork "json \<Rightarrow> string" "string option \<Rightarrow> string" "jdict \<Rightarrow> string" video_adapter string tool_context clip_task
  | OtherWork paid_task

fun exec_work :: "(json \<Rightarrow> string) \<Rightarrow> video_work \<Rightarrow> world \<Rightarrow> world" where
  "exec_work pstr (ClipWork ps sha dumps va resolution ctx ct) w = snd (durable_replicate_clip ps sha dumps va resolution ctx ct w)"
| "exec_work pstr (OtherWork t) w = exec_task pstr t w"

lemma durable_clip_ok:
  assumes "world_ok w"
  shows "world_ok (snd (durable_replicate_clip pstr sha dumps va resolution ctx ct w))"
  using assms lifecycle_ok
  by (auto simp: durable_replicate_clip_def Let_def split: sum.splits option.splits prod.splits) (metis snd_conv)+

interpretation work_store: store "exec_work pstr" world_ok for pstr
proof
  show "world_ok (exec_work pstr t w)" if "world_ok w" for t w
    using that task_store.inv_exec by (cases t) (simp_all add: durable_clip_ok)
qed

lemma with_base_uri_kept: "fmlookup (meta_in (with_base_uri u a)) ''base_clip_uri'' \<noteq> None"
  by (simp add: with_base_uri_def meta_in_def)

lemma durable_clip_base:
  assumes "durable_replicate_clip pstr sha dumps va resolution ctx ct w = (Inr a, w')" "wants_sync va (ct_request ct)"
  shows "fmlookup (meta_in a) ''base_clip_uri'' \<noteq> None"
  using assms with_base_uri_kept
  by (auto simp: durable_replicate_clip_def Let_def split: if_splits sum.splits option.splits prod.splits)

text \<open>
  C11. A durable clip is submitted once, with its lip sync. After any sequence of clips, other paid executions, life
  cycles and webhooks, whatever was retried and whatever other processes did to the ledger in between, a durable clip
  adds at most one submission to the provider, and one for the lip sync when it is wanted; none of them is one that was
  made before; none is made when a required lip sync is missing, which is an error; and a clip with a lip sync
  names the clip it was made from.
\<close>

theorem durable_clip_submitted_once:
  assumes "durable_replicate_clip pstr sha dumps va resolution ctx ct (run_ops (exec_work ps) ws fresh_world) = (r, w')"
  shows "distinct (calls w') \<and>
    (\<exists>ks. calls w' = calls (run_ops (exec_work ps) ws fresh_world) @ map (Pair (ct_org ct)) ks \<and>
       length ks \<le> (if wants_sync va (ct_request ct) then 2 else 1) \<and> (sync_missing va ct \<noteq> None \<longrightarrow> ks = [] \<and> isl r)) \<and>
    (\<forall>a. r = Inr a \<and> wants_sync va (ct_request ct) \<longrightarrow> fmlookup (meta_in a) ''base_clip_uri'' \<noteq> None)"
proof (intro conjI allI impI)
  have "world_ok (run_ops (exec_work ps) ws fresh_world)"
    by (rule work_store.inv_run [OF fresh_world_ok])
  then show "distinct (calls w')"
    using durable_clip_ok [of "run_ops (exec_work ps) ws fresh_world" pstr sha dumps va resolution ctx ct] assms
    by (simp add: world_ok_def)
  show "\<exists>ks. calls w' = calls (run_ops (exec_work ps) ws fresh_world) @ map (Pair (ct_org ct)) ks \<and>
      length ks \<le> (if wants_sync va (ct_request ct) then 2 else 1) \<and> (sync_missing va ct \<noteq> None \<longrightarrow> ks = [] \<and> isl r)"
    using assms
  proof (cases rule: durable_clip_calls)
    case none
    then show ?thesis
      by (intro exI [of _ "[]"]) auto
  next
    case (some ks)
    then show ?thesis
      by (intro exI [of _ ks]) auto
  qed
  show "fmlookup (meta_in a) ''base_clip_uri'' \<noteq> None" if "r = Inr a \<and> wants_sync va (ct_request ct)" for a
    using that assms durable_clip_base by blast
qed

definition demo_task :: clip_task where
  "demo_task = \<lparr>ct_request = demo_request, ct_stage = ''talking_head'', ct_org = ''o'',
     ct_env = (\<lambda>n. if n = 0 then [SetQuota ''o'' ''replicate_video_seconds'' 100] else []), ct_sync_env = (\<lambda>_. []),
     ct_input = sample_video, ct_sync_input = (\<lambda>_. sample_video)\<rparr>"

theorem durable_clip_submitted_once_witness:
  "let (r, w') = durable_replicate_clip (\<lambda>_. []) (\<lambda>_. ''h'') (\<lambda>_. ''j'') demo_adapter ''720p'' sample_ctx demo_task
       (run_ops (exec_work (\<lambda>_. [])) [ClipWork (\<lambda>_. []) (\<lambda>_. ''h'') (\<lambda>_. ''j'') demo_adapter ''720p'' sample_ctx demo_task] fresh_world)
   in distinct (calls w') \<and> (case r of Inl _ \<Rightarrow> True | Inr a \<Rightarrow> fmlookup (meta_in a) ''base_clip_uri'' \<noteq> None)"
proof -
  let ?ws = "[ClipWork (\<lambda>_. []) (\<lambda>_. ''h'') (\<lambda>_. ''j'') demo_adapter ''720p'' sample_ctx demo_task]"
  obtain r w' where run: "durable_replicate_clip (\<lambda>_. []) (\<lambda>_. ''h'') (\<lambda>_. ''j'') demo_adapter ''720p'' sample_ctx demo_task
      (run_ops (exec_work (\<lambda>_. [])) ?ws fresh_world) = (r, w')"
    by fastforce
  have "wants_sync demo_adapter (ct_request demo_task)"
    by (simp add: demo_task_def demo_adapter_def demo_request_def wants_sync_def filled_def)
  then have "distinct (calls w') \<and> (case r of Inl _ \<Rightarrow> True | Inr a \<Rightarrow> fmlookup (meta_in a) ''base_clip_uri'' \<noteq> None)"
    using durable_clip_submitted_once [OF run] by (cases r) simp_all
  then show ?thesis
    by (simp only: run Let_def prod.case)
qed

section \<open>Addresses\<close>

lemma no_pointer: "object_pointer_from_uri uri = None \<Longrightarrow> ask_storage uc uri = None \<and> ask_r2 uc uri = None"
  by (cases "uc_storage uc") (auto simp: ask_storage_def ask_r2_def split: uri_storage.split)

text \<open>A web address is given to the provider as it is, without a resolver that wants it.\<close>

lemma web_uri_unchanged:
  assumes "uc_resolver uc = None" "web_uri uri" "strip uri = uri"
  shows "resolve_uri_for_provider uc (Some uri) = Some uri"
proof -
  obtain s where s: "uri = CHR ''h'' # s"
    using assms(2) by (cases uri) (auto simp: web_uri_def starts_with_def)
  then have "object_pointer_from_uri uri = None" "local_data uc uri = None"
    by (simp_all add: object_pointer_from_uri_def local_data_def starts_with_def split: option.split)
  then show ?thesis
    using assms(1,3) no_pointer [of uri uc] s by (simp add: resolve_uri_for_provider_def ask_resolver_def)
qed

text \<open>
  What follows the prefix of a media address is read below the media root as it stands, and a storage that signs keys
  is asked for the key of a pointer into any backend.
\<close>

lemma media_path_unchecked:
  assumes "uc_resolver uc = None" "uc_file uc = Some read" "read ''../../secret'' = Some d"
  shows "resolve_uri_for_provider uc (Some ''/videos/../../secret'') = Some d"
proof -
  have "object_pointer_from_uri ''/videos/../../secret'' = None" "strip ''/videos/../../secret'' = ''/videos/../../secret''"
    "starts_with ''/videos/'' ''/videos/../../secret''"
    by code_simp+
  then show ?thesis
    using assms no_pointer [of "''/videos/../../secret''" uc] by (simp add: resolve_uri_for_provider_def ask_resolver_def local_data_def)
qed

lemma foreign_pointer_signed:
  assumes "uc_resolver uc = None" "uc_storage uc = Some (SignsKey sign)" "sign ''k'' = Some (c # url)"
  shows "resolve_uri_for_provider uc (Some ''s3://bucket/k'') = Some (c # url)" "resolve_uri_for_provider uc (Some ''r2://bucket/k'') = Some (c # url)"
proof -
  have "object_pointer_from_uri ''s3://bucket/k'' = Some (''s3'', ''k'')" "strip ''s3://bucket/k'' = ''s3://bucket/k''"
    "object_pointer_from_uri ''r2://bucket/k'' = Some (''r2'', ''k'')" "strip ''r2://bucket/k'' = ''r2://bucket/k''"
    by code_simp+
  then show "resolve_uri_for_provider uc (Some ''s3://bucket/k'') = Some (c # url)" "resolve_uri_for_provider uc (Some ''r2://bucket/k'') = Some (c # url)"
    using assms by (simp_all add: resolve_uri_for_provider_def ask_resolver_def ask_storage_def truthy_uri_def)
qed

end
