(* ===== verification/Spec2Isabelle.thy ===== *)
theory Spec2Isabelle
  imports Video_Lifecycle Job_Properties Run_Properties Item_Graph Member_Lifecycle Worker Review_Api Creative_Tools Progress_Properties Model_Events Throttle Video_Tools
begin

text \<open>
  Verification of the core of the video orchestration service, the Python package
  \<open>src/src/orchestrator\<close>.

  \<^bold>\<open>The program.\<close> A run turns an offer into a batch of advertising videos. The web server
  (\<open>web/\<close>) creates runs and jobs; a worker claims jobs from a durable queue (\<open>db/jobs.py\<close>) and executes
  the LangGraph pipeline (\<open>graph/\<close>, \<open>nodes/stages.py\<close>): concepts, scripts, and one subgraph per item that
  buys a voice, video clips and quality checks from external providers (\<open>tools/\<close>, \<open>adapters/\<close>). Whatever
  costs money goes through a ledger of effects with quotas (\<open>db/effects.py\<close>, \<open>dependencies.py\<close>) that
  makes a retried call return the first outcome; long video predictions are finished by polling or by
  a signed webhook (\<open>replicate_webhook.py\<close>). Media are stored with a retention class and purged later
  (\<open>media_store.py\<close>, \<open>storage/\<close>, \<open>db/artifacts.py\<close>). Everything belongs to an organization; members, roles
  and invitations (\<open>auth.py\<close>, \<open>db/members.py\<close>, \<open>db/invitations.py\<close>) decide who may do what, and the row
  level security of PostgreSQL enforces it (\<open>migrations/versions\<close>).

  \<^bold>\<open>Method.\<close> A database transaction is a function from the tables to a raised exception or a result
  with the committed tables (\<open>Prelude\<close>): a raise rolls back. Concurrent tasks interleave at
  transactions, so a schedule is a list of operations, and the theorems about sequences quantify over
  all of them; the locales \<open>store\<close>, \<open>ordered_store\<close>, \<open>tenant_store\<close> and \<open>guarded_store\<close> lift a fact
  about one transaction to sequences. Where a transaction of the code is optimistic (compare and set,
  \<open>ON CONFLICT\<close>, \<open>FOR UPDATE SKIP LOCKED\<close>) the model has its condition. Times are integers in
  microseconds and an argument of each operation. External services, clocks, hashes and identifiers
  are arguments of the definitions that use them, and what a theorem needs of them is among its
  assumptions.

  \<^bold>\<open>Theories.\<close>

  \<^item> \<open>Prelude\<close>: exceptions, JSON values, Python strings, keyed tables, sequences of transactions.
  \<^item> \<open>Effect_Ledger\<close> (\<open>db/effects.py\<close>): quotas, reservations, terminal and uncertain effects. The quota is
    never exceeded, units are given back once, outcomes are final, tenants do not interfere.
  \<^item> \<open>Paid_Effect\<close> (\<open>dependencies.py\<close>): running a provider call through the ledger: replay of a success,
    no retry of a failure.
  \<^item> \<open>Replicate_Webhook\<close>, \<open>Video_Lifecycle\<close> (\<open>replicate_webhook.py\<close>, \<open>tools/video.py\<close>): durable predictions. A
    step relation interleaves workers, retries, polls and webhooks; a prediction is submitted once.
  \<^item> \<open>Video_Units\<close>: what such a life cycle does to the quota of its provider.
  \<^item> \<open>Provider_Retry\<close>, \<open>Throttle\<close> (\<open>adapters/_retry.py\<close>, \<open>adapters/_throttle.py\<close>): which failures of a provider are repeated,
    after which pauses, and how calls are spaced.
  \<^item> \<open>Replicate_Video\<close>, \<open>Video_Tools\<close> (\<open>adapters/replicate_video.py\<close>, \<open>tools/video.py\<close>): the video adapter and the tools over
    it. A client is any functions that bill as the provider documents it; a clip bills a bounded number of predictions,
    units are given back only when nothing was billed, and a durable clip is submitted once.
  \<^item> \<open>Durable_Db\<close>, \<open>Job_Queue\<close>, \<open>Job_Store\<close>, \<open>Job_Properties\<close> (\<open>db/jobs.py\<close>): runs, jobs, gates, events and
    outbox: leases exclude each other, terminal jobs are final, gates resolve once, events are paged
    without loss, and a job that crashes after its last attempt is handed out forever.
  \<^item> \<open>Run_Store\<close>, \<open>Run_Properties\<close> (\<open>db/runs.py\<close>): saving a run and reading it back.
  \<^item> \<open>Media_Storage\<close> (\<open>storage/base.py\<close>, \<open>local.py\<close>, \<open>multi.py\<close>, \<open>resolve.py\<close>): object keys are joined to the
    root and resolved with \<open>..\<close>, and the guard of \<open>_resolve\<close> keeps them under it; signed URLs.
  \<^item> \<open>Artifact_Store\<close> (\<open>db/artifacts.py\<close>, \<open>storage/db.py\<close>): the two artifact repositories, one contract, and
    that they hold the same records.
  \<^item> \<open>Media_Store\<close> (\<open>media_store.py\<close>, \<open>storage/retention.py\<close>, \<open>migration.py\<close>): persisting, purging and moving
    media over any storage and repository that satisfy the contracts.
  \<^item> \<open>Item_State\<close>, \<open>Item_Graph\<close> (\<open>graph/state.py\<close>, \<open>routing.py\<close>, \<open>builder.py\<close>, \<open>nodes/stages.py\<close>): the subgraph of an
    item with its loop over quality checks.
  \<^item> \<open>Tenancy\<close> (\<open>auth.py\<close>, \<open>db/roles.py\<close>, \<open>tenancy.py\<close>, \<open>database.py\<close>, \<open>admin.py\<close> and the migrations 0012, 0013),
    \<open>Member_Store\<close> (\<open>db/members.py\<close>, \<open>db/invitations.py\<close>), \<open>Member_Properties\<close>, \<open>Member_Contract\<close>,
    \<open>Member_Lifecycle\<close>: roles, policies and memberships. An organization keeps an owner, memberships
    change only as the policies permit, both repositories refine one contract, an invitation is used
    once.
  \<^item> \<open>Worker\<close> (\<open>worker.py\<close>, \<open>wake_queue.py\<close>, \<open>sqs_runner.py\<close>): an iteration of the worker settles its job,
    heartbeats keep the lease, the relay publishes the outbox; an execution repeated after a crash opens
    a second gate.
  \<^item> \<open>Creators\<close>, \<open>Review\<close>, \<open>Batch_Graph\<close>, \<open>Batch_Properties\<close>, \<open>Batch_Production\<close> (\<open>creators.py\<close>, \<open>nodes/stages.py\<close>,
    \<open>graph/builder.py\<close>): the outer graph. The review confines the edits, production starts on an
    approved plan with all voices, voices are bought only for selected candidates, every item has its
    creator's voice, the feedback does not depend on the order of the results.
  \<^item> \<open>Review_Api\<close> (\<open>web/routes_review.py\<close>, \<open>web/routes_runs.py\<close>): review requests over HTTP; what the check
    against the stored gate accepts, the graph resumes with.

  \<^item> \<open>Creative_Contracts\<close> (\<open>creative_contracts.py\<close>): the contracts of campaigns, concepts, scripts and castings with
    their bounds, the identifiers the program gives, and that the text of a script reads back as its beats.
  \<^item> \<open>Creative_Tools\<close> (\<open>tools/concepts.py\<close>, \<open>tools/scripts.py\<close>, \<open>tools/creator_profiles.py\<close>, \<open>stage_executor.py\<close>,
    \<open>agent_catalog.py\<close>, the agents of \<open>nodes/stages.py\<close>): a creative stage runs its tool or an agent, whose answer
    passes the same contract. Composed with the outer graph: whatever the language model answers, every concept
    becomes one item with the creator the casting assigned and that creator's voice.
  \<^item> \<open>Topology\<close> (\<open>graph/topology.py\<close>, the registrations of \<open>graph/builder.py\<close>): the table of nodes and stages; every
    accepted configuration of tiers describes the graph that is built.
  \<^item> \<open>Progress\<close>, \<open>Progress_Properties\<close>, \<open>Model_Events\<close> (\<open>progress.py\<close>, \<open>common/plain.py\<close>): the public read model: the
    translation of the events, the timeline and the snapshot. Operations keep their item, the timeline shows an
    event once, the snapshot of a run that has ended is at rest, and of the language models only stages, plain
    texts and numbers of usage are published.

  \<^bold>\<open>Bounds.\<close> The item subgraph runs with the recursion limit of the code as fuel; \<open>process_item_terminates\<close>
  shows that \<open>3 * max 1 max_attempts + 3\<close> steps are enough. Polling loops run over the list of the
  answers they will get; \<open>wait_for_operation_ends\<close> shows that the deadline ends them.

  \<^bold>\<open>Not modelled.\<close> The agents themselves, their prompts and the catalogue of agents on disk
  (\<open>language_runtime.py\<close>, \<open>prompts.py\<close>): what a language model answers is an argument, checked by the modelled
  contracts. The adapters of the other providers (voices, images, \<open>ffmpeg\<close>, the mock), the SDK clients below all of
  them and those of object stores (\<open>storage/r2.py\<close>, \<open>storage/s3.py\<close>), the web routes that only read and the streaming
  of events (\<open>web/\<close>), how the worker assembles a pipeline from its configuration (\<open>worker.py\<close>, \<open>runner.py\<close>,
  \<open>config.py\<close>), the catalogues of creators, prompts and feedback, tracing, logging, the command line, the evaluation
  of models, and the import of legacy files: they are I/O around the modelled core. The pool of connections and the verification of tokens are left out for the same
  reason.
\<close>

end
